(* ===== verification/Prelude.thy ===== *)
theory Prelude
  imports Main
begin

text \<open>
  Shared vocabulary of the development: time and text as the Python code uses them, errors as
  values, partial updates (Pydantic's \<open>exclude_unset\<close>), list operations that stand for the
  SQL statements the repositories issue, and the two interfaces (locales) that several
  components share: a keyed table with a pairwise constraint, and a transition system with an
  invariant.
\<close>

named_theorems model_simps "equations that unfold the operations of the model"
named_theorems table_simps "how the table operations act on rows and keys"

section \<open>Time\<close>

text \<open>
  A \<open>datetime\<close> is a number of microseconds since the epoch in UTC (Python's resolution), a
  \<open>date\<close> a number of days. A Python datetime value is naive or carries a UTC offset.
\<close>

type_synonym datetime = int
type_synonym date = int

definition seconds :: "int \<Rightarrow> int" where
  "seconds n = n * 1000000"

definition minutes :: "int \<Rightarrow> int" where
  "minutes n = seconds (n * 60)"

definition days :: "int \<Rightarrow> int" where
  "days n = minutes (n * 1440)"

definition date_of :: "datetime \<Rightarrow> date" where
  "date_of t = t div days 1"

definition timestamp_of :: "datetime \<Rightarrow> int" where
  "timestamp_of t = t div seconds 1"

datatype py_datetime = Naive int | Aware int int

fun as_utc :: "py_datetime \<Rightarrow> datetime" where
  "as_utc (Naive t) = t"
| "as_utc (Aware t offset) = t - offset"

lemmas time_defs = seconds_def minutes_def days_def

lemma seconds_mono [simp]: "seconds a \<le> seconds b \<longleftrightarrow> a \<le> b"
  by (simp add: seconds_def)

lemma seconds_less [simp]: "seconds a < seconds b \<longleftrightarrow> a < b"
  by (simp add: seconds_def)

lemma minutes_mono [simp]: "minutes a \<le> minutes b \<longleftrightarrow> a \<le> b"
  by (simp add: minutes_def)

lemma minutes_less [simp]: "minutes a < minutes b \<longleftrightarrow> a < b"
  by (simp add: minutes_def)

lemma minutes_pos [simp]: "0 < minutes a \<longleftrightarrow> 0 < a"
  by (simp add: time_defs)

section \<open>Text\<close>

text \<open>
  Strings are lists of characters; the case and white-space functions are those of Python and
  PostgreSQL on ASCII (other characters are left alone by the case functions).
\<close>

definition is_space :: "char \<Rightarrow> bool" where
  "is_space c = ((of_char c :: nat) \<in> {9, 10, 11, 12, 13, 28, 29, 30, 31, 32, 133, 160})"

definition strip_by :: "('a \<Rightarrow> bool) \<Rightarrow> 'a list \<Rightarrow> 'a list" where
  "strip_by P s = rev (dropWhile P (rev (dropWhile P s)))"

definition py_strip :: "string \<Rightarrow> string" where
  "py_strip s = strip_by is_space s"

definition to_lower :: "char \<Rightarrow> char" where
  "to_lower c = (let n = (of_char c :: nat) in
     if 65 \<le> n \<and> n \<le> 90 then char_of (n + 32) else c)"

definition to_upper :: "char \<Rightarrow> char" where
  "to_upper c = (let n = (of_char c :: nat) in
     if 97 \<le> n \<and> n \<le> 122 then char_of (n - 32) else c)"

definition py_casefold :: "string \<Rightarrow> string" where
  "py_casefold s = map to_lower s"

definition py_upper :: "string \<Rightarrow> string" where
  "py_upper s = map to_upper s"

text \<open>PostgreSQL's \<open>lower(TRIM(BOTH FROM s))\<close>: only blanks are trimmed.\<close>

definition sql_trim :: "string \<Rightarrow> string" where
  "sql_trim s = strip_by (\<lambda>c. c = CHR '' '') s"

definition sql_lower_trim :: "string \<Rightarrow> string" where
  "sql_lower_trim s = map to_lower (sql_trim s)"

lemma dropWhile_hd: "dropWhile P xs \<noteq> [] \<Longrightarrow> \<not> P (hd (dropWhile P xs))"
  by (induction xs) auto

lemma dropWhile_idle: "xs = [] \<or> \<not> P (hd xs) \<Longrightarrow> dropWhile P xs = xs"
  by (cases xs) auto

text \<open>A value stripped by \<open>P\<close> at both ends starts and ends with a character outside \<open>P\<close>.\<close>

lemma strip_by_ends:
  assumes "strip_by P s \<noteq> []"
  shows "\<not> P (hd (strip_by P s))" and "\<not> P (last (strip_by P s))"
proof -
  let ?d = "dropWhile P s" and ?e = "dropWhile P (rev (dropWhile P s))"
  have e: "?e \<noteq> []" using assms by (simp only: strip_by_def rev_is_Nil_conv not_False_eq_True)
  then have "\<not> P (hd ?e)" by (rule dropWhile_hd)
  then show "\<not> P (last (strip_by P s))" using e by (simp add: strip_by_def last_rev)
  obtain zs where zs: "rev ?d = zs @ ?e" by (metis takeWhile_dropWhile_id)
  then have d: "?d = rev ?e @ rev zs" by (metis rev_append rev_rev_ident)
  have ne: "?d \<noteq> []" using e by (metis dropWhile.simps(1) rev.simps(1))
  then have "\<not> P (hd ?d)" by (rule dropWhile_hd)
  moreover have "hd ?d = hd (rev ?e)" using e d by (metis hd_append2 rev_is_Nil_conv)
  ultimately show "\<not> P (hd (strip_by P s))" by (simp add: strip_by_def)
qed

lemma strip_by_idle:
  assumes "s \<noteq> []" and "\<not> P (hd s)" and "\<not> P (last s)"
  shows "strip_by P s = s"
proof -
  have "dropWhile P s = s" using assms by (intro dropWhile_idle) simp
  moreover have "dropWhile P (rev s) = rev s"
    using assms by (intro dropWhile_idle) (simp add: hd_rev)
  ultimately show ?thesis by (simp add: strip_by_def)
qed

lemma strip_by_Nil [simp]: "strip_by P [] = []"
  by (simp add: strip_by_def)

lemma strip_by_weaker:
  assumes "\<And>c. Q c \<Longrightarrow> P c"
  shows "strip_by Q (strip_by P s) = strip_by P s"
  using assms strip_by_ends [of P s] strip_by_idle [of "strip_by P s" Q]
  by (cases "strip_by P s = []") auto

lemma py_strip_idem [simp]: "py_strip (py_strip s) = py_strip s"
  unfolding py_strip_def by (rule strip_by_weaker)

text \<open>After Python's \<open>strip\<close> there is nothing left for PostgreSQL's \<open>TRIM\<close> to remove.\<close>

lemma sql_trim_py_strip [simp]: "sql_trim (py_strip s) = py_strip s"
  unfolding py_strip_def sql_trim_def by (rule strip_by_weaker) (simp add: is_space_def)

lemma sql_lower_trim_strip [simp]: "sql_lower_trim (py_strip s) = py_casefold (py_strip s)"
  by (simp add: sql_lower_trim_def py_casefold_def)

text \<open>Decimal rendering of an integer, as an f-string does it.\<close>

fun nat_digits :: "nat \<Rightarrow> string" where
  "nat_digits n = (if n < 10 then [char_of (48 + n)]
                   else nat_digits (n div 10) @ [char_of (48 + n mod 10)])"

declare nat_digits.simps [simp del]

definition show_int :: "int \<Rightarrow> string" where
  "show_int i = (if i < 0 then CHR ''-'' # nat_digits (nat (- i)) else nat_digits (nat i))"

lemma nat_digits_nonempty [simp]: "nat_digits n \<noteq> []"
  by (subst nat_digits.simps) simp

definition digits_value :: "string \<Rightarrow> nat" where
  "digits_value s = foldl (\<lambda>a c. 10 * a + (of_char c - 48)) 0 s"

lemma digits_value_snoc: "digits_value (s @ [c]) = 10 * digits_value s + (of_char c - 48)"
  by (simp add: digits_value_def)

lemma digits_value_nat_digits [simp]: "digits_value (nat_digits n) = n"
proof (induction n rule: nat_digits.induct)
  case (1 n)
  show ?case
  proof (cases "n < 10")
    case True
    then show ?thesis by (subst nat_digits.simps) (simp add: digits_value_def)
  next
    case False
    then have "digits_value (nat_digits n) = 10 * digits_value (nat_digits (n div 10)) + n mod 10"
      by (subst nat_digits.simps) (simp add: digits_value_snoc)
    with False "1" show ?thesis by simp
  qed
qed

lemma nat_digits_inject: "nat_digits m = nat_digits n \<Longrightarrow> m = n"
  by (metis digits_value_nat_digits)

lemma nat_digits_no_minus: "hd (nat_digits n) \<noteq> CHR ''-''"
proof (induction n rule: nat_digits.induct)
  case (1 n)
  show ?case
  proof (cases "n < 10")
    case True
    have "char_of (48 + n) \<noteq> CHR ''-''"
    proof
      assume "char_of (48 + n) = CHR ''-''"
      then have "(of_char (char_of (48 + n) :: char) :: nat) = of_char CHR ''-''" by simp
      with True show False by simp
    qed
    with True show ?thesis by (subst nat_digits.simps) simp
  next
    case False
    with "1" show ?thesis by (subst nat_digits.simps) simp
  qed
qed

lemma show_int_inject: "show_int a = show_int b \<Longrightarrow> a = b"
  using nat_digits_no_minus [of "nat a"] nat_digits_no_minus [of "nat b"]
  by (auto simp: show_int_def split: if_splits dest!: nat_digits_inject)
    (metis list.sel(1))+

section \<open>JSON values\<close>

datatype jvalue =
  VNull | VBool bool | VNum int | VStr string | VList "jvalue list" | VObj "(string \<times> jvalue) list"

type_synonym jobject = "(string \<times> jvalue) list"

section \<open>Errors\<close>

text \<open>
  Every raise of the source is a value: the two domain exceptions of
  \<^verbatim>\<open>src/app/exceptions/domain.py\<close>, FastAPI's \<open>HTTPException\<close> with its status and detail, a
  Python \<open>ValueError\<close>, Pydantic's validation error, a database \<open>IntegrityError\<close> that is not
  translated, and any other database failure.
\<close>

datatype error =
    ResourceNotFoundError string
  | ResourceConflictError string
  | HTTPException int string
  | ValueError string
  | RequestValidationError
  | IntegrityError
  | DatabaseError

type_synonym 'a result = "error + 'a"

fun is_ok :: "'a result \<Rightarrow> bool" where
  "is_ok (Inl _) = False"
| "is_ok (Inr _) = True"

lemma is_ok_iff: "is_ok r \<longleftrightarrow> (\<exists>v. r = Inr v)"
  by (cases r) auto

section \<open>Partial updates\<close>

text \<open>A field of a PATCH body: absent, \<open>null\<close>, or a value.\<close>

datatype 'a patch = Unset | Null | Val 'a

fun patch_opt :: "'a patch \<Rightarrow> 'a option \<Rightarrow> 'a option" where
  "patch_opt Unset old = old"
| "patch_opt Null old = None"
| "patch_opt (Val v) old = Some v"

fun patch_req :: "'a patch \<Rightarrow> 'a \<Rightarrow> 'a" where
  "patch_req (Val v) old = v"
| "patch_req _ old = old"

section \<open>Tables\<close>

text \<open>
  A table is the list of its rows. A query without \<open>ORDER BY\<close> that takes the first row is
  \<open>find\<close>; \<open>put_row\<close> is an \<open>UPDATE\<close> of the row with the same primary key, \<open>del_row\<close> a
  \<open>DELETE\<close>, \<open>update_where\<close> a bulk \<open>UPDATE ... WHERE\<close>.
\<close>

definition put_row :: "('r \<Rightarrow> 'k) \<Rightarrow> 'r \<Rightarrow> 'r list \<Rightarrow> 'r list" where
  "put_row key x xs = map (\<lambda>y. if key y = key x then x else y) xs"

definition del_row :: "('r \<Rightarrow> 'k) \<Rightarrow> 'k \<Rightarrow> 'r list \<Rightarrow> 'r list" where
  "del_row key k xs = filter (\<lambda>y. key y \<noteq> k) xs"

definition update_where :: "('r \<Rightarrow> bool) \<Rightarrow> ('r \<Rightarrow> 'r) \<Rightarrow> 'r list \<Rightarrow> 'r list" where
  "update_where P f xs = map (\<lambda>y. if P y then f y else y) xs"

lemma set_put_row: "y \<in> set (put_row key x xs) \<Longrightarrow> y = x \<or> (y \<in> set xs \<and> key y \<noteq> key x)"
  by (auto simp: put_row_def split: if_splits)

lemma map_key_put_row [simp]: "map key (put_row key x xs) = map key xs"
  by (auto simp: put_row_def)

lemma length_put_row [simp]: "length (put_row key x xs) = length xs"
  by (simp add: put_row_def)

lemma set_del_row [simp]: "set (del_row key k xs) = {y \<in> set xs. key y \<noteq> k}"
  by (auto simp: del_row_def)

lemma distinct_del_row [simp]: "distinct (map key xs) \<Longrightarrow> distinct (map key (del_row key k xs))"
  by (simp add: del_row_def distinct_map_filter)

lemma set_update_where:
  "set (update_where P f xs) = {y. \<exists>x\<in>set xs. y = (if P x then f x else x)}"
  by (auto simp: update_where_def)

lemma map_update_where:
  "(\<And>x. g (f x) = g x) \<Longrightarrow> map g (update_where P f xs) = map g xs"
  by (simp add: update_where_def)

lemma find_Some: "find P xs = Some x \<Longrightarrow> x \<in> set xs \<and> P x"
  by (induction xs) (auto split: if_splits)

lemma find_unique:
  "distinct (map key xs) \<Longrightarrow> x \<in> set xs \<Longrightarrow> find (\<lambda>y. key y = key x) xs = Some x"
  by (induction xs) auto

lemma find_none_iff: "find P xs = None \<longleftrightarrow> (\<forall>x\<in>set xs. \<not> P x)"
  by (induction xs) auto

lemma find_unique_row:
  assumes "x \<in> set xs" and "P x" and "\<And>y. y \<in> set xs \<Longrightarrow> P y \<Longrightarrow> y = x"
  shows "find P xs = Some x"
proof (cases "find P xs")
  case None
  then show ?thesis using assms(1,2) by (simp add: find_none_iff)
next
  case (Some y)
  then show ?thesis using assms(3) find_Some [OF Some] by simp
qed

lemma find_cong_key:
  "distinct (map key xs) \<Longrightarrow> x \<in> set xs \<Longrightarrow> key x = k \<Longrightarrow> Q x
    \<Longrightarrow> find (\<lambda>y. key y = k \<and> Q y) xs = Some x"
proof (induction xs)
  case (Cons a xs)
  then show ?case by (cases "a = x") (auto split: if_splits)
qed simp

section \<open>The interface of a table with a pairwise constraint\<close>

text \<open>
  Unique indexes and exclusion constraints compare a row with every other row of its table.
  \<open>pairwise_ok key agree rows\<close> is what the database guarantees: primary keys are distinct and
  any two rows are compatible. The locale says what \<open>INSERT\<close>, \<open>UPDATE\<close> and \<open>DELETE\<close> keep of
  it, for any key and any symmetric compatibility.
\<close>

definition pairwise_ok :: "('r \<Rightarrow> 'k) \<Rightarrow> ('r \<Rightarrow> 'r \<Rightarrow> bool) \<Rightarrow> 'r list \<Rightarrow> bool" where
  "pairwise_ok key agree xs =
     (distinct (map key xs) \<and>
      (\<forall>x\<in>set xs. \<forall>y\<in>set xs. key x \<noteq> key y \<longrightarrow> agree x y))"

definition agrees_with :: "('r \<Rightarrow> 'k) \<Rightarrow> ('r \<Rightarrow> 'r \<Rightarrow> bool) \<Rightarrow> 'r \<Rightarrow> 'r list \<Rightarrow> bool" where
  "agrees_with key agree x xs = (\<forall>y\<in>set xs. key y \<noteq> key x \<longrightarrow> agree x y)"

lemma pairwise_ok_distinct: "pairwise_ok key agree xs \<Longrightarrow> distinct (map key xs)"
  by (simp add: pairwise_ok_def)

lemma pairwise_okD:
  "pairwise_ok key agree xs \<Longrightarrow> x \<in> set xs \<Longrightarrow> y \<in> set xs \<Longrightarrow> key x \<noteq> key y \<Longrightarrow> agree x y"
  by (auto simp: pairwise_ok_def)

locale keyed_table =
  fixes key :: "'r \<Rightarrow> 'k"
    and agree :: "'r \<Rightarrow> 'r \<Rightarrow> bool"
  assumes agree_sym: "agree x y \<Longrightarrow> agree y x"
begin

lemma empty_ok: "pairwise_ok key agree []"
  by (simp add: pairwise_ok_def)

lemma insert_ok:
  assumes "pairwise_ok key agree xs" and "key x \<notin> key ` set xs"
    and "agrees_with key agree x xs"
  shows "pairwise_ok key agree (xs @ [x])"
  using assms by (auto simp: pairwise_ok_def agrees_with_def intro: agree_sym)

lemma put_ok:
  assumes "pairwise_ok key agree xs" and "agrees_with key agree x xs"
  shows "pairwise_ok key agree (put_row key x xs)"
  using assms
  by (auto simp: pairwise_ok_def agrees_with_def dest!: set_put_row intro: agree_sym)

lemma delete_ok:
  assumes "pairwise_ok key agree xs"
  shows "pairwise_ok key agree (del_row key k xs)"
  using assms by (auto simp: pairwise_ok_def)

lemma map_ok:
  assumes "pairwise_ok key agree xs" and "\<And>x. key (f x) = key x"
    and "\<And>x y. agree x y \<Longrightarrow> agree (f x) (f y)"
  shows "pairwise_ok key agree (map f xs)"
  using assms by (auto simp: pairwise_ok_def comp_def)

end

section \<open>The interface of a transition system with an invariant\<close>

locale invariant_system =
  fixes start :: "'s \<Rightarrow> bool"
    and step :: "'s \<Rightarrow> 's \<Rightarrow> bool"
    and inv :: "'s \<Rightarrow> bool"
  assumes start_inv: "start s \<Longrightarrow> inv s"
    and step_inv: "inv s \<Longrightarrow> step s t \<Longrightarrow> inv t"
begin

lemma steps_inv: "step\<^sup>*\<^sup>* s t \<Longrightarrow> inv s \<Longrightarrow> inv t"
  by (induction rule: rtranclp_induct) (auto intro: step_inv)

lemma reachable_inv: "start s \<Longrightarrow> step\<^sup>*\<^sup>* s t \<Longrightarrow> inv t"
  using start_inv steps_inv by blast

end

section \<open>Sorting and paging\<close>

text \<open>\<open>ORDER BY\<close> with a comparison, as a stable insertion sort; \<open>OFFSET\<close> and \<open>LIMIT\<close>.\<close>

fun insert_by :: "('a \<Rightarrow> 'a \<Rightarrow> bool) \<Rightarrow> 'a \<Rightarrow> 'a list \<Rightarrow> 'a list" where
  "insert_by le x [] = [x]"
| "insert_by le x (y # ys) = (if le x y then x # y # ys else y # insert_by le x ys)"

fun sort_by :: "('a \<Rightarrow> 'a \<Rightarrow> bool) \<Rightarrow> 'a list \<Rightarrow> 'a list" where
  "sort_by le [] = []"
| "sort_by le (x # xs) = insert_by le x (sort_by le xs)"

definition page_of :: "int \<Rightarrow> int \<Rightarrow> 'a list \<Rightarrow> 'a list" where
  "page_of page page_size xs = take (nat page_size) (drop (nat ((page - 1) * page_size)) xs)"

lemma set_insert_by [simp]: "set (insert_by le x xs) = insert x (set xs)"
  by (induction xs) auto

lemma length_insert_by [simp]: "length (insert_by le x xs) = Suc (length xs)"
  by (induction xs) auto

lemma set_sort_by [simp]: "set (sort_by le xs) = set xs"
  by (induction xs) auto

lemma length_sort_by [simp]: "length (sort_by le xs) = length xs"
  by (induction xs) auto

lemma distinct_insert_by [simp]: "distinct (insert_by le x xs) \<longleftrightarrow> x \<notin> set xs \<and> distinct xs"
  by (induction xs) auto

lemma distinct_sort_by [simp]: "distinct (sort_by le xs) \<longleftrightarrow> distinct xs"
  by (induction xs) auto

lemma sorted_insert_by:
  assumes "\<And>a b. le a b \<or> le b a" and "\<And>a b c. le a b \<Longrightarrow> le b c \<Longrightarrow> le a c"
  shows "sorted_wrt le xs \<Longrightarrow> sorted_wrt le (insert_by le x xs)"
proof (induction xs)
  case (Cons y ys)
  then show ?case using assms by (auto 4 3)
qed simp

lemma sorted_sort_by:
  assumes total: "\<And>a b. le a b \<or> le b a"
    and trans: "\<And>a b c. le a b \<Longrightarrow> le b c \<Longrightarrow> le a c"
  shows "sorted_wrt le (sort_by le xs)"
proof (induction xs)
  case (Cons x xs)
  then show ?case using sorted_insert_by [of le, OF total trans] by simp
qed simp

lemma set_page_of: "set (page_of p n xs) \<subseteq> set xs"
  by (auto simp: page_of_def dest!: in_set_takeD in_set_dropD)

lemma length_page_of: "0 \<le> n \<Longrightarrow> int (length (page_of p n xs)) \<le> n"
  by (simp add: page_of_def)

text \<open>Reading page after page yields the whole list, each row once.\<close>

lemma pages_prefix:
  assumes "0 < n"
  shows "concat (map (\<lambda>p. page_of (int p + 1) n xs) [0..<k]) = take (k * nat n) xs"
proof (induction k)
  case (Suc k)
  have "nat ((int k + 1 - 1) * n) = k * nat n"
    using assms by (simp add: nat_mult_distrib)
  then have page: "page_of (int k + 1) n xs = take (nat n) (drop (k * nat n) xs)"
    by (simp add: page_of_def)
  have "take (Suc k * nat n) xs = take (k * nat n + nat n) xs" by (simp add: add.commute)
  also have "\<dots> = take (k * nat n) xs @ take (nat n) (drop (k * nat n) xs)"
    by (rule take_add)
  finally show ?case using Suc page by simp
qed simp

lemma pages_cover:
  assumes "0 < n" and "length xs \<le> k * nat n"
  shows "concat (map (\<lambda>p. page_of (int p + 1) n xs) [0..<k]) = xs"
  using assms by (simp only: pages_prefix take_all)

text \<open>
  The sort columns of the list endpoints: PostgreSQL puts NULL last in ascending and first in
  descending order; \<open>coll\<close> is the collation of a text column; equal keys are ordered by
  descending identifier.
\<close>

datatype sort_order = ASC | DESC

datatype sort_key = IntKey int | TextKey string | NullKey

fun key_le :: "(string \<Rightarrow> string \<Rightarrow> bool) \<Rightarrow> sort_key \<Rightarrow> sort_key \<Rightarrow> bool" where
  "key_le coll NullKey NullKey = True"
| "key_le coll NullKey _ = False"
| "key_le coll _ NullKey = True"
| "key_le coll (IntKey a) (IntKey b) = (a \<le> b)"
| "key_le coll (TextKey a) (TextKey b) = coll a b"
| "key_le coll (IntKey a) (TextKey b) = True"
| "key_le coll (TextKey a) (IntKey b) = False"

fun opt_key :: "int option \<Rightarrow> sort_key" where
  "opt_key None = NullKey"
| "opt_key (Some n) = IntKey n"

definition row_before ::
    "(sort_key \<Rightarrow> sort_key \<Rightarrow> bool) \<Rightarrow> sort_order \<Rightarrow> ('r \<Rightarrow> sort_key) \<Rightarrow> ('r \<Rightarrow> int) \<Rightarrow> 'r \<Rightarrow> 'r \<Rightarrow> bool" where
  "row_before le order key ident a b =
     (let x = (if order = ASC then key a else key b);
          y = (if order = ASC then key b else key a)
      in le x y \<and> (le y x \<longrightarrow> ident b \<le> ident a))"

definition collation :: "(string \<Rightarrow> string \<Rightarrow> bool) \<Rightarrow> bool" where
  "collation coll =
     ((\<forall>a b. coll a b \<or> coll b a) \<and> (\<forall>a b c. coll a b \<longrightarrow> coll b c \<longrightarrow> coll a c))"

lemma key_le_total: "collation coll \<Longrightarrow> key_le coll a b \<or> key_le coll b a"
  by (cases a; cases b) (auto simp: collation_def)

lemma key_le_trans:
  "collation coll \<Longrightarrow> key_le coll a b \<Longrightarrow> key_le coll b c \<Longrightarrow> key_le coll a c"
  by (cases a; cases b; cases c) (auto simp: collation_def)

lemma row_before_total:
  assumes "collation coll"
  shows "row_before (key_le coll) order key ident a b \<or> row_before (key_le coll) order key ident b a"
  using key_le_total [OF assms, of "key a" "key b"] by (auto simp: row_before_def Let_def)

lemma row_before_trans:
  assumes c: "collation coll"
    and "row_before (key_le coll) order key ident a b" "row_before (key_le coll) order key ident b d"
  shows "row_before (key_le coll) order key ident a d"
  using assms(2,3) key_le_trans [OF c, of "key a" "key b" "key d"]
    key_le_trans [OF c, of "key d" "key b" "key a"] key_le_trans [OF c, of "key b" "key d" "key a"]
    key_le_trans [OF c, of "key d" "key a" "key b"] key_le_trans [OF c, of "key a" "key d" "key b"]
    key_le_trans [OF c, of "key b" "key a" "key d"]
  unfolding row_before_def Let_def by (auto split: if_splits intro: order.trans)

lemma sorted_rows:
  assumes "collation coll"
  shows "sorted_wrt (row_before (key_le coll) order key ident)
    (sort_by (row_before (key_le coll) order key ident) rows)"
  using row_before_total [OF assms] row_before_trans [OF assms]
  by (rule sorted_sort_by)

end
