(* ===== verification/Models.thy ===== *)
theory Models
  imports Prelude
begin

text \<open>
  The persistent data: the enums of \<^verbatim>\<open>src/app/schemas\<close> (stored as their string values), one
  record per ORM class of \<^verbatim>\<open>src/app/models\<close>, and the constraints those classes declare
  (primary and unique keys, CHECK, exclusion and foreign-key constraints) as executable
  predicates.
\<close>

section \<open>Enums\<close>

datatype employment_type = FULL_TIME | PART_TIME | CONTRACT | INTERNSHIP | TEMPORARY

datatype work_mode = ONSITE | HYBRID | REMOTE

datatype job_status = OPEN | PAUSED | CLOSED

datatype application_status =
  SAVED | APPLIED | SCREENING | INTERVIEW | OFFER | REJECTED | WITHDRAWN | ARCHIVED

datatype interview_type =
  PHONE_SCREEN | TECHNICAL | BEHAVIORAL | SYSTEM_DESIGN | HIRING_MANAGER | ONSITE_INTERVIEW | OTHER

datatype interview_status = SCHEDULED | COMPLETED | CANCELLED

section \<open>Rows\<close>

record company =
  c_id :: int
  c_owner_id :: int
  c_name :: string
  c_website :: "string option"
  c_industry :: "string option"
  c_location :: "string option"
  c_notes :: "string option"
  c_created_at :: datetime
  c_updated_at :: datetime

record job =
  j_id :: int
  j_owner_id :: int
  j_company_id :: int
  j_title :: string
  j_employment_type :: employment_type
  j_work_mode :: work_mode
  j_location :: "string option"
  j_source :: "string option"
  j_url :: "string option"
  j_salary_min :: "int option"
  j_salary_max :: "int option"
  j_salary_currency :: string
  j_description :: "string option"
  j_status :: job_status
  j_created_at :: datetime
  j_updated_at :: datetime

record application =
  a_id :: int
  a_owner_id :: int
  a_job_id :: int
  a_status :: application_status
  a_priority :: int
  a_applied_at :: "date option"
  a_deadline :: "date option"
  a_next_action_at :: "datetime option"
  a_notes :: "string option"
  a_created_at :: datetime
  a_updated_at :: datetime

record history_row =
  h_id :: int
  h_application_id :: int
  h_from :: application_status
  h_to :: application_status
  h_changed_at :: datetime

record interview =
  i_id :: int
  i_owner_id :: int
  i_application_id :: int
  i_type :: interview_type
  i_status :: interview_status
  i_scheduled_at :: datetime
  i_duration_minutes :: int
  i_scheduled_end_at :: datetime
  i_location :: "string option"
  i_meeting_url :: "string option"
  i_notes :: "string option"
  i_feedback :: "string option"
  i_created_at :: datetime
  i_updated_at :: datetime

record user =
  u_id :: int
  u_username :: string
  u_password :: string
  u_password_login_enabled :: bool
  u_role :: string
  u_email :: "string option"
  u_email_verified_at :: "datetime option"
  u_mfa_secret_encrypted :: "string option"
  u_mfa_enrollment_created_at :: "datetime option"
  u_mfa_enabled_at :: "datetime option"
  u_mfa_last_counter :: "int option"
  u_is_active :: bool
  u_created_at :: datetime
  u_updated_at :: datetime

record refresh_token =
  rt_id :: int
  rt_user_id :: int
  rt_family_id :: string
  rt_token :: string
  rt_expires_at :: datetime
  rt_created_at :: datetime
  rt_last_used_at :: datetime
  rt_device_name :: string
  rt_revoked :: bool
  rt_revoked_at :: "datetime option"
  rt_revocation_reason :: "string option"

record action_token =
  at_id :: int
  at_user_id :: int
  at_purpose :: string
  at_token_hash :: string
  at_target :: string
  at_expires_at :: datetime
  at_consumed_at :: "datetime option"
  at_created_at :: datetime

record recovery_code =
  rc_id :: int
  rc_user_id :: int
  rc_code_hash :: string
  rc_created_at :: datetime
  rc_used_at :: "datetime option"

datatype outbox_status = Pending | Processing | Succeeded | DeadLetter

record outbox_message =
  ob_id :: int
  ob_message_type :: string
  ob_idempotency_key :: string
  ob_encryption_version :: int
  ob_payload_encrypted :: "string option"
  ob_status :: outbox_status
  ob_attempt_count :: int
  ob_available_at :: datetime
  ob_lease_owner :: "string option"
  ob_lease_expires_at :: "datetime option"
  ob_payload_expires_at :: datetime
  ob_failure_category :: "string option"
  ob_traceparent :: "string option"
  ob_tracestate :: "string option"
  ob_created_at :: datetime
  ob_updated_at :: datetime
  ob_terminal_at :: "datetime option"

record tables =
  users :: "user list"
  companies :: "company list"
  jobs :: "job list"
  applications :: "application list"
  histories :: "history_row list"
  interviews :: "interview list"
  refresh_tokens :: "refresh_token list"
  action_tokens :: "action_token list"
  recovery_codes :: "recovery_code list"
  outbox :: "outbox_message list"

definition empty_tables :: tables where
  "empty_tables = \<lparr>users = [], companies = [], jobs = [], applications = [], histories = [],
     interviews = [], refresh_tokens = [], action_tokens = [], recovery_codes = [], outbox = []\<rparr>"

section \<open>Constraints of one row\<close>

definition upper_letter :: "char \<Rightarrow> bool" where
  "upper_letter ch = (65 \<le> (of_char ch :: nat) \<and> (of_char ch :: nat) \<le> 90)"

definition job_check :: "job \<Rightarrow> bool" where
  "job_check j =
     ((case j_salary_min j of None \<Rightarrow> True | Some m \<Rightarrow> 0 \<le> m) \<and>
      (case j_salary_max j of None \<Rightarrow> True | Some m \<Rightarrow> 0 \<le> m) \<and>
      (case (j_salary_min j, j_salary_max j) of (Some lo, Some hi) \<Rightarrow> lo \<le> hi | _ \<Rightarrow> True) \<and>
      length (j_salary_currency j) = 3 \<and> list_all upper_letter (j_salary_currency j))"

definition application_check :: "application \<Rightarrow> bool" where
  "application_check a = (1 \<le> a_priority a \<and> a_priority a \<le> 5)"

definition history_check :: "history_row \<Rightarrow> bool" where
  "history_check h = (h_from h \<noteq> h_to h)"

definition interview_check :: "interview \<Rightarrow> bool" where
  "interview_check i =
     (15 \<le> i_duration_minutes i \<and> i_duration_minutes i \<le> 480 \<and>
      i_scheduled_end_at i = i_scheduled_at i + minutes (i_duration_minutes i))"

fun terminal_status :: "outbox_status \<Rightarrow> bool" where
  "terminal_status Succeeded = True"
| "terminal_status DeadLetter = True"
| "terminal_status _ = False"

definition outbox_check :: "outbox_message \<Rightarrow> bool" where
  "outbox_check m =
     (0 \<le> ob_attempt_count m \<and>
      (if ob_status m = Processing
       then ob_lease_owner m \<noteq> None \<and> ob_lease_expires_at m \<noteq> None
       else ob_lease_owner m = None \<and> ob_lease_expires_at m = None) \<and>
      (if terminal_status (ob_status m)
       then ob_terminal_at m \<noteq> None \<and> ob_payload_encrypted m = None
       else ob_terminal_at m = None \<and> ob_payload_encrypted m \<noteq> None))"

section \<open>Constraints between rows of a table\<close>

definition company_agree :: "company \<Rightarrow> company \<Rightarrow> bool" where
  "company_agree c d =
     (\<not> (c_owner_id c = c_owner_id d \<and> sql_lower_trim (c_name c) = sql_lower_trim (c_name d)))"

definition application_agree :: "application \<Rightarrow> application \<Rightarrow> bool" where
  "application_agree a b = (\<not> (a_owner_id a = a_owner_id b \<and> a_job_id a = a_job_id b))"

text \<open>Half-open ranges \<open>[s, e)\<close> and PostgreSQL's overlap operator on them.\<close>

definition ranges_overlap :: "datetime \<Rightarrow> datetime \<Rightarrow> datetime \<Rightarrow> datetime \<Rightarrow> bool" where
  "ranges_overlap s e s' e' = (s < e \<and> s' < e' \<and> s < e' \<and> s' < e)"

definition interview_agree :: "interview \<Rightarrow> interview \<Rightarrow> bool" where
  "interview_agree x y =
     (\<not> (i_status x = SCHEDULED \<and> i_status y = SCHEDULED \<and> i_owner_id x = i_owner_id y \<and>
         ranges_overlap (i_scheduled_at x) (i_scheduled_end_at x)
                        (i_scheduled_at y) (i_scheduled_end_at y)))"

definition user_agree :: "user \<Rightarrow> user \<Rightarrow> bool" where
  "user_agree u v =
     (u_username u \<noteq> u_username v \<and>
      (case (u_email u, u_email v) of
         (Some e, Some f) \<Rightarrow> sql_lower_trim e \<noteq> sql_lower_trim f
       | _ \<Rightarrow> True))"

definition refresh_token_agree :: "refresh_token \<Rightarrow> refresh_token \<Rightarrow> bool" where
  "refresh_token_agree s t = (rt_token s \<noteq> rt_token t)"

definition action_token_agree :: "action_token \<Rightarrow> action_token \<Rightarrow> bool" where
  "action_token_agree s t = (at_token_hash s \<noteq> at_token_hash t)"

definition recovery_code_agree :: "recovery_code \<Rightarrow> recovery_code \<Rightarrow> bool" where
  "recovery_code_agree s t = (rc_code_hash s \<noteq> rc_code_hash t)"

definition outbox_agree :: "outbox_message \<Rightarrow> outbox_message \<Rightarrow> bool" where
  "outbox_agree s t = (ob_idempotency_key s \<noteq> ob_idempotency_key t)"

definition any_agree :: "'r \<Rightarrow> 'r \<Rightarrow> bool" where
  "any_agree x y = True"

lemmas agree_defs = company_agree_def application_agree_def interview_agree_def user_agree_def
  refresh_token_agree_def action_token_agree_def recovery_code_agree_def outbox_agree_def
  any_agree_def

interpretation company_table: keyed_table c_id company_agree
  by unfold_locales (auto simp: company_agree_def)

interpretation job_table: keyed_table j_id any_agree
  by unfold_locales (auto simp: any_agree_def)

interpretation application_table: keyed_table a_id application_agree
  by unfold_locales (auto simp: application_agree_def)

interpretation history_table: keyed_table h_id any_agree
  by unfold_locales (auto simp: any_agree_def)

interpretation interview_table: keyed_table i_id interview_agree
  by unfold_locales (auto simp: interview_agree_def ranges_overlap_def)

interpretation user_table: keyed_table u_id user_agree
  by unfold_locales (auto simp: user_agree_def split: option.splits)

interpretation refresh_table: keyed_table rt_id refresh_token_agree
  by unfold_locales (auto simp: refresh_token_agree_def)

interpretation action_table: keyed_table at_id action_token_agree
  by unfold_locales (auto simp: action_token_agree_def)

interpretation recovery_table: keyed_table rc_id recovery_code_agree
  by unfold_locales (auto simp: recovery_code_agree_def)

interpretation outbox_table: keyed_table ob_id outbox_agree
  by unfold_locales (auto simp: outbox_agree_def)

section \<open>Foreign keys\<close>

definition user_exists :: "tables \<Rightarrow> int \<Rightarrow> bool" where
  "user_exists tb uid = (\<exists>u\<in>set (users tb). u_id u = uid)"

definition company_exists :: "tables \<Rightarrow> int \<Rightarrow> int \<Rightarrow> bool" where
  "company_exists tb owner cid =
     (\<exists>c\<in>set (companies tb). c_id c = cid \<and> c_owner_id c = owner)"

definition job_exists :: "tables \<Rightarrow> int \<Rightarrow> int \<Rightarrow> bool" where
  "job_exists tb owner jid = (\<exists>j\<in>set (jobs tb). j_id j = jid \<and> j_owner_id j = owner)"

definition application_exists :: "tables \<Rightarrow> int \<Rightarrow> int \<Rightarrow> bool" where
  "application_exists tb owner aid =
     (\<exists>a\<in>set (applications tb). a_id a = aid \<and> a_owner_id a = owner)"

definition history_parent :: "tables \<Rightarrow> int \<Rightarrow> bool" where
  "history_parent tb aid = (\<exists>a\<in>set (applications tb). a_id a = aid)"

lemmas exists_defs = user_exists_def company_exists_def job_exists_def application_exists_def
  history_parent_def

section \<open>What the database guarantees\<close>

definition keys_ok :: "tables \<Rightarrow> bool" where
  "keys_ok tb =
     (pairwise_ok u_id user_agree (users tb) \<and>
      pairwise_ok c_id company_agree (companies tb) \<and>
      pairwise_ok j_id any_agree (jobs tb) \<and>
      pairwise_ok a_id application_agree (applications tb) \<and>
      pairwise_ok h_id any_agree (histories tb) \<and>
      pairwise_ok i_id interview_agree (interviews tb) \<and>
      pairwise_ok rt_id refresh_token_agree (refresh_tokens tb) \<and>
      pairwise_ok at_id action_token_agree (action_tokens tb) \<and>
      pairwise_ok rc_id recovery_code_agree (recovery_codes tb) \<and>
      pairwise_ok ob_id outbox_agree (outbox tb))"

definition checks_ok :: "tables \<Rightarrow> bool" where
  "checks_ok tb =
     ((\<forall>j\<in>set (jobs tb). job_check j) \<and>
      (\<forall>a\<in>set (applications tb). application_check a) \<and>
      (\<forall>h\<in>set (histories tb). history_check h) \<and>
      (\<forall>i\<in>set (interviews tb). interview_check i) \<and>
      (\<forall>m\<in>set (outbox tb). outbox_check m))"

definition refs_ok :: "tables \<Rightarrow> bool" where
  "refs_ok tb =
     ((\<forall>c\<in>set (companies tb). user_exists tb (c_owner_id c)) \<and>
      (\<forall>j\<in>set (jobs tb). user_exists tb (j_owner_id j) \<and>
          company_exists tb (j_owner_id j) (j_company_id j)) \<and>
      (\<forall>a\<in>set (applications tb). user_exists tb (a_owner_id a) \<and>
          job_exists tb (a_owner_id a) (a_job_id a)) \<and>
      (\<forall>h\<in>set (histories tb). history_parent tb (h_application_id h)) \<and>
      (\<forall>i\<in>set (interviews tb). user_exists tb (i_owner_id i) \<and>
          application_exists tb (i_owner_id i) (i_application_id i)) \<and>
      (\<forall>t\<in>set (refresh_tokens tb). user_exists tb (rt_user_id t)) \<and>
      (\<forall>t\<in>set (action_tokens tb). user_exists tb (at_user_id t)) \<and>
      (\<forall>t\<in>set (recovery_codes tb). user_exists tb (rc_user_id t)))"

definition db_ok :: "tables \<Rightarrow> bool" where
  "db_ok tb = (keys_ok tb \<and> checks_ok tb \<and> refs_ok tb)"

lemma db_okD:
  assumes "db_ok tb"
  shows "keys_ok tb" and "checks_ok tb" and "refs_ok tb"
  using assms by (simp_all add: db_ok_def)

lemma db_ok_distinct:
  assumes "db_ok tb"
  shows "distinct (map u_id (users tb))" and "distinct (map c_id (companies tb))"
    and "distinct (map j_id (jobs tb))" and "distinct (map a_id (applications tb))"
    and "distinct (map h_id (histories tb))" and "distinct (map i_id (interviews tb))"
    and "distinct (map rt_id (refresh_tokens tb))" and "distinct (map at_id (action_tokens tb))"
    and "distinct (map rc_id (recovery_codes tb))" and "distinct (map ob_id (outbox tb))"
  using assms by (auto simp: db_ok_def keys_ok_def intro: pairwise_ok_distinct)

lemma db_ok_empty: "db_ok empty_tables"
  by (simp add: db_ok_def keys_ok_def checks_ok_def refs_ok_def empty_tables_def
      pairwise_ok_def)

section \<open>Statements: INSERT, UPDATE and DELETE with the constraints they meet\<close>

text \<open>
  A statement returns the new tables, or \<open>None\<close> where PostgreSQL raises an integrity error.
\<close>

definition insert_company :: "company \<Rightarrow> tables \<Rightarrow> tables option" where
  "insert_company c tb =
     (if c_id c \<notin> c_id ` set (companies tb) \<and>
         agrees_with c_id company_agree c (companies tb) \<and> user_exists tb (c_owner_id c)
      then Some (tb\<lparr>companies := companies tb @ [c]\<rparr>) else None)"

definition update_company :: "company \<Rightarrow> tables \<Rightarrow> tables option" where
  "update_company c tb =
     (if agrees_with c_id company_agree c (companies tb)
      then Some (tb\<lparr>companies := put_row c_id c (companies tb)\<rparr>) else None)"

definition delete_company :: "company \<Rightarrow> tables \<Rightarrow> tables option" where
  "delete_company c tb =
     (if \<exists>j\<in>set (jobs tb). j_company_id j = c_id c \<and> j_owner_id j = c_owner_id c then None
      else Some (tb\<lparr>companies := del_row c_id (c_id c) (companies tb)\<rparr>))"

definition insert_job :: "job \<Rightarrow> tables \<Rightarrow> tables option" where
  "insert_job j tb =
     (if j_id j \<notin> j_id ` set (jobs tb) \<and> job_check j \<and> user_exists tb (j_owner_id j) \<and>
         company_exists tb (j_owner_id j) (j_company_id j)
      then Some (tb\<lparr>jobs := jobs tb @ [j]\<rparr>) else None)"

definition update_job :: "job \<Rightarrow> tables \<Rightarrow> tables option" where
  "update_job j tb =
     (if job_check j \<and> company_exists tb (j_owner_id j) (j_company_id j)
      then Some (tb\<lparr>jobs := put_row j_id j (jobs tb)\<rparr>) else None)"

definition delete_job :: "job \<Rightarrow> tables \<Rightarrow> tables option" where
  "delete_job j tb =
     (if \<exists>a\<in>set (applications tb). a_job_id a = j_id j \<and> a_owner_id a = j_owner_id j then None
      else Some (tb\<lparr>jobs := del_row j_id (j_id j) (jobs tb)\<rparr>))"

definition insert_application :: "application \<Rightarrow> tables \<Rightarrow> tables option" where
  "insert_application a tb =
     (if a_id a \<notin> a_id ` set (applications tb) \<and> application_check a \<and>
         agrees_with a_id application_agree a (applications tb) \<and>
         user_exists tb (a_owner_id a) \<and> job_exists tb (a_owner_id a) (a_job_id a)
      then Some (tb\<lparr>applications := applications tb @ [a]\<rparr>) else None)"

definition update_application :: "application \<Rightarrow> tables \<Rightarrow> tables option" where
  "update_application a tb =
     (if application_check a \<and> agrees_with a_id application_agree a (applications tb) \<and>
         job_exists tb (a_owner_id a) (a_job_id a)
      then Some (tb\<lparr>applications := put_row a_id a (applications tb)\<rparr>) else None)"

text \<open>Deleting an application cascades to its history and is restricted by its interviews.\<close>

definition delete_application :: "application \<Rightarrow> tables \<Rightarrow> tables option" where
  "delete_application a tb =
     (if \<exists>i\<in>set (interviews tb). i_application_id i = a_id a \<and> i_owner_id i = a_owner_id a
      then None
      else Some (tb\<lparr>applications := del_row a_id (a_id a) (applications tb),
                    histories := filter (\<lambda>h. h_application_id h \<noteq> a_id a) (histories tb)\<rparr>))"

definition insert_history :: "history_row \<Rightarrow> tables \<Rightarrow> tables option" where
  "insert_history h tb =
     (if h_id h \<notin> h_id ` set (histories tb) \<and> history_check h \<and>
         history_parent tb (h_application_id h)
      then Some (tb\<lparr>histories := histories tb @ [h]\<rparr>) else None)"

definition insert_interview :: "interview \<Rightarrow> tables \<Rightarrow> tables option" where
  "insert_interview i tb =
     (if i_id i \<notin> i_id ` set (interviews tb) \<and> interview_check i \<and>
         agrees_with i_id interview_agree i (interviews tb) \<and>
         user_exists tb (i_owner_id i) \<and> application_exists tb (i_owner_id i) (i_application_id i)
      then Some (tb\<lparr>interviews := interviews tb @ [i]\<rparr>) else None)"

definition update_interview :: "interview \<Rightarrow> tables \<Rightarrow> tables option" where
  "update_interview i tb =
     (if interview_check i \<and> agrees_with i_id interview_agree i (interviews tb) \<and>
         application_exists tb (i_owner_id i) (i_application_id i)
      then Some (tb\<lparr>interviews := put_row i_id i (interviews tb)\<rparr>) else None)"

definition delete_interview :: "interview \<Rightarrow> tables \<Rightarrow> tables option" where
  "delete_interview i tb = Some (tb\<lparr>interviews := del_row i_id (i_id i) (interviews tb)\<rparr>)"

lemmas statement_defs = insert_company_def update_company_def delete_company_def
  insert_job_def update_job_def delete_job_def
  insert_application_def update_application_def delete_application_def
  insert_history_def insert_interview_def update_interview_def delete_interview_def

section \<open>Every statement keeps what the database guarantees\<close>

text \<open>
  An \<open>UPDATE\<close> keeps the primary key and the owner of the row it replaces; the ORM never writes
  those columns.
\<close>

definition replaces :: "('r \<Rightarrow> int) \<Rightarrow> ('r \<Rightarrow> int) \<Rightarrow> 'r \<Rightarrow> 'r list \<Rightarrow> bool" where
  "replaces key owner x xs = (\<exists>y\<in>set xs. key y = key x \<and> owner y = owner x)"

lemma replaces_image:
  assumes "distinct (map key xs)" and "replaces key owner x xs" and "y \<in> set xs"
  shows "owner (if key y = key x then x else y) = owner y"
  using assms by (auto simp: replaces_def distinct_map inj_on_def)

lemma bex_put_row:
  assumes "distinct (map key xs)" and "replaces key owner x xs"
  shows "(\<exists>y\<in>set (put_row key x xs). key y = k \<and> owner y = ow)
    \<longleftrightarrow> (\<exists>y\<in>set xs. key y = k \<and> owner y = ow)"
proof -
  have "(\<exists>y\<in>set (put_row key x xs). key y = k \<and> owner y = ow) \<longleftrightarrow>
    (\<exists>y\<in>set xs. key (if key y = key x then x else y) = k \<and>
       owner (if key y = key x then x else y) = ow)"
    by (simp only: put_row_def set_map bex_simps)
  also have "\<dots> \<longleftrightarrow> (\<exists>y\<in>set xs. key y = k \<and> owner y = ow)"
  proof (rule bex_cong [OF refl])
    fix y assume "y \<in> set xs"
    then have "owner (if key y = key x then x else y) = owner y"
      by (rule replaces_image [OF assms])
    moreover have "key (if key y = key x then x else y) = key y" by simp
    ultimately show "(key (if key y = key x then x else y) = k \<and>
        owner (if key y = key x then x else y) = ow) = (key y = k \<and> owner y = ow)"
      by simp
  qed
  finally show ?thesis .
qed

lemma bex_put_row_key:
  "(\<exists>y\<in>set (put_row key x xs). key y = k) \<longleftrightarrow> (\<exists>y\<in>set xs. key y = k)"
proof -
  have mem: "(\<exists>y\<in>set zs. key y = k) \<longleftrightarrow> k \<in> set (map key zs)" for zs
    unfolding set_map image_iff by auto
  show ?thesis unfolding mem by (simp only: map_key_put_row)
qed

named_theorems db_intros "each statement keeps the database guarantees"

lemma insert_company_ok [db_intros]:
  assumes "insert_company c tb = Some tb'" and "db_ok tb"
  shows "db_ok tb'"
  using assms unfolding db_ok_def insert_company_def
  by (auto simp: keys_ok_def checks_ok_def refs_ok_def exists_defs split: if_splits
      intro!: company_table.insert_ok)

lemma update_company_ok [db_intros]:
  assumes upd: "update_company c tb = Some tb'" and ok: "db_ok tb"
    and rep: "replaces c_id c_owner_id c (companies tb)"
  shows "db_ok tb'"
proof -
  have tb': "tb' = tb\<lparr>companies := put_row c_id c (companies tb)\<rparr>"
    and agr: "agrees_with c_id company_agree c (companies tb)"
    using upd by (auto simp: update_company_def split: if_splits)
  have "company_exists tb' = company_exists tb"
    using bex_put_row [OF db_ok_distinct(2) [OF ok] rep]
    by (intro ext) (simp add: tb' company_exists_def)
  moreover have "\<forall>d\<in>set (companies tb'). user_exists tb' (c_owner_id d)"
    using ok rep unfolding tb'
    by (force simp: db_ok_def refs_ok_def exists_defs replaces_def dest!: set_put_row)
  ultimately show ?thesis
    using ok agr unfolding db_ok_def keys_ok_def checks_ok_def refs_ok_def
    by (simp add: tb' company_table.put_ok user_exists_def job_exists_def
        application_exists_def history_parent_def)
qed

lemma delete_company_ok [db_intros]:
  assumes del: "delete_company c tb = Some tb'" and ok: "db_ok tb" and c: "c \<in> set (companies tb)"
  shows "db_ok tb'"
proof -
  have tb': "tb' = tb\<lparr>companies := del_row c_id (c_id c) (companies tb)\<rparr>"
    and none: "\<And>j. j \<in> set (jobs tb) \<Longrightarrow>
       \<not> (j_company_id j = c_id c \<and> j_owner_id j = c_owner_id c)"
    using del by (auto simp: delete_company_def split: if_splits)
  have "\<forall>j\<in>set (jobs tb). company_exists tb' (j_owner_id j) (j_company_id j)"
  proof
    fix j assume j: "j \<in> set (jobs tb)"
    then obtain d where d: "d \<in> set (companies tb)" "c_id d = j_company_id j"
        "c_owner_id d = j_owner_id j"
      using ok by (auto simp: db_ok_def refs_ok_def company_exists_def)
    with none [OF j] have "d \<noteq> c" by auto
    with d c db_ok_distinct(2) [OF ok] have "c_id d \<noteq> c_id c"
      by (auto simp: distinct_map inj_on_def)
    with d show "company_exists tb' (j_owner_id j) (j_company_id j)"
      by (auto simp: tb' company_exists_def)
  qed
  then show ?thesis
    using ok unfolding db_ok_def keys_ok_def checks_ok_def refs_ok_def
    by (simp add: tb' company_table.delete_ok user_exists_def job_exists_def
        application_exists_def history_parent_def)
qed

lemma insert_job_ok [db_intros]:
  assumes "insert_job j tb = Some tb'" and "db_ok tb"
  shows "db_ok tb'"
  using assms unfolding db_ok_def insert_job_def
  by (auto simp: keys_ok_def checks_ok_def refs_ok_def exists_defs agrees_with_def any_agree_def
      split: if_splits intro!: job_table.insert_ok)

lemma update_job_ok [db_intros]:
  assumes upd: "update_job j tb = Some tb'" and ok: "db_ok tb"
    and rep: "replaces j_id j_owner_id j (jobs tb)"
  shows "db_ok tb'"
proof -
  have tb': "tb' = tb\<lparr>jobs := put_row j_id j (jobs tb)\<rparr>"
    and chk: "job_check j" "company_exists tb (j_owner_id j) (j_company_id j)"
    using upd by (auto simp: update_job_def split: if_splits)
  have ex: "job_exists tb' = job_exists tb"
    using bex_put_row [OF db_ok_distinct(3) [OF ok] rep]
    by (intro ext) (simp add: tb' job_exists_def)
  have rows: "\<forall>k\<in>set (jobs tb'). job_check k \<and> user_exists tb (j_owner_id k) \<and>
      company_exists tb (j_owner_id k) (j_company_id k)"
    using ok rep chk unfolding tb'
    by (force simp: db_ok_def checks_ok_def refs_ok_def replaces_def dest!: set_put_row)
  have "pairwise_ok j_id any_agree (jobs tb')"
    using ok by (simp add: tb' db_ok_def keys_ok_def job_table.put_ok agrees_with_def any_agree_def)
  with ex rows show ?thesis
    using ok unfolding db_ok_def keys_ok_def checks_ok_def refs_ok_def
    by (simp add: tb' user_exists_def company_exists_def application_exists_def
        history_parent_def)
qed

lemma delete_job_ok [db_intros]:
  assumes del: "delete_job j tb = Some tb'" and ok: "db_ok tb" and j: "j \<in> set (jobs tb)"
  shows "db_ok tb'"
proof -
  have tb': "tb' = tb\<lparr>jobs := del_row j_id (j_id j) (jobs tb)\<rparr>"
    and none: "\<And>a. a \<in> set (applications tb) \<Longrightarrow>
       \<not> (a_job_id a = j_id j \<and> a_owner_id a = j_owner_id j)"
    using del by (auto simp: delete_job_def split: if_splits)
  have "\<forall>a\<in>set (applications tb). job_exists tb' (a_owner_id a) (a_job_id a)"
  proof
    fix a assume a: "a \<in> set (applications tb)"
    then obtain k where k: "k \<in> set (jobs tb)" "j_id k = a_job_id a"
        "j_owner_id k = a_owner_id a"
      using ok by (auto simp: db_ok_def refs_ok_def job_exists_def)
    with none [OF a] have "k \<noteq> j" by auto
    with k j db_ok_distinct(3) [OF ok] have "j_id k \<noteq> j_id j"
      by (auto simp: distinct_map inj_on_def)
    with k show "job_exists tb' (a_owner_id a) (a_job_id a)"
      by (auto simp: tb' job_exists_def)
  qed
  then show ?thesis
    using ok unfolding db_ok_def keys_ok_def checks_ok_def refs_ok_def
    by (simp add: tb' job_table.delete_ok user_exists_def company_exists_def
        application_exists_def history_parent_def)
qed

lemma insert_application_ok [db_intros]:
  assumes "insert_application a tb = Some tb'" and "db_ok tb"
  shows "db_ok tb'"
  using assms unfolding db_ok_def insert_application_def
  by (auto simp: keys_ok_def checks_ok_def refs_ok_def exists_defs split: if_splits
      intro!: application_table.insert_ok)

lemma update_application_ok [db_intros]:
  assumes upd: "update_application a tb = Some tb'" and ok: "db_ok tb"
    and rep: "replaces a_id a_owner_id a (applications tb)"
  shows "db_ok tb'"
proof -
  have tb': "tb' = tb\<lparr>applications := put_row a_id a (applications tb)\<rparr>"
    and chk: "application_check a" "job_exists tb (a_owner_id a) (a_job_id a)"
      "agrees_with a_id application_agree a (applications tb)"
    using upd by (auto simp: update_application_def split: if_splits)
  have ex: "application_exists tb' = application_exists tb"
    using bex_put_row [OF db_ok_distinct(4) [OF ok] rep]
    by (intro ext) (simp add: tb' application_exists_def)
  have hp: "history_parent tb' = history_parent tb"
    by (intro ext) (simp add: tb' history_parent_def bex_put_row_key)
  have rows: "\<forall>b\<in>set (applications tb'). application_check b \<and>
      user_exists tb (a_owner_id b) \<and> job_exists tb (a_owner_id b) (a_job_id b)"
    using ok rep chk unfolding tb'
    by (force simp: db_ok_def checks_ok_def refs_ok_def replaces_def dest!: set_put_row)
  have "pairwise_ok a_id application_agree (applications tb')"
    using ok chk by (simp add: tb' db_ok_def keys_ok_def application_table.put_ok)
  with ex hp rows show ?thesis
    using ok unfolding db_ok_def keys_ok_def checks_ok_def refs_ok_def
    by (simp add: tb' user_exists_def company_exists_def job_exists_def)
qed

lemma delete_application_ok [db_intros]:
  assumes del: "delete_application a tb = Some tb'" and ok: "db_ok tb"
    and a: "a \<in> set (applications tb)"
  shows "db_ok tb'"
proof -
  have tb': "tb' = tb\<lparr>applications := del_row a_id (a_id a) (applications tb),
      histories := filter (\<lambda>h. h_application_id h \<noteq> a_id a) (histories tb)\<rparr>"
    and none: "\<And>i. i \<in> set (interviews tb) \<Longrightarrow>
       \<not> (i_application_id i = a_id a \<and> i_owner_id i = a_owner_id a)"
    using del by (auto simp: delete_application_def split: if_splits)
  have ints: "\<forall>i\<in>set (interviews tb). application_exists tb' (i_owner_id i) (i_application_id i)"
  proof
    fix i assume i: "i \<in> set (interviews tb)"
    then obtain b where b: "b \<in> set (applications tb)" "a_id b = i_application_id i"
        "a_owner_id b = i_owner_id i"
      using ok by (auto simp: db_ok_def refs_ok_def application_exists_def)
    with none [OF i] have "b \<noteq> a" by auto
    with b a db_ok_distinct(4) [OF ok] have "a_id b \<noteq> a_id a"
      by (auto simp: distinct_map inj_on_def)
    with b show "application_exists tb' (i_owner_id i) (i_application_id i)"
      by (auto simp: tb' application_exists_def)
  qed
  have hist: "\<forall>h\<in>set (histories tb'). history_parent tb' (h_application_id h)"
    using ok by (auto simp: tb' db_ok_def refs_ok_def history_parent_def) metis
  have "pairwise_ok h_id any_agree (histories tb')"
    using ok by (auto simp: tb' db_ok_def keys_ok_def pairwise_ok_def distinct_map_filter
        any_agree_def)
  with ints hist show ?thesis
    using ok unfolding db_ok_def keys_ok_def checks_ok_def refs_ok_def
    by (simp add: tb' application_table.delete_ok user_exists_def company_exists_def
        job_exists_def)
qed

lemma insert_history_ok [db_intros]:
  assumes "insert_history h tb = Some tb'" and "db_ok tb"
  shows "db_ok tb'"
  using assms unfolding db_ok_def insert_history_def
  by (auto simp: keys_ok_def checks_ok_def refs_ok_def exists_defs agrees_with_def any_agree_def
      split: if_splits intro!: history_table.insert_ok)

lemma insert_interview_ok [db_intros]:
  assumes "insert_interview i tb = Some tb'" and "db_ok tb"
  shows "db_ok tb'"
  using assms unfolding db_ok_def insert_interview_def
  by (auto simp: keys_ok_def checks_ok_def refs_ok_def exists_defs split: if_splits
      intro!: interview_table.insert_ok)

lemma update_interview_ok [db_intros]:
  assumes upd: "update_interview i tb = Some tb'" and ok: "db_ok tb"
    and rep: "replaces i_id i_owner_id i (interviews tb)"
  shows "db_ok tb'"
proof -
  have tb': "tb' = tb\<lparr>interviews := put_row i_id i (interviews tb)\<rparr>"
    and chk: "interview_check i" "application_exists tb (i_owner_id i) (i_application_id i)"
      "agrees_with i_id interview_agree i (interviews tb)"
    using upd by (auto simp: update_interview_def split: if_splits)
  have rows: "\<forall>k\<in>set (interviews tb'). interview_check k \<and> user_exists tb (i_owner_id k) \<and>
      application_exists tb (i_owner_id k) (i_application_id k)"
    using ok rep chk unfolding tb'
    by (force simp: db_ok_def checks_ok_def refs_ok_def replaces_def dest!: set_put_row)
  have "pairwise_ok i_id interview_agree (interviews tb')"
    using ok chk by (simp add: tb' db_ok_def keys_ok_def interview_table.put_ok)
  with rows show ?thesis
    using ok unfolding db_ok_def keys_ok_def checks_ok_def refs_ok_def
    by (simp add: tb' user_exists_def company_exists_def job_exists_def application_exists_def
        history_parent_def)
qed

lemma delete_interview_ok [db_intros]:
  assumes "delete_interview i tb = Some tb'" and ok: "db_ok tb"
  shows "db_ok tb'"
  using assms unfolding db_ok_def keys_ok_def checks_ok_def refs_ok_def
  by (auto simp: delete_interview_def user_exists_def company_exists_def job_exists_def
      application_exists_def history_parent_def interview_table.delete_ok)

end
