(* ===== verification/Writes.thy ===== *)
theory Writes
  imports Models
begin

text \<open>
  What every business write shares: the request environment, the state it acts on (tables,
  Dashboard cache and operation counters), the Dashboard cache of
  \<^verbatim>\<open>src/app/services/dashboard_cache.py\<close>, the observation wrapper of
  \<^verbatim>\<open>src/app/core/business_observability.py\<close>, the try/commit/refresh/invalidate block the
  services repeat, and the contract of an owner's write as a locale.
\<close>

section \<open>Environment and state\<close>

text \<open>
  A database call can fail for reasons outside the program (lost connection, timeout). A fault
  says at which call of the transaction it happens.
\<close>

datatype fault = FlushFault | CommitFault | RefreshFault

record env =
  e_now :: datetime            \<comment> \<open>\<open>datetime.now(UTC)\<close> read by the service\<close>
  e_created_at :: datetime     \<comment> \<open>the reading of the \<open>created_at\<close> column default\<close>
  e_updated_at :: datetime     \<comment> \<open>the reading of the \<open>updated_at\<close> default or \<open>onupdate\<close>\<close>
  e_new_id :: int              \<comment> \<open>the value the table's sequence yields\<close>
  e_fault :: "fault option"
  e_cache_redis :: bool        \<comment> \<open>\<open>DASHBOARD_CACHE_BACKEND == "redis"\<close>\<close>
  e_cache_ttl_seconds :: int
  e_cache_max_bytes :: int
  e_redis_get_ok :: bool
  e_redis_set_ok :: bool
  e_redis_del_ok :: bool
  e_secret_key :: string
  e_hmac_hex :: "string \<Rightarrow> string \<Rightarrow> string"  \<comment> \<open>\<open>hmac.new(k, m, sha256).hexdigest()\<close>\<close>

record world =
  db :: tables
  dcache :: "string \<Rightarrow> (string \<times> datetime) option"
  cache_ops :: "string list"
  biz_ops :: "(string \<times> string \<times> string) list"

section \<open>The Dashboard cache\<close>

definition cache_namespace :: string where
  "cache_namespace = ''jobtrack-api:dashboard:v1''"

definition dashboard_key :: "env \<Rightarrow> int \<Rightarrow> string" where
  "dashboard_key env owner =
     cache_namespace @ '':'' @
     e_hmac_hex env (e_secret_key env) (''dashboard:v1:'' @ show_int owner)"

definition record_cache :: "string \<Rightarrow> world \<Rightarrow> world" where
  "record_cache outcome w = w\<lparr>cache_ops := cache_ops w @ [outcome]\<rparr>"

record 'd cache_read =
  cr_value :: "'d option"
  cr_outcome :: string

definition dashboard_discard :: "env \<Rightarrow> int \<Rightarrow> world \<Rightarrow> world" where
  "dashboard_discard env owner w =
     (let w1 = record_cache ''invalid'' w in
      if e_redis_del_ok env then w1\<lparr>dcache := (dcache w1)(dashboard_key env owner := None)\<rparr>
      else w1)"

text \<open>\<open>parse\<close> is Pydantic's \<open>model_validate_json\<close>; \<open>GET\<close> does not see an expired entry.\<close>

definition dashboard_read ::
    "(string \<Rightarrow> 'd option) \<Rightarrow> env \<Rightarrow> int \<Rightarrow> world \<Rightarrow> 'd cache_read \<times> world" where
  "dashboard_read parse env owner w =
     (if \<not> e_cache_redis env then (\<lparr>cr_value = None, cr_outcome = ''disabled''\<rparr>, w)
      else if \<not> e_redis_get_ok env
      then (\<lparr>cr_value = None, cr_outcome = ''error''\<rparr>, record_cache ''error'' w)
      else (case dcache w (dashboard_key env owner) of
          None \<Rightarrow> (\<lparr>cr_value = None, cr_outcome = ''miss''\<rparr>, record_cache ''miss'' w)
        | Some (payload, expires_at) \<Rightarrow>
            if expires_at \<le> e_now env
            then (\<lparr>cr_value = None, cr_outcome = ''miss''\<rparr>, record_cache ''miss'' w)
            else if e_cache_max_bytes env < int (length payload)
            then (\<lparr>cr_value = None, cr_outcome = ''invalid''\<rparr>, dashboard_discard env owner w)
            else (case parse payload of
                None \<Rightarrow> (\<lparr>cr_value = None, cr_outcome = ''invalid''\<rparr>,
                         dashboard_discard env owner w)
              | Some v \<Rightarrow> (\<lparr>cr_value = Some v, cr_outcome = ''hit''\<rparr>, record_cache ''hit'' w))))"

definition dashboard_write ::
    "('d \<Rightarrow> string) \<Rightarrow> env \<Rightarrow> int \<Rightarrow> 'd \<Rightarrow> world \<Rightarrow> bool \<times> world" where
  "dashboard_write dump env owner v w =
     (if \<not> e_cache_redis env then (False, w)
      else let payload = dump v in
        if e_cache_max_bytes env < int (length payload) then (False, record_cache ''invalid'' w)
        else if \<not> e_redis_set_ok env then (False, record_cache ''error'' w)
        else (True, record_cache ''write''
          (w\<lparr>dcache := (dcache w)(dashboard_key env owner :=
                Some (payload, e_now env + seconds (e_cache_ttl_seconds env)))\<rparr>)))"

definition dashboard_invalidate :: "env \<Rightarrow> int \<Rightarrow> world \<Rightarrow> bool \<times> world" where
  "dashboard_invalidate env owner w =
     (if \<not> e_cache_redis env then (False, w)
      else if \<not> e_redis_del_ok env then (False, record_cache ''error'' w)
      else (True, record_cache ''invalidated''
              (w\<lparr>dcache := (dcache w)(dashboard_key env owner := None)\<rparr>)))"

definition invalidate_dashboard_cache :: "env \<Rightarrow> int \<Rightarrow> world \<Rightarrow> world" where
  "invalidate_dashboard_cache env owner w = snd (dashboard_invalidate env owner w)"

lemmas cache_defs = record_cache_def dashboard_discard_def dashboard_read_def
  dashboard_write_def dashboard_invalidate_def invalidate_dashboard_cache_def

lemma tb_cache [simp]:
  "db (record_cache out w) = db w" "db (dashboard_discard env owner w) = db w"
  "db (snd (dashboard_read parse env owner w)) = db w"
  "db (snd (dashboard_write dump env owner v w)) = db w"
  "db (invalidate_dashboard_cache env owner w) = db w"
  by (auto simp: cache_defs Let_def split: option.splits prod.splits)

lemma dcache_invalidate:
  "dcache (invalidate_dashboard_cache env owner w) =
     (if e_cache_redis env \<and> e_redis_del_ok env
      then (dcache w)(dashboard_key env owner := None) else dcache w)"
  by (simp add: cache_defs)

section \<open>Observation of business writes\<close>

fun outcome_of :: "'a result \<Rightarrow> string" where
  "outcome_of (Inr _) = ''success''"
| "outcome_of (Inl (ResourceConflictError _)) = ''conflict''"
| "outcome_of (Inl _) = ''error''"

definition observe_business_write ::
    "string \<Rightarrow> string \<Rightarrow> 'a result \<times> world \<Rightarrow> 'a result \<times> world" where
  "observe_business_write resource operation rw =
     (fst rw, (snd rw)\<lparr>biz_ops := biz_ops (snd rw) @ [(resource, operation, outcome_of (fst rw))]\<rparr>)"

lemma observe_simps [simp]:
  "fst (observe_business_write r p rw) = fst rw"
  "db (snd (observe_business_write r p rw)) = db (snd rw)"
  "dcache (snd (observe_business_write r p rw)) = dcache (snd rw)"
  by (simp_all add: observe_business_write_def)

section \<open>The transaction block\<close>

text \<open>
  The block the services repeat: flush the statement, commit, refresh the row (not after a
  delete), invalidate the owner's Dashboard entry and return; an integrity error rolls back and
  raises \<open>on_integrity\<close>, any other failure rolls back and is raised again. A failure of
  \<open>refresh\<close> comes after the commit, so its rollback undoes nothing and the cache entry stays.
\<close>

definition commit_write ::
    "env \<Rightarrow> int \<Rightarrow> bool \<Rightarrow> error \<Rightarrow> tables option \<Rightarrow> 'a \<Rightarrow> world \<Rightarrow> 'a result \<times> world" where
  "commit_write env owner refreshes on_integrity upd res w =
     (if e_fault env = Some FlushFault then (Inl DatabaseError, w)
      else (case upd of
          None \<Rightarrow> (Inl on_integrity, w)
        | Some tb' \<Rightarrow>
            if e_fault env = Some CommitFault then (Inl DatabaseError, w)
            else if refreshes \<and> e_fault env = Some RefreshFault
            then (Inl DatabaseError, w\<lparr>db := tb'\<rparr>)
            else (Inr res, invalidate_dashboard_cache env owner (w\<lparr>db := tb'\<rparr>))))"

lemma commit_write_Inr:
  assumes "commit_write env owner rf oi upd res w = (Inr v, w')"
  shows "v = res \<and> upd = Some (db w') \<and>
    w' = invalidate_dashboard_cache env owner (w\<lparr>db := db w'\<rparr>)"
  using assms by (auto simp: commit_write_def split: if_splits option.splits)

lemma commit_write_Inl:
  assumes "commit_write env owner rf oi upd res w = (Inl e, w')"
    and "e_fault env \<noteq> Some RefreshFault"
  shows "w' = w"
  using assms by (auto simp: commit_write_def split: if_splits option.splits)

lemma commit_write_tb:
  "db (snd (commit_write env owner rf oi upd res w)) = db w \<or>
   upd = Some (db (snd (commit_write env owner rf oi upd res w)))"
  by (auto simp: commit_write_def split: option.splits)

lemma commit_write_keeps:
  assumes "P (db w)" and "\<And>tb'. upd = Some tb' \<Longrightarrow> P tb'"
  shows "P (db (snd (commit_write env owner rf oi upd res w)))"
  using commit_write_tb [of env owner rf oi upd res w] assms by metis

lemma if_keeps:
  "(c \<Longrightarrow> P (db (snd x))) \<Longrightarrow> (\<not> c \<Longrightarrow> P (db (snd y))) \<Longrightarrow> P (db (snd (if c then x else y)))"
  by simp

lemma commit_write_keeps_if:
  assumes "P (db w)" and "\<And>tb'. upd = Some tb' \<Longrightarrow> P tb'"
  shows "P (db (snd (commit_write env owner rf oi (if c then Some (db w) else upd) res w)))"
  by (rule commit_write_keeps) (use assms in \<open>auto split: if_splits\<close>)

lemma commit_write_no_fault [simp]:
  "e_fault env = None \<Longrightarrow> commit_write env owner rf oi (Some tb') res w =
     (Inr res, invalidate_dashboard_cache env owner (w\<lparr>db := tb'\<rparr>))"
  "e_fault env = None \<Longrightarrow> commit_write env owner rf oi None res w = (Inl oi, w)"
  by (simp_all add: commit_write_def)

lemma dcache_commit:
  "dcache (snd (commit_write env owner rf oi upd res w)) = dcache w \<or>
   dcache (snd (commit_write env owner rf oi upd res w)) = (dcache w)(dashboard_key env owner := None)"
  by (auto simp: commit_write_def dcache_invalidate split: option.splits)

section \<open>Isolation of owners\<close>

text \<open>\<open>others owner tb\<close>: everything in the database that does not belong to \<open>owner\<close>.\<close>

definition history_owned :: "tables \<Rightarrow> int \<Rightarrow> history_row \<Rightarrow> bool" where
  "history_owned tb owner h = application_exists tb owner (h_application_id h)"

definition others :: "int \<Rightarrow> tables \<Rightarrow> tables" where
  "others owner tb = tb
     \<lparr>companies := filter (\<lambda>c. c_owner_id c \<noteq> owner) (companies tb),
      jobs := filter (\<lambda>j. j_owner_id j \<noteq> owner) (jobs tb),
      applications := filter (\<lambda>a. a_owner_id a \<noteq> owner) (applications tb),
      histories := filter (\<lambda>h. \<not> history_owned tb owner h) (histories tb),
      interviews := filter (\<lambda>i. i_owner_id i \<noteq> owner) (interviews tb)\<rparr>"

lemma others_rest:
  assumes "others owner tb' = others owner tb"
  shows "users tb' = users tb \<and> refresh_tokens tb' = refresh_tokens tb \<and>
    outbox tb' = outbox tb \<and>
    filter (\<lambda>h. \<not> history_owned tb' owner h) (histories tb') =
      filter (\<lambda>h. \<not> history_owned tb owner h) (histories tb)"
  using arg_cong [OF assms, of users] arg_cong [OF assms, of refresh_tokens]
    arg_cong [OF assms, of outbox] arg_cong [OF assms, of histories]
  by (simp add: others_def)

lemma filter_other:
  assumes "filter (\<lambda>x. f x \<noteq> a) xs = filter (\<lambda>x. f x \<noteq> a) ys" and "b \<noteq> a"
  shows "filter (\<lambda>x. f x = b) xs = filter (\<lambda>x. f x = b) ys"
proof -
  have "filter (\<lambda>x. f x = b) zs = filter (\<lambda>x. f x = b) (filter (\<lambda>x. f x \<noteq> a) zs)" for zs
    unfolding filter_filter using assms(2) by (intro filter_cong refl) auto
  then show ?thesis using assms(1) by metis
qed

lemma others_other:
  assumes "others owner tb' = others owner tb" and "other \<noteq> owner"
  shows "filter (\<lambda>c. c_owner_id c = other) (companies tb') =
      filter (\<lambda>c. c_owner_id c = other) (companies tb) \<and>
    filter (\<lambda>j. j_owner_id j = other) (jobs tb') = filter (\<lambda>j. j_owner_id j = other) (jobs tb) \<and>
    filter (\<lambda>a. a_owner_id a = other) (applications tb') =
      filter (\<lambda>a. a_owner_id a = other) (applications tb) \<and>
    filter (\<lambda>i. i_owner_id i = other) (interviews tb') =
      filter (\<lambda>i. i_owner_id i = other) (interviews tb)"
  using arg_cong [OF assms(1), of companies] arg_cong [OF assms(1), of jobs]
    arg_cong [OF assms(1), of applications] arg_cong [OF assms(1), of interviews]
  by (intro conjI filter_other [OF _ assms(2)]) (simp_all add: others_def)

lemma filter_put_row_other:
  assumes "distinct (map key xs)" and "replaces key own x xs"
  shows "filter (\<lambda>y. own y \<noteq> own x) (put_row key x xs) = filter (\<lambda>y. own y \<noteq> own x) xs"
proof -
  have "\<And>y. y \<in> set xs \<Longrightarrow> key y = key x \<Longrightarrow> own y = own x"
    using replaces_image [OF assms] by fastforce
  then show ?thesis unfolding put_row_def by (induction xs) auto
qed

lemma filter_del_row_other:
  assumes "distinct (map key xs)" and "x \<in> set xs"
  shows "filter (\<lambda>y. own y \<noteq> own x) (del_row key (key x) xs) = filter (\<lambda>y. own y \<noteq> own x) xs"
proof -
  have "\<And>y. y \<in> set xs \<Longrightarrow> key y = key x \<Longrightarrow> y = x"
    using assms by (auto simp: distinct_map inj_on_def)
  then show ?thesis unfolding del_row_def filter_filter by (intro filter_cong refl) auto
qed

section \<open>The contract of an owner's write\<close>

text \<open>
  \<open>keeps owner tb tb'\<close>: the change keeps what the database guarantees and touches no row of
  another owner. An operation that either raises in its checks, or runs the transaction block
  with such a change, fulfils the contract; the locale states the contract for its clients.
\<close>

definition keeps :: "int \<Rightarrow> tables \<Rightarrow> tables \<Rightarrow> bool" where
  "keeps owner tb tb' = (db_ok tb \<longrightarrow> db_ok tb' \<and> others owner tb' = others owner tb)"

definition writes_via :: "env \<Rightarrow> int \<Rightarrow> world \<Rightarrow> 'a result \<times> world \<Rightarrow> bool" where
  "writes_via env owner w rw =
     ((\<exists>e. rw = (Inl e, w)) \<or>
      (\<exists>rf oi upd res. rw = commit_write env owner rf oi upd res w \<and>
          (\<forall>tb'. upd = Some tb' \<longrightarrow> keeps owner (db w) tb')))"

lemma writes_via_raise [simp]: "writes_via env owner w (Inl e, w)"
  by (simp add: writes_via_def)

lemma writes_via_commit:
  "(\<And>tb'. upd = Some tb' \<Longrightarrow> keeps owner (db w) tb')
    \<Longrightarrow> writes_via env owner w (commit_write env owner rf oi upd res w)"
  unfolding writes_via_def by blast

locale owner_request =
  fixes run :: "env \<Rightarrow> world \<Rightarrow> 'a result \<times> world"
    and owner :: int
  assumes atomic: "run env w = (Inl e, w') \<Longrightarrow> e_fault env \<noteq> Some RefreshFault \<Longrightarrow> db w' = db w"
    and keeps_db: "run env w = (r, w') \<Longrightarrow> db_ok (db w) \<Longrightarrow> db_ok (db w')"
    and isolated: "run env w = (r, w') \<Longrightarrow> db_ok (db w)
      \<Longrightarrow> others owner (db w') = others owner (db w)"
    and entries: "run env w = (r, w') \<Longrightarrow>
      dcache w' = dcache w \<or> dcache w' = (dcache w)(dashboard_key env owner := None)"
begin

lemma raises_nothing:
  assumes "\<not> is_ok (fst (run env w))" and "e_fault env \<noteq> Some RefreshFault"
  shows "db (snd (run env w)) = db w"
proof (cases "fst (run env w)")
  case (Inl e)
  then have "run env w = (Inl e, snd (run env w))" by (metis prod.collapse)
  then show ?thesis using atomic assms(2) by blast
qed (use assms(1) in simp)

text \<open>Clients run one request after another.\<close>

lemma run_twice_keeps:
  assumes "run env w = (r, w1)" and "run env' w1 = (r', w2)" and "db_ok (db w)"
  shows "db_ok (db w2) \<and> others owner (db w2) = others owner (db w)"
  using assms keeps_db isolated by metis

lemma step_keeps:
  assumes "db_ok (db w)"
  shows "db_ok (db (snd (run env w))) \<and> others owner (db (snd (run env w))) = others owner (db w)"
  using assms keeps_db isolated by (metis prod.collapse)

end

text \<open>A write also removes the owner's Dashboard entry when it succeeds.\<close>

locale owner_write = owner_request +
  assumes invalidates: "run env w = (Inr v, w') \<Longrightarrow> e_cache_redis env \<Longrightarrow> e_redis_del_ok env
    \<Longrightarrow> dcache w' (dashboard_key env owner) = None"
begin

lemma entry_gone:
  assumes "is_ok (fst (run env w))" and "e_cache_redis env" and "e_redis_del_ok env"
  shows "dcache (snd (run env w)) (dashboard_key env owner) = None"
  using assms invalidates [of env w _ "snd (run env w)"] by (metis is_ok_iff prod.collapse)

end

lemma writes_via_contract:
  assumes "\<And>env w. writes_via env owner w (f env w)"
  shows "owner_write (\<lambda>env w. observe_business_write rs opn (f env w)) owner"
proof
  fix env w and r :: "'a result" and w' e v
  let ?o = "\<lambda>env w. observe_business_write rs opn (f env w)"
  have via: "writes_via env owner w (f env w)" by (rule assms)
  have o: "db (snd (?o env w)) = db (snd (f env w))" "fst (?o env w) = fst (f env w)"
      "dcache (snd (?o env w)) = dcache (snd (f env w))" by simp_all
  have pair: "\<And>x. f env w = (fst (f env w), snd (f env w))" by simp
  {
    assume run: "?o env w = (Inl e, w')" and nf: "e_fault env \<noteq> Some RefreshFault"
    have fe1: "fst (f env w) = Inl e" using o(2) run by (metis fst_conv)
    have t: "db w' = db (snd (f env w))" using o(1) run by (metis snd_conv)
    from fe1 have fe: "f env w = (Inl e, snd (f env w))" by (metis prod.collapse)
    from via show "db w' = db w"
      unfolding writes_via_def
    proof (elim disjE exE conjE)
      fix x assume "f env w = (Inl x, w)" then show ?thesis using t by simp
    next
      fix rf oi upd res assume "f env w = commit_write env owner rf oi upd res w"
      then have "snd (f env w) = w" using fe nf commit_write_Inl by metis
      then show ?thesis using t by simp
    qed
  }
  {
    assume run: "?o env w = (r, w')" and ok: "db_ok (db w)"
    then have t: "db w' = db (snd (f env w))" using o by (metis snd_conv)
    have "db (snd (f env w)) = db w \<or> keeps owner (db w) (db (snd (f env w)))"
      using via commit_write_tb unfolding writes_via_def by (metis snd_conv)
    then have "db_ok (db w') \<and> others owner (db w') = others owner (db w)"
      using ok unfolding t keeps_def by auto
    then show "db_ok (db w')" and "others owner (db w') = others owner (db w)" by auto
  }
  {
    assume "?o env w = (r, w')"
    then have d: "dcache w' = dcache (snd (f env w))" using o(3) by (metis snd_conv)
    from via show "dcache w' = dcache w \<or> dcache w' = (dcache w)(dashboard_key env owner := None)"
      unfolding writes_via_def d by (metis dcache_commit snd_conv)
  }
  {
    assume run: "?o env w = (Inr v, w')" and en: "e_cache_redis env" "e_redis_del_ok env"
    have fv: "fst (f env w) = Inr v" using o(2) run by (metis fst_conv)
    have d: "dcache w' = dcache (snd (f env w))" using o(3) run by (metis snd_conv)
    from fv have fe: "f env w = (Inr v, snd (f env w))" by (metis prod.collapse)
    from via obtain rf oi upd res where "f env w = commit_write env owner rf oi upd res w"
      unfolding writes_via_def using fe by (metis Inl_Inr_False fst_conv)
    then have "\<exists>w0. snd (f env w) = invalidate_dashboard_cache env owner w0"
      using fe commit_write_Inr by metis
    then show "dcache w' (dashboard_key env owner) = None"
      using en by (auto simp: d dcache_invalidate)
  }
qed

section \<open>Each statement keeps other owners' rows\<close>

lemma history_owned_cong:
  "application_exists tb' owner = application_exists tb owner
    \<Longrightarrow> history_owned tb' owner = history_owned tb owner"
  by (simp add: history_owned_def fun_eq_iff)

lemma keeps_insert_company:
  assumes "insert_company c tb = Some tb'"
  shows "keeps (c_owner_id c) tb tb'"
proof -
  have "tb' = tb\<lparr>companies := companies tb @ [c]\<rparr>"
    using assms by (auto simp: insert_company_def split: if_splits)
  then show ?thesis using insert_company_ok [OF assms]
    by (simp add: keeps_def others_def history_owned_def application_exists_def)
qed

lemma keeps_update_company:
  assumes "update_company c tb = Some tb'" and "replaces c_id c_owner_id c (companies tb)"
  shows "keeps (c_owner_id c) tb tb'"
  unfolding keeps_def
proof
  assume ok: "db_ok tb"
  have "tb' = tb\<lparr>companies := put_row c_id c (companies tb)\<rparr>"
    using assms(1) by (auto simp: update_company_def split: if_splits)
  then show "db_ok tb' \<and> others (c_owner_id c) tb' = others (c_owner_id c) tb"
    using update_company_ok [OF assms(1) ok assms(2)]
      filter_put_row_other [OF db_ok_distinct(2) [OF ok] assms(2)]
    by (simp add: others_def history_owned_def application_exists_def)
qed

lemma keeps_delete_company:
  assumes "delete_company c tb = Some tb'" and "c \<in> set (companies tb)"
  shows "keeps (c_owner_id c) tb tb'"
  unfolding keeps_def
proof
  assume ok: "db_ok tb"
  have "tb' = tb\<lparr>companies := del_row c_id (c_id c) (companies tb)\<rparr>"
    using assms(1) by (auto simp: delete_company_def split: if_splits)
  then show "db_ok tb' \<and> others (c_owner_id c) tb' = others (c_owner_id c) tb"
    using delete_company_ok [OF assms(1) ok assms(2)]
      filter_del_row_other [OF db_ok_distinct(2) [OF ok] assms(2), of c_owner_id]
    by (simp add: others_def history_owned_def application_exists_def)
qed

lemma keeps_insert_job:
  assumes "insert_job j tb = Some tb'"
  shows "keeps (j_owner_id j) tb tb'"
proof -
  have "tb' = tb\<lparr>jobs := jobs tb @ [j]\<rparr>"
    using assms by (auto simp: insert_job_def split: if_splits)
  then show ?thesis using insert_job_ok [OF assms]
    by (simp add: keeps_def others_def history_owned_def application_exists_def)
qed

lemma keeps_update_job:
  assumes "update_job j tb = Some tb'" and "replaces j_id j_owner_id j (jobs tb)"
  shows "keeps (j_owner_id j) tb tb'"
  unfolding keeps_def
proof
  assume ok: "db_ok tb"
  have "tb' = tb\<lparr>jobs := put_row j_id j (jobs tb)\<rparr>"
    using assms(1) by (auto simp: update_job_def split: if_splits)
  then show "db_ok tb' \<and> others (j_owner_id j) tb' = others (j_owner_id j) tb"
    using update_job_ok [OF assms(1) ok assms(2)]
      filter_put_row_other [OF db_ok_distinct(3) [OF ok] assms(2)]
    by (simp add: others_def history_owned_def application_exists_def)
qed

lemma keeps_delete_job:
  assumes "delete_job j tb = Some tb'" and "j \<in> set (jobs tb)"
  shows "keeps (j_owner_id j) tb tb'"
  unfolding keeps_def
proof
  assume ok: "db_ok tb"
  have "tb' = tb\<lparr>jobs := del_row j_id (j_id j) (jobs tb)\<rparr>"
    using assms(1) by (auto simp: delete_job_def split: if_splits)
  then show "db_ok tb' \<and> others (j_owner_id j) tb' = others (j_owner_id j) tb"
    using delete_job_ok [OF assms(1) ok assms(2)]
      filter_del_row_other [OF db_ok_distinct(3) [OF ok] assms(2), of j_owner_id]
    by (simp add: others_def history_owned_def application_exists_def)
qed

lemma keeps_insert_application:
  assumes "insert_application a tb = Some tb'"
  shows "keeps (a_owner_id a) tb tb'"
  unfolding keeps_def
proof
  assume ok: "db_ok tb"
  have tb': "tb' = tb\<lparr>applications := applications tb @ [a]\<rparr>"
    and fresh: "a_id a \<notin> a_id ` set (applications tb)"
    using assms by (auto simp: insert_application_def split: if_splits)
  have "history_owned tb' (a_owner_id a) h = history_owned tb (a_owner_id a) h"
    if "h \<in> set (histories tb)" for h
  proof -
    have "h_application_id h \<noteq> a_id a"
    proof -
      have "history_parent tb (h_application_id h)"
        using that ok by (simp add: db_ok_def refs_ok_def)
      then show ?thesis using fresh unfolding history_parent_def by (metis image_eqI)
    qed
    then show ?thesis by (auto simp: tb' history_owned_def application_exists_def)
  qed
  then show "db_ok tb' \<and> others (a_owner_id a) tb' = others (a_owner_id a) tb"
    using insert_application_ok [OF assms ok]
    by (simp add: others_def tb' cong: filter_cong)
qed

lemma keeps_update_application:
  assumes "update_application a tb = Some tb'" and "replaces a_id a_owner_id a (applications tb)"
  shows "keeps (a_owner_id a) tb tb'"
  unfolding keeps_def
proof
  assume ok: "db_ok tb"
  have tb': "tb' = tb\<lparr>applications := put_row a_id a (applications tb)\<rparr>"
    using assms(1) by (auto simp: update_application_def split: if_splits)
  have "application_exists tb' = application_exists tb"
    using bex_put_row [OF db_ok_distinct(4) [OF ok] assms(2)]
    by (intro ext) (simp add: tb' application_exists_def)
  then have "history_owned tb' (a_owner_id a) = history_owned tb (a_owner_id a)"
    by (intro history_owned_cong) simp
  then show "db_ok tb' \<and> others (a_owner_id a) tb' = others (a_owner_id a) tb"
    using update_application_ok [OF assms(1) ok assms(2)]
      filter_put_row_other [OF db_ok_distinct(4) [OF ok] assms(2)]
    by (simp add: others_def tb')
qed

lemma keeps_delete_application:
  assumes "delete_application a tb = Some tb'" and a: "a \<in> set (applications tb)"
  shows "keeps (a_owner_id a) tb tb'"
  unfolding keeps_def
proof
  assume ok: "db_ok tb"
  have tb': "tb' = tb\<lparr>applications := del_row a_id (a_id a) (applications tb),
      histories := filter (\<lambda>h. h_application_id h \<noteq> a_id a) (histories tb)\<rparr>"
    using assms(1) by (auto simp: delete_application_def split: if_splits)
  have uniq: "b = a" if "b \<in> set (applications tb)" "a_id b = a_id a" for b
    using that a db_ok_distinct(4) [OF ok] by (auto simp: distinct_map inj_on_def)
  have "filter (\<lambda>h. \<not> history_owned tb' (a_owner_id a) h) (histories tb') =
      filter (\<lambda>h. \<not> history_owned tb (a_owner_id a) h) (histories tb)"
    unfolding tb' using a uniq
    by (auto simp: history_owned_def application_exists_def intro!: filter_cong)
  then show "db_ok tb' \<and> others (a_owner_id a) tb' = others (a_owner_id a) tb"
    using delete_application_ok [OF assms(1) ok a]
      filter_del_row_other [OF db_ok_distinct(4) [OF ok] a, of a_owner_id]
    by (simp add: others_def tb')
qed

lemma keeps_insert_history:
  assumes "insert_history h tb = Some tb'" and "application_exists tb owner (h_application_id h)"
  shows "keeps owner tb tb'"
proof -
  have tb': "tb' = tb\<lparr>histories := histories tb @ [h]\<rparr>"
    using assms by (auto simp: insert_history_def split: if_splits)
  have "history_owned tb' owner = history_owned tb owner"
    by (intro history_owned_cong) (simp add: tb' application_exists_def fun_eq_iff)
  moreover have "history_owned tb owner h" using assms(2) by (simp add: history_owned_def)
  ultimately show ?thesis using insert_history_ok [OF assms(1)]
    by (simp add: keeps_def others_def tb')
qed

lemma keeps_interviews:
  assumes "interviews tb' = ins" and "tb' = tb\<lparr>interviews := ins\<rparr>" and "db_ok tb \<Longrightarrow> db_ok tb'"
    and "db_ok tb \<Longrightarrow>
      filter (\<lambda>i. i_owner_id i \<noteq> owner) ins = filter (\<lambda>i. i_owner_id i \<noteq> owner) (interviews tb)"
  shows "keeps owner tb tb'"
  using assms by (simp add: keeps_def others_def history_owned_def application_exists_def)

lemma keeps_insert_interview:
  assumes "insert_interview i tb = Some tb'"
  shows "keeps (i_owner_id i) tb tb'"
proof -
  have "tb' = tb\<lparr>interviews := interviews tb @ [i]\<rparr>"
    using assms by (auto simp: insert_interview_def split: if_splits)
  then show ?thesis using insert_interview_ok [OF assms]
    by (intro keeps_interviews [where ins = "interviews tb @ [i]"]) auto
qed

lemma keeps_update_interview:
  assumes "update_interview i tb = Some tb'" and "replaces i_id i_owner_id i (interviews tb)"
  shows "keeps (i_owner_id i) tb tb'"
proof -
  have "tb' = tb\<lparr>interviews := put_row i_id i (interviews tb)\<rparr>"
    using assms(1) by (auto simp: update_interview_def split: if_splits)
  then show ?thesis
    using update_interview_ok [OF assms(1) _ assms(2)]
      filter_put_row_other [OF db_ok_distinct(6) assms(2)]
    by (intro keeps_interviews [where ins = "put_row i_id i (interviews tb)"]) auto
qed

lemma keeps_delete_interview:
  assumes "delete_interview i tb = Some tb'" and "i \<in> set (interviews tb)"
  shows "keeps (i_owner_id i) tb tb'"
proof -
  have "tb' = tb\<lparr>interviews := del_row i_id (i_id i) (interviews tb)\<rparr>"
    using assms(1) by (simp add: delete_interview_def)
  then show ?thesis
    using delete_interview_ok [OF assms(1)]
      filter_del_row_other [OF db_ok_distinct(6) assms(2), of i_owner_id]
    by (intro keeps_interviews [where ins = "del_row i_id (i_id i) (interviews tb)"]) auto
qed

lemma keeps_trans: "keeps owner t1 t2 \<Longrightarrow> keeps owner t2 t3 \<Longrightarrow> keeps owner t1 t3"
  by (simp add: keeps_def)

lemma keeps_refl [simp]: "keeps owner t t"
  by (simp add: keeps_def)

lemma replacesI: "y \<in> set xs \<Longrightarrow> key y = key x \<Longrightarrow> own y = own x \<Longrightarrow> replaces key own x xs"
  by (auto simp: replaces_def)

section \<open>A sample state\<close>

text \<open>Concrete values on which the witnesses of the component theories evaluate.\<close>

definition sample_env :: env where
  "sample_env = \<lparr>e_now = days 20000, e_created_at = days 20000 + 1, e_updated_at = days 20000 + 2,
     e_new_id = 100, e_fault = None, e_cache_redis = True, e_cache_ttl_seconds = 30,
     e_cache_max_bytes = 65536, e_redis_get_ok = True, e_redis_set_ok = True,
     e_redis_del_ok = True, e_secret_key = ''k'', e_hmac_hex = (\<lambda>k m. k @ m)\<rparr>"

definition sample_user :: "int \<Rightarrow> string \<Rightarrow> user" where
  "sample_user uid name = \<lparr>u_id = uid, u_username = name, u_password = ''hash'',
     u_password_login_enabled = True, u_role = ''user'', u_email = None,
     u_email_verified_at = None, u_mfa_secret_encrypted = None,
     u_mfa_enrollment_created_at = None, u_mfa_enabled_at = None, u_mfa_last_counter = None,
     u_is_active = True, u_created_at = 0, u_updated_at = 0\<rparr>"

definition sample_tables :: tables where
  "sample_tables = empty_tables
     \<lparr>users := [sample_user 1 ''ann'', sample_user 2 ''bob''],
      companies := [\<lparr>c_id = 10, c_owner_id = 1, c_name = ''Acme'', c_website = None,
        c_industry = None, c_location = None, c_notes = None, c_created_at = 5,
        c_updated_at = 5\<rparr>],
      jobs := [\<lparr>j_id = 20, j_owner_id = 1, j_company_id = 10, j_title = ''Dev'',
        j_employment_type = FULL_TIME, j_work_mode = REMOTE, j_location = None,
        j_source = None, j_url = None, j_salary_min = Some 10, j_salary_max = Some 20,
        j_salary_currency = ''EUR'', j_description = None, j_status = OPEN, j_created_at = 6,
        j_updated_at = 6\<rparr>],
      applications := [\<lparr>a_id = 30, a_owner_id = 1, a_job_id = 20, a_status = APPLIED,
        a_priority = 3, a_applied_at = Some 19990, a_deadline = Some 20010,
        a_next_action_at = None, a_notes = None, a_created_at = 7, a_updated_at = 7\<rparr>]\<rparr>"

definition sample_world :: world where
  "sample_world = \<lparr>db = sample_tables, dcache = Map.empty, cache_ops = [], biz_ops = []\<rparr>"

lemma sample_db_ok: "db_ok sample_tables"
  by code_simp

end
