(* ===== verification/Schemas.thy ===== *)
theory Schemas
  imports Models
begin

text \<open>
  The request bodies of \<^verbatim>\<open>src/app/schemas\<close> and the field and model validators Pydantic runs on
  them. A body is a record of typed fields (JSON decoding and unknown fields are Pydantic's);
  \<open>validate_*\<close> returns the normalised body or the validation error. \<open>url n raw\<close> is
  \<open>AnyHttpUrl\<close> with \<open>max_length=n\<close>, \<open>email raw\<close> is \<open>EmailStr\<close>: both come from
  Pydantic and return the canonical text or \<open>None\<close>.
\<close>

section \<open>Field constraints and normalisers\<close>

definition len_in :: "nat \<Rightarrow> nat \<Rightarrow> string \<Rightarrow> bool" where
  "len_in lo hi s = (lo \<le> length s \<and> length s \<le> hi)"

definition opt_ok :: "('a \<Rightarrow> bool) \<Rightarrow> 'a option \<Rightarrow> bool" where
  "opt_ok P x = (case x of None \<Rightarrow> True | Some v \<Rightarrow> P v)"

fun nullable_ok :: "('a \<Rightarrow> bool) \<Rightarrow> 'a patch \<Rightarrow> bool" where
  "nullable_ok P (Val v) = P v"
| "nullable_ok P _ = True"

fun required_ok :: "('a \<Rightarrow> bool) \<Rightarrow> 'a patch \<Rightarrow> bool" where
  "required_ok P (Val v) = P v"
| "required_ok P Null = False"
| "required_ok P Unset = True"

fun map_patch :: "('a \<Rightarrow> 'b) \<Rightarrow> 'a patch \<Rightarrow> 'b patch" where
  "map_patch f (Val v) = Val (f v)"
| "map_patch f Null = Null"
| "map_patch f Unset = Unset"

fun bind_patch :: "('a \<Rightarrow> 'b option) \<Rightarrow> 'a patch \<Rightarrow> 'b patch" where
  "bind_patch f (Val v) = (case f v of None \<Rightarrow> Null | Some w \<Rightarrow> Val w)"
| "bind_patch f Null = Null"
| "bind_patch f Unset = Unset"

definition strip_required :: "string \<Rightarrow> string result" where
  "strip_required v =
     (let normalized = py_strip v in
      if normalized = [] then Inl (ValueError ''Value cannot be blank'') else Inr normalized)"

definition strip_optional :: "string option \<Rightarrow> string option" where
  "strip_optional v = (case v of None \<Rightarrow> None
     | Some s \<Rightarrow> (let normalized = py_strip s in
         if normalized = [] then None else Some normalized))"

fun strip_patch :: "string patch \<Rightarrow> string patch" where
  "strip_patch p = bind_patch (\<lambda>s. strip_optional (Some s)) p"

lemma strip_optional_idem [simp]: "strip_optional (strip_optional v) = strip_optional v"
  by (auto simp: strip_optional_def Let_def split: option.splits)

lemma length_strip_le: "length (py_strip s) \<le> length s"
proof -
  have "length (strip_by P xs) \<le> length xs" for P and xs :: string
    unfolding strip_by_def
    by (metis length_dropWhile_le length_rev order.trans)
  then show ?thesis by (simp add: py_strip_def)
qed

section \<open>Companies\<close>

record company_create_body =
  cc_name :: string
  cc_website :: "string option"
  cc_industry :: "string option"
  cc_location :: "string option"
  cc_notes :: "string option"

record company_update_body =
  cu_name :: "string patch"
  cu_website :: "string patch"
  cu_industry :: "string patch"
  cu_location :: "string patch"
  cu_notes :: "string patch"

definition validate_company_create ::
    "(nat \<Rightarrow> string \<Rightarrow> string option) \<Rightarrow> company_create_body \<Rightarrow> company_create_body result" where
  "validate_company_create url d =
     (if len_in 1 120 (cc_name d) \<and> opt_ok (\<lambda>r. url 2048 r \<noteq> None) (cc_website d) \<and>
         opt_ok (len_in 1 100) (cc_industry d) \<and> opt_ok (len_in 1 255) (cc_location d) \<and>
         opt_ok (len_in 0 5000) (cc_notes d)
      then (case strip_required (cc_name d) of
          Inl e \<Rightarrow> Inl RequestValidationError
        | Inr name \<Rightarrow> Inr \<lparr>cc_name = name,
            cc_website = Option.bind (cc_website d) (url 2048),
            cc_industry = strip_optional (cc_industry d),
            cc_location = strip_optional (cc_location d),
            cc_notes = strip_optional (cc_notes d)\<rparr>)
      else Inl RequestValidationError)"

definition validate_company_update ::
    "(nat \<Rightarrow> string \<Rightarrow> string option) \<Rightarrow> company_update_body \<Rightarrow> company_update_body result" where
  "validate_company_update url d =
     (if required_ok (\<lambda>n. len_in 1 120 n \<and> is_ok (strip_required n)) (cu_name d) \<and>
         nullable_ok (\<lambda>r. url 2048 r \<noteq> None) (cu_website d) \<and>
         nullable_ok (len_in 1 100) (cu_industry d) \<and> nullable_ok (len_in 1 255) (cu_location d) \<and>
         nullable_ok (len_in 0 5000) (cu_notes d)
      then Inr \<lparr>cu_name = map_patch py_strip (cu_name d),
          cu_website = bind_patch (url 2048) (cu_website d),
          cu_industry = strip_patch (cu_industry d),
          cu_location = strip_patch (cu_location d),
          cu_notes = strip_patch (cu_notes d)\<rparr>
      else Inl RequestValidationError)"

section \<open>Jobs\<close>

definition max_bigint :: int where
  "max_bigint = 9223372036854775807"

definition salary_ok :: "int \<Rightarrow> bool" where
  "salary_ok n = (0 \<le> n \<and> n \<le> max_bigint)"

definition letter :: "char \<Rightarrow> bool" where
  "letter ch = (let n = (of_char ch :: nat) in (65 \<le> n \<and> n \<le> 90) \<or> (97 \<le> n \<and> n \<le> 122))"

definition currency_ok :: "string \<Rightarrow> bool" where
  "currency_ok s = (length s = 3 \<and> list_all letter s)"

definition range_ok :: "int option \<Rightarrow> int option \<Rightarrow> bool" where
  "range_ok lo hi = (case (lo, hi) of (Some a, Some b) \<Rightarrow> \<not> b < a | _ \<Rightarrow> True)"

record job_create_body =
  jc_company_id :: int
  jc_title :: string
  jc_employment_type :: employment_type
  jc_work_mode :: work_mode
  jc_location :: "string option"
  jc_source :: "string option"
  jc_url :: "string option"
  jc_salary_min :: "int option"
  jc_salary_max :: "int option"
  jc_salary_currency :: string
  jc_description :: "string option"
  jc_status :: job_status

record job_update_body =
  ju_company_id :: "int patch"
  ju_title :: "string patch"
  ju_employment_type :: "employment_type patch"
  ju_work_mode :: "work_mode patch"
  ju_location :: "string patch"
  ju_source :: "string patch"
  ju_url :: "string patch"
  ju_salary_min :: "int patch"
  ju_salary_max :: "int patch"
  ju_salary_currency :: "string patch"
  ju_description :: "string patch"
  ju_status :: "job_status patch"

definition validate_job_create ::
    "(nat \<Rightarrow> string \<Rightarrow> string option) \<Rightarrow> job_create_body \<Rightarrow> job_create_body result" where
  "validate_job_create url d =
     (if 0 < jc_company_id d \<and> len_in 1 200 (jc_title d) \<and>
         opt_ok (len_in 1 255) (jc_location d) \<and> opt_ok (len_in 1 100) (jc_source d) \<and>
         opt_ok (\<lambda>r. url 2048 r \<noteq> None) (jc_url d) \<and>
         opt_ok salary_ok (jc_salary_min d) \<and> opt_ok salary_ok (jc_salary_max d) \<and>
         currency_ok (jc_salary_currency d) \<and> opt_ok (len_in 0 20000) (jc_description d) \<and>
         is_ok (strip_required (jc_title d)) \<and>
         range_ok (jc_salary_min d) (jc_salary_max d)
      then Inr (d\<lparr>jc_title := py_strip (jc_title d),
          jc_location := strip_optional (jc_location d),
          jc_source := strip_optional (jc_source d),
          jc_url := Option.bind (jc_url d) (url 2048),
          jc_salary_currency := py_upper (jc_salary_currency d),
          jc_description := strip_optional (jc_description d)\<rparr>)
      else Inl RequestValidationError)"

definition validate_job_update ::
    "(nat \<Rightarrow> string \<Rightarrow> string option) \<Rightarrow> job_update_body \<Rightarrow> job_update_body result" where
  "validate_job_update url d =
     (if required_ok (\<lambda>n. 0 < n) (ju_company_id d) \<and>
         required_ok (\<lambda>t. len_in 1 200 t \<and> is_ok (strip_required t)) (ju_title d) \<and>
         required_ok (\<lambda>_. True) (ju_employment_type d) \<and>
         required_ok (\<lambda>_. True) (ju_work_mode d) \<and>
         nullable_ok (len_in 1 255) (ju_location d) \<and> nullable_ok (len_in 1 100) (ju_source d) \<and>
         nullable_ok (\<lambda>r. url 2048 r \<noteq> None) (ju_url d) \<and>
         nullable_ok salary_ok (ju_salary_min d) \<and> nullable_ok salary_ok (ju_salary_max d) \<and>
         required_ok currency_ok (ju_salary_currency d) \<and>
         nullable_ok (len_in 0 20000) (ju_description d) \<and>
         required_ok (\<lambda>_. True) (ju_status d) \<and>
         range_ok (patch_opt (ju_salary_min d) None) (patch_opt (ju_salary_max d) None)
      then Inr (d\<lparr>ju_title := map_patch py_strip (ju_title d),
          ju_location := strip_patch (ju_location d),
          ju_source := strip_patch (ju_source d),
          ju_url := bind_patch (url 2048) (ju_url d),
          ju_salary_currency := map_patch py_upper (ju_salary_currency d),
          ju_description := strip_patch (ju_description d)\<rparr>)
      else Inl RequestValidationError)"

text \<open>An upper-cased letter is one of \<open>A\<close> to \<open>Z\<close>, as the table's CHECK asks.\<close>

lemma letter_upper: "letter ch \<Longrightarrow> upper_letter (to_upper ch)"
  by (auto simp: letter_def upper_letter_def to_upper_def Let_def)

lemma currency_upper:
  "currency_ok s \<Longrightarrow> length (py_upper s) = 3 \<and> list_all upper_letter (py_upper s)"
  by (auto simp: currency_ok_def py_upper_def list_all_iff letter_upper)

section \<open>Applications\<close>

definition normalize_notes :: "string option \<Rightarrow> string option" where
  "normalize_notes v = (case v of None \<Rightarrow> None
     | Some s \<Rightarrow> (let normalized = py_strip s in
         if normalized = [] then None else Some normalized))"

fun require_timezone :: "py_datetime \<Rightarrow> datetime result" where
  "require_timezone (Naive t) = Inl (ValueError ''Datetime must include a timezone'')"
| "require_timezone (Aware t offset) = Inr (as_utc (Aware t offset))"

definition dates_ok :: "date option \<Rightarrow> date option \<Rightarrow> bool" where
  "dates_ok applied_at deadline =
     (case (applied_at, deadline) of (Some a, Some d) \<Rightarrow> \<not> d < a | _ \<Rightarrow> True)"

record application_create_body =
  ac_job_id :: int
  ac_status :: application_status
  ac_priority :: int
  ac_applied_at :: "date option"
  ac_deadline :: "date option"
  ac_next_action_at :: "py_datetime option"
  ac_notes :: "string option"

record application_update_body =
  au_priority :: "int patch"
  au_applied_at :: "date patch"
  au_deadline :: "date patch"
  au_next_action_at :: "py_datetime patch"
  au_notes :: "string patch"

definition priority_ok :: "int \<Rightarrow> bool" where
  "priority_ok p = (1 \<le> p \<and> p \<le> 5)"

definition validate_application_create :: "application_create_body \<Rightarrow> application_create_body result" where
  "validate_application_create d =
     (if 0 < ac_job_id d \<and> priority_ok (ac_priority d) \<and>
         opt_ok (\<lambda>t. is_ok (require_timezone t)) (ac_next_action_at d) \<and>
         opt_ok (len_in 0 10000) (ac_notes d) \<and>
         ac_status d \<in> {SAVED, APPLIED} \<and>
         \<not> (ac_status d = SAVED \<and> ac_applied_at d \<noteq> None) \<and>
         dates_ok (ac_applied_at d) (ac_deadline d)
      then Inr (d\<lparr>ac_next_action_at := map_option (\<lambda>t. Aware (as_utc t) 0) (ac_next_action_at d),
                  ac_notes := normalize_notes (ac_notes d)\<rparr>)
      else Inl RequestValidationError)"

definition validate_application_update :: "application_update_body \<Rightarrow> application_update_body result" where
  "validate_application_update d =
     (if required_ok priority_ok (au_priority d) \<and>
         nullable_ok (\<lambda>t. is_ok (require_timezone t)) (au_next_action_at d) \<and>
         nullable_ok (len_in 0 10000) (au_notes d) \<and>
         dates_ok (patch_opt (au_applied_at d) None) (patch_opt (au_deadline d) None)
      then Inr (d\<lparr>au_next_action_at := map_patch (\<lambda>t. Aware (as_utc t) 0) (au_next_action_at d),
                  au_notes := bind_patch (\<lambda>s. normalize_notes (Some s)) (au_notes d)\<rparr>)
      else Inl RequestValidationError)"

section \<open>Interviews\<close>

record interview_create_body =
  ic_application_id :: int
  ic_type :: interview_type
  ic_scheduled_at :: py_datetime
  ic_duration_minutes :: int
  ic_location :: "string option"
  ic_meeting_url :: "string option"
  ic_notes :: "string option"

record interview_update_body =
  iu_type :: "interview_type patch"
  iu_status :: "interview_status patch"
  iu_scheduled_at :: "py_datetime patch"
  iu_duration_minutes :: "int patch"
  iu_location :: "string patch"
  iu_meeting_url :: "string patch"
  iu_notes :: "string patch"
  iu_feedback :: "string patch"

definition duration_ok :: "int \<Rightarrow> bool" where
  "duration_ok n = (15 \<le> n \<and> n \<le> 480)"

definition validate_interview_create ::
    "(nat \<Rightarrow> string \<Rightarrow> string option) \<Rightarrow> interview_create_body \<Rightarrow> interview_create_body result" where
  "validate_interview_create url d =
     (if 0 < ic_application_id d \<and> is_ok (require_timezone (ic_scheduled_at d)) \<and>
         duration_ok (ic_duration_minutes d) \<and> opt_ok (len_in 0 255) (ic_location d) \<and>
         opt_ok (\<lambda>r. url 2048 r \<noteq> None) (ic_meeting_url d) \<and> opt_ok (len_in 0 10000) (ic_notes d)
      then Inr (d\<lparr>ic_scheduled_at := Aware (as_utc (ic_scheduled_at d)) 0,
          ic_location := strip_optional (ic_location d),
          ic_meeting_url := Option.bind (ic_meeting_url d) (url 2048),
          ic_notes := strip_optional (ic_notes d)\<rparr>)
      else Inl RequestValidationError)"

definition validate_interview_update ::
    "(nat \<Rightarrow> string \<Rightarrow> string option) \<Rightarrow> interview_update_body \<Rightarrow> interview_update_body result" where
  "validate_interview_update url d =
     (if required_ok (\<lambda>_. True) (iu_type d) \<and> required_ok (\<lambda>_. True) (iu_status d) \<and>
         required_ok (\<lambda>t. is_ok (require_timezone t)) (iu_scheduled_at d) \<and>
         required_ok duration_ok (iu_duration_minutes d) \<and>
         nullable_ok (len_in 0 255) (iu_location d) \<and>
         nullable_ok (\<lambda>r. url 2048 r \<noteq> None) (iu_meeting_url d) \<and>
         nullable_ok (len_in 0 10000) (iu_notes d) \<and> nullable_ok (len_in 0 10000) (iu_feedback d)
      then Inr (d\<lparr>iu_scheduled_at := map_patch (\<lambda>t. Aware (as_utc t) 0) (iu_scheduled_at d),
          iu_location := strip_patch (iu_location d),
          iu_meeting_url := bind_patch (url 2048) (iu_meeting_url d),
          iu_notes := strip_patch (iu_notes d),
          iu_feedback := strip_patch (iu_feedback d)\<rparr>)
      else Inl RequestValidationError)"

section \<open>Accounts\<close>

record user_create =
  uc_username :: string
  uc_password :: string
  uc_email :: "string option"

definition normalize_email :: "string \<Rightarrow> string" where
  "normalize_email v = py_casefold (py_strip v)"

definition validate_user_create ::
    "(string \<Rightarrow> string option) \<Rightarrow> user_create \<Rightarrow> user_create result" where
  "validate_user_create email d =
     (case uc_email d of
        None \<Rightarrow> Inr d
      | Some raw \<Rightarrow> (case email raw of
            None \<Rightarrow> Inl RequestValidationError
          | Some v \<Rightarrow> Inr (d\<lparr>uc_email := Some (normalize_email v)\<rparr>)))"

definition validate_email_request :: "(string \<Rightarrow> string option) \<Rightarrow> string \<Rightarrow> string result" where
  "validate_email_request email raw =
     (case email raw of None \<Rightarrow> Inl RequestValidationError | Some v \<Rightarrow> Inr (normalize_email v))"

text \<open>\<open>new_password\<close>: at least 12 characters and at most 72 UTF-8 bytes (bcrypt's limit).\<close>

definition validate_password_reset_confirm ::
    "(string \<Rightarrow> nat) \<Rightarrow> string \<Rightarrow> string \<Rightarrow> (string \<times> string) result" where
  "validate_password_reset_confirm utf8_length token new_password =
     (if len_in 32 512 token \<and> 12 \<le> length new_password \<and> \<not> 72 < utf8_length new_password
      then Inr (token, new_password) else Inl RequestValidationError)"

definition validate_verification_confirm :: "string \<Rightarrow> string result" where
  "validate_verification_confirm token =
     (if len_in 32 512 token then Inr token else Inl RequestValidationError)"

definition mfa_password_ok :: "string \<Rightarrow> bool" where
  "mfa_password_ok s = len_in 1 72 s"

definition mfa_code_ok :: "string \<Rightarrow> bool" where
  "mfa_code_ok s = len_in 6 32 s"

definition mfa_challenge_token_ok :: "string \<Rightarrow> bool" where
  "mfa_challenge_token_ok s = len_in 32 512 s"

section \<open>What validation guarantees\<close>

text \<open>
  A company body that passes validation has a name that is not blank, is at most 120
  characters long and is already stripped, and its optional texts are absent or stripped and
  not blank; a second pass over the same texts changes nothing.
\<close>

theorem company_create_validated:
  assumes "validate_company_create url d = Inr v"
  shows "py_strip (cc_name v) = cc_name v \<and> len_in 1 120 (cc_name v) \<and>
    strip_optional (cc_industry v) = cc_industry v \<and> cc_industry v \<noteq> Some [] \<and>
    strip_optional (cc_location v) = cc_location v \<and> cc_location v \<noteq> Some [] \<and>
    strip_optional (cc_notes v) = cc_notes v \<and> cc_notes v \<noteq> Some []"
proof -
  have ne: "strip_optional x \<noteq> Some []" for x
    by (auto simp: strip_optional_def Let_def split: option.splits)
  have nm: "cc_name v = py_strip (cc_name d)" "py_strip (cc_name d) \<noteq> []" "len_in 1 120 (cc_name d)"
    using assms by (auto simp: validate_company_create_def strip_required_def Let_def
        split: if_splits sum.splits)
  moreover have "len_in 1 120 (cc_name v)"
    using nm length_strip_le [of "cc_name d"]
    by (auto simp: len_in_def) (metis Suc_leI length_greater_0_conv)
  moreover have "cc_industry v = strip_optional (cc_industry d)"
      "cc_location v = strip_optional (cc_location d)" "cc_notes v = strip_optional (cc_notes d)"
    using assms by (auto simp: validate_company_create_def split: if_splits sum.splits)
  ultimately show ?thesis using ne by simp
qed

definition sample_company :: company_create_body where
  "sample_company = \<lparr>cc_name = '' Acme '', cc_website = None, cc_industry = Some ''  '',
     cc_location = Some '' Oslo'', cc_notes = None\<rparr>"

lemma sample_company_validates:
  "validate_company_create (\<lambda>_ _. None) sample_company =
     Inr \<lparr>cc_name = ''Acme'', cc_website = None, cc_industry = None,
          cc_location = Some ''Oslo'', cc_notes = None\<rparr>"
  by code_simp

theorem company_create_validated_witness:
  "py_strip ''Acme'' = ''Acme'' \<and> len_in 1 120 ''Acme''"
  using company_create_validated [OF sample_company_validates] by simp

end
