(* ===== verification/Companies.thy ===== *)
theory Companies
  imports Writes Schemas
begin

text \<open>
  Companies: \<^verbatim>\<open>src/app/repositories/company_repository.py\<close> (queries) and
  \<^verbatim>\<open>src/app/services/company_service.py\<close> (operations). Each operation is stated over the
  whole state; its contract (atomic, isolated, keeps the database guarantees, invalidates the
  owner's cache entry) is an interpretation of \<open>owner_write\<close>.
\<close>

section \<open>Repository\<close>

definition company_get_owned :: "int \<Rightarrow> int \<Rightarrow> tables \<Rightarrow> company option" where
  "company_get_owned company_id owner tb =
     find (\<lambda>c. c_id c = company_id \<and> c_owner_id c = owner) (companies tb)"

definition get_by_normalized_name ::
    "int \<Rightarrow> string \<Rightarrow> int option \<Rightarrow> tables \<Rightarrow> company option" where
  "get_by_normalized_name owner name exclude_id tb =
     find (\<lambda>c. c_owner_id c = owner \<and> sql_lower_trim (c_name c) = py_casefold (py_strip name) \<and>
               (case exclude_id of None \<Rightarrow> True | Some x \<Rightarrow> c_id c \<noteq> x)) (companies tb)"

definition has_jobs :: "int \<Rightarrow> int \<Rightarrow> tables \<Rightarrow> bool" where
  "has_jobs company_id owner tb =
     (\<exists>j\<in>set (jobs tb). j_company_id j = company_id \<and> j_owner_id j = owner)"

text \<open>
  \<open>ilike pattern text\<close> is PostgreSQL's case-insensitive LIKE; it is false on NULL. An empty
  search text sets no filter.
\<close>

definition ilike_col :: "(string \<Rightarrow> string \<Rightarrow> bool) \<Rightarrow> string \<Rightarrow> string option \<Rightarrow> bool" where
  "ilike_col ilike pat col = (case col of None \<Rightarrow> False | Some s \<Rightarrow> ilike pat s)"

fun given :: "string option \<Rightarrow> (string \<Rightarrow> bool) \<Rightarrow> bool" where
  "given None P = True"
| "given (Some []) P = True"
| "given (Some s) P = P s"

record company_query =
  cq_keyword :: "string option"
  cq_industry :: "string option"
  cq_location :: "string option"

definition company_matches ::
    "(string \<Rightarrow> string \<Rightarrow> bool) \<Rightarrow> int \<Rightarrow> company_query \<Rightarrow> company \<Rightarrow> bool" where
  "company_matches ilike owner q c =
     (c_owner_id c = owner \<and>
      given (cq_keyword q) (\<lambda>k. let pat = ''%'' @ k @ ''%'' in
         ilike pat (c_name c) \<or> ilike_col ilike pat (c_industry c) \<or>
         ilike_col ilike pat (c_location c)) \<and>
      given (cq_industry q) (\<lambda>k. ilike_col ilike k (c_industry c)) \<and>
      given (cq_location q) (\<lambda>k. ilike_col ilike (''%'' @ k @ ''%'') (c_location c)))"

text \<open>Newest first, the larger identifier first among equals.\<close>

definition company_before :: "company \<Rightarrow> company \<Rightarrow> bool" where
  "company_before a b =
     (c_created_at b < c_created_at a \<or> (c_created_at a = c_created_at b \<and> c_id b \<le> c_id a))"

definition company_list_owned ::
    "(string \<Rightarrow> string \<Rightarrow> bool) \<Rightarrow> int \<Rightarrow> company_query \<Rightarrow> int \<Rightarrow> int \<Rightarrow> tables \<Rightarrow> company list \<times> int" where
  "company_list_owned ilike owner q page page_size tb =
     (let rows = filter (company_matches ilike owner q) (companies tb) in
      (page_of page page_size (sort_by company_before rows), int (length rows)))"

section \<open>Service\<close>

definition COMPANY_NOT_FOUND :: error where
  "COMPANY_NOT_FOUND = ResourceNotFoundError ''Company not found''"

definition COMPANY_NAME_CONFLICT :: error where
  "COMPANY_NAME_CONFLICT = ResourceConflictError ''A company with this name already exists''"

definition COMPANY_HAS_JOBS :: error where
  "COMPANY_HAS_JOBS = ResourceConflictError ''Company cannot be deleted while it has jobs''"

definition company_get :: "int \<Rightarrow> int \<Rightarrow> tables \<Rightarrow> company result" where
  "company_get owner company_id tb =
     (case company_get_owned company_id owner tb of
        None \<Rightarrow> Inl COMPANY_NOT_FOUND | Some c \<Rightarrow> Inr c)"

definition company_row :: "env \<Rightarrow> int \<Rightarrow> company_create_body \<Rightarrow> company" where
  "company_row env owner d =
     \<lparr>c_id = e_new_id env, c_owner_id = owner, c_name = cc_name d, c_website = cc_website d,
      c_industry = cc_industry d, c_location = cc_location d, c_notes = cc_notes d,
      c_created_at = e_created_at env, c_updated_at = e_updated_at env\<rparr>"

definition company_create_run ::
    "int \<Rightarrow> company_create_body \<Rightarrow> env \<Rightarrow> world \<Rightarrow> company result \<times> world" where
  "company_create_run owner d env w =
     (if get_by_normalized_name owner (cc_name d) None (db w) \<noteq> None
      then (Inl COMPANY_NAME_CONFLICT, w)
      else let company = company_row env owner d in
        commit_write env owner True COMPANY_NAME_CONFLICT (insert_company company (db w)) company w)"

definition company_create ::
    "int \<Rightarrow> company_create_body \<Rightarrow> env \<Rightarrow> world \<Rightarrow> company result \<times> world" where
  "company_create owner d env w =
     observe_business_write ''company'' ''create'' (company_create_run owner d env w)"

text \<open>
  \<open>setattr\<close> of the submitted fields; the flush issues an \<open>UPDATE\<close> (and the \<open>onupdate\<close>
  default) only when a value has changed.
\<close>

definition company_patched :: "company_update_body \<Rightarrow> company \<Rightarrow> company" where
  "company_patched d c = c
     \<lparr>c_name := patch_req (cu_name d) (c_name c),
      c_website := patch_opt (cu_website d) (c_website c),
      c_industry := patch_opt (cu_industry d) (c_industry c),
      c_location := patch_opt (cu_location d) (c_location c),
      c_notes := patch_opt (cu_notes d) (c_notes c)\<rparr>"

definition company_touched :: "env \<Rightarrow> company \<Rightarrow> company \<Rightarrow> company" where
  "company_touched env old new =
     (if new = old then old else new\<lparr>c_updated_at := e_updated_at env\<rparr>)"

definition company_update_run ::
    "int \<Rightarrow> int \<Rightarrow> company_update_body \<Rightarrow> env \<Rightarrow> world \<Rightarrow> company result \<times> world" where
  "company_update_run owner company_id d env w =
     (case company_get owner company_id (db w) of
        Inl e \<Rightarrow> (Inl e, w)
      | Inr company \<Rightarrow>
          if (case cu_name d of
                Val new_name \<Rightarrow>
                  get_by_normalized_name owner new_name (Some (c_id company)) (db w) \<noteq> None
              | _ \<Rightarrow> False)
          then (Inl COMPANY_NAME_CONFLICT, w)
          else let company' = company_touched env company (company_patched d company) in
            commit_write env owner True COMPANY_NAME_CONFLICT
              (if company' = company then Some (db w) else update_company company' (db w))
              company' w)"

definition company_update ::
    "int \<Rightarrow> int \<Rightarrow> company_update_body \<Rightarrow> env \<Rightarrow> world \<Rightarrow> company result \<times> world" where
  "company_update owner company_id d env w =
     observe_business_write ''company'' ''update'' (company_update_run owner company_id d env w)"

definition company_delete_run :: "int \<Rightarrow> int \<Rightarrow> env \<Rightarrow> world \<Rightarrow> unit result \<times> world" where
  "company_delete_run owner company_id env w =
     (case company_get owner company_id (db w) of
        Inl e \<Rightarrow> (Inl e, w)
      | Inr company \<Rightarrow>
          if has_jobs (c_id company) owner (db w) then (Inl COMPANY_HAS_JOBS, w)
          else commit_write env owner False COMPANY_HAS_JOBS (delete_company company (db w)) () w)"

definition company_delete :: "int \<Rightarrow> int \<Rightarrow> env \<Rightarrow> world \<Rightarrow> unit result \<times> world" where
  "company_delete owner company_id env w =
     observe_business_write ''company'' ''delete'' (company_delete_run owner company_id env w)"

lemmas company_errors = COMPANY_NOT_FOUND_def COMPANY_NAME_CONFLICT_def COMPANY_HAS_JOBS_def

section \<open>Lemmas\<close>

lemma company_get_Inr:
  "company_get owner cid tb = Inr c \<Longrightarrow> c \<in> set (companies tb) \<and> c_id c = cid \<and> c_owner_id c = owner"
  by (auto simp: company_get_def company_get_owned_def split: option.splits dest!: find_Some)

lemma company_get_iff:
  assumes "distinct (map c_id (companies tb))"
  shows "company_get owner cid tb = Inr c \<longleftrightarrow>
    c \<in> set (companies tb) \<and> c_id c = cid \<and> c_owner_id c = owner"
proof
  assume c: "c \<in> set (companies tb) \<and> c_id c = cid \<and> c_owner_id c = owner"
  with find_cong_key [OF assms, of c cid "\<lambda>c. c_owner_id c = owner"]
  show "company_get owner cid tb = Inr c" by (simp add: company_get_def company_get_owned_def)
qed (rule company_get_Inr)

lemma company_touched_ids [simp]:
  "c_id (company_touched env c (company_patched d c)) = c_id c"
  "c_owner_id (company_touched env c (company_patched d c)) = c_owner_id c"
  by (simp_all add: company_touched_def company_patched_def)

lemma company_create_via: "writes_via env owner w (company_create_run owner d env w)"
proof -
  have "keeps owner (db w) tb'" if "insert_company (company_row env owner d) (db w) = Some tb'" for tb'
    using keeps_insert_company [OF that] by (simp add: company_row_def)
  then show ?thesis by (simp add: company_create_run_def Let_def writes_via_commit)
qed

lemma company_update_via: "writes_via env owner w (company_update_run owner cid d env w)"
proof (cases "company_get owner cid (db w)")
  case (Inr c)
  let ?c = "company_touched env c (company_patched d c)"
  have c: "c \<in> set (companies (db w))" "c_owner_id c = owner"
    using company_get_Inr [OF Inr] by auto
  have "keeps owner (db w) tb'" if "update_company ?c (db w) = Some tb'" for tb'
    using keeps_update_company [OF that replacesI [OF c(1)]] c by simp
  then have "writes_via env owner w (commit_write env owner True COMPANY_NAME_CONFLICT
      (if ?c = c then Some (db w) else update_company ?c (db w)) ?c w)"
    by (intro writes_via_commit) (auto split: if_splits)
  then show ?thesis by (simp add: company_update_run_def Inr Let_def)
qed (simp add: company_update_run_def)

lemma company_delete_via: "writes_via env owner w (company_delete_run owner cid env w)"
proof (cases "company_get owner cid (db w)")
  case (Inr c)
  have c: "c \<in> set (companies (db w))" "c_owner_id c = owner"
    using company_get_Inr [OF Inr] by auto
  have "keeps owner (db w) tb'" if "delete_company c (db w) = Some tb'" for tb'
    using keeps_delete_company [OF that c(1)] c by simp
  then show ?thesis by (simp add: company_delete_run_def Inr writes_via_commit)
qed (simp add: company_delete_run_def)

interpretation company_create: owner_write "company_create owner d" owner
  for owner :: int and d :: company_create_body
  unfolding company_create_def by (rule writes_via_contract [OF company_create_via])

interpretation company_update: owner_write "company_update owner cid d" owner
  for owner cid :: int and d :: company_update_body
  unfolding company_update_def by (rule writes_via_contract [OF company_update_via])

interpretation company_delete: owner_write "company_delete owner cid" owner
  for owner cid :: int
  unfolding company_delete_def by (rule writes_via_contract [OF company_delete_via])

section \<open>The name check and the unique index\<close>

text \<open>
  The service compares \<open>lower(trim(name))\<close> in the database with
  \<open>name.strip().casefold()\<close> in Python; the unique index compares \<open>lower(trim(name))\<close> of two
  rows. For a stripped name they agree.
\<close>

lemma name_check_exact:
  assumes "py_strip (c_name c) = c_name c" and "c_id c \<notin> c_id ` set (companies tb)"
  shows "get_by_normalized_name (c_owner_id c) (c_name c) None tb \<noteq> None \<longleftrightarrow>
    \<not> agrees_with c_id company_agree c (companies tb)"
proof -
  have nm: "sql_lower_trim (c_name c) = py_casefold (c_name c)"
    using sql_lower_trim_strip [of "c_name c"] assms(1) by simp
  have "get_by_normalized_name (c_owner_id c) (c_name c) None tb = None \<longleftrightarrow>
      (\<forall>x\<in>set (companies tb). \<not> (c_owner_id x = c_owner_id c \<and>
         sql_lower_trim (c_name x) = py_casefold (c_name c)))"
    unfolding get_by_normalized_name_def find_none_iff by (simp add: assms(1))
  also have "\<dots> \<longleftrightarrow> agrees_with c_id company_agree c (companies tb)"
  proof -
    have "c_id x \<noteq> c_id c" if "x \<in> set (companies tb)" for x
      using that assms(2) by (metis image_eqI)
    then show ?thesis unfolding agrees_with_def company_agree_def nm by metis
  qed
  finally show ?thesis by simp
qed

lemma name_check_exact_update:
  assumes "py_strip (c_name c) = c_name c"
  shows "get_by_normalized_name (c_owner_id c) (c_name c) (Some (c_id c)) tb \<noteq> None \<longleftrightarrow>
    \<not> agrees_with c_id company_agree c (companies tb)"
proof -
  have nm: "sql_lower_trim (c_name c) = py_casefold (c_name c)"
    using sql_lower_trim_strip [of "c_name c"] assms(1) by simp
  have "get_by_normalized_name (c_owner_id c) (c_name c) (Some (c_id c)) tb = None \<longleftrightarrow>
      (\<forall>x\<in>set (companies tb). \<not> (c_owner_id x = c_owner_id c \<and>
         sql_lower_trim (c_name x) = py_casefold (c_name c) \<and> c_id x \<noteq> c_id c))"
    unfolding get_by_normalized_name_def find_none_iff by (simp add: assms(1))
  also have "\<dots> \<longleftrightarrow> agrees_with c_id company_agree c (companies tb)"
    unfolding agrees_with_def company_agree_def nm by metis
  finally show ?thesis by simp
qed

section \<open>Properties\<close>

text \<open>
  With an existing owner, a fresh identifier and no database failure, creating a
  company raises the name conflict exactly when the owner already has a company whose trimmed,
  lower-cased name equals the requested one; the database is then unchanged. Otherwise it
  returns the new row and appends exactly that row. The service's own check and the unique
  index never disagree, so no integrity error is left to translate.
\<close>

theorem company_create_complete:
  assumes "user_exists (db w) owner" and "e_new_id env \<notin> c_id ` set (companies (db w))" and "e_fault env = None"
    and "py_strip (cc_name d) = cc_name d"
  shows "company_create owner d env w =
    (if \<exists>c\<in>set (companies (db w)). c_owner_id c = owner \<and>
          sql_lower_trim (c_name c) = py_casefold (cc_name d)
     then (Inl COMPANY_NAME_CONFLICT,
           w\<lparr>biz_ops := biz_ops w @ [(''company'', ''create'', ''conflict'')]\<rparr>)
     else observe_business_write ''company'' ''create''
         (Inr (company_row env owner d), invalidate_dashboard_cache env owner
            (w\<lparr>db := (db w)\<lparr>companies := companies (db w) @ [company_row env owner d]\<rparr>\<rparr>)))"
proof -
  let ?r = "company_row env owner d"
  have r: "c_owner_id ?r = owner" "c_name ?r = cc_name d" "c_id ?r = e_new_id env"
    by (simp_all add: company_row_def)
  have chk: "get_by_normalized_name owner (cc_name d) None (db w) \<noteq> None \<longleftrightarrow>
      \<not> agrees_with c_id company_agree ?r (companies (db w))"
    using name_check_exact [of ?r "db w"] assms(2,4) r by simp
  have ex: "get_by_normalized_name owner (cc_name d) None (db w) \<noteq> None \<longleftrightarrow>
      (\<exists>c\<in>set (companies (db w)). c_owner_id c = owner \<and>
          sql_lower_trim (c_name c) = py_casefold (cc_name d))"
    unfolding get_by_normalized_name_def find_none_iff by (simp add: assms(4))
  show ?thesis
  proof (cases "get_by_normalized_name owner (cc_name d) None (db w) = None")
    case True
    then have "insert_company ?r (db w) =
        Some ((db w)\<lparr>companies := companies (db w) @ [?r]\<rparr>)"
      using chk assms(1,2) by (simp add: insert_company_def r)
    then show ?thesis using True ex assms(3)
      by (simp add: company_create_def company_create_run_def observe_business_write_def Let_def)
  next
    case False
    then show ?thesis using ex
      by (simp add: company_create_def company_create_run_def observe_business_write_def
          COMPANY_NAME_CONFLICT_def)
  qed
qed

text \<open>The owner 1 has the company ''acme'': creating '' ACME '' conflicts, ''Beta'' is created.\<close>

definition beta_body :: company_create_body where
  "beta_body = \<lparr>cc_name = ''Beta'', cc_website = None, cc_industry = None, cc_location = None,
     cc_notes = None\<rparr>"

lemma sample_company_create:
  "user_exists (db sample_world) 1 \<and> e_new_id sample_env \<notin> c_id ` set (companies (db sample_world)) \<and>
   e_fault sample_env = None \<and> py_strip (cc_name beta_body) = cc_name beta_body \<and>
   \<not> (\<exists>c\<in>set (companies (db sample_world)). c_owner_id c = 1 \<and>
          sql_lower_trim (c_name c) = py_casefold (cc_name beta_body))"
  by code_simp

theorem company_create_complete_witness:
  "fst (company_create 1 beta_body sample_env sample_world) =
     Inr (company_row sample_env 1 beta_body)"
  using company_create_complete [of sample_world 1 sample_env beta_body] sample_company_create
  by simp

end
