(* ===== verification/Jobs.thy ===== *)
theory Jobs
  imports Companies
begin

text \<open>
  Jobs: \<^verbatim>\<open>src/app/repositories/job_repository.py\<close> (queries) and
  \<^verbatim>\<open>src/app/services/job_service.py\<close> (operations), with the interpretation of the owner's
  write contract for each operation. A required column's patch is never \<open>null\<close>: the body's
  validator rejects it.
\<close>

section \<open>Repository\<close>

datatype job_sort_field =
  JobByCreatedAt | JobByUpdatedAt | JobByTitle | JobBySalaryMin | JobBySalaryMax

fun job_sort_column :: "job_sort_field \<Rightarrow> job \<Rightarrow> sort_key" where
  "job_sort_column JobByCreatedAt j = IntKey (j_created_at j)"
| "job_sort_column JobByUpdatedAt j = IntKey (j_updated_at j)"
| "job_sort_column JobByTitle j = TextKey (j_title j)"
| "job_sort_column JobBySalaryMin j = opt_key (j_salary_min j)"
| "job_sort_column JobBySalaryMax j = opt_key (j_salary_max j)"

definition job_get_owned :: "int \<Rightarrow> int \<Rightarrow> tables \<Rightarrow> job option" where
  "job_get_owned job_id owner tb =
     find (\<lambda>j. j_id j = job_id \<and> j_owner_id j = owner) (jobs tb)"

definition has_applications :: "int \<Rightarrow> int \<Rightarrow> tables \<Rightarrow> bool" where
  "has_applications job_id owner tb =
     (\<exists>a\<in>set (applications tb). a_job_id a = job_id \<and> a_owner_id a = owner)"

record job_query =
  jq_company_id :: "int option"
  jq_status :: "job_status option"
  jq_work_mode :: "work_mode option"
  jq_keyword :: "string option"
  jq_sort_by :: job_sort_field
  jq_sort_order :: sort_order

definition job_matches ::
    "(string \<Rightarrow> string \<Rightarrow> bool) \<Rightarrow> int \<Rightarrow> job_query \<Rightarrow> job \<Rightarrow> bool" where
  "job_matches ilike owner q j =
     (j_owner_id j = owner \<and>
      opt_ok (\<lambda>c. j_company_id j = c) (jq_company_id q) \<and>
      opt_ok (\<lambda>s. j_status j = s) (jq_status q) \<and>
      opt_ok (\<lambda>m. j_work_mode j = m) (jq_work_mode q) \<and>
      given (jq_keyword q) (\<lambda>k. let pat = ''%'' @ k @ ''%'' in
         ilike pat (j_title j) \<or> ilike_col ilike pat (j_location j) \<or>
         ilike_col ilike pat (j_source j)))"

definition job_order :: "(string \<Rightarrow> string \<Rightarrow> bool) \<Rightarrow> job_query \<Rightarrow> job \<Rightarrow> job \<Rightarrow> bool" where
  "job_order coll q =
     row_before (key_le coll) (jq_sort_order q) (job_sort_column (jq_sort_by q)) j_id"

definition job_list_owned ::
    "(string \<Rightarrow> string \<Rightarrow> bool) \<Rightarrow> (string \<Rightarrow> string \<Rightarrow> bool) \<Rightarrow> int \<Rightarrow> job_query \<Rightarrow> int \<Rightarrow> int \<Rightarrow> tables \<Rightarrow>
     job list \<times> int" where
  "job_list_owned ilike coll owner q page page_size tb =
     (let rows = filter (job_matches ilike owner q) (jobs tb) in
      (page_of page page_size (sort_by (job_order coll q) rows), int (length rows)))"

section \<open>Service\<close>

definition JOB_NOT_FOUND :: error where
  "JOB_NOT_FOUND = ResourceNotFoundError ''Job not found''"

definition JOB_CONFLICT :: error where
  "JOB_CONFLICT = ResourceConflictError ''Job conflicts with an existing resource''"

definition JOB_HAS_APPLICATIONS :: error where
  "JOB_HAS_APPLICATIONS = ResourceConflictError ''Job cannot be deleted while it has applications''"

definition SALARY_CONFLICT :: error where
  "SALARY_CONFLICT = ResourceConflictError ''salary_min cannot exceed salary_max''"

definition require_owned_company :: "int \<Rightarrow> int \<Rightarrow> tables \<Rightarrow> unit result" where
  "require_owned_company company_id owner tb =
     (case company_get_owned company_id owner tb of
        None \<Rightarrow> Inl COMPANY_NOT_FOUND | Some _ \<Rightarrow> Inr ())"

definition job_get :: "int \<Rightarrow> int \<Rightarrow> tables \<Rightarrow> job result" where
  "job_get owner job_id tb =
     (case job_get_owned job_id owner tb of None \<Rightarrow> Inl JOB_NOT_FOUND | Some j \<Rightarrow> Inr j)"

definition job_row :: "env \<Rightarrow> int \<Rightarrow> job_create_body \<Rightarrow> job" where
  "job_row env owner d =
     \<lparr>j_id = e_new_id env, j_owner_id = owner, j_company_id = jc_company_id d,
      j_title = jc_title d, j_employment_type = jc_employment_type d,
      j_work_mode = jc_work_mode d, j_location = jc_location d, j_source = jc_source d,
      j_url = jc_url d, j_salary_min = jc_salary_min d, j_salary_max = jc_salary_max d,
      j_salary_currency = jc_salary_currency d, j_description = jc_description d,
      j_status = jc_status d, j_created_at = e_created_at env, j_updated_at = e_updated_at env\<rparr>"

definition job_create_run :: "int \<Rightarrow> job_create_body \<Rightarrow> env \<Rightarrow> world \<Rightarrow> job result \<times> world" where
  "job_create_run owner d env w =
     (case require_owned_company (jc_company_id d) owner (db w) of
        Inl e \<Rightarrow> (Inl e, w)
      | Inr _ \<Rightarrow> let job = job_row env owner d in
          commit_write env owner True JOB_CONFLICT (insert_job job (db w)) job w)"

definition job_create :: "int \<Rightarrow> job_create_body \<Rightarrow> env \<Rightarrow> world \<Rightarrow> job result \<times> world" where
  "job_create owner d env w =
     observe_business_write ''job'' ''create'' (job_create_run owner d env w)"

definition job_patched :: "job_update_body \<Rightarrow> job \<Rightarrow> job" where
  "job_patched d j = j
     \<lparr>j_company_id := patch_req (ju_company_id d) (j_company_id j),
      j_title := patch_req (ju_title d) (j_title j),
      j_employment_type := patch_req (ju_employment_type d) (j_employment_type j),
      j_work_mode := patch_req (ju_work_mode d) (j_work_mode j),
      j_location := patch_opt (ju_location d) (j_location j),
      j_source := patch_opt (ju_source d) (j_source j),
      j_url := patch_opt (ju_url d) (j_url j),
      j_salary_min := patch_opt (ju_salary_min d) (j_salary_min j),
      j_salary_max := patch_opt (ju_salary_max d) (j_salary_max j),
      j_salary_currency := patch_req (ju_salary_currency d) (j_salary_currency j),
      j_description := patch_opt (ju_description d) (j_description j),
      j_status := patch_req (ju_status d) (j_status j)\<rparr>"

definition job_touched :: "env \<Rightarrow> job \<Rightarrow> job \<Rightarrow> job" where
  "job_touched env old new = (if new = old then old else new\<lparr>j_updated_at := e_updated_at env\<rparr>)"

definition job_update_run ::
    "int \<Rightarrow> int \<Rightarrow> job_update_body \<Rightarrow> env \<Rightarrow> world \<Rightarrow> job result \<times> world" where
  "job_update_run owner job_id d env w =
     (case job_get owner job_id (db w) of
        Inl e \<Rightarrow> (Inl e, w)
      | Inr job \<Rightarrow>
         (case (case ju_company_id d of
                  Val company_id \<Rightarrow> require_owned_company company_id owner (db w)
                | _ \<Rightarrow> Inr ()) of
            Inl e \<Rightarrow> (Inl e, w)
          | Inr _ \<Rightarrow>
             (let salary_min = patch_opt (ju_salary_min d) (j_salary_min job);
                  salary_max = patch_opt (ju_salary_max d) (j_salary_max job) in
              if \<not> range_ok salary_min salary_max then (Inl SALARY_CONFLICT, w)
              else let job' = job_touched env job (job_patched d job) in
                commit_write env owner True JOB_CONFLICT
                  (if job' = job then Some (db w) else update_job job' (db w)) job' w)))"

definition job_update :: "int \<Rightarrow> int \<Rightarrow> job_update_body \<Rightarrow> env \<Rightarrow> world \<Rightarrow> job result \<times> world" where
  "job_update owner job_id d env w =
     observe_business_write ''job'' ''update'' (job_update_run owner job_id d env w)"

definition job_delete_run :: "int \<Rightarrow> int \<Rightarrow> env \<Rightarrow> world \<Rightarrow> unit result \<times> world" where
  "job_delete_run owner job_id env w =
     (case job_get owner job_id (db w) of
        Inl e \<Rightarrow> (Inl e, w)
      | Inr job \<Rightarrow>
          if has_applications (j_id job) owner (db w) then (Inl JOB_HAS_APPLICATIONS, w)
          else commit_write env owner False JOB_HAS_APPLICATIONS (delete_job job (db w)) () w)"

definition job_delete :: "int \<Rightarrow> int \<Rightarrow> env \<Rightarrow> world \<Rightarrow> unit result \<times> world" where
  "job_delete owner job_id env w =
     observe_business_write ''job'' ''delete'' (job_delete_run owner job_id env w)"

lemmas job_errors = JOB_NOT_FOUND_def JOB_CONFLICT_def JOB_HAS_APPLICATIONS_def
  SALARY_CONFLICT_def COMPANY_NOT_FOUND_def

section \<open>Lemmas\<close>

lemma job_get_Inr:
  "job_get owner jid tb = Inr j \<Longrightarrow> j \<in> set (jobs tb) \<and> j_id j = jid \<and> j_owner_id j = owner"
  by (auto simp: job_get_def job_get_owned_def split: option.splits dest!: find_Some)

lemma require_owned_company_Inr:
  "require_owned_company cid owner tb = Inr u \<Longrightarrow> company_exists tb owner cid"
  by (auto simp: require_owned_company_def company_get_owned_def company_exists_def
      split: option.splits dest!: find_Some)

lemma require_owned_company_Inl:
  "require_owned_company cid owner tb = Inl e \<Longrightarrow> e = COMPANY_NOT_FOUND"
  by (auto simp: require_owned_company_def split: option.splits)

lemma job_touched_ids [simp]:
  "j_id (job_touched env j (job_patched d j)) = j_id j"
  "j_owner_id (job_touched env j (job_patched d j)) = j_owner_id j"
  by (simp_all add: job_touched_def job_patched_def)

lemma job_create_via: "writes_via env owner w (job_create_run owner d env w)"
proof (cases "require_owned_company (jc_company_id d) owner (db w)")
  case (Inr u)
  have "keeps owner (db w) tb'" if "insert_job (job_row env owner d) (db w) = Some tb'" for tb'
    using keeps_insert_job [OF that] by (simp add: job_row_def)
  then show ?thesis by (simp add: job_create_run_def Inr Let_def writes_via_commit)
qed (simp add: job_create_run_def)

lemma job_update_via: "writes_via env owner w (job_update_run owner jid d env w)"
proof (cases "job_get owner jid (db w)")
  case (Inr j)
  let ?j = "job_touched env j (job_patched d j)"
  have j: "j \<in> set (jobs (db w))" "j_owner_id j = owner"
    using job_get_Inr [OF Inr] by auto
  have "keeps owner (db w) tb'" if "update_job ?j (db w) = Some tb'" for tb'
    using keeps_update_job [OF that replacesI [OF j(1)]] j by simp
  then have "writes_via env owner w (commit_write env owner True JOB_CONFLICT
      (if ?j = j then Some (db w) else update_job ?j (db w)) ?j w)"
    by (intro writes_via_commit) (auto split: if_splits)
  then show ?thesis by (auto simp: job_update_run_def Inr Let_def split: sum.splits)
qed (simp add: job_update_run_def)

lemma job_delete_via: "writes_via env owner w (job_delete_run owner jid env w)"
proof (cases "job_get owner jid (db w)")
  case (Inr j)
  have j: "j \<in> set (jobs (db w))" "j_owner_id j = owner"
    using job_get_Inr [OF Inr] by auto
  have "keeps owner (db w) tb'" if "delete_job j (db w) = Some tb'" for tb'
    using keeps_delete_job [OF that j(1)] j by simp
  then show ?thesis by (simp add: job_delete_run_def Inr writes_via_commit)
qed (simp add: job_delete_run_def)

interpretation job_create: owner_write "job_create owner d" owner
  for owner :: int and d :: job_create_body
  unfolding job_create_def by (rule writes_via_contract [OF job_create_via])

interpretation job_update: owner_write "job_update owner jid d" owner
  for owner jid :: int and d :: job_update_body
  unfolding job_update_def by (rule writes_via_contract [OF job_update_via])

interpretation job_delete: owner_write "job_delete owner jid" owner
  for owner jid :: int
  unfolding job_delete_def by (rule writes_via_contract [OF job_delete_via])

text \<open>A validated body turns a checked row into a checked row, unless the salaries cross.\<close>

lemma job_patched_check:
  assumes "validate_job_update url raw = Inr d" and "job_check j"
    and "range_ok (patch_opt (ju_salary_min d) (j_salary_min j))
           (patch_opt (ju_salary_max d) (j_salary_max j))"
  shows "job_check (job_patched d j)"
proof -
  have d: "required_ok currency_ok (ju_salary_currency raw)"
      "nullable_ok salary_ok (ju_salary_min raw)" "nullable_ok salary_ok (ju_salary_max raw)"
      "ju_salary_currency d = map_patch py_upper (ju_salary_currency raw)"
      "ju_salary_min d = ju_salary_min raw" "ju_salary_max d = ju_salary_max raw"
    using assms(1) by (auto simp: validate_job_update_def split: if_splits)
  have "length (patch_req (ju_salary_currency d) (j_salary_currency j)) = 3 \<and>
      list_all upper_letter (patch_req (ju_salary_currency d) (j_salary_currency j))"
    using d(1,4) assms(2) currency_upper
    by (cases "ju_salary_currency raw") (auto simp: job_check_def)
  moreover have "nonneg (patch_opt p old)"
    if "nullable_ok salary_ok p" "nonneg old"
      and "nonneg = (\<lambda>x. case x of None \<Rightarrow> True | Some m \<Rightarrow> 0 \<le> m)"
    for p and old :: "int option" and nonneg
    using that by (cases p) (auto simp: salary_ok_def)
  ultimately show ?thesis
    using assms(2,3) d(2,3) unfolding d(5,6)
    by (auto simp: job_check_def job_patched_def d(5,6) range_ok_def not_less
        split: option.splits)
qed

lemma job_check_touched: "job_check k \<Longrightarrow> job_check j \<Longrightarrow> job_check (job_touched env j k)"
  by (simp add: job_touched_def job_check_def split: option.splits)

section \<open>Properties\<close>

text \<open>
  On a consistent database, without a database failure, updating a job with a validated
  body raises "Job not found" when the owner has no such job, "Company not found" when the body
  names a company the owner does not have, the salary conflict when the merged range is
  crossed, and otherwise returns the merged row; the database constraints never fire.
\<close>

theorem job_update_complete:
  assumes "db_ok (db w)" and "validate_job_update url raw = Inr d" and "e_fault env = None"
  shows "fst (job_update owner jid d env w) =
    (case job_get owner jid (db w) of
       Inl e \<Rightarrow> Inl JOB_NOT_FOUND
     | Inr j \<Rightarrow>
        if \<exists>cid. ju_company_id d = Val cid \<and> \<not> company_exists (db w) owner cid
        then Inl COMPANY_NOT_FOUND
        else if \<not> range_ok (patch_opt (ju_salary_min d) (j_salary_min j))
                  (patch_opt (ju_salary_max d) (j_salary_max j))
        then Inl SALARY_CONFLICT
        else Inr (job_touched env j (job_patched d j)))"
proof (cases "job_get owner jid (db w)")
  case (Inl e)
  then show ?thesis by (auto simp: job_update_def job_update_run_def job_get_def
        split: option.splits)
next
  case (Inr j)
  have j: "j \<in> set (jobs (db w))" "j_owner_id j = owner" using job_get_Inr [OF Inr] by auto
  have chk: "job_check j" "company_exists (db w) owner (j_company_id j)"
    using assms(1) j by (auto simp: db_ok_def checks_ok_def refs_ok_def)
  let ?cmp = "case ju_company_id d of
    Val company_id \<Rightarrow> require_owned_company company_id owner (db w) | _ \<Rightarrow> Inr ()"
  let ?j = "job_touched env j (job_patched d j)"
  have req: "require_owned_company cid owner (db w) =
      (if company_exists (db w) owner cid then Inr () else Inl COMPANY_NOT_FOUND)" for cid
    using find_none_iff [of "\<lambda>c. c_id c = cid \<and> c_owner_id c = owner" "companies (db w)"]
    by (auto simp: require_owned_company_def company_get_owned_def company_exists_def
        split: option.splits dest: find_Some)
  have upd: "update_job ?j (db w) \<noteq> None" if "?j \<noteq> j" "?cmp = Inr ()"
      "range_ok (patch_opt (ju_salary_min d) (j_salary_min j))
         (patch_opt (ju_salary_max d) (j_salary_max j))"
  proof -
    have "job_check ?j"
      using job_patched_check [OF assms(2) chk(1) that(3)] chk(1) by (rule job_check_touched)
    moreover have "company_exists (db w) owner (j_company_id ?j)"
      using that chk(2) by (cases "ju_company_id d")
        (auto simp: job_touched_def job_patched_def req split: if_splits)
    ultimately show ?thesis by (simp add: update_job_def j(2))
  qed
  show ?thesis
  proof (cases "?cmp")
    case (Inl e)
    then show ?thesis using Inr by (cases "ju_company_id d")
      (auto simp: job_update_def job_update_run_def req split: if_splits)
  next
    case ok: (Inr u)
    then have "\<not> (\<exists>cid. ju_company_id d = Val cid \<and> \<not> company_exists (db w) owner cid)"
      by (auto simp: req split: if_splits)
    then show ?thesis using Inr ok upd assms(3)
      by (auto simp: job_update_def job_update_run_def Let_def commit_write_def
          split: option.splits)
  qed
qed

definition sample_job_update :: job_update_body where
  "sample_job_update = \<lparr>ju_company_id = Unset, ju_title = Unset, ju_employment_type = Unset,
     ju_work_mode = Unset, ju_location = Unset, ju_source = Unset, ju_url = Unset,
     ju_salary_min = Val 15, ju_salary_max = Unset, ju_salary_currency = Val ''usd'',
     ju_description = Null, ju_status = Val PAUSED\<rparr>"

lemma sample_job_update_valid:
  "validate_job_update (\<lambda>_ _. None) sample_job_update =
     Inr (sample_job_update\<lparr>ju_salary_currency := Val ''USD''\<rparr>)"
  by code_simp

lemma sample_job_found:
  "job_get 1 20 sample_tables = Inr (hd (jobs sample_tables))"
  by code_simp

theorem job_update_complete_witness:
  "is_ok (fst (job_update 1 20 (sample_job_update\<lparr>ju_salary_currency := Val ''USD''\<rparr>)
     sample_env sample_world))"
proof -
  have "db_ok (db sample_world)" "e_fault sample_env = None"
    by (simp_all add: sample_world_def sample_db_ok sample_env_def)
  note spec = job_update_complete [OF this(1) sample_job_update_valid this(2), of 1 20]
  show ?thesis unfolding spec
    by (simp add: sample_world_def sample_job_found sample_job_update_def) code_simp
qed

text \<open>
  For every filter, sort field, direction and positive page size, the pages of a user's job
  list are consecutive pieces of one list that is sorted as requested (ties by descending
  identifier) and holds exactly the user's matching jobs; \<open>total\<close> is the length of that list.
\<close>

theorem job_list_pages:
  assumes "collation coll" and "0 < n"
    and "rows = filter (job_matches ilike owner q) (jobs tb)" and "length rows \<le> k * nat n"
  shows "let all = concat (map (\<lambda>p. fst (job_list_owned ilike coll owner q (int p + 1) n tb)) [0..<k])
    in sorted_wrt (job_order coll q) all \<and> set all = set rows \<and> length all = length rows \<and>
       (\<forall>p. snd (job_list_owned ilike coll owner q p n tb) = int (length all))"
proof -
  have "concat (map (\<lambda>p. fst (job_list_owned ilike coll owner q (int p + 1) n tb)) [0..<k]) =
      sort_by (job_order coll q) rows"
    using pages_cover [OF assms(2), of "sort_by (job_order coll q) rows" k] assms(3,4)
    by (simp add: job_list_owned_def Let_def)
  moreover have "sorted_wrt (job_order coll q) (sort_by (job_order coll q) rows)"
    unfolding job_order_def by (rule sorted_rows [OF assms(1)])
  ultimately show ?thesis using assms(3) by (simp add: job_list_owned_def Let_def)
qed

definition sample_job_query :: job_query where
  "sample_job_query = \<lparr>jq_company_id = None, jq_status = Some OPEN, jq_work_mode = None,
     jq_keyword = None, jq_sort_by = JobBySalaryMax, jq_sort_order = DESC\<rparr>"

theorem job_list_pages_witness:
  "fst (job_list_owned (\<lambda>_ _. False) (\<lambda>_ _. True) 1 sample_job_query 1 10 sample_tables) =
     jobs sample_tables"
proof -
  have rows: "filter (job_matches (\<lambda>_ _. False) 1 sample_job_query) (jobs sample_tables) =
      jobs sample_tables"
    by code_simp
  have "length (jobs sample_tables) = 1" by code_simp
  moreover have "collation (\<lambda>_ _. True)" by (simp add: collation_def)
  ultimately show ?thesis
    using job_list_pages [of "\<lambda>_ _. True" 10 "jobs sample_tables" "\<lambda>_ _. False" 1
        sample_job_query sample_tables 1] rows
    by (auto simp: job_list_owned_def Let_def page_of_def length_Suc_conv)
qed

end
