(* ===== verification/Applications.thy ===== *)
theory Applications
  imports Jobs
begin

text \<open>
  Applications: \<^verbatim>\<open>src/app/repositories/application_repository.py\<close> and
  \<^verbatim>\<open>src/app/services/application_service.py\<close>: the status machine, the operations, the
  status history they leave, and the invariant of an application's dates. The inner joins of
  the read models never drop a row (the foreign keys hold) and are left out of \<open>get_owned\<close>.
\<close>

section \<open>The status machine\<close>

fun ALLOWED_STATUS_TRANSITIONS :: "application_status \<Rightarrow> application_status list" where
  "ALLOWED_STATUS_TRANSITIONS SAVED = [APPLIED, WITHDRAWN]"
| "ALLOWED_STATUS_TRANSITIONS APPLIED = [SCREENING, REJECTED, WITHDRAWN]"
| "ALLOWED_STATUS_TRANSITIONS SCREENING = [INTERVIEW, REJECTED, WITHDRAWN]"
| "ALLOWED_STATUS_TRANSITIONS INTERVIEW = [OFFER, REJECTED, WITHDRAWN]"
| "ALLOWED_STATUS_TRANSITIONS OFFER = [ARCHIVED]"
| "ALLOWED_STATUS_TRANSITIONS REJECTED = [ARCHIVED]"
| "ALLOWED_STATUS_TRANSITIONS WITHDRAWN = [ARCHIVED]"
| "ALLOWED_STATUS_TRANSITIONS ARCHIVED = []"

text \<open>How many more changes a status can see: every allowed change lowers it.\<close>

fun status_rank :: "application_status \<Rightarrow> nat" where
  "status_rank SAVED = 5"
| "status_rank APPLIED = 4"
| "status_rank SCREENING = 3"
| "status_rank INTERVIEW = 2"
| "status_rank OFFER = 1"
| "status_rank REJECTED = 1"
| "status_rank WITHDRAWN = 1"
| "status_rank ARCHIVED = 0"

lemma allowed_rank:
  "t \<in> set (ALLOWED_STATUS_TRANSITIONS s) \<Longrightarrow> status_rank t < status_rank s"
  by (cases s) auto

lemma allowed_not_saved: "t \<in> set (ALLOWED_STATUS_TRANSITIONS s) \<Longrightarrow> t \<noteq> SAVED"
  by (cases s) auto

lemma allowed_neq: "t \<in> set (ALLOWED_STATUS_TRANSITIONS s) \<Longrightarrow> t \<noteq> s"
  using allowed_rank by fastforce

section \<open>Repository\<close>

datatype application_sort_field =
  AppByCreatedAt | AppByUpdatedAt | AppByAppliedAt | AppByDeadline | AppByNextActionAt | AppByPriority

fun application_sort_column :: "application_sort_field \<Rightarrow> application \<Rightarrow> sort_key" where
  "application_sort_column AppByCreatedAt a = IntKey (a_created_at a)"
| "application_sort_column AppByUpdatedAt a = IntKey (a_updated_at a)"
| "application_sort_column AppByAppliedAt a = opt_key (a_applied_at a)"
| "application_sort_column AppByDeadline a = opt_key (a_deadline a)"
| "application_sort_column AppByNextActionAt a = opt_key (a_next_action_at a)"
| "application_sort_column AppByPriority a = IntKey (a_priority a)"

definition application_get_owned :: "int \<Rightarrow> int \<Rightarrow> tables \<Rightarrow> application option" where
  "application_get_owned application_id owner tb =
     find (\<lambda>a. a_id a = application_id \<and> a_owner_id a = owner) (applications tb)"

text \<open>The same row under \<open>SELECT ... FOR UPDATE\<close>: the operation holds the row's lock.\<close>

definition application_get_owned_for_update :: "int \<Rightarrow> int \<Rightarrow> tables \<Rightarrow> application option" where
  "application_get_owned_for_update application_id owner tb =
     find (\<lambda>a. a_id a = application_id \<and> a_owner_id a = owner) (applications tb)"

definition get_by_job :: "int \<Rightarrow> int \<Rightarrow> tables \<Rightarrow> application option" where
  "get_by_job job_id owner tb =
     find (\<lambda>a. a_job_id a = job_id \<and> a_owner_id a = owner) (applications tb)"

definition has_interviews :: "int \<Rightarrow> int \<Rightarrow> tables \<Rightarrow> bool" where
  "has_interviews application_id owner tb =
     (\<exists>i\<in>set (interviews tb). i_application_id i = application_id \<and> i_owner_id i = owner)"

record application_query =
  aq_status :: "application_status option"
  aq_company_id :: "int option"
  aq_applied_from :: "date option"
  aq_applied_to :: "date option"
  aq_priority :: "int option"
  aq_next_action_before :: "datetime option"
  aq_sort_by :: application_sort_field
  aq_sort_order :: sort_order

text \<open>A comparison with a NULL column is not true.\<close>

definition sql_cmp :: "(int \<Rightarrow> bool) \<Rightarrow> int option \<Rightarrow> bool" where
  "sql_cmp P col = (case col of None \<Rightarrow> False | Some v \<Rightarrow> P v)"

definition application_matches :: "int \<Rightarrow> application_query \<Rightarrow> tables \<Rightarrow> application \<Rightarrow> bool" where
  "application_matches owner q tb a =
     (a_owner_id a = owner \<and>
      (\<exists>j\<in>set (jobs tb). j_id j = a_job_id a \<and>
         opt_ok (\<lambda>c. j_company_id j = c) (aq_company_id q)) \<and>
      opt_ok (\<lambda>s. a_status a = s) (aq_status q) \<and>
      opt_ok (\<lambda>d. sql_cmp (\<lambda>x. d \<le> x) (a_applied_at a)) (aq_applied_from q) \<and>
      opt_ok (\<lambda>d. sql_cmp (\<lambda>x. x \<le> d) (a_applied_at a)) (aq_applied_to q) \<and>
      opt_ok (\<lambda>p. a_priority a = p) (aq_priority q) \<and>
      opt_ok (\<lambda>t. sql_cmp (\<lambda>x. x \<le> t) (a_next_action_at a)) (aq_next_action_before q))"

definition application_order :: "application_query \<Rightarrow> application \<Rightarrow> application \<Rightarrow> bool" where
  "application_order q =
     row_before (key_le (\<lambda>_ _. True)) (aq_sort_order q) (application_sort_column (aq_sort_by q)) a_id"

definition application_list_owned ::
    "int \<Rightarrow> application_query \<Rightarrow> int \<Rightarrow> int \<Rightarrow> tables \<Rightarrow> application list \<times> int" where
  "application_list_owned owner q page page_size tb =
     (let rows = filter (application_matches owner q tb) (applications tb) in
      (page_of page page_size (sort_by (application_order q) rows), int (length rows)))"

definition history_before :: "history_row \<Rightarrow> history_row \<Rightarrow> bool" where
  "history_before x y =
     (h_changed_at x < h_changed_at y \<or> (h_changed_at x = h_changed_at y \<and> h_id x \<le> h_id y))"

definition list_history :: "int \<Rightarrow> tables \<Rightarrow> history_row list" where
  "list_history application_id tb =
     sort_by history_before (filter (\<lambda>h. h_application_id h = application_id) (histories tb))"

section \<open>Service\<close>

definition APPLICATION_NOT_FOUND :: error where
  "APPLICATION_NOT_FOUND = ResourceNotFoundError ''Application not found''"

definition APPLICATION_CONFLICT :: error where
  "APPLICATION_CONFLICT = ResourceConflictError ''An application for this job already exists''"

definition INVALID_STATUS_TRANSITION :: error where
  "INVALID_STATUS_TRANSITION = ResourceConflictError ''Invalid application status transition''"

definition INVALID_APPLICATION_DATES :: error where
  "INVALID_APPLICATION_DATES = ResourceConflictError ''deadline cannot be before applied_at''"

definition APPLICATION_HAS_INTERVIEWS :: error where
  "APPLICATION_HAS_INTERVIEWS =
     ResourceConflictError ''Application cannot be deleted while it has interviews''"

definition SAVED_HAS_DATE :: error where
  "SAVED_HAS_DATE = ResourceConflictError ''A saved application cannot have applied_at''"

definition ACTIVE_NEEDS_DATE :: error where
  "ACTIVE_NEEDS_DATE = ResourceConflictError ''An active application must have applied_at''"

definition application_get :: "int \<Rightarrow> int \<Rightarrow> tables \<Rightarrow> application result" where
  "application_get owner application_id tb =
     (case application_get_owned application_id owner tb of
        None \<Rightarrow> Inl APPLICATION_NOT_FOUND | Some a \<Rightarrow> Inr a)"

definition application_row ::
    "env \<Rightarrow> int \<Rightarrow> application_create_body \<Rightarrow> date option \<Rightarrow> application" where
  "application_row env owner d applied_at =
     \<lparr>a_id = e_new_id env, a_owner_id = owner, a_job_id = ac_job_id d, a_status = ac_status d,
      a_priority = ac_priority d, a_applied_at = applied_at, a_deadline = ac_deadline d,
      a_next_action_at = map_option as_utc (ac_next_action_at d), a_notes = ac_notes d,
      a_created_at = e_created_at env, a_updated_at = e_updated_at env\<rparr>"

definition initial_applied_at :: "env \<Rightarrow> application_create_body \<Rightarrow> date option" where
  "initial_applied_at env d =
     (if ac_status d = APPLIED \<and> ac_applied_at d = None then Some (date_of (e_now env))
      else ac_applied_at d)"

definition application_create_run ::
    "int \<Rightarrow> application_create_body \<Rightarrow> env \<Rightarrow> world \<Rightarrow> application result \<times> world" where
  "application_create_run owner d env w =
     (if job_get_owned (ac_job_id d) owner (db w) = None then (Inl JOB_NOT_FOUND, w)
      else if get_by_job (ac_job_id d) owner (db w) \<noteq> None then (Inl APPLICATION_CONFLICT, w)
      else let applied_at = initial_applied_at env d in
        if \<not> dates_ok applied_at (ac_deadline d) then (Inl INVALID_APPLICATION_DATES, w)
        else let application = application_row env owner d applied_at in
          commit_write env owner True APPLICATION_CONFLICT
            (insert_application application (db w)) application w)"

definition application_create ::
    "int \<Rightarrow> application_create_body \<Rightarrow> env \<Rightarrow> world \<Rightarrow> application result \<times> world" where
  "application_create owner d env w =
     observe_business_write ''application'' ''create'' (application_create_run owner d env w)"

definition application_patched :: "application_update_body \<Rightarrow> application \<Rightarrow> application" where
  "application_patched d a = a
     \<lparr>a_priority := patch_req (au_priority d) (a_priority a),
      a_applied_at := patch_opt (au_applied_at d) (a_applied_at a),
      a_deadline := patch_opt (au_deadline d) (a_deadline a),
      a_next_action_at := patch_opt (map_patch as_utc (au_next_action_at d)) (a_next_action_at a),
      a_notes := patch_opt (au_notes d) (a_notes a)\<rparr>"

definition application_touched :: "env \<Rightarrow> application \<Rightarrow> application \<Rightarrow> application" where
  "application_touched env old new =
     (if new = old then old else new\<lparr>a_updated_at := e_updated_at env\<rparr>)"

text \<open>\<open>update\<close> does not translate an integrity error: it is raised again as it is.\<close>

definition application_update_run ::
    "int \<Rightarrow> int \<Rightarrow> application_update_body \<Rightarrow> env \<Rightarrow> world \<Rightarrow> application result \<times> world" where
  "application_update_run owner application_id d env w =
     (case application_get owner application_id (db w) of
        Inl e \<Rightarrow> (Inl e, w)
      | Inr application \<Rightarrow>
         (let applied_at = patch_opt (au_applied_at d) (a_applied_at application);
              deadline = patch_opt (au_deadline d) (a_deadline application) in
          if \<not> dates_ok applied_at deadline then (Inl INVALID_APPLICATION_DATES, w)
          else if a_status application = SAVED \<and> applied_at \<noteq> None then (Inl SAVED_HAS_DATE, w)
          else if a_status application \<noteq> SAVED \<and> applied_at = None then (Inl ACTIVE_NEEDS_DATE, w)
          else let application' =
              application_touched env application (application_patched d application) in
            commit_write env owner True IntegrityError
              (if application' = application then Some (db w)
               else update_application application' (db w)) application' w))"

definition application_update ::
    "int \<Rightarrow> int \<Rightarrow> application_update_body \<Rightarrow> env \<Rightarrow> world \<Rightarrow> application result \<times> world" where
  "application_update owner application_id d env w =
     observe_business_write ''application'' ''update''
       (application_update_run owner application_id d env w)"

definition status_history_row ::
    "env \<Rightarrow> application \<Rightarrow> application_status \<Rightarrow> history_row" where
  "status_history_row env a target =
     \<lparr>h_id = e_new_id env, h_application_id = a_id a, h_from = a_status a, h_to = target,
      h_changed_at = e_created_at env\<rparr>"

definition with_status :: "env \<Rightarrow> application_status \<Rightarrow> application \<Rightarrow> application" where
  "with_status env target a = a
     \<lparr>a_status := target,
      a_applied_at := (if target = APPLIED \<and> a_applied_at a = None
                       then Some (date_of (e_now env)) else a_applied_at a),
      a_updated_at := e_updated_at env\<rparr>"

definition change_status_run ::
    "int \<Rightarrow> int \<Rightarrow> application_status \<Rightarrow> env \<Rightarrow> world \<Rightarrow> application result \<times> world" where
  "change_status_run owner application_id target env w =
     (case application_get_owned_for_update application_id owner (db w) of
        None \<Rightarrow> (Inl APPLICATION_NOT_FOUND, w)
      | Some application \<Rightarrow>
          if target \<notin> set (ALLOWED_STATUS_TRANSITIONS (a_status application))
          then (Inl INVALID_STATUS_TRANSITION, w)
          else let history = status_history_row env application target;
                   application' = with_status env target application in
            if target = APPLIED \<and> a_applied_at application = None \<and>
               \<not> dates_ok (a_applied_at application') (a_deadline application')
            then (Inl INVALID_APPLICATION_DATES, w)
            else commit_write env owner True IntegrityError
              (Option.bind (update_application application' (db w)) (insert_history history))
              application' w)"

definition change_status ::
    "int \<Rightarrow> int \<Rightarrow> application_status \<Rightarrow> env \<Rightarrow> world \<Rightarrow> application result \<times> world" where
  "change_status owner application_id target env w =
     observe_business_write ''application'' ''status_change''
       (change_status_run owner application_id target env w)"

definition application_history :: "int \<Rightarrow> int \<Rightarrow> tables \<Rightarrow> history_row list result" where
  "application_history owner application_id tb =
     (case application_get owner application_id tb of
        Inl e \<Rightarrow> Inl e | Inr a \<Rightarrow> Inr (list_history (a_id a) tb))"

definition application_delete_run :: "int \<Rightarrow> int \<Rightarrow> env \<Rightarrow> world \<Rightarrow> unit result \<times> world" where
  "application_delete_run owner application_id env w =
     (case application_get owner application_id (db w) of
        Inl e \<Rightarrow> (Inl e, w)
      | Inr application \<Rightarrow>
          if has_interviews (a_id application) owner (db w)
          then (Inl APPLICATION_HAS_INTERVIEWS, w)
          else commit_write env owner False APPLICATION_HAS_INTERVIEWS
            (delete_application application (db w)) () w)"

definition application_delete :: "int \<Rightarrow> int \<Rightarrow> env \<Rightarrow> world \<Rightarrow> unit result \<times> world" where
  "application_delete owner application_id env w =
     observe_business_write ''application'' ''delete''
       (application_delete_run owner application_id env w)"

section \<open>Lemmas\<close>

lemma application_get_Inr:
  "application_get owner aid tb = Inr a
    \<Longrightarrow> a \<in> set (applications tb) \<and> a_id a = aid \<and> a_owner_id a = owner"
  by (auto simp: application_get_def application_get_owned_def split: option.splits
      dest!: find_Some)

lemma get_for_update_Some:
  "application_get_owned_for_update aid owner tb = Some a
    \<Longrightarrow> a \<in> set (applications tb) \<and> a_id a = aid \<and> a_owner_id a = owner"
  by (auto simp: application_get_owned_for_update_def dest!: find_Some)

lemma application_touched_ids [simp]:
  "a_id (application_touched env a (application_patched d a)) = a_id a"
  "a_owner_id (application_touched env a (application_patched d a)) = a_owner_id a"
  "a_job_id (application_touched env a (application_patched d a)) = a_job_id a"
  "a_status (application_touched env a (application_patched d a)) = a_status a"
  by (simp_all add: application_touched_def application_patched_def)

lemma with_status_ids [simp]:
  "a_id (with_status env t a) = a_id a" "a_owner_id (with_status env t a) = a_owner_id a"
  "a_job_id (with_status env t a) = a_job_id a" "a_status (with_status env t a) = t"
  "a_priority (with_status env t a) = a_priority a" "a_deadline (with_status env t a) = a_deadline a"
  by (simp_all add: with_status_def)

lemma application_create_via: "writes_via env owner w (application_create_run owner d env w)"
proof -
  have "keeps owner (db w) tb'"
    if "insert_application (application_row env owner d x) (db w) = Some tb'" for x tb'
    using keeps_insert_application [OF that] by (simp add: application_row_def)
  then show ?thesis by (simp add: application_create_run_def Let_def writes_via_commit)
qed

lemma application_update_via:
  "writes_via env owner w (application_update_run owner aid d env w)"
proof (cases "application_get owner aid (db w)")
  case (Inr a)
  let ?a = "application_touched env a (application_patched d a)"
  have a: "a \<in> set (applications (db w))" "a_owner_id a = owner"
    using application_get_Inr [OF Inr] by auto
  have "keeps owner (db w) tb'" if "update_application ?a (db w) = Some tb'" for tb'
    using keeps_update_application [OF that replacesI [OF a(1)]] a by simp
  then have "writes_via env owner w (commit_write env owner True IntegrityError
      (if ?a = a then Some (db w) else update_application ?a (db w)) ?a w)"
    by (intro writes_via_commit) (auto split: if_splits)
  then show ?thesis by (simp add: application_update_run_def Inr Let_def)
qed (simp add: application_update_run_def)

lemma keeps_status_change:
  assumes a: "a \<in> set (applications tb)" and own: "a_owner_id a = owner"
    and upd: "Option.bind (update_application (with_status env t a) tb)
                (insert_history (status_history_row env a t)) = Some tb'"
  shows "keeps owner tb tb'"
proof -
  obtain tb1 where tb1: "update_application (with_status env t a) tb = Some tb1"
    and ins: "insert_history (status_history_row env a t) tb1 = Some tb'"
    using upd by (cases "update_application (with_status env t a) tb") auto
  have "with_status env t a \<in> set (applications tb1)"
    using tb1 a by (auto simp: update_application_def put_row_def split: if_splits)
  then have "application_exists tb1 owner (h_application_id (status_history_row env a t))"
    using own unfolding application_exists_def status_history_row_def
    by (intro bexI [where x = "with_status env t a"]) simp_all
  from keeps_insert_history [OF ins this]
  show ?thesis
    using keeps_update_application [OF tb1 replacesI [OF a]] own keeps_trans by simp
qed

lemma change_status_via: "writes_via env owner w (change_status_run owner aid t env w)"
proof (cases "application_get_owned_for_update aid owner (db w)")
  case (Some a)
  have "keeps owner (db w) tb'"
    if "Option.bind (update_application (with_status env t a) (db w))
          (insert_history (status_history_row env a t)) = Some tb'" for tb'
    using keeps_status_change [OF _ _ that] get_for_update_Some [OF Some] by simp
  then show ?thesis by (simp add: change_status_run_def Some Let_def writes_via_commit)
qed (simp add: change_status_run_def)

lemma application_delete_via: "writes_via env owner w (application_delete_run owner aid env w)"
proof (cases "application_get owner aid (db w)")
  case (Inr a)
  have a: "a \<in> set (applications (db w))" "a_owner_id a = owner"
    using application_get_Inr [OF Inr] by auto
  have "keeps owner (db w) tb'" if "delete_application a (db w) = Some tb'" for tb'
    using keeps_delete_application [OF that a(1)] a by simp
  then show ?thesis by (simp add: application_delete_run_def Inr writes_via_commit)
qed (simp add: application_delete_run_def)

interpretation application_create: owner_write "application_create owner d" owner
  for owner :: int and d :: application_create_body
  unfolding application_create_def by (rule writes_via_contract [OF application_create_via])

interpretation application_update: owner_write "application_update owner aid d" owner
  for owner aid :: int and d :: application_update_body
  unfolding application_update_def by (rule writes_via_contract [OF application_update_via])

interpretation change_status: owner_write "change_status owner aid t" owner
  for owner aid :: int and t :: application_status
  unfolding change_status_def by (rule writes_via_contract [OF change_status_via])

interpretation application_delete: owner_write "application_delete owner aid" owner
  for owner aid :: int
  unfolding application_delete_def by (rule writes_via_contract [OF application_delete_via])

section \<open>The life of an application\<close>

text \<open>
  What the service keeps of an application beyond the table's constraints: a saved one has no
  application date, one that is in or past the pipeline has a date, a deadline is never before
  it, and the history rows are a path of allowed changes from the status of its creation
  (saved or applied) to its present status.
\<close>

definition application_dates_ok :: "application \<Rightarrow> bool" where
  "application_dates_ok a =
     ((a_status a = SAVED \<longrightarrow> a_applied_at a = None) \<and>
      (a_status a \<in> {APPLIED, SCREENING, INTERVIEW, OFFER, REJECTED} \<longrightarrow> a_applied_at a \<noteq> None) \<and>
      dates_ok (a_applied_at a) (a_deadline a))"

definition history_of :: "tables \<Rightarrow> int \<Rightarrow> history_row list" where
  "history_of tb aid = filter (\<lambda>h. h_application_id h = aid) (histories tb)"

fun status_path :: "application_status \<Rightarrow> history_row list \<Rightarrow> application_status \<Rightarrow> bool" where
  "status_path s [] t = (s = t)"
| "status_path s (h # hs) t =
     (h_from h = s \<and> h_to h \<in> set (ALLOWED_STATUS_TRANSITIONS s) \<and> status_path (h_to h) hs t)"

definition application_life :: "tables \<Rightarrow> application \<Rightarrow> bool" where
  "application_life tb a =
     (application_dates_ok a \<and>
      (status_path SAVED (history_of tb (a_id a)) (a_status a) \<or>
       status_path APPLIED (history_of tb (a_id a)) (a_status a)))"

definition life_ok :: "tables \<Rightarrow> bool" where
  "life_ok tb = (\<forall>a\<in>set (applications tb). application_life tb a)"

lemma status_path_snoc:
  "status_path s hs t \<Longrightarrow> h_from h = t \<Longrightarrow> h_to h \<in> set (ALLOWED_STATUS_TRANSITIONS t)
    \<Longrightarrow> status_path s (hs @ [h]) (h_to h)"
  by (induction hs arbitrary: s) auto

lemma status_path_rank: "status_path s hs t \<Longrightarrow> length hs + status_rank t \<le> status_rank s"
proof (induction hs arbitrary: s)
  case (Cons h hs)
  then have "length hs + status_rank t \<le> status_rank (h_to h)"
    and "status_rank (h_to h) < status_rank s" using allowed_rank by auto
  then show ?case by simp
qed simp

lemma life_ok_cong:
  "applications tb' = applications tb \<Longrightarrow> histories tb' = histories tb \<Longrightarrow> life_ok tb' = life_ok tb"
  by (simp add: life_ok_def application_life_def history_of_def)

lemma life_insert:
  assumes "insert_application a tb = Some tb'" and "db_ok tb" and "life_ok tb"
    and "application_dates_ok a" and "a_status a \<in> {SAVED, APPLIED}"
  shows "life_ok tb'"
proof -
  have tb': "applications tb' = applications tb @ [a]" "histories tb' = histories tb"
    and fresh: "a_id a \<notin> a_id ` set (applications tb)"
    using assms(1) by (auto simp: insert_application_def split: if_splits)
  have "h_application_id h \<noteq> a_id a" if "h \<in> set (histories tb)" for h
  proof -
    have "history_parent tb (h_application_id h)"
      using that assms(2) by (simp add: db_ok_def refs_ok_def)
    then show ?thesis using fresh unfolding history_parent_def by (metis image_eqI)
  qed
  then have "history_of tb' (a_id a) = []" by (simp add: history_of_def tb' filter_empty_conv)
  then show ?thesis using assms(3-5)
    by (auto simp: life_ok_def application_life_def tb' history_of_def)
qed

lemma life_update:
  assumes "update_application b tb = Some tb'" and "life_ok tb" and "a \<in> set (applications tb)"
    and "a_id b = a_id a" and "a_status b = a_status a" and "application_dates_ok b"
  shows "life_ok tb'"
proof -
  have tb': "applications tb' = put_row a_id b (applications tb)" "histories tb' = histories tb"
    using assms(1) by (auto simp: update_application_def split: if_splits)
  have old: "application_life tb a" using assms(2,3) by (simp add: life_ok_def)
  then have new: "application_life tb' b" using assms(4-6)
    by (simp add: application_life_def tb' history_of_def)
  show ?thesis unfolding life_ok_def
  proof
    fix x assume "x \<in> set (applications tb')"
    then have "x = b \<or> x \<in> set (applications tb)" unfolding tb' using set_put_row by metis
    then show "application_life tb' x" using new assms(2)
      by (auto simp: life_ok_def application_life_def tb' history_of_def)
  qed
qed

lemma life_delete:
  assumes "delete_application a tb = Some tb'" and "life_ok tb"
  shows "life_ok tb'"
proof -
  have tb': "applications tb' = del_row a_id (a_id a) (applications tb)"
      "histories tb' = filter (\<lambda>h. h_application_id h \<noteq> a_id a) (histories tb)"
    using assms(1) by (auto simp: delete_application_def split: if_splits)
  have "history_of tb' k = history_of tb k" if "k \<noteq> a_id a" for k
    using that by (auto simp: history_of_def tb' intro!: filter_cong)
  then show ?thesis using assms(2) by (auto simp: life_ok_def application_life_def tb')
qed

lemma with_status_dates:
  assumes "application_dates_ok a" and "t \<in> set (ALLOWED_STATUS_TRANSITIONS (a_status a))"
    and "t = APPLIED \<and> a_applied_at a = None \<longrightarrow>
         dates_ok (a_applied_at (with_status env t a)) (a_deadline (with_status env t a))"
  shows "application_dates_ok (with_status env t a)"
  using assms by (cases "a_status a")
    (auto simp: application_dates_ok_def with_status_def split: if_splits)

lemma touched_dates:
  "application_dates_ok a \<Longrightarrow> application_dates_ok b \<Longrightarrow> application_dates_ok (application_touched env a b)"
  by (simp add: application_dates_ok_def application_touched_def)

lemma life_status_change:
  assumes upd: "Option.bind (update_application (with_status env t a) tb)
                (insert_history (status_history_row env a t)) = Some tb'"
    and ok: "life_ok tb" "db_ok tb" and a: "a \<in> set (applications tb)"
    and t: "t \<in> set (ALLOWED_STATUS_TRANSITIONS (a_status a))"
    and d: "application_dates_ok (with_status env t a)"
  shows "life_ok tb'"
proof -
  let ?h = "status_history_row env a t" and ?b = "with_status env t a"
  have tb': "applications tb' = put_row a_id ?b (applications tb)" "histories tb' = histories tb @ [?h]"
    using upd by (auto simp: update_application_def insert_history_def bind_eq_Some_conv
        split: if_splits)
  have h: "h_application_id ?h = a_id a" "h_from ?h = a_status a" "h_to ?h = t"
    by (simp_all add: status_history_row_def)
  have "application_life tb a" using ok(1) a by (simp add: life_ok_def)
  then have new: "application_life tb' ?b"
    using status_path_snoc [of _ "history_of tb (a_id a)" "a_status a" ?h] h t d
    by (auto simp: application_life_def history_of_def tb')
  show ?thesis unfolding life_ok_def
  proof
    fix x assume "x \<in> set (applications tb')"
    then consider "x = ?b" | "x \<in> set (applications tb)" "a_id x \<noteq> a_id a"
      unfolding tb' using set_put_row [of x a_id ?b] by auto
    then show "application_life tb' x"
    proof cases
      case 2
      then show ?thesis using ok(1) h(1)
        by (simp add: life_ok_def application_life_def history_of_def tb')
    qed (use new in simp)
  qed
qed

text \<open>Every operation of the service keeps the life invariant.\<close>

lemma application_create_life:
  assumes "validate_application_create raw = Inr d" and "db_ok (db w)" and "life_ok (db w)"
  shows "life_ok (db (snd (application_create owner d env w)))"
proof -
  let ?x = "initial_applied_at env d"
  let ?a = "application_row env owner d ?x"
  have st: "ac_status d \<in> {SAVED, APPLIED}" "ac_status d = SAVED \<longrightarrow> ac_applied_at d = None"
    using assms(1) by (auto simp: validate_application_create_def split: if_splits)
  have "life_ok tb'" if "insert_application ?a (db w) = Some tb'"
      "dates_ok ?x (ac_deadline d)" for tb'
    using that(2) st
    by (intro life_insert [OF that(1) assms(2,3)])
      (auto simp: application_row_def application_dates_ok_def initial_applied_at_def)
  then show ?thesis using assms(3)
    by (auto simp: application_create_def application_create_run_def Let_def commit_write_def
        split: option.splits)
qed

lemma application_update_life:
  assumes "life_ok (db w)"
  shows "life_ok (db (snd (application_update owner aid d env w)))"
proof (cases "application_get owner aid (db w)")
  case (Inl e)
  then show ?thesis using assms by (simp add: application_update_def application_update_run_def)
next
  case (Inr a)
  let ?b = "application_touched env a (application_patched d a)"
  let ?x = "patch_opt (au_applied_at d) (a_applied_at a)"
  have a: "a \<in> set (applications (db w))" using application_get_Inr [OF Inr] by simp
  have "life_ok tb'" if "update_application ?b (db w) = Some tb'"
      "dates_ok ?x (patch_opt (au_deadline d) (a_deadline a))"
      "\<not> (a_status a = SAVED \<and> ?x \<noteq> None)" "\<not> (a_status a \<noteq> SAVED \<and> ?x = None)" for tb'
  proof (rule life_update [OF that(1) assms a])
    have "application_dates_ok a" using assms a by (simp add: life_ok_def application_life_def)
    moreover have "application_dates_ok (application_patched d a)"
      using that(2-4) by (auto simp: application_dates_ok_def application_patched_def)
    ultimately show "application_dates_ok ?b" by (rule touched_dates)
  qed simp_all
  then show ?thesis using assms
    unfolding application_update_def application_update_run_def Inr Let_def observe_simps sum.case
    by (intro if_keeps [where P = life_ok] commit_write_keeps_if [where P = life_ok]) simp_all
qed

lemma change_status_life:
  assumes "db_ok (db w)" and "life_ok (db w)"
  shows "life_ok (db (snd (change_status owner aid t env w)))"
proof (cases "application_get_owned_for_update aid owner (db w)")
  case None
  then show ?thesis using assms by (simp add: change_status_def change_status_run_def)
next
  case (Some a)
  have a: "a \<in> set (applications (db w))" using get_for_update_Some [OF Some] by simp
  then have d: "application_dates_ok a"
    using assms(2) by (simp add: life_ok_def application_life_def)
  have "life_ok tb'"
    if "Option.bind (update_application (with_status env t a) (db w))
                (insert_history (status_history_row env a t)) = Some tb'"
      "t \<in> set (ALLOWED_STATUS_TRANSITIONS (a_status a))"
      "\<not> (t = APPLIED \<and> a_applied_at a = None \<and>
           \<not> dates_ok (a_applied_at (with_status env t a)) (a_deadline (with_status env t a)))" for tb'
    using that(3) by (intro life_status_change [OF that(1) assms(2,1) a that(2)]
        with_status_dates [OF d that(2)]) auto
  then show ?thesis using assms
    by (auto simp: change_status_def change_status_run_def Some Let_def commit_write_def
        split: option.splits)
qed

lemma application_delete_life:
  assumes "life_ok (db w)"
  shows "life_ok (db (snd (application_delete owner aid env w)))"
  using assms life_delete
  by (auto simp: application_delete_def application_delete_run_def commit_write_def
      split: sum.splits option.splits)

section \<open>Properties\<close>

text \<open>
  C5: on a consistent database, with a fresh history identifier and no database failure, a
  status change raises "not found" for an application that is not the owner's, the transition
  error exactly when the target is not allowed from the present status, the date error exactly
  when applying today would pass the deadline, and otherwise replaces the row by one with the
  new status (dated today when it becomes applied) and appends exactly one history row from the
  old to the new status. No constraint violation is left to the database.
\<close>

theorem change_status_complete:
  assumes "db_ok (db w)" and "e_new_id env \<notin> h_id ` set (histories (db w))" and "e_fault env = None"
  shows "(fst (change_status owner aid t env w), db (snd (change_status owner aid t env w))) =
    (case application_get_owned_for_update aid owner (db w) of
       None \<Rightarrow> (Inl APPLICATION_NOT_FOUND, db w)
     | Some a \<Rightarrow>
        if t \<notin> set (ALLOWED_STATUS_TRANSITIONS (a_status a))
        then (Inl INVALID_STATUS_TRANSITION, db w)
        else if t = APPLIED \<and> a_applied_at a = None \<and>
                (\<exists>x. a_deadline a = Some x \<and> x < date_of (e_now env))
        then (Inl INVALID_APPLICATION_DATES, db w)
        else (Inr (with_status env t a), (db w)
          \<lparr>applications := put_row a_id (with_status env t a) (applications (db w)),
           histories := histories (db w) @ [status_history_row env a t]\<rparr>))"
proof (cases "application_get_owned_for_update aid owner (db w)")
  case None
  then show ?thesis by (simp add: change_status_def change_status_run_def)
next
  case (Some a)
  let ?b = "with_status env t a"
  have a: "a \<in> set (applications (db w))" "a_owner_id a = owner"
    using get_for_update_Some [OF Some] by auto
  have row: "application_check a" "job_exists (db w) owner (a_job_id a)"
    using assms(1) a by (auto simp: db_ok_def checks_ok_def refs_ok_def)
  have agr: "agrees_with a_id application_agree ?b (applications (db w))"
    unfolding agrees_with_def
  proof (intro ballI impI)
    fix y assume y: "y \<in> set (applications (db w))" "a_id y \<noteq> a_id ?b"
    have "pairwise_ok a_id application_agree (applications (db w))"
      using assms(1) by (simp add: db_ok_def keys_ok_def)
    from pairwise_okD [OF this a(1) y(1)] y(2)
    show "application_agree ?b y" by (simp add: application_agree_def)
  qed
  have upd: "update_application ?b (db w) =
      Some ((db w)\<lparr>applications := put_row a_id ?b (applications (db w))\<rparr>)"
    using agr row a(2) by (simp add: update_application_def application_check_def)
  have "\<exists>x\<in>set (put_row a_id ?b (applications (db w))). a_id x = a_id a"
    using a(1) unfolding bex_put_row_key by blast
  then have ins: "insert_history (status_history_row env a t)
      ((db w)\<lparr>applications := put_row a_id ?b (applications (db w))\<rparr>) = Some ((db w)
         \<lparr>applications := put_row a_id ?b (applications (db w)),
          histories := histories (db w) @ [status_history_row env a t]\<rparr>)"
    if "t \<in> set (ALLOWED_STATUS_TRANSITIONS (a_status a))"
    using assms(2) allowed_neq [OF that]
    by (auto simp: insert_history_def status_history_row_def history_check_def history_parent_def)
  have dates: "\<not> dates_ok (a_applied_at ?b) (a_deadline ?b) \<longleftrightarrow>
      (\<exists>x. a_deadline a = Some x \<and> x < date_of (e_now env))"
    if "t = APPLIED" "a_applied_at a = None"
    using that by (simp add: with_status_def dates_ok_def split: option.splits)
  show ?thesis using Some upd ins dates assms(3)
    by (auto simp: change_status_def change_status_run_def Let_def)
qed

lemma sample_change_status:
  "db_ok (db sample_world) \<and> e_new_id sample_env \<notin> h_id ` set (histories (db sample_world)) \<and>
   e_fault sample_env = None"
  by (simp add: sample_world_def sample_db_ok)
    (simp add: sample_env_def sample_tables_def empty_tables_def)

lemma sample_application_found:
  "application_get_owned_for_update 30 1 (db sample_world) =
     Some (hd (applications sample_tables)) \<and>
   a_status (hd (applications sample_tables)) = APPLIED"
  by code_simp

theorem change_status_complete_witness:
  "fst (change_status 1 30 OFFER sample_env sample_world) = Inl INVALID_STATUS_TRANSITION \<and>
   is_ok (fst (change_status 1 30 SCREENING sample_env sample_world))"
  using change_status_complete [of sample_world sample_env 1 30 OFFER]
    change_status_complete [of sample_world sample_env 1 30 SCREENING]
    sample_change_status sample_application_found
  by simp

text \<open>
  In every database that satisfies the life invariant, an application has at most five
  history rows; each goes along an allowed transition, the last one leads to its present
  status, and a status already left is never reached again.
\<close>

theorem history_bounded:
  assumes "life_ok tb" and "a \<in> set (applications tb)"
  shows "length (history_of tb (a_id a)) \<le> 5 \<and>
    (\<forall>h\<in>set (history_of tb (a_id a)). h_to h \<in> set (ALLOWED_STATUS_TRANSITIONS (h_from h))) \<and>
    (history_of tb (a_id a) \<noteq> [] \<longrightarrow> h_to (last (history_of tb (a_id a))) = a_status a) \<and>
    distinct (map h_from (history_of tb (a_id a)) @ [a_status a])"
proof -
  obtain s where p: "status_path s (history_of tb (a_id a)) (a_status a)"
    using assms by (auto simp: life_ok_def application_life_def)
  have steps: "\<forall>h\<in>set hs. h_to h \<in> set (ALLOWED_STATUS_TRANSITIONS (h_from h))"
    and lst: "hs \<noteq> [] \<longrightarrow> h_to (last hs) = t"
    and dis: "distinct (map h_from hs @ [t]) \<and>
      (\<forall>x\<in>set (map h_from hs @ [t]). status_rank x \<le> status_rank s)"
    if "status_path s hs t" for s hs t
    using that
  proof (induction hs arbitrary: s)
    case (Cons h hs)
    { case 1 then show ?case using Cons by auto }
    { case 2 then show ?case using Cons by auto }
    { case 3
      then have r: "status_rank (h_to h) < status_rank s" using allowed_rank by auto
      have "s \<notin> set (map h_from hs @ [t])" using Cons(3) [of "h_to h"] 3 r by fastforce
      then show ?case using Cons(3) [of "h_to h"] 3 r by fastforce }
  qed auto
  have "length (history_of tb (a_id a)) + status_rank (a_status a) \<le> status_rank s"
    by (rule status_path_rank [OF p])
  moreover have "status_rank s \<le> 5" by (cases s) auto
  ultimately show ?thesis using steps [OF p] lst [OF p] dis [OF p] by auto
qed

definition sample_life_tables :: tables where
  "sample_life_tables = sample_tables\<lparr>applications :=
       map (\<lambda>a. a\<lparr>a_status := SCREENING\<rparr>) (applications sample_tables),
     histories := [\<lparr>h_id = 1, h_application_id = 30, h_from = APPLIED, h_to = SCREENING,
       h_changed_at = 9\<rparr>]\<rparr>"

theorem history_bounded_witness:
  "length (history_of sample_life_tables (a_id (hd (applications sample_life_tables)))) \<le> 5"
proof -
  have "life_ok sample_life_tables" by code_simp
  moreover have "hd (applications sample_life_tables) \<in> set (applications sample_life_tables)"
    by code_simp
  ultimately show ?thesis using history_bounded by blast
qed


definition sample_withdrawn_world :: world where
  "sample_withdrawn_world = sample_world\<lparr>db := sample_tables\<lparr>applications :=
       map (\<lambda>a. a\<lparr>a_status := WITHDRAWN, a_applied_at := None\<rparr>) (applications sample_tables)\<rparr>\<rparr>"

definition notes_only_update :: application_update_body where
  "notes_only_update = \<lparr>au_priority = Unset, au_applied_at = Unset, au_deadline = Unset,
     au_next_action_at = Unset, au_notes = Val ''declined''\<rparr>"


end
