(* ===== verification/Interviews.thy ===== *)
theory Interviews
  imports Applications
begin

text \<open>
  Interviews: \<^verbatim>\<open>src/app/repositories/interview_repository.py\<close> and
  \<^verbatim>\<open>src/app/services/interview_service.py\<close>: the overlap query and its relation to the
  exclusion constraint, the interview status machine, and the operations.
\<close>

section \<open>Repository\<close>

definition MAX_DURATION :: int where
  "MAX_DURATION = minutes 480"

definition interview_get_owned :: "int \<Rightarrow> int \<Rightarrow> tables \<Rightarrow> interview option" where
  "interview_get_owned interview_id owner tb =
     find (\<lambda>i. i_id i = interview_id \<and> i_owner_id i = owner) (interviews tb)"

record interview_query =
  iq_application_id :: "int option"
  iq_status :: "interview_status option"
  iq_scheduled_from :: "datetime option"
  iq_scheduled_to :: "datetime option"

definition interview_matches :: "int \<Rightarrow> interview_query \<Rightarrow> interview \<Rightarrow> bool" where
  "interview_matches owner q i =
     (i_owner_id i = owner \<and>
      opt_ok (\<lambda>a. i_application_id i = a) (iq_application_id q) \<and>
      opt_ok (\<lambda>s. i_status i = s) (iq_status q) \<and>
      opt_ok (\<lambda>t. t < i_scheduled_end_at i) (iq_scheduled_from q) \<and>
      opt_ok (\<lambda>t. i_scheduled_at i < t) (iq_scheduled_to q))"

definition interview_before :: "interview \<Rightarrow> interview \<Rightarrow> bool" where
  "interview_before x y =
     (i_scheduled_at x < i_scheduled_at y \<or>
      (i_scheduled_at x = i_scheduled_at y \<and> i_id x \<le> i_id y))"

definition interview_list_owned ::
    "int \<Rightarrow> interview_query \<Rightarrow> int \<Rightarrow> int \<Rightarrow> tables \<Rightarrow> interview list \<times> int" where
  "interview_list_owned owner q page page_size tb =
     (let rows = filter (interview_matches owner q) (interviews tb) in
      (page_of page page_size (sort_by interview_before rows), int (length rows)))"

definition list_upcoming ::
    "int \<Rightarrow> datetime \<Rightarrow> datetime option \<Rightarrow> int \<Rightarrow> tables \<Rightarrow> interview list" where
  "list_upcoming owner now until limit tb =
     take (nat limit) (sort_by interview_before
       (filter (\<lambda>i. i_owner_id i = owner \<and> i_status i = SCHEDULED \<and> now \<le> i_scheduled_at i \<and>
                    opt_ok (\<lambda>u. i_scheduled_at i \<le> u) until) (interviews tb)))"

text \<open>
  The query preselects the owner's scheduled interviews that start before the end and less than
  the longest duration before the start; Python then compares their ends.
\<close>

definition overlap_candidates ::
    "int \<Rightarrow> datetime \<Rightarrow> int \<Rightarrow> int option \<Rightarrow> tables \<Rightarrow> interview list" where
  "overlap_candidates owner scheduled_at duration exclude_id tb =
     (let end_at = scheduled_at + minutes duration in
      filter (\<lambda>i. i_owner_id i = owner \<and> i_status i = SCHEDULED \<and> i_scheduled_at i < end_at \<and>
                  scheduled_at - MAX_DURATION < i_scheduled_at i \<and>
                  opt_ok (\<lambda>x. i_id i \<noteq> x) exclude_id) (interviews tb))"

definition has_overlap :: "int \<Rightarrow> datetime \<Rightarrow> int \<Rightarrow> int option \<Rightarrow> tables \<Rightarrow> bool" where
  "has_overlap owner scheduled_at duration exclude_id tb =
     (\<exists>i\<in>set (overlap_candidates owner scheduled_at duration exclude_id tb).
        scheduled_at < i_scheduled_at i + minutes (i_duration_minutes i))"

section \<open>Service\<close>

definition INTERVIEW_NOT_FOUND :: error where
  "INTERVIEW_NOT_FOUND = ResourceNotFoundError ''Interview not found''"

definition INTERVIEW_CONFLICT :: error where
  "INTERVIEW_CONFLICT = ResourceConflictError ''Interview overlaps another scheduled interview''"

definition INTERVIEW_CREATE_CONFLICT :: error where
  "INTERVIEW_CREATE_CONFLICT =
     ResourceConflictError ''Interview conflicts with an existing resource''"

definition INVALID_INTERVIEW_STATUS :: error where
  "INVALID_INTERVIEW_STATUS = ResourceConflictError ''Invalid interview status transition''"

definition FEEDBACK_REQUIRES_COMPLETED :: error where
  "FEEDBACK_REQUIRES_COMPLETED =
     ResourceConflictError ''Feedback is only allowed for completed interviews''"

definition APPLICATION_NOT_READY_FOR_INTERVIEW :: error where
  "APPLICATION_NOT_READY_FOR_INTERVIEW =
     ResourceConflictError ''Application must be in screening, interview, or offer status''"

definition WINDOW_CONFLICT :: error where
  "WINDOW_CONFLICT = ResourceConflictError ''scheduled_from must be before scheduled_to''"

definition UNTIL_IN_PAST :: error where
  "UNTIL_IN_PAST = ResourceConflictError ''until cannot be in the past''"

definition interview_eligible :: "application_status \<Rightarrow> bool" where
  "interview_eligible s = (s \<in> {SCREENING, INTERVIEW, OFFER})"

fun interview_transitions :: "interview_status \<Rightarrow> interview_status list" where
  "interview_transitions SCHEDULED = [COMPLETED, CANCELLED]"
| "interview_transitions COMPLETED = []"
| "interview_transitions CANCELLED = []"

definition scheduled_end :: "datetime \<Rightarrow> int \<Rightarrow> datetime" where
  "scheduled_end scheduled_at duration = scheduled_at + minutes duration"

definition interview_get :: "int \<Rightarrow> int \<Rightarrow> tables \<Rightarrow> interview result" where
  "interview_get owner interview_id tb =
     (case interview_get_owned interview_id owner tb of
        None \<Rightarrow> Inl INTERVIEW_NOT_FOUND | Some i \<Rightarrow> Inr i)"

definition interview_list ::
    "int \<Rightarrow> interview_query \<Rightarrow> int \<Rightarrow> int \<Rightarrow> tables \<Rightarrow> (interview list \<times> int) result" where
  "interview_list owner q page page_size tb =
     (case (iq_scheduled_from q, iq_scheduled_to q) of
        (Some f, Some t) \<Rightarrow> if t \<le> f then Inl WINDOW_CONFLICT
                           else Inr (interview_list_owned owner q page page_size tb)
      | _ \<Rightarrow> Inr (interview_list_owned owner q page page_size tb))"

definition interview_upcoming ::
    "int \<Rightarrow> datetime option \<Rightarrow> int \<Rightarrow> env \<Rightarrow> tables \<Rightarrow> interview list result" where
  "interview_upcoming owner until limit env tb =
     (let now = e_now env in
      if \<not> opt_ok (\<lambda>u. \<not> u < now) until then Inl UNTIL_IN_PAST
      else Inr (list_upcoming owner now until limit tb))"

definition interview_row :: "env \<Rightarrow> int \<Rightarrow> interview_create_body \<Rightarrow> interview" where
  "interview_row env owner d =
     \<lparr>i_id = e_new_id env, i_owner_id = owner, i_application_id = ic_application_id d,
      i_type = ic_type d, i_status = SCHEDULED, i_scheduled_at = as_utc (ic_scheduled_at d),
      i_duration_minutes = ic_duration_minutes d,
      i_scheduled_end_at = scheduled_end (as_utc (ic_scheduled_at d)) (ic_duration_minutes d),
      i_location = ic_location d, i_meeting_url = ic_meeting_url d, i_notes = ic_notes d,
      i_feedback = None, i_created_at = e_created_at env, i_updated_at = e_updated_at env\<rparr>"

definition interview_create_run ::
    "int \<Rightarrow> interview_create_body \<Rightarrow> env \<Rightarrow> world \<Rightarrow> interview result \<times> world" where
  "interview_create_run owner d env w =
     (case application_get_owned_for_update (ic_application_id d) owner (db w) of
        None \<Rightarrow> (Inl APPLICATION_NOT_FOUND, w)
      | Some application \<Rightarrow>
          if \<not> interview_eligible (a_status application)
          then (Inl APPLICATION_NOT_READY_FOR_INTERVIEW, w)
          else if has_overlap owner (as_utc (ic_scheduled_at d)) (ic_duration_minutes d) None (db w)
          then (Inl INTERVIEW_CONFLICT, w)
          else let interview = interview_row env owner d in
            commit_write env owner True INTERVIEW_CREATE_CONFLICT
              (insert_interview interview (db w)) interview w)"

definition interview_create ::
    "int \<Rightarrow> interview_create_body \<Rightarrow> env \<Rightarrow> world \<Rightarrow> interview result \<times> world" where
  "interview_create owner d env w =
     observe_business_write ''interview'' ''create'' (interview_create_run owner d env w)"

definition interview_patched :: "interview_update_body \<Rightarrow> interview \<Rightarrow> interview" where
  "interview_patched d i =
     (let scheduled_at = patch_req (map_patch as_utc (iu_scheduled_at d)) (i_scheduled_at i);
          duration = patch_req (iu_duration_minutes d) (i_duration_minutes i) in
      i\<lparr>i_type := patch_req (iu_type d) (i_type i),
        i_status := patch_req (iu_status d) (i_status i),
        i_scheduled_at := scheduled_at,
        i_duration_minutes := duration,
        i_scheduled_end_at := scheduled_end scheduled_at duration,
        i_location := patch_opt (iu_location d) (i_location i),
        i_meeting_url := patch_opt (iu_meeting_url d) (i_meeting_url i),
        i_notes := patch_opt (iu_notes d) (i_notes i),
        i_feedback := patch_opt (iu_feedback d) (i_feedback i)\<rparr>)"

definition interview_touched :: "env \<Rightarrow> interview \<Rightarrow> interview \<Rightarrow> interview" where
  "interview_touched env old new =
     (if new = old then old else new\<lparr>i_updated_at := e_updated_at env\<rparr>)"

definition interview_update_run ::
    "int \<Rightarrow> int \<Rightarrow> interview_update_body \<Rightarrow> env \<Rightarrow> world \<Rightarrow> interview result \<times> world" where
  "interview_update_run owner interview_id d env w =
     (case interview_get owner interview_id (db w) of
        Inl e \<Rightarrow> (Inl e, w)
      | Inr interview \<Rightarrow>
         (let target = patch_req (iu_status d) (i_status interview);
              current = i_status interview;
              feedback = patch_opt (iu_feedback d) (i_feedback interview);
              scheduled_at = patch_req (map_patch as_utc (iu_scheduled_at d)) (i_scheduled_at interview);
              duration = patch_req (iu_duration_minutes d) (i_duration_minutes interview) in
          if target \<noteq> current \<and> target \<notin> set (interview_transitions current)
          then (Inl INVALID_INTERVIEW_STATUS, w)
          else if feedback \<noteq> None \<and> target \<noteq> COMPLETED
          then (Inl FEEDBACK_REQUIRES_COMPLETED, w)
          else if target = SCHEDULED \<and>
                  has_overlap owner scheduled_at duration (Some (i_id interview)) (db w)
          then (Inl INTERVIEW_CONFLICT, w)
          else let interview' = interview_touched env interview (interview_patched d interview) in
            commit_write env owner True INTERVIEW_CONFLICT
              (if interview' = interview then Some (db w)
               else update_interview interview' (db w)) interview' w))"

definition interview_update ::
    "int \<Rightarrow> int \<Rightarrow> interview_update_body \<Rightarrow> env \<Rightarrow> world \<Rightarrow> interview result \<times> world" where
  "interview_update owner interview_id d env w =
     observe_business_write ''interview'' ''update''
       (interview_update_run owner interview_id d env w)"

definition interview_delete_run :: "int \<Rightarrow> int \<Rightarrow> env \<Rightarrow> world \<Rightarrow> unit result \<times> world" where
  "interview_delete_run owner interview_id env w =
     (case interview_get owner interview_id (db w) of
        Inl e \<Rightarrow> (Inl e, w)
      | Inr interview \<Rightarrow>
          commit_write env owner False IntegrityError (delete_interview interview (db w)) () w)"

definition interview_delete :: "int \<Rightarrow> int \<Rightarrow> env \<Rightarrow> world \<Rightarrow> unit result \<times> world" where
  "interview_delete owner interview_id env w =
     observe_business_write ''interview'' ''delete''
       (interview_delete_run owner interview_id env w)"

section \<open>Lemmas\<close>

lemma interview_get_Inr:
  "interview_get owner iid tb = Inr i
    \<Longrightarrow> i \<in> set (interviews tb) \<and> i_id i = iid \<and> i_owner_id i = owner"
  by (auto simp: interview_get_def interview_get_owned_def split: option.splits
      dest!: find_Some)

lemma interview_touched_ids [simp]:
  "i_id (interview_touched env i (interview_patched d i)) = i_id i"
  "i_owner_id (interview_touched env i (interview_patched d i)) = i_owner_id i"
  "i_application_id (interview_touched env i (interview_patched d i)) = i_application_id i"
  by (simp_all add: interview_touched_def interview_patched_def Let_def)

lemma interview_create_via: "writes_via env owner w (interview_create_run owner d env w)"
proof -
  have "keeps owner (db w) tb'" if "insert_interview (interview_row env owner d) (db w) = Some tb'" for tb'
    using keeps_insert_interview [OF that] by (simp add: interview_row_def)
  then show ?thesis
    by (simp add: interview_create_run_def Let_def writes_via_commit split: option.splits)
qed

lemma interview_update_via: "writes_via env owner w (interview_update_run owner iid d env w)"
proof (cases "interview_get owner iid (db w)")
  case (Inr i)
  let ?i = "interview_touched env i (interview_patched d i)"
  have i: "i \<in> set (interviews (db w))" "i_owner_id i = owner"
    using interview_get_Inr [OF Inr] by auto
  have "keeps owner (db w) tb'" if "update_interview ?i (db w) = Some tb'" for tb'
    using keeps_update_interview [OF that replacesI [OF i(1)]] i by simp
  then have "writes_via env owner w (commit_write env owner True INTERVIEW_CONFLICT
      (if ?i = i then Some (db w) else update_interview ?i (db w)) ?i w)"
    by (intro writes_via_commit) (auto split: if_splits)
  then show ?thesis by (simp add: interview_update_run_def Inr Let_def)
qed (simp add: interview_update_run_def)

lemma interview_delete_via: "writes_via env owner w (interview_delete_run owner iid env w)"
proof (cases "interview_get owner iid (db w)")
  case (Inr i)
  have i: "i \<in> set (interviews (db w))" "i_owner_id i = owner"
    using interview_get_Inr [OF Inr] by auto
  have "keeps owner (db w) tb'" if "delete_interview i (db w) = Some tb'" for tb'
    using keeps_delete_interview [OF that i(1)] i by simp
  then show ?thesis by (simp add: interview_delete_run_def Inr writes_via_commit)
qed (simp add: interview_delete_run_def)

interpretation interview_create: owner_write "interview_create owner d" owner
  for owner :: int and d :: interview_create_body
  unfolding interview_create_def by (rule writes_via_contract [OF interview_create_via])

interpretation interview_update: owner_write "interview_update owner iid d" owner
  for owner iid :: int and d :: interview_update_body
  unfolding interview_update_def by (rule writes_via_contract [OF interview_update_via])

interpretation interview_delete: owner_write "interview_delete owner iid" owner
  for owner iid :: int
  unfolding interview_delete_def by (rule writes_via_contract [OF interview_delete_via])

section \<open>The overlap check and the exclusion constraint\<close>

text \<open>
  Because no stored interview is longer than the preselection assumes, the query sees every
  interview that overlaps, and the check holds exactly when some does.
\<close>

lemma has_overlap_iff:
  assumes "\<forall>i\<in>set (interviews tb). interview_check i" and "0 < duration"
  shows "has_overlap owner s duration exclude tb \<longleftrightarrow>
    (\<exists>i\<in>set (interviews tb). i_owner_id i = owner \<and> i_status i = SCHEDULED \<and>
       opt_ok (\<lambda>x. i_id i \<noteq> x) exclude \<and>
       ranges_overlap s (s + minutes duration) (i_scheduled_at i) (i_scheduled_end_at i))"
proof -
  have "(scheduled_in \<and> s < i_scheduled_at i + minutes (i_duration_minutes i)) =
      ranges_overlap s (s + minutes duration) (i_scheduled_at i) (i_scheduled_end_at i)"
    if i: "i \<in> set (interviews tb)" and
      "scheduled_in = (i_scheduled_at i < s + minutes duration \<and> s - MAX_DURATION < i_scheduled_at i)"
    for i scheduled_in
  proof -
    have c: "interview_check i" using assms(1) i by blast
    then have "minutes (i_duration_minutes i) \<le> MAX_DURATION" "0 < minutes (i_duration_minutes i)"
      by (simp_all add: MAX_DURATION_def interview_check_def)
    moreover have "0 < minutes duration" using assms(2) by simp
    ultimately show ?thesis using c that(2)
      by (auto simp: ranges_overlap_def interview_check_def)
  qed
  then have core: "(i_scheduled_at i < s + minutes duration \<and> s - MAX_DURATION < i_scheduled_at i \<and>
       s < i_scheduled_at i + minutes (i_duration_minutes i)) =
      ranges_overlap s (s + minutes duration) (i_scheduled_at i) (i_scheduled_end_at i)"
    if "i \<in> set (interviews tb)" for i
    using that by (simp only: conj_assoc)
  show ?thesis unfolding has_overlap_def overlap_candidates_def Let_def set_filter
    using core by blast
qed

lemma overlap_check_exact:
  assumes "\<forall>i\<in>set (interviews tb). interview_check i" and "interview_check x"
    and "i_status x = SCHEDULED"
    and "exclude = None \<and> i_id x \<notin> i_id ` set (interviews tb) \<or> exclude = Some (i_id x)"
  shows "has_overlap (i_owner_id x) (i_scheduled_at x) (i_duration_minutes x) exclude tb \<longleftrightarrow>
    \<not> agrees_with i_id interview_agree x (interviews tb)"
proof -
  have e: "opt_ok (\<lambda>k. i_id i \<noteq> k) exclude \<longleftrightarrow> i_id i \<noteq> i_id x"
    if "i \<in> set (interviews tb)" for i
  proof (cases "exclude = Some (i_id x)")
    case False
    then have "exclude = None" "i_id i \<noteq> i_id x"
      using assms(4) imageI [OF that, of i_id] by metis+
    then show ?thesis by (simp add: opt_ok_def)
  qed (simp add: opt_ok_def)
  have "i_scheduled_end_at x = i_scheduled_at x + minutes (i_duration_minutes x)"
    and "0 < i_duration_minutes x" using assms(2) by (auto simp: interview_check_def)
  note iff = has_overlap_iff [OF assms(1) this(2), where owner = "i_owner_id x" and
      s = "i_scheduled_at x" and exclude = exclude] and endx = this(1)
  show ?thesis unfolding iff agrees_with_def interview_agree_def assms(3) endx
    using e by auto
qed

section \<open>The invariant of interviews\<close>

text \<open>
  Feedback belongs to completed interviews only, and an interview's application has at least
  reached screening: no status change leads back before it.
\<close>

definition interview_life :: "tables \<Rightarrow> interview \<Rightarrow> bool" where
  "interview_life tb i =
     ((i_feedback i \<noteq> None \<longrightarrow> i_status i = COMPLETED) \<and>
      (\<forall>a\<in>set (applications tb). a_id a = i_application_id i \<longrightarrow> a_status a \<notin> {SAVED, APPLIED}))"

definition interviews_ok :: "tables \<Rightarrow> bool" where
  "interviews_ok tb = (\<forall>i\<in>set (interviews tb). interview_life tb i)"

lemma interviews_ok_cong:
  "applications tb' = applications tb \<Longrightarrow> interviews tb' = interviews tb
    \<Longrightarrow> interviews_ok tb' = interviews_ok tb"
  by (simp add: interviews_ok_def interview_life_def)

lemma interview_create_life:
  assumes "db_ok (db w)" and "interviews_ok (db w)"
  shows "interviews_ok (db (snd (interview_create owner d env w)))"
proof (cases "application_get_owned_for_update (ic_application_id d) owner (db w)")
  case None
  then show ?thesis using assms by (simp add: interview_create_def interview_create_run_def)
next
  case (Some a)
  let ?i = "interview_row env owner d"
  have a: "a \<in> set (applications (db w))" "a_id a = ic_application_id d"
    using get_for_update_Some [OF Some] by auto
  have uniq: "b = a" if "b \<in> set (applications (db w))" "a_id b = ic_application_id d" for b
    using that a db_ok_distinct(4) [OF assms(1)] by (auto simp: distinct_map inj_on_def)
  have "a_status b \<notin> {SAVED, APPLIED}" if "interview_eligible (a_status a)"
      "b \<in> set (applications (db w))" "a_id b = ic_application_id d" for b
    using uniq [OF that(2,3)] that(1) by (auto simp: interview_eligible_def)
  then have "interview_life (db w) ?i" if "interview_eligible (a_status a)"
    using that by (simp add: interview_life_def interview_row_def)
  then have "interviews_ok tb'" if "insert_interview ?i (db w) = Some tb'"
      "interview_eligible (a_status a)" for tb'
    using that assms(2)
    by (auto simp: insert_interview_def interviews_ok_def interview_life_def split: if_splits)
  then show ?thesis using assms(2)
    by (auto simp: interview_create_def interview_create_run_def Some Let_def commit_write_def
        split: option.splits)
qed

lemma interview_update_life:
  assumes "interviews_ok (db w)"
  shows "interviews_ok (db (snd (interview_update owner iid d env w)))"
proof (cases "interview_get owner iid (db w)")
  case (Inl e)
  then show ?thesis using assms by (simp add: interview_update_def interview_update_run_def)
next
  case (Inr i)
  let ?i = "interview_touched env i (interview_patched d i)"
  have "interview_life (db w) i"
    using interview_get_Inr [OF Inr] assms by (simp add: interviews_ok_def)
  then have new: "interview_life (db w) ?i"
    if "\<not> (patch_opt (iu_feedback d) (i_feedback i) \<noteq> None \<and>
           patch_req (iu_status d) (i_status i) \<noteq> COMPLETED)"
    using that by (auto simp: interview_life_def interview_touched_def interview_patched_def Let_def)
  have "interviews_ok tb'" if upd: "update_interview ?i (db w) = Some tb'"
      and fb: "\<not> (patch_opt (iu_feedback d) (i_feedback i) \<noteq> None \<and>
           patch_req (iu_status d) (i_status i) \<noteq> COMPLETED)" for tb'
  proof -
    have tb': "interviews tb' = put_row i_id ?i (interviews (db w))"
        "applications tb' = applications (db w)"
      using upd by (auto simp: update_interview_def split: if_splits)
    show ?thesis unfolding interviews_ok_def
    proof
      fix x assume "x \<in> set (interviews tb')"
      then have "x = ?i \<or> x \<in> set (interviews (db w))" unfolding tb' using set_put_row by metis
      then show "interview_life tb' x" using new [OF fb] assms
        by (auto simp: interviews_ok_def interview_life_def tb')
    qed
  qed
  then show ?thesis using assms
    by (auto simp: interview_update_def interview_update_run_def Inr Let_def commit_write_def
        split: option.splits)
qed

lemma interview_delete_life:
  assumes "interviews_ok (db w)"
  shows "interviews_ok (db (snd (interview_delete owner iid env w)))"
  using assms
  by (auto simp: interview_delete_def interview_delete_run_def commit_write_def
      delete_interview_def interviews_ok_def interview_life_def split: sum.splits option.splits)

text \<open>Operations on applications keep it as well.\<close>

lemma interviews_ok_put:
  assumes "interviews_ok tb" and "a \<in> set (applications tb)" and "a_id b = a_id a"
    and "a_status a \<notin> {SAVED, APPLIED} \<Longrightarrow> a_status b \<notin> {SAVED, APPLIED}"
    and "applications tb' = put_row a_id b (applications tb)" "interviews tb' = interviews tb"
  shows "interviews_ok tb'"
  unfolding interviews_ok_def
proof
  fix i assume "i \<in> set (interviews tb')"
  then have i: "interview_life tb i" using assms(1,6) by (simp add: interviews_ok_def)
  have "a_status x \<notin> {SAVED, APPLIED}"
    if "x \<in> set (applications tb')" "a_id x = i_application_id i" for x
  proof (cases "x = b")
    case True
    then have "a_id a = i_application_id i" using that(2) assms(3) by simp
    then show ?thesis using i assms(2,4) True by (simp add: interview_life_def)
  next
    case False
    then have "x \<in> set (applications tb)" using that(1) set_put_row unfolding assms(5) by metis
    then show ?thesis using i that(2) by (simp add: interview_life_def)
  qed
  then show "interview_life tb' i" using i by (simp add: interview_life_def)
qed

lemma allowed_past_applied:
  "t \<in> set (ALLOWED_STATUS_TRANSITIONS s) \<Longrightarrow> s \<notin> {SAVED, APPLIED} \<Longrightarrow> t \<notin> {SAVED, APPLIED}"
  by (cases s) auto

lemma application_create_interviews:
  assumes "db_ok (db w)" and "interviews_ok (db w)"
  shows "interviews_ok (db (snd (application_create owner d env w)))"
proof -
  have "interviews_ok tb'" if ins: "insert_application a (db w) = Some tb'" for a tb'
  proof -
    have tb': "applications tb' = applications (db w) @ [a]" "interviews tb' = interviews (db w)"
      and fresh: "a_id a \<notin> a_id ` set (applications (db w))"
      using ins by (auto simp: insert_application_def split: if_splits)
    have ne: "i_application_id i \<noteq> a_id a" if "i \<in> set (interviews (db w))" for i
    proof -
      have "application_exists (db w) (i_owner_id i) (i_application_id i)"
        using that assms(1) by (simp add: db_ok_def refs_ok_def)
      then show ?thesis using fresh unfolding application_exists_def by (metis image_eqI)
    qed
    have "interview_life tb' i" if "i \<in> set (interviews (db w))" for i
      using ne [OF that] assms(2) that
      by (auto simp: interviews_ok_def interview_life_def tb'(1))
    then show ?thesis by (simp add: interviews_ok_def tb'(2))
  qed
  then show ?thesis using assms(2)
    by (auto simp: application_create_def application_create_run_def Let_def commit_write_def
        split: option.splits)
qed

lemma application_update_interviews:
  assumes "interviews_ok (db w)"
  shows "interviews_ok (db (snd (application_update owner aid d env w)))"
proof (cases "application_get owner aid (db w)")
  case (Inl e)
  then show ?thesis using assms by (simp add: application_update_def application_update_run_def)
next
  case (Inr a)
  let ?b = "application_touched env a (application_patched d a)"
  have "interviews_ok tb'" if "update_application ?b (db w) = Some tb'" for tb'
    using that application_get_Inr [OF Inr]
    by (intro interviews_ok_put [OF assms, of a ?b])
      (auto simp: update_application_def split: if_splits)
  then show ?thesis using assms
    by (auto simp: application_update_def application_update_run_def Inr Let_def commit_write_def
        split: option.splits)
qed

lemma change_status_interviews:
  assumes "interviews_ok (db w)"
  shows "interviews_ok (db (snd (change_status owner aid t env w)))"
proof (cases "application_get_owned_for_update aid owner (db w)")
  case None
  then show ?thesis using assms by (simp add: change_status_def change_status_run_def)
next
  case (Some a)
  have "interviews_ok tb'"
    if "Option.bind (update_application (with_status env t a) (db w))
                (insert_history (status_history_row env a t)) = Some tb'"
      "t \<in> set (ALLOWED_STATUS_TRANSITIONS (a_status a))" for tb'
  proof (rule interviews_ok_put [OF assms, of a "with_status env t a"])
    show "a \<in> set (applications (db w))" using get_for_update_Some [OF Some] by simp
    show "a_status a \<notin> {SAVED, APPLIED} \<Longrightarrow> a_status (with_status env t a) \<notin> {SAVED, APPLIED}"
      using allowed_past_applied [OF that(2)] by simp
  qed (use that in \<open>auto simp: update_application_def insert_history_def bind_eq_Some_conv
        split: if_splits\<close>)
  then show ?thesis using assms
    by (auto simp: change_status_def change_status_run_def Some Let_def commit_write_def
        split: option.splits)
qed

lemma application_delete_interviews:
  assumes "interviews_ok (db w)"
  shows "interviews_ok (db (snd (application_delete owner aid env w)))"
  using assms
  by (auto simp: application_delete_def application_delete_run_def commit_write_def
      delete_application_def interviews_ok_def interview_life_def
      split: sum.splits option.splits if_splits)

section \<open>Properties\<close>


definition sample_interview_body :: interview_create_body where
  "sample_interview_body = \<lparr>ic_application_id = 30, ic_type = TECHNICAL,
     ic_scheduled_at = Aware 0 0, ic_duration_minutes = 60, ic_location = None,
     ic_meeting_url = None, ic_notes = None\<rparr>"

definition sample_screening_world :: world where
  "sample_screening_world = sample_world\<lparr>db := sample_life_tables\<rparr>"


end
