(* ===== verification/Business.thy ===== *)
theory Business
  imports Interviews
begin

text \<open>
  The endpoints of \<^verbatim>\<open>src/app/api/v1/{companies,jobs,applications,interviews}.py\<close> as
  requests: each validates its body or query, calls the service with the authenticated user's
  identifier and replies with the service's value. A run of the system is a sequence of such
  requests by any users, and the theorems here span all four services. Authentication and the
  write limiter, which the routes name as dependencies, are components of their own.
\<close>

section \<open>Requests and replies\<close>

text \<open>
  What the routes take from outside the repository: Pydantic's URL type, PostgreSQL's \<open>ILIKE\<close>
  and its collation.
\<close>

record externals =
  x_url :: "nat \<Rightarrow> string \<Rightarrow> string option"
  x_ilike :: "string \<Rightarrow> string \<Rightarrow> bool"
  x_coll :: "string \<Rightarrow> string \<Rightarrow> bool"

datatype company_request =
    CreateCompany company_create_body
  | ListCompanies company_query int int
  | GetCompany int
  | UpdateCompany int company_update_body
  | DeleteCompany int

datatype job_request =
    CreateJob job_create_body
  | ListJobs job_query int int
  | GetJob int
  | UpdateJob int job_update_body
  | DeleteJob int

datatype application_request =
    CreateApplication application_create_body
  | ListApplications application_query "py_datetime option" int int
  | GetApplication int
  | UpdateApplication int application_update_body
  | ChangeStatus int application_status
  | ListHistory int
  | DeleteApplication int

datatype interview_request =
    CreateInterview interview_create_body
  | ListInterviews "int option" "interview_status option" "py_datetime option"
      "py_datetime option" int int
  | ListUpcoming "py_datetime option" int
  | GetInterview int
  | UpdateInterview int interview_update_body
  | DeleteInterview int

datatype business_request =
    CompanyRequest company_request
  | JobRequest job_request
  | ApplicationRequest application_request
  | InterviewRequest interview_request

datatype reply =
    NoContent
  | CompanyReply company
  | CompanyPage "company list" int
  | JobReply job
  | JobPage "job list" int
  | ApplicationReply application
  | ApplicationPage "application list" int
  | HistoryReply "history_row list"
  | InterviewReply interview
  | InterviewPage "interview list" int
  | UpcomingReply "interview list"

definition replying :: "('a \<Rightarrow> reply) \<Rightarrow> 'a result \<times> world \<Rightarrow> reply result \<times> world" where
  "replying f rw = (map_sum id f (fst rw), snd rw)"

text \<open>A body that fails validation never reaches the service.\<close>

definition validated ::
    "'a result \<Rightarrow> ('a \<Rightarrow> world \<Rightarrow> reply result \<times> world) \<Rightarrow> world \<Rightarrow> reply result \<times> world" where
  "validated body run w = (case body of Inl e \<Rightarrow> (Inl e, w) | Inr d \<Rightarrow> run d w)"

definition checked :: "bool \<Rightarrow> reply result \<Rightarrow> reply result" where
  "checked ok r = (if ok then r else Inl RequestValidationError)"

definition page_ok :: "int \<Rightarrow> int \<Rightarrow> bool" where
  "page_ok page page_size = (1 \<le> page \<and> 1 \<le> page_size \<and> page_size \<le> 100)"

section \<open>Routes\<close>

fun company_route ::
    "externals \<Rightarrow> int \<Rightarrow> company_request \<Rightarrow> env \<Rightarrow> world \<Rightarrow> reply result \<times> world" where
  "company_route x owner (CreateCompany d) =
     (\<lambda>env. validated (validate_company_create (x_url x) d)
        (\<lambda>d w. replying CompanyReply (company_create owner d env w)))"
| "company_route x owner (ListCompanies q page page_size) =
     (\<lambda>env w. (checked (opt_ok (len_in 0 120) (cq_keyword q) \<and> opt_ok (len_in 0 100) (cq_industry q) \<and>
          opt_ok (len_in 0 255) (cq_location q) \<and> page_ok page page_size)
        (let (items, total) = company_list_owned (x_ilike x) owner q page page_size (db w)
         in Inr (CompanyPage items total)), w))"
| "company_route x owner (GetCompany k) =
     (\<lambda>env w. (map_sum id CompanyReply (company_get owner k (db w)), w))"
| "company_route x owner (UpdateCompany k d) =
     (\<lambda>env. validated (validate_company_update (x_url x) d)
        (\<lambda>d w. replying CompanyReply (company_update owner k d env w)))"
| "company_route x owner (DeleteCompany k) =
     (\<lambda>env w. replying (\<lambda>_. NoContent) (company_delete owner k env w))"

fun job_route ::
    "externals \<Rightarrow> int \<Rightarrow> job_request \<Rightarrow> env \<Rightarrow> world \<Rightarrow> reply result \<times> world" where
  "job_route x owner (CreateJob d) =
     (\<lambda>env. validated (validate_job_create (x_url x) d)
        (\<lambda>d w. replying JobReply (job_create owner d env w)))"
| "job_route x owner (ListJobs q page page_size) =
     (\<lambda>env w. (checked (opt_ok (\<lambda>c. 0 < c) (jq_company_id q) \<and>
          opt_ok (len_in 0 200) (jq_keyword q) \<and> page_ok page page_size)
        (let (items, total) = job_list_owned (x_ilike x) (x_coll x) owner q page page_size (db w)
         in Inr (JobPage items total)), w))"
| "job_route x owner (GetJob k) =
     (\<lambda>env w. (map_sum id JobReply (job_get owner k (db w)), w))"
| "job_route x owner (UpdateJob k d) =
     (\<lambda>env. validated (validate_job_update (x_url x) d)
        (\<lambda>d w. replying JobReply (job_update owner k d env w)))"
| "job_route x owner (DeleteJob k) =
     (\<lambda>env w. replying (\<lambda>_. NoContent) (job_delete owner k env w))"

definition aware_ok :: "py_datetime option \<Rightarrow> bool" where
  "aware_ok t = opt_ok (\<lambda>v. is_ok (require_timezone v)) t"

fun application_route ::
    "int \<Rightarrow> application_request \<Rightarrow> env \<Rightarrow> world \<Rightarrow> reply result \<times> world" where
  "application_route owner (CreateApplication d) =
     (\<lambda>env. validated (validate_application_create d)
        (\<lambda>d w. replying ApplicationReply (application_create owner d env w)))"
| "application_route owner (ListApplications q before page page_size) =
     (\<lambda>env w. (checked (opt_ok (\<lambda>c. 0 < c) (aq_company_id q) \<and>
          opt_ok priority_ok (aq_priority q) \<and> aware_ok before \<and> page_ok page page_size)
        (let (items, total) = application_list_owned owner
               (q\<lparr>aq_next_action_before := map_option as_utc before\<rparr>) page page_size (db w)
         in Inr (ApplicationPage items total)), w))"
| "application_route owner (GetApplication k) =
     (\<lambda>env w. (map_sum id ApplicationReply (application_get owner k (db w)), w))"
| "application_route owner (UpdateApplication k d) =
     (\<lambda>env. validated (validate_application_update d)
        (\<lambda>d w. replying ApplicationReply (application_update owner k d env w)))"
| "application_route owner (ChangeStatus k t) =
     (\<lambda>env w. replying ApplicationReply (change_status owner k t env w))"
| "application_route owner (ListHistory k) =
     (\<lambda>env w. (map_sum id HistoryReply (application_history owner k (db w)), w))"
| "application_route owner (DeleteApplication k) =
     (\<lambda>env w. replying (\<lambda>_. NoContent) (application_delete owner k env w))"

fun interview_route ::
    "externals \<Rightarrow> int \<Rightarrow> interview_request \<Rightarrow> env \<Rightarrow> world \<Rightarrow> reply result \<times> world" where
  "interview_route x owner (CreateInterview d) =
     (\<lambda>env. validated (validate_interview_create (x_url x) d)
        (\<lambda>d w. replying InterviewReply (interview_create owner d env w)))"
| "interview_route x owner (ListInterviews aid st from until page page_size) =
     (\<lambda>env w. (checked (opt_ok (\<lambda>a. 0 < a) aid \<and> aware_ok from \<and> aware_ok until \<and>
          page_ok page page_size)
        (map_sum id (\<lambda>(items, total). InterviewPage items total)
          (interview_list owner \<lparr>iq_application_id = aid, iq_status = st,
             iq_scheduled_from = map_option as_utc from,
             iq_scheduled_to = map_option as_utc until\<rparr> page page_size (db w))), w))"
| "interview_route x owner (ListUpcoming until limit) =
     (\<lambda>env w. (checked (aware_ok until \<and> 1 \<le> limit \<and> limit \<le> 100)
        (map_sum id UpcomingReply
          (interview_upcoming owner (map_option as_utc until) limit env (db w))), w))"
| "interview_route x owner (GetInterview k) =
     (\<lambda>env w. (map_sum id InterviewReply (interview_get owner k (db w)), w))"
| "interview_route x owner (UpdateInterview k d) =
     (\<lambda>env. validated (validate_interview_update (x_url x) d)
        (\<lambda>d w. replying InterviewReply (interview_update owner k d env w)))"
| "interview_route x owner (DeleteInterview k) =
     (\<lambda>env w. replying (\<lambda>_. NoContent) (interview_delete owner k env w))"

fun run_business ::
    "externals \<Rightarrow> int \<Rightarrow> business_request \<Rightarrow> env \<Rightarrow> world \<Rightarrow> reply result \<times> world" where
  "run_business x owner (CompanyRequest q) = company_route x owner q"
| "run_business x owner (JobRequest q) = job_route x owner q"
| "run_business x owner (ApplicationRequest q) = application_route owner q"
| "run_business x owner (InterviewRequest q) = interview_route x owner q"

text \<open>The requests that carry the write limiter.\<close>

fun is_write :: "business_request \<Rightarrow> bool" where
  "is_write (CompanyRequest (ListCompanies _ _ _)) = False"
| "is_write (CompanyRequest (GetCompany _)) = False"
| "is_write (JobRequest (ListJobs _ _ _)) = False"
| "is_write (JobRequest (GetJob _)) = False"
| "is_write (ApplicationRequest (ListApplications _ _ _ _)) = False"
| "is_write (ApplicationRequest (GetApplication _)) = False"
| "is_write (ApplicationRequest (ListHistory _)) = False"
| "is_write (InterviewRequest (ListInterviews _ _ _ _ _ _)) = False"
| "is_write (InterviewRequest (ListUpcoming _ _)) = False"
| "is_write (InterviewRequest (GetInterview _)) = False"
| "is_write _ = True"

section \<open>The contract of every request\<close>

lemma replying_write:
  assumes "owner_write run owner"
  shows "owner_write (\<lambda>env w. replying f (run env w)) owner"
proof
  fix env w r w' e v
  let ?run = "\<lambda>env w. replying f (run env w)"
  note req = owner_write.axioms(1) [OF assms]
  have snd: "?run env w = (r, w') \<Longrightarrow> run env w = (fst (run env w), w')" for r w'
    by (cases "run env w") (simp add: replying_def)
  have inl: "run env w = (Inl e, w')" if "?run env w = (Inl e, w')"
    using that by (cases "run env w"; cases "fst (run env w)") (auto simp: replying_def)
  have inr: "\<exists>u. run env w = (Inr u, w')" if "?run env w = (Inr v, w')"
    using that by (cases "run env w"; cases "fst (run env w)") (auto simp: replying_def)
  show "?run env w = (Inl e, w') \<Longrightarrow> e_fault env \<noteq> Some RefreshFault \<Longrightarrow> db w' = db w"
    using inl owner_request.atomic [OF req] by blast
  show "?run env w = (r, w') \<Longrightarrow> db_ok (db w) \<Longrightarrow> db_ok (db w')"
    using snd owner_request.keeps_db [OF req] by blast
  show "?run env w = (r, w') \<Longrightarrow> db_ok (db w) \<Longrightarrow> others owner (db w') = others owner (db w)"
    using snd owner_request.isolated [OF req] by blast
  show "?run env w = (r, w') \<Longrightarrow>
      dcache w' = dcache w \<or> dcache w' = (dcache w)(dashboard_key env owner := None)"
    using snd owner_request.entries [OF req] by blast
  show "?run env w = (Inr v, w') \<Longrightarrow> e_cache_redis env \<Longrightarrow> e_redis_del_ok env
      \<Longrightarrow> dcache w' (dashboard_key env owner) = None"
    using inr owner_write.invalidates [OF assms] by blast
qed

lemma validated_Inl: "validated (Inl e) run = (\<lambda>w. (Inl e, w))"
  by (simp add: validated_def fun_eq_iff)

lemma validated_Inr: "validated (Inr d) run = run d"
  by (simp add: validated_def fun_eq_iff)

lemma raise_write: "owner_write (\<lambda>env w. (Inl e, w)) owner"
  by unfold_locales auto

lemma validated_write:
  assumes "\<And>d. owner_write (\<lambda>env. run d env) owner"
  shows "owner_write (\<lambda>env. validated body (\<lambda>d. run d env)) owner"
proof (cases body)
  case (Inl e)
  show ?thesis unfolding Inl validated_Inl by (rule raise_write)
next
  case (Inr d)
  show ?thesis unfolding Inr validated_Inr by (rule assms)
qed

lemma read_request: "owner_request (\<lambda>env w. (f env w, w)) owner"
  by unfold_locales auto

lemmas service_contracts = company_create.owner_write_axioms company_update.owner_write_axioms
  company_delete.owner_write_axioms job_create.owner_write_axioms job_update.owner_write_axioms
  job_delete.owner_write_axioms application_create.owner_write_axioms
  application_update.owner_write_axioms change_status.owner_write_axioms
  application_delete.owner_write_axioms interview_create.owner_write_axioms
  interview_update.owner_write_axioms interview_delete.owner_write_axioms

lemmas write_contracts = service_contracts [THEN replying_write]

lemma company_route_write:
  "is_write (CompanyRequest q) \<Longrightarrow> owner_write (company_route x owner q) owner"
  by (cases q) (simp_all add: validated_write write_contracts)

lemma job_route_write: "is_write (JobRequest q) \<Longrightarrow> owner_write (job_route x owner q) owner"
  by (cases q) (simp_all add: validated_write write_contracts)

lemma application_route_write:
  "is_write (ApplicationRequest q) \<Longrightarrow> owner_write (application_route owner q) owner"
  by (cases q) (simp_all add: validated_write write_contracts)

lemma interview_route_write:
  "is_write (InterviewRequest q) \<Longrightarrow> owner_write (interview_route x owner q) owner"
  by (cases q) (simp_all add: validated_write write_contracts)

lemma business_write: "is_write q \<Longrightarrow> owner_write (run_business x owner q) owner"
  by (cases q) (simp_all add: company_route_write job_route_write application_route_write
      interview_route_write)

text \<open>A read leaves the whole state as it is.\<close>

lemma company_route_read:
  "\<not> is_write (CompanyRequest q) \<Longrightarrow> snd (company_route x owner q env w) = w"
  by (cases q) auto

lemma job_route_read: "\<not> is_write (JobRequest q) \<Longrightarrow> snd (job_route x owner q env w) = w"
  by (cases q) auto

lemma application_route_read:
  "\<not> is_write (ApplicationRequest q) \<Longrightarrow> snd (application_route owner q env w) = w"
  by (cases q) auto

lemma interview_route_read:
  "\<not> is_write (InterviewRequest q) \<Longrightarrow> snd (interview_route x owner q env w) = w"
  by (cases q) auto

lemma business_read: "\<not> is_write q \<Longrightarrow> snd (run_business x owner q env w) = w"
  by (cases q) (simp_all add: company_route_read job_route_read application_route_read
      interview_route_read)

interpretation run_business: owner_request "run_business x owner q" owner
  for x :: externals and owner :: int and q :: business_request
proof -
  show "owner_request (run_business x owner q) owner"
  proof (cases "is_write q")
    case True
    then show ?thesis by (rule owner_write.axioms(1) [OF business_write])
  next
    case False
    then have "(\<lambda>env w. (fst (run_business x owner q env w), w)) = run_business x owner q"
      by (intro ext prod_eqI) (simp_all add: business_read)
    then show ?thesis
      using read_request [of "\<lambda>env w. fst (run_business x owner q env w)" owner]
      by (simp only:)
  qed
qed

section \<open>The invariant of the whole tracker\<close>

definition business_ok :: "world \<Rightarrow> bool" where
  "business_ok w = (db_ok (db w) \<and> life_ok (db w) \<and> interviews_ok (db w))"

inductive business_step :: "externals \<Rightarrow> world \<Rightarrow> world \<Rightarrow> bool" for x where
  request: "run_business x owner q env w = (r, w') \<Longrightarrow> business_step x w w'"

inductive_cases business_stepE: "business_step x w w'"

definition business_start :: "world \<Rightarrow> bool" where
  "business_start w = (db_ok (db w) \<and> applications (db w) = [] \<and> interviews (db w) = [])"

text \<open>Operations on companies and jobs leave applications, histories and interviews alone.\<close>

definition same_tracking :: "tables \<Rightarrow> tables \<Rightarrow> bool" where
  "same_tracking tb tb' =
     (applications tb' = applications tb \<and> histories tb' = histories tb \<and>
      interviews tb' = interviews tb)"

lemma same_tracking_refl [simp]: "same_tracking tb tb"
  by (simp add: same_tracking_def)

lemma same_tracking_statement:
  "insert_company c tb = Some tb' \<Longrightarrow> same_tracking tb tb'"
  "update_company c tb = Some tb' \<Longrightarrow> same_tracking tb tb'"
  "delete_company c tb = Some tb' \<Longrightarrow> same_tracking tb tb'"
  "insert_job j tb = Some tb' \<Longrightarrow> same_tracking tb tb'"
  "update_job j tb = Some tb' \<Longrightarrow> same_tracking tb tb'"
  "delete_job j tb = Some tb' \<Longrightarrow> same_tracking tb tb'"
  by (auto simp: same_tracking_def statement_defs split: if_splits)

lemmas same_tracking_commit = commit_write_keeps [where P = "same_tracking tb" for tb]
  commit_write_keeps_if [where P = "same_tracking tb" for tb]

lemmas company_runs = company_create_def company_create_run_def company_update_def
  company_update_run_def company_delete_def company_delete_run_def

lemmas job_runs = job_create_def job_create_run_def job_update_def job_update_run_def
  job_delete_def job_delete_run_def

lemma same_tracking_company_create: "same_tracking (db w) (db (snd (company_create owner d env w)))"
  by (simp add: company_runs Let_def same_tracking_commit same_tracking_statement)

lemma same_tracking_company_update: "same_tracking (db w) (db (snd (company_update owner k d env w)))"
  by (cases "company_get owner k (db w)")
    (simp_all add: company_runs Let_def same_tracking_commit same_tracking_statement)

lemma same_tracking_company_delete: "same_tracking (db w) (db (snd (company_delete owner k env w)))"
  by (cases "company_get owner k (db w)")
    (simp_all add: company_runs same_tracking_commit same_tracking_statement)

lemma same_tracking_job_create: "same_tracking (db w) (db (snd (job_create owner d env w)))"
  by (cases "require_owned_company (jc_company_id d) owner (db w)")
    (simp_all add: job_runs Let_def same_tracking_commit same_tracking_statement)

lemma same_tracking_job_update: "same_tracking (db w) (db (snd (job_update owner k d env w)))"
proof (cases "job_get owner k (db w)")
  case (Inr j)
  then show ?thesis
    by (cases "case ju_company_id d of
        Val company_id \<Rightarrow> require_owned_company company_id owner (db w) | _ \<Rightarrow> Inr ()")
      (simp_all add: job_runs Let_def same_tracking_commit same_tracking_statement)
qed (simp add: job_runs)

lemma same_tracking_job_delete: "same_tracking (db w) (db (snd (job_delete owner k env w)))"
  by (cases "job_get owner k (db w)")
    (simp_all add: job_runs same_tracking_commit same_tracking_statement)

lemma tracking_ok_cong:
  "same_tracking tb tb' \<Longrightarrow> life_ok tb' = life_ok tb \<and> interviews_ok tb' = interviews_ok tb"
  unfolding same_tracking_def using life_ok_cong interviews_ok_cong by blast

definition same_applications :: "tables \<Rightarrow> tables \<Rightarrow> bool" where
  "same_applications tb tb' =
     (applications tb' = applications tb \<and> histories tb' = histories tb)"

lemma same_applications_refl [simp]: "same_applications tb tb"
  by (simp add: same_applications_def)

lemma same_applications_statement:
  "insert_interview i tb = Some tb' \<Longrightarrow> same_applications tb tb'"
  "update_interview i tb = Some tb' \<Longrightarrow> same_applications tb tb'"
  "delete_interview i tb = Some tb' \<Longrightarrow> same_applications tb tb'"
  by (auto simp: same_applications_def statement_defs split: if_splits)

lemmas same_applications_commit = commit_write_keeps [where P = "same_applications tb" for tb]
  commit_write_keeps_if [where P = "same_applications tb" for tb]

lemma interview_create_same: "same_applications (db w) (db (snd (interview_create owner d env w)))"
  by (cases "application_get_owned_for_update (ic_application_id d) owner (db w)")
    (simp_all add: interview_create_def interview_create_run_def Let_def
      same_applications_commit same_applications_statement)

lemma interview_update_same: "same_applications (db w) (db (snd (interview_update owner k d env w)))"
  by (cases "interview_get owner k (db w)")
    (simp_all add: interview_update_def interview_update_run_def Let_def
      same_applications_commit same_applications_statement)

lemma interview_delete_same: "same_applications (db w) (db (snd (interview_delete owner k env w)))"
  by (cases "interview_get owner k (db w)")
    (simp_all add: interview_delete_def interview_delete_run_def
      same_applications_commit same_applications_statement)

lemma same_applications_life: "same_applications tb tb' \<Longrightarrow> life_ok tb' = life_ok tb"
  unfolding same_applications_def using life_ok_cong by blast

definition tracking_ok :: "tables \<Rightarrow> bool" where
  "tracking_ok tb = (life_ok tb \<and> interviews_ok tb)"

lemma tracking_ok_validated:
  assumes "tracking_ok (db w)"
    and "\<And>d. body = Inr d \<Longrightarrow> tracking_ok (db (snd (run d w)))"
  shows "tracking_ok (db (snd (validated body (\<lambda>d w. replying f (run d w)) w)))"
  using assms by (cases body) (simp_all add: validated_def replying_def)

lemma tracking_ok_replying: "tracking_ok (db (snd rw)) \<Longrightarrow> tracking_ok (db (snd (replying f rw)))"
  by (simp add: replying_def)

lemma tracking_ok_same:
  assumes "tracking_ok tb" and "same_tracking tb tb'"
  shows "tracking_ok tb'"
  using assms tracking_ok_cong [OF assms(2)] by (simp add: tracking_ok_def)

lemma company_route_tracking:
  assumes "tracking_ok (db w)"
  shows "tracking_ok (db (snd (company_route x owner q env w)))"
  using assms
  by (cases q) (simp_all add: tracking_ok_validated tracking_ok_replying
      tracking_ok_same [OF assms] same_tracking_company_create same_tracking_company_update
      same_tracking_company_delete)

lemma job_route_tracking:
  assumes "tracking_ok (db w)"
  shows "tracking_ok (db (snd (job_route x owner q env w)))"
  using assms
  by (cases q) (simp_all add: tracking_ok_validated tracking_ok_replying
      tracking_ok_same [OF assms] same_tracking_job_create same_tracking_job_update
      same_tracking_job_delete)

lemma application_route_tracking:
  assumes "db_ok (db w)" and "tracking_ok (db w)"
  shows "tracking_ok (db (snd (application_route owner q env w)))"
proof -
  have t: "life_ok (db w)" "interviews_ok (db w)" using assms(2) by (simp_all add: tracking_ok_def)
  show ?thesis
  proof (cases q)
    case (CreateApplication d)
    then show ?thesis
      using application_create_life [OF _ assms(1) t(1)] application_create_interviews [OF assms(1) t(2)]
      by (simp, intro tracking_ok_validated assms(2)) (simp add: tracking_ok_def)
  next
    case (UpdateApplication k d)
    then show ?thesis
      using application_update_life [OF t(1)] application_update_interviews [OF t(2)]
      by (simp, intro tracking_ok_validated assms(2)) (simp add: tracking_ok_def)
  next
    case (ChangeStatus k t)
    then show ?thesis
      using change_status_life [OF assms(1) t(1)] change_status_interviews [OF t(2)]
      by (simp, intro tracking_ok_replying) (simp add: tracking_ok_def)
  next
    case (DeleteApplication k)
    then show ?thesis
      using application_delete_life [OF t(1)] application_delete_interviews [OF t(2)]
      by (simp, intro tracking_ok_replying) (simp add: tracking_ok_def)
  qed (simp_all add: assms(2))
qed

lemma interview_route_tracking:
  assumes "db_ok (db w)" and "tracking_ok (db w)"
  shows "tracking_ok (db (snd (interview_route x owner q env w)))"
proof -
  have t: "life_ok (db w)" "interviews_ok (db w)" using assms(2) by (simp_all add: tracking_ok_def)
  have "tracking_ok (db (snd (interview_create owner d env w)))" for d
    using interview_create_life [OF assms(1) t(2)] same_applications_life [OF interview_create_same] t(1)
    by (simp add: tracking_ok_def)
  moreover have "tracking_ok (db (snd (interview_update owner k d env w)))" for k d
    using interview_update_life [OF t(2)] same_applications_life [OF interview_update_same] t(1)
    by (simp add: tracking_ok_def)
  moreover have "tracking_ok (db (snd (interview_delete owner k env w)))" for k
    using interview_delete_life [OF t(2)] same_applications_life [OF interview_delete_same] t(1)
    by (simp add: tracking_ok_def)
  ultimately show ?thesis using assms(2)
    by (cases q) (simp_all add: tracking_ok_validated tracking_ok_replying)
qed

lemma business_tracking:
  "db_ok (db w) \<Longrightarrow> tracking_ok (db w) \<Longrightarrow> tracking_ok (db (snd (run_business x owner q env w)))"
  by (cases q) (simp_all add: company_route_tracking job_route_tracking
      application_route_tracking interview_route_tracking)

interpretation tracker: invariant_system business_start "business_step x" business_ok
  for x :: externals
proof
  fix w w'
  show "business_start w \<Longrightarrow> business_ok w"
    by (simp add: business_start_def business_ok_def life_ok_def interviews_ok_def)
  assume ok: "business_ok w" and "business_step x w w'"
  then obtain owner q env r where run: "run_business x owner q env w = (r, w')"
    by (auto elim: business_stepE)
  then have "tracking_ok (db w')"
    using ok business_tracking [of w x owner q env] by (simp add: business_ok_def tracking_ok_def)
  moreover have "db_ok (db w')"
    using ok run_business.keeps_db [OF run] by (simp add: business_ok_def)
  ultimately show "business_ok w'" by (simp add: business_ok_def tracking_ok_def)
qed

section \<open>Properties\<close>

text \<open>
  C1: from any consistent database without applications and interviews, every sequence of
  requests, by any users, in any order, with any database, commit,
  refresh or cache failures on the way, ends in a state where all table constraints and foreign
  keys hold, every application's dates fit its status, its history is a path of allowed
  transitions to its present status, feedback belongs to completed interviews only and every
  interview's application has left the statuses before screening.
\<close>

theorem tracker_invariant:
  assumes "business_start w" and "(business_step x)\<^sup>*\<^sup>* w w'"
  shows "db_ok (db w') \<and> life_ok (db w') \<and> interviews_ok (db w')"
  using tracker.reachable_inv [OF assms] by (simp add: business_ok_def)

definition sample_externals :: externals where
  "sample_externals = \<lparr>x_url = (\<lambda>_ _. None), x_ilike = (\<lambda>_ _. False), x_coll = (\<lambda>_ _. True)\<rparr>"

definition sample_start :: world where
  "sample_start = sample_world\<lparr>db := sample_tables\<lparr>applications := []\<rparr>\<rparr>"

definition sample_application_body :: application_create_body where
  "sample_application_body = \<lparr>ac_job_id = 20, ac_status = SAVED, ac_priority = 3,
     ac_applied_at = None, ac_deadline = None, ac_next_action_at = None, ac_notes = None\<rparr>"

theorem tracker_invariant_witness:
  "life_ok (db (snd (run_business sample_externals 1 (ApplicationRequest (CreateApplication sample_application_body))
     sample_env sample_start)))"
proof -
  have "business_start sample_start" by code_simp
  moreover have "(business_step sample_externals)\<^sup>*\<^sup>* sample_start
      (snd (run_business sample_externals 1 (ApplicationRequest (CreateApplication sample_application_body))
         sample_env sample_start))"
    by (rule r_into_rtranclp, rule request) (rule surjective_pairing)
  ultimately show ?thesis using tracker_invariant by blast
qed

text \<open>
  C2: a write request of one user, whatever it is and however it ends, changes no company, job,
  application, status history or interview of any other user, and no account, session or
  outbox row at all.
\<close>

theorem users_isolated:
  assumes "db_ok (db w)" and "other \<noteq> owner"
    and "w' = snd (run_business x owner q env w)"
  shows "filter (\<lambda>c. c_owner_id c = other) (companies (db w')) =
      filter (\<lambda>c. c_owner_id c = other) (companies (db w)) \<and>
    filter (\<lambda>j. j_owner_id j = other) (jobs (db w')) =
      filter (\<lambda>j. j_owner_id j = other) (jobs (db w)) \<and>
    filter (\<lambda>a. a_owner_id a = other) (applications (db w')) =
      filter (\<lambda>a. a_owner_id a = other) (applications (db w)) \<and>
    filter (\<lambda>i. i_owner_id i = other) (interviews (db w')) =
      filter (\<lambda>i. i_owner_id i = other) (interviews (db w)) \<and>
    filter (\<lambda>h. \<not> history_owned (db w') owner h) (histories (db w')) =
      filter (\<lambda>h. \<not> history_owned (db w) owner h) (histories (db w)) \<and>
    users (db w') = users (db w) \<and> refresh_tokens (db w') = refresh_tokens (db w) \<and>
    outbox (db w') = outbox (db w)"
proof -
  have "others owner (db w') = others owner (db w)"
    using run_business.isolated [of x owner q env w "fst (run_business x owner q env w)" w']
      assms(1,3) by simp
  from others_other [OF this assms(2)] others_rest [OF this] show ?thesis by simp
qed

theorem users_isolated_witness:
  "companies (db (snd (run_business sample_externals 2 (CompanyRequest (DeleteCompany 10)) sample_env sample_world))) =
     companies sample_tables"
proof -
  let ?w = "snd (run_business sample_externals 2 (CompanyRequest (DeleteCompany 10)) sample_env sample_world)"
  have "db_ok (db sample_world)" by (simp add: sample_world_def sample_db_ok)
  from users_isolated [OF this, of 1 2 ?w sample_externals "CompanyRequest (DeleteCompany 10)" sample_env]
  have "filter (\<lambda>c. c_owner_id c = 1) (companies (db ?w)) =
      filter (\<lambda>c. c_owner_id c = 1) (companies (db sample_world))" by simp
  moreover have "\<forall>c\<in>set (companies (db ?w)). c_owner_id c = 1" by code_simp
  moreover have "\<forall>c\<in>set (companies (db sample_world)). c_owner_id c = 1" by code_simp
  ultimately show ?thesis by (simp add: sample_world_def)
qed



end
