(* ===== verification/Sessions.thy ===== *)
theory Sessions
  imports Writes
begin

text \<open>
  Refresh tokens and device sessions: \<^verbatim>\<open>src/app/auth/refresh_token.py\<close>,
  \<^verbatim>\<open>src/app/auth/refresh.py\<close>, \<^verbatim>\<open>src/app/auth/jwt.py\<close>,
  \<^verbatim>\<open>src/app/services/session_issuance.py\<close> and \<^verbatim>\<open>src/app/services/sessions.py\<close>. The hash
  function, the random values and the token encoding come from libraries and are fields of the
  environment, as are the clock readings, one for each place that reads the clock.
\<close>

section \<open>Environment\<close>

record claims =
  cl_sub :: string
  cl_amr :: "string list"
  cl_auth_time :: "int option"
  cl_exp :: datetime
  cl_aud :: string
  cl_iss :: string

record auth_env =
  ae_now :: datetime             \<comment> \<open>the operation's own \<open>datetime.now(UTC)\<close>\<close>
  ae_check_now :: datetime       \<comment> \<open>the reading that the expiry is compared with\<close>
  ae_issue_now :: datetime       \<comment> \<open>\<open>create_refresh_token\<close>\<close>
  ae_jwt_now :: datetime         \<comment> \<open>\<open>create_access_token\<close>\<close>
  ae_created_at :: datetime      \<comment> \<open>column default of \<open>created_at\<close>\<close>
  ae_used_at :: datetime         \<comment> \<open>column default of \<open>last_used_at\<close>\<close>
  ae_fault :: bool               \<comment> \<open>the flush or commit of the operation fails\<close>
  ae_new_id :: int
  ae_new_token :: string         \<comment> \<open>\<open>secrets.token_urlsafe\<close>\<close>
  ae_new_family :: string        \<comment> \<open>\<open>str(uuid4())\<close>\<close>
  ae_sha256 :: "string \<Rightarrow> string"
  ae_encode :: "claims \<Rightarrow> string" \<comment> \<open>\<open>jwt.encode\<close>\<close>
  ae_refresh_days :: int
  ae_access_minutes :: int
  ae_audience :: string
  ae_issuer :: string

section \<open>Tokens\<close>

definition hash_refresh_token :: "auth_env \<Rightarrow> string \<Rightarrow> string" where
  "hash_refresh_token ae token = ae_sha256 ae token"

definition create_refresh_token :: "auth_env \<Rightarrow> string \<times> datetime" where
  "create_refresh_token ae = (ae_new_token ae, ae_issue_now ae + days (ae_refresh_days ae))"

definition create_access_token ::
    "auth_env \<Rightarrow> string \<Rightarrow> string list \<Rightarrow> int option \<Rightarrow> string" where
  "create_access_token ae sub amr auth_time = ae_encode ae
     \<lparr>cl_sub = sub, cl_amr = amr, cl_auth_time = auth_time,
      cl_exp = ae_jwt_now ae + minutes (ae_access_minutes ae),
      cl_aud = ae_audience ae, cl_iss = ae_issuer ae\<rparr>"

text \<open>\<open>printable\<close> is \<open>str.isprintable\<close>; \<open>split\<close> splits on runs of white space.\<close>

fun words_from :: "string \<Rightarrow> string \<Rightarrow> string list" where
  "words_from cur [] = (if cur = [] then [] else [rev cur])"
| "words_from cur (c # cs) =
     (if is_space c then (if cur = [] then words_from [] cs else rev cur # words_from [] cs)
      else words_from (c # cur) cs)"

definition words :: "string \<Rightarrow> string list" where
  "words s = words_from [] s"

fun join :: "string \<Rightarrow> string list \<Rightarrow> string" where
  "join sep [] = []"
| "join sep [x] = x"
| "join sep (x # y # ys) = x @ sep @ join sep (y # ys)"

definition first_nonempty :: "string option \<Rightarrow> string option \<Rightarrow> string \<Rightarrow> string" where
  "first_nonempty a b d =
     (if a \<noteq> None \<and> a \<noteq> Some [] then the a else if b \<noteq> None \<and> b \<noteq> Some [] then the b else d)"

definition normalize_device_name ::
    "(char \<Rightarrow> bool) \<Rightarrow> string option \<Rightarrow> string option \<Rightarrow> string" where
  "normalize_device_name printable device_name user_agent =
     (let candidate = first_nonempty device_name user_agent ''Unknown device'';
          text = map (\<lambda>c. if printable c then c else CHR '' '') candidate;
          normalized = py_strip (join '' '' (words text)) in
      take 100 (if normalized = [] then ''Unknown device'' else normalized))"

section \<open>Statements on refresh tokens\<close>

definition insert_refresh_token :: "refresh_token \<Rightarrow> tables \<Rightarrow> tables option" where
  "insert_refresh_token t tb =
     (if rt_id t \<notin> rt_id ` set (refresh_tokens tb) \<and>
         agrees_with rt_id refresh_token_agree t (refresh_tokens tb) \<and>
         user_exists tb (rt_user_id t)
      then Some (tb\<lparr>refresh_tokens := refresh_tokens tb @ [t]\<rparr>) else None)"

definition revoke_with :: "string \<Rightarrow> datetime \<Rightarrow> refresh_token \<Rightarrow> refresh_token" where
  "revoke_with reason now t =
     t\<lparr>rt_revoked := True, rt_revoked_at := Some now, rt_revocation_reason := Some reason\<rparr>"

definition revoke_where ::
    "(refresh_token \<Rightarrow> bool) \<Rightarrow> string \<Rightarrow> datetime \<Rightarrow> tables \<Rightarrow> tables" where
  "revoke_where P reason now tb =
     tb\<lparr>refresh_tokens :=
       update_where (\<lambda>t. P t \<and> \<not> rt_revoked t) (revoke_with reason now) (refresh_tokens tb)\<rparr>"

section \<open>Issuing a session\<close>

definition unauthorized :: "string \<Rightarrow> error" where
  "unauthorized detail = HTTPException 401 detail"

record token_pair =
  tk_access :: string
  tk_refresh :: string

text \<open>
  \<open>prepare_session_tokens\<close> adds the row to the caller's transaction; the caller commits. The
  user is read again under a row lock, so a user disabled meanwhile gets no session.
\<close>

definition session_row :: "auth_env \<Rightarrow> int \<Rightarrow> string \<Rightarrow> string \<Rightarrow> refresh_token" where
  "session_row ae user_id family device =
     (let (token, expires_at) = create_refresh_token ae in
      \<lparr>rt_id = ae_new_id ae, rt_user_id = user_id, rt_family_id = family,
       rt_token = hash_refresh_token ae token, rt_expires_at = expires_at,
       rt_created_at = ae_created_at ae, rt_last_used_at = ae_used_at ae,
       rt_device_name = device, rt_revoked = False, rt_revoked_at = None,
       rt_revocation_reason = None\<rparr>)"

definition prepare_session_tokens ::
    "auth_env \<Rightarrow> int \<Rightarrow> string \<Rightarrow> string list \<Rightarrow> tables \<Rightarrow> token_pair result \<times> tables" where
  "prepare_session_tokens ae user_id device methods tb =
     (case find (\<lambda>u. u_id u = user_id) (users tb) of
        None \<Rightarrow> (Inl (unauthorized ''Authentication is not available''), tb)
      | Some user \<Rightarrow>
          if \<not> u_is_active user
          then (Inl (unauthorized ''Authentication is not available''), tb)
          else let access = create_access_token ae (u_username user) methods
                     (Some (timestamp_of (ae_now ae)));
                   row = session_row ae (u_id user) (ae_new_family ae) device in
            (case insert_refresh_token row tb of
               None \<Rightarrow> (Inl IntegrityError, tb)
             | Some tb' \<Rightarrow>
                 (Inr \<lparr>tk_access = access, tk_refresh = fst (create_refresh_token ae)\<rparr>, tb')))"

section \<open>Refresh and logout\<close>

definition find_refresh_token :: "auth_env \<Rightarrow> string \<Rightarrow> tables \<Rightarrow> refresh_token option" where
  "find_refresh_token ae token tb =
     find (\<lambda>t. rt_token t = hash_refresh_token ae token) (refresh_tokens tb)"

definition revoke_family :: "string \<Rightarrow> string \<Rightarrow> datetime \<Rightarrow> tables \<Rightarrow> tables" where
  "revoke_family family reason revoked_at tb =
     revoke_where (\<lambda>t. rt_family_id t = family) reason revoked_at tb"

text \<open>
  \<open>try: execute; commit; except: rollback; raise\<close>: a failing commit leaves the tables as they
  were and raises the failure instead of the value that would follow.
\<close>

definition committing :: "auth_env \<Rightarrow> tables \<Rightarrow> tables \<Rightarrow> 'a result \<Rightarrow> 'a result \<times> tables" where
  "committing ae tb tb' r = (if ae_fault ae then (Inl DatabaseError, tb) else (r, tb'))"

definition revoke_user_sessions ::
    "auth_env \<Rightarrow> int \<Rightarrow> string option \<Rightarrow> string \<Rightarrow> tables \<Rightarrow> unit result \<times> tables" where
  "revoke_user_sessions ae user_id family reason tb =
     committing ae tb
       (revoke_where (\<lambda>t. rt_user_id t = user_id \<and>
            (case family of None \<Rightarrow> True | Some f \<Rightarrow> rt_family_id t = f)) reason (ae_now ae) tb)
       (Inr ())"

definition revoke_session_family :: "auth_env \<Rightarrow> int \<Rightarrow> string \<Rightarrow> tables \<Rightarrow> unit result \<times> tables" where
  "revoke_session_family ae user_id family tb =
     revoke_user_sessions ae user_id (Some family) ''user_revoked'' tb"

definition revoke_all_user_sessions ::
    "auth_env \<Rightarrow> int \<Rightarrow> string \<Rightarrow> tables \<Rightarrow> unit result \<times> tables" where
  "revoke_all_user_sessions ae user_id reason tb = revoke_user_sessions ae user_id None reason tb"

definition rotate_row :: "datetime \<Rightarrow> refresh_token \<Rightarrow> refresh_token" where
  "rotate_row now t =
     t\<lparr>rt_revoked := True, rt_revoked_at := Some now, rt_revocation_reason := Some ''rotated'',
       rt_last_used_at := now\<rparr>"

definition refresh_access_token ::
    "auth_env \<Rightarrow> string \<Rightarrow> tables \<Rightarrow> token_pair result \<times> tables" where
  "refresh_access_token ae token tb =
     (case find_refresh_token ae token tb of
        None \<Rightarrow> (Inl (unauthorized ''Invalid refresh token''), tb)
      | Some stored \<Rightarrow>
          if rt_revoked stored then
            committing ae tb
              (revoke_family (rt_family_id stored) ''reuse_detected'' (ae_now ae) tb)
              (Inl (unauthorized ''Invalid refresh token''))
          else if as_utc (Naive (rt_expires_at stored)) < ae_check_now ae then
            (Inl (unauthorized ''Refresh token expired''), tb)
          else (case find (\<lambda>u. u_id u = rt_user_id stored) (users tb) of
              None \<Rightarrow> (Inl (unauthorized ''User not found''), tb)
            | Some user \<Rightarrow>
                if \<not> u_is_active user then
                  (case revoke_all_user_sessions ae (u_id user) ''account_disabled'' tb of
                     (Inl e, tb') \<Rightarrow> (Inl e, tb')
                   | (Inr _, tb') \<Rightarrow> (Inl (unauthorized ''Invalid refresh token''), tb'))
                else let row = session_row ae (u_id user) (rt_family_id stored) (rt_device_name stored);
                         rotated = tb\<lparr>refresh_tokens :=
                           put_row rt_id (rotate_row (ae_now ae) stored) (refresh_tokens tb)\<rparr> in
                  (case insert_refresh_token row rotated of
                     None \<Rightarrow> (Inl IntegrityError, tb)
                   | Some tb' \<Rightarrow> committing ae tb tb'
                       (Inr \<lparr>tk_access = create_access_token ae (u_username user) [''refresh''] None,
                             tk_refresh = fst (create_refresh_token ae)\<rparr>))))"

definition revoke_refresh_token :: "auth_env \<Rightarrow> string \<Rightarrow> tables \<Rightarrow> bool result \<times> tables" where
  "revoke_refresh_token ae token tb =
     (case find_refresh_token ae token tb of
        None \<Rightarrow> (Inl (unauthorized ''Invalid refresh token''), tb)
      | Some stored \<Rightarrow>
          committing ae tb (revoke_family (rt_family_id stored) ''logout'' (ae_now ae) tb) (Inr True))"

section \<open>The list of device sessions\<close>

record device_session =
  ds_id :: string
  ds_device_name :: string
  ds_created_at :: datetime
  ds_last_used_at :: datetime
  ds_expires_at :: datetime

text \<open>\<open>max\<close> and \<open>min\<close> of a non-empty list; \<open>max\<close> with a key returns the first maximum.\<close>

fun max_by :: "('a \<Rightarrow> int) \<Rightarrow> 'a \<Rightarrow> 'a list \<Rightarrow> 'a" where
  "max_by key x [] = x"
| "max_by key x (y # ys) = (if key x < key y then max_by key y ys else max_by key x ys)"

fun min_of :: "int \<Rightarrow> int list \<Rightarrow> int" where
  "min_of x [] = x"
| "min_of x (y # ys) = min_of (if y < x then y else x) ys"

fun max_of :: "int \<Rightarrow> int list \<Rightarrow> int" where
  "max_of x [] = x"
| "max_of x (y # ys) = max_of (if x < y then y else x) ys"

definition newest_first :: "refresh_token \<Rightarrow> refresh_token \<Rightarrow> bool" where
  "newest_first a b = (rt_created_at b \<le> rt_created_at a)"

definition family_session :: "datetime \<Rightarrow> refresh_token list \<Rightarrow> string \<Rightarrow> device_session option" where
  "family_session now records family =
     (let members = filter (\<lambda>t. rt_family_id t = family) records;
          active = filter (\<lambda>t. \<not> rt_revoked t \<and> now < as_utc (Naive (rt_expires_at t))) members in
      (case (members, active) of
         (m # ms, a # rest) \<Rightarrow>
           (let current = max_by rt_last_used_at a rest in
            Some \<lparr>ds_id = family, ds_device_name = rt_device_name current,
                  ds_created_at = min_of (rt_created_at m) (map rt_created_at ms),
                  ds_last_used_at = max_of (rt_last_used_at m) (map rt_last_used_at ms),
                  ds_expires_at = max_of (rt_expires_at a) (map rt_expires_at rest)\<rparr>)
       | _ \<Rightarrow> None))"

definition list_active_sessions :: "auth_env \<Rightarrow> int \<Rightarrow> tables \<Rightarrow> device_session list" where
  "list_active_sessions ae user_id tb =
     (let records = sort_by newest_first (filter (\<lambda>t. rt_user_id t = user_id) (refresh_tokens tb));
          families = rev (remdups (rev (map rt_family_id records))) in
      sort_by (\<lambda>a b. ds_last_used_at b \<le> ds_last_used_at a)
        (List.map_filter (family_session (ae_now ae) records) families))"

section \<open>The invariant of refresh tokens\<close>

text \<open>
  Revocation is recorded completely or not at all, a family belongs to one user, and at most one
  token of a family is live.
\<close>

definition revocation_recorded :: "refresh_token \<Rightarrow> bool" where
  "revocation_recorded t =
     ((rt_revoked t \<longleftrightarrow> rt_revoked_at t \<noteq> None) \<and> (rt_revoked t \<longleftrightarrow> rt_revocation_reason t \<noteq> None))"

definition family_agree :: "refresh_token \<Rightarrow> refresh_token \<Rightarrow> bool" where
  "family_agree s t =
     (rt_token s \<noteq> rt_token t \<and>
      (rt_family_id s = rt_family_id t \<longrightarrow>
         rt_user_id s = rt_user_id t \<and> (rt_revoked s \<or> rt_revoked t)))"

definition session_ok :: "tables \<Rightarrow> bool" where
  "session_ok tb =
     (pairwise_ok rt_id family_agree (refresh_tokens tb) \<and>
      list_all revocation_recorded (refresh_tokens tb))"

interpretation family_table: keyed_table rt_id family_agree
  by unfold_locales (auto simp: family_agree_def)

lemma session_ok_row: "session_ok tb \<Longrightarrow> t \<in> set (refresh_tokens tb) \<Longrightarrow> revocation_recorded t"
  by (simp add: session_ok_def list_all_iff)

lemma session_ok_distinct: "session_ok tb \<Longrightarrow> distinct (map rt_id (refresh_tokens tb))"
  by (simp add: session_ok_def pairwise_ok_def)

lemma session_ok_same:
  "session_ok tb \<Longrightarrow> s \<in> set (refresh_tokens tb) \<Longrightarrow> t \<in> set (refresh_tokens tb)
    \<Longrightarrow> rt_id s = rt_id t \<Longrightarrow> s = t"
  using session_ok_distinct by (auto simp: distinct_map inj_on_def)

lemma find_refresh_token_Some:
  "find_refresh_token ae token tb = Some t
    \<Longrightarrow> t \<in> set (refresh_tokens tb) \<and> rt_token t = ae_sha256 ae token"
  by (auto simp: find_refresh_token_def hash_refresh_token_def dest!: find_Some)

lemma find_refresh_token_iff:
  assumes "session_ok tb"
  shows "find_refresh_token ae token tb = Some t \<longleftrightarrow>
    t \<in> set (refresh_tokens tb) \<and> rt_token t = ae_sha256 ae token"
proof
  assume t: "t \<in> set (refresh_tokens tb) \<and> rt_token t = ae_sha256 ae token"
  obtain u where u: "find_refresh_token ae token tb = Some u"
    using t find_none_iff [of "\<lambda>t. rt_token t = ae_sha256 ae token" "refresh_tokens tb"]
    by (cases "find_refresh_token ae token tb")
      (auto simp: find_refresh_token_def hash_refresh_token_def)
  have "rt_id u = rt_id t"
    using find_refresh_token_Some [OF u] t assms pairwise_okD [of rt_id family_agree _ u t]
    by (auto simp: session_ok_def family_agree_def)
  then show "find_refresh_token ae token tb = Some t"
    using session_ok_same [OF assms] find_refresh_token_Some [OF u] t u by blast
qed (rule find_refresh_token_Some)

subsection \<open>Bulk revocation\<close>

lemma revoke_where_rows:
  "refresh_tokens (revoke_where P reason now tb) =
     map (\<lambda>t. if P t \<and> \<not> rt_revoked t then revoke_with reason now t else t) (refresh_tokens tb)"
  by (simp add: revoke_where_def update_where_def)

lemma revoke_with_fields [simp]:
  "rt_id (revoke_with r n t) = rt_id t" "rt_token (revoke_with r n t) = rt_token t"
  "rt_family_id (revoke_with r n t) = rt_family_id t" "rt_user_id (revoke_with r n t) = rt_user_id t"
  "rt_revoked (revoke_with r n t)" "revocation_recorded (revoke_with r n t)"
  "rt_expires_at (revoke_with r n t) = rt_expires_at t"
  by (simp_all add: revoke_with_def revocation_recorded_def)

lemma session_ok_revoke:
  assumes "session_ok tb"
  shows "session_ok (revoke_where P reason now tb)"
  unfolding session_ok_def revoke_where_rows
proof (intro conjI family_table.map_ok)
  show "pairwise_ok rt_id family_agree (refresh_tokens tb)" using assms by (simp add: session_ok_def)
  show "family_agree (if P x \<and> \<not> rt_revoked x then revoke_with reason now x else x)
      (if P y \<and> \<not> rt_revoked y then revoke_with reason now y else y)"
    if "family_agree x y" for x y
    using that by (auto simp: family_agree_def)
  show "list_all revocation_recorded (map (\<lambda>t. if P t \<and> \<not> rt_revoked t
      then revoke_with reason now t else t) (refresh_tokens tb))"
    using assms by (auto simp: session_ok_def list_all_iff)
qed simp

subsection \<open>New rows\<close>

lemma session_row_fields [simp]:
  "rt_id (session_row ae u f d) = ae_new_id ae" "rt_user_id (session_row ae u f d) = u"
  "rt_family_id (session_row ae u f d) = f" "rt_device_name (session_row ae u f d) = d"
  "rt_token (session_row ae u f d) = ae_sha256 ae (ae_new_token ae)"
  "\<not> rt_revoked (session_row ae u f d)" "revocation_recorded (session_row ae u f d)"
  "rt_expires_at (session_row ae u f d) = ae_issue_now ae + days (ae_refresh_days ae)"
  by (simp_all add: session_row_def create_refresh_token_def hash_refresh_token_def
      revocation_recorded_def)

lemma insert_refresh_token_Some:
  "insert_refresh_token t tb = Some tb' \<Longrightarrow>
     tb' = tb\<lparr>refresh_tokens := refresh_tokens tb @ [t]\<rparr> \<and> rt_id t \<notin> rt_id ` set (refresh_tokens tb) \<and>
     agrees_with rt_id refresh_token_agree t (refresh_tokens tb) \<and> user_exists tb (rt_user_id t)"
  by (auto simp: insert_refresh_token_def split: if_splits)

lemma session_ok_insert:
  assumes "insert_refresh_token t tb = Some tb'" and "session_ok tb" and "revocation_recorded t"
    and "\<And>s. s \<in> set (refresh_tokens tb) \<Longrightarrow> rt_family_id s = rt_family_id t
      \<Longrightarrow> rt_user_id s = rt_user_id t \<and> rt_revoked s"
  shows "session_ok tb'"
proof -
  note ins = insert_refresh_token_Some [OF assms(1)]
  have "agrees_with rt_id family_agree t (refresh_tokens tb)"
    unfolding agrees_with_def
  proof (intro ballI impI)
    fix s assume s: "s \<in> set (refresh_tokens tb)" "rt_id s \<noteq> rt_id t"
    then have "rt_token t \<noteq> rt_token s"
      using ins by (auto simp: agrees_with_def refresh_token_agree_def)
    then show "family_agree t s" using assms(4) [OF s(1)] by (auto simp: family_agree_def)
  qed
  then show ?thesis
    using ins assms(2,3) family_table.insert_ok by (auto simp: session_ok_def)
qed

subsection \<open>Rotation\<close>

lemma rotate_row_fields [simp]:
  "rt_id (rotate_row n t) = rt_id t" "rt_token (rotate_row n t) = rt_token t"
  "rt_family_id (rotate_row n t) = rt_family_id t" "rt_user_id (rotate_row n t) = rt_user_id t"
  "rt_revoked (rotate_row n t)" "revocation_recorded (rotate_row n t)"
  by (simp_all add: rotate_row_def revocation_recorded_def)

lemma session_ok_rotate:
  assumes "session_ok tb" and "t \<in> set (refresh_tokens tb)"
    and "rotated = tb\<lparr>refresh_tokens := put_row rt_id (rotate_row n t) (refresh_tokens tb)\<rparr>"
  shows "session_ok rotated"
proof -
  have "agrees_with rt_id family_agree (rotate_row n t) (refresh_tokens tb)"
    unfolding agrees_with_def
  proof (intro ballI impI)
    fix s assume "s \<in> set (refresh_tokens tb)" "rt_id s \<noteq> rt_id (rotate_row n t)"
    then have "family_agree t s"
      using assms(1,2) pairwise_okD [of rt_id family_agree "refresh_tokens tb" t s]
      by (simp add: session_ok_def)
    then show "family_agree (rotate_row n t) s" by (simp add: family_agree_def)
  qed
  then show ?thesis
    using assms family_table.put_ok
    by (auto simp: session_ok_def list_all_iff dest!: set_put_row)
qed

text \<open>The rows a successful refresh leaves behind.\<close>

lemma refresh_Inr:
  assumes "refresh_access_token ae token tb = (Inr pair, tb')"
  obtains stored user where "find_refresh_token ae token tb = Some stored" and "\<not> rt_revoked stored"
    and "\<not> rt_expires_at stored < ae_check_now ae"
    and "find (\<lambda>u. u_id u = rt_user_id stored) (users tb) = Some user" and "u_is_active user"
    and "insert_refresh_token (session_row ae (u_id user) (rt_family_id stored) (rt_device_name stored))
      (tb\<lparr>refresh_tokens := put_row rt_id (rotate_row (ae_now ae) stored) (refresh_tokens tb)\<rparr>) = Some tb'"
    and "pair = \<lparr>tk_access = create_access_token ae (u_username user) [''refresh''] None,
       tk_refresh = fst (create_refresh_token ae)\<rparr>"
  using assms unfolding refresh_access_token_def revoke_all_user_sessions_def
    revoke_user_sessions_def committing_def
  by (auto simp: Let_def split: option.splits if_splits)

lemma rotated_family_revoked:
  assumes "session_ok tb" and "t \<in> set (refresh_tokens tb)" and "\<not> rt_revoked t"
    and "s \<in> set (put_row rt_id (rotate_row n t) (refresh_tokens tb))"
    and "rt_family_id s = rt_family_id t"
  shows "rt_user_id s = rt_user_id t \<and> rt_revoked s"
proof (cases "s = rotate_row n t")
  case False
  then have s: "s \<in> set (refresh_tokens tb)" "rt_id s \<noteq> rt_id t"
    using set_put_row [OF assms(4)] by auto
  then have "family_agree t s"
    using assms(1,2) pairwise_okD [of rt_id family_agree "refresh_tokens tb" t s]
    by (simp add: session_ok_def)
  then show ?thesis using assms(3,5) by (auto simp: family_agree_def)
qed simp

lemma refresh_ok:
  assumes run: "refresh_access_token ae token tb = (r, tb')" and ok: "session_ok tb"
  shows "session_ok tb'"
proof (cases r)
  case (Inr pair)
  obtain stored user where st: "find_refresh_token ae token tb = Some stored" "\<not> rt_revoked stored"
    and user: "find (\<lambda>u. u_id u = rt_user_id stored) (users tb) = Some user"
    and ins: "insert_refresh_token (session_row ae (u_id user) (rt_family_id stored) (rt_device_name stored))
      (tb\<lparr>refresh_tokens := put_row rt_id (rotate_row (ae_now ae) stored) (refresh_tokens tb)\<rparr>) = Some tb'"
    using run Inr by (auto elim!: refresh_Inr)
  have stored: "stored \<in> set (refresh_tokens tb)" using find_refresh_token_Some [OF st(1)] by simp
  have uid: "u_id user = rt_user_id stored" using find_Some [OF user] by simp
  show ?thesis
    by (rule session_ok_insert [OF ins session_ok_rotate [OF ok stored refl]])
      (use rotated_family_revoked [OF ok stored st(2)] uid in auto)
next
  case (Inl e)
  then have "tb' = tb \<or> (\<exists>P reason now. tb' = revoke_where P reason now tb)"
    using run unfolding refresh_access_token_def revoke_all_user_sessions_def revoke_family_def
      revoke_user_sessions_def committing_def
    by (auto simp: Let_def split: option.splits if_splits)
  then show ?thesis using ok session_ok_revoke by auto
qed

section \<open>Runs of the session operations\<close>

text \<open>
  A new family identifier is a random UUID, so it is not in use: the guard of \<open>issue\<close>. Every
  other part of the program leaves the table alone.
\<close>

inductive session_step :: "tables \<Rightarrow> tables \<Rightarrow> bool" where
  issue: "prepare_session_tokens ae uid device methods tb = (r, tb')
    \<Longrightarrow> ae_new_family ae \<notin> rt_family_id ` set (refresh_tokens tb) \<Longrightarrow> session_step tb tb'"
| refresh: "refresh_access_token ae token tb = (r, tb') \<Longrightarrow> session_step tb tb'"
| logout: "revoke_refresh_token ae token tb = (r', tb') \<Longrightarrow> session_step tb tb'"
| revoke_one: "revoke_session_family ae uid family tb = (u, tb') \<Longrightarrow> session_step tb tb'"
| revoke_all: "revoke_all_user_sessions ae uid reason tb = (u, tb') \<Longrightarrow> session_step tb tb'"
| elsewhere: "refresh_tokens tb' = refresh_tokens tb \<Longrightarrow> session_step tb tb'"

definition session_start :: "tables \<Rightarrow> bool" where
  "session_start tb = (refresh_tokens tb = [])"

lemma revoking_cases:
  "snd (committing ae tb (revoke_where P reason now tb) r) \<in> {tb, revoke_where P reason now tb}"
  by (simp add: committing_def)

lemma logout_cases:
  assumes "revoke_refresh_token ae token tb = (r, tb')"
  shows "tb' = tb \<or> (\<exists>P reason now. tb' = revoke_where P reason now tb)"
  using assms unfolding revoke_refresh_token_def revoke_family_def committing_def
  by (auto split: option.splits if_splits)

lemma revoke_user_cases:
  assumes "revoke_user_sessions ae uid family reason tb = (r, tb')"
  shows "tb' = tb \<or> (\<exists>P reason now. tb' = revoke_where P reason now tb)"
  using assms unfolding revoke_user_sessions_def committing_def by (auto split: if_splits)

lemma issue_cases:
  assumes "prepare_session_tokens ae uid device methods tb = (r, tb')"
  shows "tb' = tb \<or> insert_refresh_token (session_row ae uid (ae_new_family ae) device) tb = Some tb'"
  using assms unfolding prepare_session_tokens_def
  by (auto simp: Let_def dest!: find_Some split: option.splits if_splits)

interpretation sessions: invariant_system session_start session_step session_ok
proof
  fix tb tb'
  show "session_start tb \<Longrightarrow> session_ok tb"
    by (simp add: session_start_def session_ok_def pairwise_ok_def)
  assume ok: "session_ok tb" and "session_step tb tb'"
  from this(2) show "session_ok tb'"
  proof cases
    case (issue ae uid device methods r)
    from issue_cases [OF issue(1)] show ?thesis
    proof
      assume ins: "insert_refresh_token (session_row ae uid (ae_new_family ae) device) tb = Some tb'"
      have "rt_family_id s \<noteq> ae_new_family ae" if "s \<in> set (refresh_tokens tb)" for s
        using that issue(2) by (metis image_eqI)
      then show ?thesis by (intro session_ok_insert [OF ins ok]) auto
    qed (simp add: ok)
  next
    case (refresh ae token r)
    then show ?thesis using refresh_ok ok by blast
  next
    case (logout ae token r')
    then show ?thesis using logout_cases ok session_ok_revoke by metis
  next
    case (revoke_one ae uid family u)
    then show ?thesis using revoke_user_cases ok session_ok_revoke
      unfolding revoke_session_family_def by metis
  next
    case (revoke_all ae uid reason u)
    then show ?thesis using revoke_user_cases ok session_ok_revoke
      unfolding revoke_all_user_sessions_def by metis
  next
    case elsewhere
    then show ?thesis using ok by (simp add: session_ok_def)
  qed
qed

text \<open>Rows are never removed, keep their identity, and stay revoked.\<close>

definition row_evolves :: "refresh_token \<Rightarrow> refresh_token \<Rightarrow> bool" where
  "row_evolves t t' =
     (rt_id t' = rt_id t \<and> rt_token t' = rt_token t \<and> rt_family_id t' = rt_family_id t \<and>
      rt_user_id t' = rt_user_id t \<and> (rt_revoked t \<longrightarrow> rt_revoked t'))"

definition tokens_evolve :: "tables \<Rightarrow> tables \<Rightarrow> bool" where
  "tokens_evolve tb tb' =
     (\<forall>t\<in>set (refresh_tokens tb). \<exists>t'\<in>set (refresh_tokens tb'). row_evolves t t')"

lemma tokens_evolve_refl: "tokens_evolve tb tb"
  by (auto simp: tokens_evolve_def row_evolves_def)

lemma row_evolves_trans: "row_evolves t u \<Longrightarrow> row_evolves u v \<Longrightarrow> row_evolves t v"
  by (simp add: row_evolves_def)

lemma tokens_evolve_trans: "tokens_evolve a b \<Longrightarrow> tokens_evolve b c \<Longrightarrow> tokens_evolve a c"
  unfolding tokens_evolve_def using row_evolves_trans by metis

lemma tokens_evolve_map:
  assumes "refresh_tokens tb' = map f (refresh_tokens tb)"
    and "\<And>t. t \<in> set (refresh_tokens tb) \<Longrightarrow> row_evolves t (f t)"
  shows "tokens_evolve tb tb'"
  unfolding tokens_evolve_def assms(1) set_map using assms(2) by blast

lemma tokens_evolve_revoke: "tokens_evolve tb (revoke_where P reason now tb)"
  by (rule tokens_evolve_map [OF revoke_where_rows]) (simp add: row_evolves_def)

lemma tokens_evolve_insert:
  "insert_refresh_token t tb = Some tb' \<Longrightarrow> tokens_evolve tb tb'"
  using insert_refresh_token_Some [of t tb tb'] tokens_evolve_refl [of tb]
  by (auto simp: tokens_evolve_def)

lemma tokens_evolve_rotate:
  assumes "session_ok tb" and "stored \<in> set (refresh_tokens tb)"
  shows "tokens_evolve tb (tb\<lparr>refresh_tokens := put_row rt_id (rotate_row n stored) (refresh_tokens tb)\<rparr>)"
proof -
  have "row_evolves t (if rt_id t = rt_id (rotate_row n stored) then rotate_row n stored else t)"
    if "t \<in> set (refresh_tokens tb)" for t
    using session_ok_same [OF assms(1) that assms(2)] by (auto simp: row_evolves_def)
  then show ?thesis
    by (intro tokens_evolve_map [where f = "\<lambda>t. if rt_id t = rt_id (rotate_row n stored)
          then rotate_row n stored else t"]) (simp_all add: put_row_def)
qed

lemma refresh_evolves:
  assumes run: "refresh_access_token ae token tb = (r, tb')" and ok: "session_ok tb"
  shows "tokens_evolve tb tb'"
proof (cases r)
  case (Inr pair)
  then show ?thesis using run ok
    by (auto elim!: refresh_Inr intro: tokens_evolve_trans
        [OF tokens_evolve_rotate [OF ok] tokens_evolve_insert] dest: find_refresh_token_Some)
next
  case (Inl e)
  then have "tb' = tb \<or> (\<exists>P reason now. tb' = revoke_where P reason now tb)"
    using run unfolding refresh_access_token_def revoke_all_user_sessions_def revoke_family_def
      revoke_user_sessions_def committing_def
    by (auto simp: Let_def split: option.splits if_splits)
  then show ?thesis using tokens_evolve_refl tokens_evolve_revoke by metis
qed

lemma session_step_evolves:
  assumes "session_step tb tb'" and ok: "session_ok tb"
  shows "tokens_evolve tb tb'"
  using assms(1)
proof cases
  case (issue ae uid device methods r)
  then show ?thesis using issue_cases tokens_evolve_insert tokens_evolve_refl by metis
next
  case (refresh ae token r)
  then show ?thesis using refresh_evolves ok by blast
next
  case (logout ae token r')
  then show ?thesis using logout_cases tokens_evolve_revoke tokens_evolve_refl by metis
next
  case (revoke_one ae uid family u)
  then show ?thesis using revoke_user_cases tokens_evolve_revoke tokens_evolve_refl
    unfolding revoke_session_family_def by metis
next
  case (revoke_all ae uid reason u)
  then show ?thesis using revoke_user_cases tokens_evolve_revoke tokens_evolve_refl
    unfolding revoke_all_user_sessions_def by metis
next
  case elsewhere
  then show ?thesis using tokens_evolve_refl by (simp add: tokens_evolve_def)
qed

lemma session_steps_evolve:
  assumes "session_step\<^sup>*\<^sup>* tb tb'" and "session_ok tb"
  shows "tokens_evolve tb tb'"
  using assms(1)
proof (induction rule: rtranclp_induct)
  case (step u v)
  have "session_ok u" using sessions.steps_inv [OF step(1) assms(2)] .
  from tokens_evolve_trans [OF step(3) session_step_evolves [OF step(2) this]] show ?case .
qed (rule tokens_evolve_refl)

text \<open>A revoked token is refused, in every later state, whatever the clock and the randomness.\<close>

lemma revoked_refused:
  assumes "session_ok tb" and "t \<in> set (refresh_tokens tb)" and "rt_token t = ae_sha256 ae token"
    and "rt_revoked t"
  shows "\<not> is_ok (fst (refresh_access_token ae token tb))"
proof -
  have "find_refresh_token ae token tb = Some t"
    using find_refresh_token_iff [OF assms(1)] assms(2,3) by blast
  then show ?thesis using assms(4) by (simp add: refresh_access_token_def committing_def)
qed

lemma refused_forever:
  assumes "session_ok tb" and "t \<in> set (refresh_tokens tb)" and "rt_token t = ae_sha256 ae token"
    and "rt_revoked t" and "session_step\<^sup>*\<^sup>* tb tb'"
  shows "\<not> is_ok (fst (refresh_access_token ae token tb'))"
proof -
  obtain t' where "t' \<in> set (refresh_tokens tb')" "row_evolves t t'"
    using session_steps_evolve [OF assms(5,1)] assms(2) by (auto simp: tokens_evolve_def)
  then show ?thesis
    using revoked_refused [OF sessions.steps_inv [OF assms(5,1)]] assms(3,4)
    by (auto simp: row_evolves_def)
qed

section \<open>The session list\<close>

lemma family_session_id: "family_session now recs f = Some d \<Longrightarrow> ds_id d = f"
  by (auto simp: family_session_def Let_def split: list.splits)

lemma family_session_live:
  "family_session now recs f \<noteq> None \<longleftrightarrow>
     (\<exists>t\<in>set recs. rt_family_id t = f \<and> \<not> rt_revoked t \<and> now < rt_expires_at t)"
proof -
  let ?m = "filter (\<lambda>t. rt_family_id t = f) recs"
  let ?a = "filter (\<lambda>t. \<not> rt_revoked t \<and> now < as_utc (Naive (rt_expires_at t))) ?m"
  have "?a \<noteq> [] \<longleftrightarrow> (\<exists>t\<in>set recs. rt_family_id t = f \<and> \<not> rt_revoked t \<and> now < rt_expires_at t)"
    by (auto simp: filter_empty_conv)
  moreover have "?a \<noteq> [] \<Longrightarrow> ?m \<noteq> []" by (metis filter.simps(1))
  ultimately show ?thesis
    by (cases ?m; cases ?a) (simp_all add: family_session_def Let_def)
qed

lemma map_filter_ids:
  assumes "\<And>f d. g f = Some d \<Longrightarrow> key d = f"
  shows "key ` set (List.map_filter g fs) = {f \<in> set fs. g f \<noteq> None}"
proof (induction fs)
  case (Cons f fs)
  then show ?case using assms [of f] by (cases "g f") (auto simp: map_filter_simps)
qed (simp add: map_filter_simps)

lemma map_filter_distinct:
  assumes "distinct fs" and "\<And>f d. g f = Some d \<Longrightarrow> key d = f"
  shows "distinct (map key (List.map_filter g fs))"
  using assms(1)
proof (induction fs)
  case (Cons f fs)
  have "f \<notin> key ` set (List.map_filter g fs)"
    using map_filter_ids [of g key fs, OF assms(2)] Cons(2) by simp
  with Cons assms(2) [of f] show ?case by (cases "g f") (auto simp: map_filter_simps)
qed (simp add: map_filter_simps)

lemma distinct_map_sort_by: "distinct (map key xs) \<Longrightarrow> distinct (map key (sort_by le xs))"
proof (induction xs)
  case (Cons x xs)
  have "distinct (map key (insert_by le x ys)) \<longleftrightarrow> key x \<notin> key ` set ys \<and> distinct (map key ys)" for ys
    by (induction ys) auto
  with Cons show ?case by simp
qed simp

section \<open>A sample session\<close>

definition sample_auth :: auth_env where
  "sample_auth = \<lparr>ae_now = days 20000, ae_check_now = days 20000, ae_issue_now = days 20000,
     ae_jwt_now = days 20000, ae_created_at = days 20000, ae_used_at = days 20000,
     ae_fault = False, ae_new_id = 7, ae_new_token = ''t1'', ae_new_family = ''f1'',
     ae_sha256 = (\<lambda>s. CHR ''#'' # s), ae_encode = cl_sub, ae_refresh_days = 7,
     ae_access_minutes = 30, ae_audience = ''a'', ae_issuer = ''i''\<rparr>"

definition sample_auth2 :: auth_env where
  "sample_auth2 = sample_auth\<lparr>ae_new_id := 8, ae_new_token := ''t2''\<rparr>"

definition sample_session_tables :: tables where
  "sample_session_tables =
     snd (prepare_session_tokens sample_auth 1 ''laptop'' [''pwd''] sample_tables)"

lemma sample_sessions_reached: "session_step\<^sup>*\<^sup>* sample_tables sample_session_tables"
  unfolding sample_session_tables_def
proof (rule r_into_rtranclp, rule issue)
  show "prepare_session_tokens sample_auth 1 ''laptop'' [''pwd''] sample_tables =
    (fst (prepare_session_tokens sample_auth 1 ''laptop'' [''pwd''] sample_tables),
     snd (prepare_session_tokens sample_auth 1 ''laptop'' [''pwd''] sample_tables))"
    by simp
  show "ae_new_family sample_auth \<notin> rt_family_id ` set (refresh_tokens sample_tables)"
    by code_simp
qed

lemma sample_session_start: "session_start sample_tables"
  by code_simp

lemma sample_session_ok: "session_ok sample_session_tables"
  by (rule sessions.reachable_inv [OF sample_session_start sample_sessions_reached])

definition sample_rotated_tables :: tables where
  "sample_rotated_tables = snd (refresh_access_token sample_auth2 ''t1'' sample_session_tables)"

lemma sample_refresh:
  "refresh_access_token sample_auth2 ''t1'' sample_session_tables =
     (Inr \<lparr>tk_access = ''ann'', tk_refresh = ''t2''\<rparr>, sample_rotated_tables)"
proof -
  have "fst (refresh_access_token sample_auth2 ''t1'' sample_session_tables) =
    Inr \<lparr>tk_access = ''ann'', tk_refresh = ''t2''\<rparr>" by code_simp
  then show ?thesis unfolding sample_rotated_tables_def by (metis prod.collapse)
qed

section \<open>Properties\<close>

text \<open>
  C9: in every database reached from an empty session table by issuing, refreshing, logging out
  and revoking in any order, a token that has been exchanged successfully once is never accepted
  again, however many steps later, under any clock readings and random values.
\<close>

theorem refresh_single_use:
  assumes "session_start tb0" and "session_step\<^sup>*\<^sup>* tb0 tb"
    and "refresh_access_token ae token tb = (Inr pair, tb1)" and "session_step\<^sup>*\<^sup>* tb1 tb2"
    and "ae_sha256 ae' = ae_sha256 ae"
  shows "\<not> is_ok (fst (refresh_access_token ae' token tb2))"
proof -
  have ok: "session_ok tb" using sessions.reachable_inv [OF assms(1,2)] .
  obtain stored and user :: user where st: "find_refresh_token ae token tb = Some stored"
    and ins: "insert_refresh_token (session_row ae (u_id user) (rt_family_id stored) (rt_device_name stored))
      (tb\<lparr>refresh_tokens := put_row rt_id (rotate_row (ae_now ae) stored) (refresh_tokens tb)\<rparr>) = Some tb1"
    by (rule refresh_Inr [OF assms(3)]) blast
  have s: "stored \<in> set (refresh_tokens tb)" "rt_token stored = ae_sha256 ae token"
    using find_refresh_token_Some [OF st] by auto
  have "rotate_row (ae_now ae) stored \<in> set (refresh_tokens tb1)"
    using insert_refresh_token_Some [OF ins] s(1) by (force simp: put_row_def)
  from refused_forever [OF refresh_ok [OF assms(3) ok] this, of ae' token tb2]
  show ?thesis using s(2) assms(4,5) by simp
qed

theorem refresh_single_use_witness:
  "\<not> is_ok (fst (refresh_access_token sample_auth2 ''t1'' sample_rotated_tables))"
  by (rule refresh_single_use [OF sample_session_start sample_sessions_reached sample_refresh
        rtranclp.rtrancl_refl refl])

text \<open>
  C10: when a revoked token is presented again and the commit succeeds, every token of its
  family is revoked, and none of them is ever accepted again.
\<close>

theorem replay_revokes_family:
  assumes "session_ok tb" and "find_refresh_token ae token tb = Some stored" and "rt_revoked stored"
    and "\<not> ae_fault ae" and "snd (refresh_access_token ae token tb) = tb1"
    and "session_step\<^sup>*\<^sup>* tb1 tb2" and "t \<in> set (refresh_tokens tb)"
    and "rt_family_id t = rt_family_id stored" and "rt_token t = ae_sha256 ae' other"
  shows "fst (refresh_access_token ae token tb) = Inl (HTTPException 401 ''Invalid refresh token'') \<and>
    \<not> is_ok (fst (refresh_access_token ae' other tb2))"
proof -
  have tb1: "tb1 = revoke_where (\<lambda>t. rt_family_id t = rt_family_id stored) ''reuse_detected'' (ae_now ae) tb"
    using assms(2-5) by (simp add: refresh_access_token_def committing_def revoke_family_def)
  define t' where "t' = (if rt_family_id t = rt_family_id stored \<and> \<not> rt_revoked t
    then revoke_with ''reuse_detected'' (ae_now ae) t else t)"
  have t': "t' \<in> set (refresh_tokens tb1)" "rt_token t' = rt_token t" "rt_revoked t'"
    using assms(7,8) unfolding tb1 revoke_where_rows t'_def by auto
  have "session_ok tb1" using tb1 session_ok_revoke [OF assms(1)] by simp
  from refused_forever [OF this t'(1) _ t'(3) assms(6)] show ?thesis
    using t'(2) assms(2-4,9) by (simp add: refresh_access_token_def committing_def unauthorized_def)
qed

theorem replay_revokes_family_witness:
  "\<not> is_ok (fst (refresh_access_token sample_auth ''t2''
     (snd (refresh_access_token sample_auth ''t1'' sample_rotated_tables))))"
proof -
  have ok: "session_ok sample_rotated_tables" using refresh_ok [OF sample_refresh sample_session_ok] .
  have old: "find_refresh_token sample_auth ''t1'' sample_rotated_tables =
      Some (hd (refresh_tokens sample_rotated_tables))"
    and rev: "rt_revoked (hd (refresh_tokens sample_rotated_tables))"
    and fault: "\<not> ae_fault sample_auth"
    and new: "last (refresh_tokens sample_rotated_tables) \<in> set (refresh_tokens sample_rotated_tables)"
    and fam: "rt_family_id (last (refresh_tokens sample_rotated_tables)) =
      rt_family_id (hd (refresh_tokens sample_rotated_tables))"
    and tok: "rt_token (last (refresh_tokens sample_rotated_tables)) = ae_sha256 sample_auth ''t2''"
    by code_simp+
  show ?thesis
    using replay_revokes_family [OF ok old rev fault refl rtranclp.rtrancl_refl new fam tok] by blast
qed

text \<open>
  A refresh succeeds exactly when the token's hash is stored, not revoked and not expired,
  its user exists and is active, the new row does not collide and the commit succeeds; it then
  revokes exactly that row as rotated and adds exactly one live row to the same family, user and
  device. In every other case nothing becomes live.
\<close>

theorem refresh_complete:
  assumes "session_ok tb" and "find_refresh_token ae token tb = Some stored"
    and "find (\<lambda>u. u_id u = rt_user_id stored) (users tb) = Some user"
    and "ae_new_id ae \<notin> rt_id ` set (refresh_tokens tb)"
    and "ae_sha256 ae (ae_new_token ae) \<notin> rt_token ` set (refresh_tokens tb)"
  shows "(is_ok (fst (refresh_access_token ae token tb)) \<longleftrightarrow>
       \<not> rt_revoked stored \<and> ae_check_now ae \<le> rt_expires_at stored \<and> u_is_active user \<and> \<not> ae_fault ae) \<and>
    (if is_ok (fst (refresh_access_token ae token tb))
     then refresh_tokens (snd (refresh_access_token ae token tb)) =
       put_row rt_id (rotate_row (ae_now ae) stored) (refresh_tokens tb) @
       [session_row ae (rt_user_id stored) (rt_family_id stored) (rt_device_name stored)]
     else \<forall>t\<in>set (refresh_tokens (snd (refresh_access_token ae token tb))).
       \<not> rt_revoked t \<longrightarrow> t \<in> set (refresh_tokens tb))"
proof -
  let ?rot = "tb\<lparr>refresh_tokens := put_row rt_id (rotate_row (ae_now ae) stored) (refresh_tokens tb)\<rparr>"
  let ?row = "session_row ae (u_id user) (rt_family_id stored) (rt_device_name stored)"
  have u: "u_id user = rt_user_id stored" "user \<in> set (users tb)" using find_Some [OF assms(3)] by auto
  have ne: "rt_token t \<noteq> ae_sha256 ae (ae_new_token ae)" if "t \<in> set (refresh_tokens ?rot)" for t
  proof -
    have "t \<in> set (put_row rt_id (rotate_row (ae_now ae) stored) (refresh_tokens tb))" using that by simp
    then have "t = rotate_row (ae_now ae) stored \<or> t \<in> set (refresh_tokens tb)"
      using set_put_row by metis
    then have "rt_token t \<in> rt_token ` set (refresh_tokens tb)"
      using find_refresh_token_Some [OF assms(2)] rotate_row_fields(2) by (metis image_eqI)
    then show ?thesis using assms(5) by metis
  qed
  have "agrees_with rt_id refresh_token_agree ?row (refresh_tokens ?rot)"
    unfolding agrees_with_def refresh_token_agree_def using ne by (metis session_row_fields(5))
  moreover have "rt_id ?row \<notin> rt_id ` set (refresh_tokens ?rot)"
    using assms(4) by (simp flip: set_map)
  ultimately have ins: "insert_refresh_token ?row ?rot =
      Some (?rot\<lparr>refresh_tokens := refresh_tokens ?rot @ [?row]\<rparr>)"
    using u by (auto simp: insert_refresh_token_def user_exists_def)
  have keep: "\<forall>t\<in>set (refresh_tokens (revoke_where P reason now tb)).
      \<not> rt_revoked t \<longrightarrow> t \<in> set (refresh_tokens tb)" for P reason now
    unfolding revoke_where_rows by auto
  show ?thesis
    unfolding refresh_access_token_def using assms(2,3) ins keep u(1)
    by (auto simp: Let_def committing_def revoke_all_user_sessions_def revoke_user_sessions_def
        revoke_family_def)
qed

theorem refresh_complete_witness:
  "refresh_tokens (snd (refresh_access_token sample_auth2 ''t1'' sample_session_tables)) =
     put_row rt_id (rotate_row (days 20000) (hd (refresh_tokens sample_session_tables)))
       (refresh_tokens sample_session_tables) @ [session_row sample_auth2 1 ''f1'' ''laptop'']"
proof -
  have st: "find_refresh_token sample_auth2 ''t1'' sample_session_tables =
      Some (hd (refresh_tokens sample_session_tables))"
    and us: "find (\<lambda>u. u_id u = rt_user_id (hd (refresh_tokens sample_session_tables)))
      (users sample_session_tables) = Some (hd (users sample_session_tables))"
    and i: "ae_new_id sample_auth2 \<notin> rt_id ` set (refresh_tokens sample_session_tables)"
    and k: "ae_sha256 sample_auth2 (ae_new_token sample_auth2) \<notin>
      rt_token ` set (refresh_tokens sample_session_tables)"
    and vals: "ae_now sample_auth2 = days 20000"
      "rt_user_id (hd (refresh_tokens sample_session_tables)) = 1"
      "rt_family_id (hd (refresh_tokens sample_session_tables)) = ''f1''"
      "rt_device_name (hd (refresh_tokens sample_session_tables)) = ''laptop''"
    by code_simp+
  show ?thesis
    using refresh_complete [OF sample_session_ok st us i k] by (simp add: sample_refresh vals)
qed

text \<open>
  The list of device sessions has exactly one entry for every family of the user with a
  token that is neither revoked nor expired, most recently used first; after revoking all of the
  user's sessions it is empty.
\<close>

theorem active_sessions_exact:
  "distinct (map ds_id (list_active_sessions ae uid tb)) \<and>
   ds_id ` set (list_active_sessions ae uid tb) =
     {rt_family_id t | t. t \<in> set (refresh_tokens tb) \<and> rt_user_id t = uid \<and>
        \<not> rt_revoked t \<and> ae_now ae < rt_expires_at t} \<and>
   sorted_wrt (\<lambda>a b. ds_last_used_at b \<le> ds_last_used_at a) (list_active_sessions ae uid tb) \<and>
   (\<not> ae_fault ae \<longrightarrow>
      list_active_sessions ae' uid (snd (revoke_all_user_sessions ae uid reason tb)) = [])"
proof -
  let ?recs = "\<lambda>tb. sort_by newest_first (filter (\<lambda>t. rt_user_id t = uid) (refresh_tokens tb))"
  let ?fams = "\<lambda>tb. rev (remdups (rev (map rt_family_id (?recs tb))))"
  let ?found = "\<lambda>ae tb. List.map_filter (family_session (ae_now ae) (?recs tb)) (?fams tb)"
  have mem: "ds_id ` set (list_active_sessions ae uid tb) =
     {rt_family_id t | t. t \<in> set (refresh_tokens tb) \<and> rt_user_id t = uid \<and>
        \<not> rt_revoked t \<and> ae_now ae < rt_expires_at t}" for ae tb
  proof -
    have "ds_id ` set (list_active_sessions ae uid tb) =
        {f \<in> set (?fams tb). family_session (ae_now ae) (?recs tb) f \<noteq> None}"
      unfolding list_active_sessions_def Let_def set_sort_by
      by (rule map_filter_ids) (rule family_session_id)
    also have "\<dots> = {rt_family_id t | t. t \<in> set (refresh_tokens tb) \<and> rt_user_id t = uid \<and>
        \<not> rt_revoked t \<and> ae_now ae < rt_expires_at t}"
      unfolding family_session_live by (auto intro: exI) metis
    finally show ?thesis .
  qed
  have "distinct (map ds_id (?found ae tb))"
    by (rule map_filter_distinct) (auto dest: family_session_id)
  then have dist: "distinct (map ds_id (list_active_sessions ae uid tb))"
    unfolding list_active_sessions_def Let_def by (rule distinct_map_sort_by)
  have sorted: "sorted_wrt (\<lambda>a b. ds_last_used_at b \<le> ds_last_used_at a) (list_active_sessions ae uid tb)"
    unfolding list_active_sessions_def Let_def by (rule sorted_sort_by) auto
  have "list_active_sessions ae' uid (snd (revoke_all_user_sessions ae uid reason tb)) = []"
    if "\<not> ae_fault ae"
  proof -
    have rows: "refresh_tokens (snd (revoke_all_user_sessions ae uid reason tb)) =
        map (\<lambda>t. if rt_user_id t = uid \<and> \<not> rt_revoked t then revoke_with reason (ae_now ae) t else t)
          (refresh_tokens tb)"
      using that by (simp add: revoke_all_user_sessions_def revoke_user_sessions_def committing_def
          revoke_where_rows)
    have "rt_revoked t \<or> rt_user_id t \<noteq> uid"
      if t: "t \<in> set (refresh_tokens (snd (revoke_all_user_sessions ae uid reason tb)))" for t
      using t unfolding rows set_map by (elim imageE) (simp split: if_splits, blast)
    then have "ds_id ` set (list_active_sessions ae' uid (snd (revoke_all_user_sessions ae uid reason tb))) = {}"
      unfolding mem by blast
    then show ?thesis by (simp only: image_is_empty set_empty)
  qed
  with mem dist sorted show ?thesis by blast
qed

theorem active_sessions_exact_witness:
  "list_active_sessions sample_auth 1
     (snd (revoke_all_user_sessions sample_auth 1 ''user_revoked'' sample_session_tables)) = [] \<and>
   ds_id ` set (list_active_sessions sample_auth 1 sample_session_tables) \<subseteq> {''f1''}"
proof -
  have "\<not> ae_fault sample_auth" by (simp add: sample_auth_def)
  moreover have "list_all (\<lambda>t. rt_family_id t = ''f1'') (refresh_tokens sample_session_tables)"
    by code_simp
  ultimately show ?thesis
    using active_sessions_exact [where ae = sample_auth and ae' = sample_auth and uid = 1
        and tb = sample_session_tables and reason = "''user_revoked''"]
    by (auto simp: list_all_iff)
qed

end
