(* ===== verification/Outbox.thy ===== *)
theory Outbox
  imports Writes
begin

text \<open>
  The transactional outbox: \<^verbatim>\<open>src/app/services/outbox.py\<close> (enqueue and payload) and
  \<^verbatim>\<open>src/app/services/outbox_worker.py\<close> (claim, completion, retry, the worker's batch).
  Fernet, JSON and SHA-256 are parameters; the reading of the clock at each step and the rows
  other transactions have locked are arguments.
\<close>

section \<open>Payload\<close>

definition EMAIL_VERIFICATION_MESSAGE :: string where
  "EMAIL_VERIFICATION_MESSAGE = ''email_verification.v1''"

definition PASSWORD_RESET_MESSAGE :: string where
  "PASSWORD_RESET_MESSAGE = ''password_reset.v1''"

definition SUPPORTED_MESSAGE_TYPES :: "string list" where
  "SUPPORTED_MESSAGE_TYPES = [EMAIL_VERIFICATION_MESSAGE, PASSWORD_RESET_MESSAGE]"

datatype json_value = JString string | JOther

datatype json = JObject "(string \<times> json_value) list" | JNonObject

record crypto =
  cr_sha256 :: "string \<Rightarrow> string"
  cr_encrypt :: "string \<Rightarrow> string"                   \<comment> \<open>\<open>Fernet.encrypt\<close>\<close>
  cr_decrypt :: "string \<Rightarrow> string option"            \<comment> \<open>\<open>None\<close>: \<open>InvalidToken\<close>\<close>
  cr_dumps :: "(string \<times> string) list \<Rightarrow> string"     \<comment> \<open>\<open>json.dumps\<close> with sorted keys\<close>
  cr_loads :: "string \<Rightarrow> json option"

record email_payload =
  ep_action_url :: string
  ep_recipient :: string
  ep_token :: string

definition payload_fields :: "email_payload \<Rightarrow> (string \<times> string) list" where
  "payload_fields p =
     [(''action_url'', ep_action_url p), (''recipient'', ep_recipient p), (''token'', ep_token p)]"

definition outbox_idempotency_key :: "crypto \<Rightarrow> string \<Rightarrow> string \<Rightarrow> string" where
  "outbox_idempotency_key cr message_type token_hash =
     cr_sha256 cr (''jobtrack-api:outbox:v1:'' @ message_type @ '':'' @ token_hash)"

definition outbox_row ::
    "crypto \<Rightarrow> int \<Rightarrow> datetime \<Rightarrow> string option \<times> string option \<Rightarrow> string \<Rightarrow> email_payload \<Rightarrow> string \<Rightarrow>
     py_datetime \<Rightarrow> outbox_message" where
  "outbox_row cr new_id now trace message_type payload token_hash expires_at =
     \<lparr>ob_id = new_id, ob_message_type = message_type,
      ob_idempotency_key = outbox_idempotency_key cr message_type token_hash,
      ob_encryption_version = 1,
      ob_payload_encrypted = Some (cr_encrypt cr (cr_dumps cr (payload_fields payload))),
      ob_status = Pending, ob_attempt_count = 0, ob_available_at = now,
      ob_lease_owner = None, ob_lease_expires_at = None,
      ob_payload_expires_at = as_utc expires_at, ob_failure_category = None,
      ob_traceparent = fst trace, ob_tracestate = snd trace,
      ob_created_at = now, ob_updated_at = now, ob_terminal_at = None\<rparr>"

definition insert_outbox :: "outbox_message \<Rightarrow> tables \<Rightarrow> tables option" where
  "insert_outbox m tb =
     (if ob_id m \<notin> ob_id ` set (outbox tb) \<and> outbox_check m \<and>
         agrees_with ob_id outbox_agree m (outbox tb)
      then Some (tb\<lparr>outbox := outbox tb @ [m]\<rparr>) else None)"

text \<open>The row is added to the caller's transaction; a colliding key fails its commit.\<close>

definition enqueue_email_delivery ::
    "crypto \<Rightarrow> int \<Rightarrow> datetime \<Rightarrow> string option \<times> string option \<Rightarrow> string \<Rightarrow> email_payload \<Rightarrow> string \<Rightarrow>
     py_datetime \<Rightarrow> tables \<Rightarrow> tables result" where
  "enqueue_email_delivery cr new_id now trace message_type payload token_hash expires_at tb =
     (if message_type \<notin> set SUPPORTED_MESSAGE_TYPES
      then Inl (ValueError ''Unsupported outbox message type'')
      else (case insert_outbox
              (outbox_row cr new_id now trace message_type payload token_hash expires_at) tb of
          None \<Rightarrow> Inl IntegrityError | Some tb' \<Rightarrow> Inr tb'))"

fun string_field :: "string \<Rightarrow> (string \<times> json_value) list \<Rightarrow> string option" where
  "string_field k kvs = (case map_of kvs k of
     Some (JString (c # cs)) \<Rightarrow> Some (c # cs) | _ \<Rightarrow> None)"

definition decrypt_email_payload ::
    "crypto \<Rightarrow> int \<Rightarrow> string option \<Rightarrow> email_payload result" where
  "decrypt_email_payload cr encryption_version payload_encrypted =
     (case payload_encrypted of
        None \<Rightarrow> Inl (ValueError ''Unsupported or missing encrypted payload'')
      | Some data \<Rightarrow>
          if encryption_version \<noteq> 1
          then Inl (ValueError ''Unsupported or missing encrypted payload'')
          else (case Option.bind (cr_decrypt cr data) (cr_loads cr) of
              None \<Rightarrow> Inl (ValueError ''Invalid encrypted outbox payload'')
            | Some JNonObject \<Rightarrow> Inl (ValueError ''Invalid outbox payload shape'')
            | Some (JObject kvs) \<Rightarrow>
               (if set (map fst kvs) \<noteq> set [''action_url'', ''recipient'', ''token'']
                then Inl (ValueError ''Invalid outbox payload fields'')
                else (case (string_field ''action_url'' kvs, string_field ''recipient'' kvs,
                            string_field ''token'' kvs) of
                    (Some u, Some r, Some t) \<Rightarrow>
                      Inr \<lparr>ep_action_url = u, ep_recipient = r, ep_token = t\<rparr>
                  | _ \<Rightarrow> Inl (ValueError ''Invalid outbox payload fields'')))))"

section \<open>Claiming a batch\<close>

record outbox_settings =
  os_lease_seconds :: int
  os_batch_size :: int
  os_backoff_base :: int
  os_backoff_max :: int
  os_max_attempts :: int

record claimed_message =
  cm_id :: int
  cm_message_type :: string
  cm_encryption_version :: int
  cm_payload_encrypted :: "string option"
  cm_payload_expires_at :: datetime
  cm_attempt_count :: int
  cm_lease_recovered :: bool
  cm_traceparent :: "string option"
  cm_tracestate :: "string option"

definition claimable :: "datetime \<Rightarrow> outbox_message \<Rightarrow> bool" where
  "claimable now m =
     ((ob_status m = Pending \<and> ob_available_at m \<le> now) \<or>
      (ob_status m = Processing \<and>
        (case ob_lease_expires_at m of None \<Rightarrow> False | Some t \<Rightarrow> t \<le> now)))"

definition claim_order :: "outbox_message \<Rightarrow> outbox_message \<Rightarrow> bool" where
  "claim_order a b =
     (ob_available_at a < ob_available_at b \<or>
      (ob_available_at a = ob_available_at b \<and> ob_created_at a \<le> ob_created_at b))"

definition lease_row :: "outbox_settings \<Rightarrow> string \<Rightarrow> datetime \<Rightarrow> outbox_message \<Rightarrow> outbox_message" where
  "lease_row os owner now m = m
     \<lparr>ob_status := Processing, ob_lease_owner := Some owner,
      ob_lease_expires_at := Some (now + seconds (os_lease_seconds os)),
      ob_attempt_count := ob_attempt_count m + 1, ob_updated_at := now\<rparr>"

definition claimed_of :: "outbox_settings \<Rightarrow> string \<Rightarrow> datetime \<Rightarrow> outbox_message \<Rightarrow> claimed_message" where
  "claimed_of os owner now m =
     (let leased = lease_row os owner now m in
      \<lparr>cm_id = ob_id leased, cm_message_type = ob_message_type leased,
       cm_encryption_version = ob_encryption_version leased,
       cm_payload_encrypted = ob_payload_encrypted leased,
       cm_payload_expires_at = as_utc (Aware (ob_payload_expires_at leased) 0),
       cm_attempt_count = ob_attempt_count leased,
       cm_lease_recovered = (ob_status m = Processing),
       cm_traceparent = ob_traceparent leased, cm_tracestate = ob_tracestate leased\<rparr>)"

text \<open>\<open>SELECT ... FOR UPDATE SKIP LOCKED\<close>: the rows in \<open>locked\<close> are passed over.\<close>

definition claim_batch ::
    "outbox_settings \<Rightarrow> int list \<Rightarrow> datetime \<Rightarrow> tables \<Rightarrow> outbox_message list" where
  "claim_batch os locked now tb =
     take (nat (os_batch_size os))
       (filter (\<lambda>m. ob_id m \<notin> set locked) (sort_by claim_order (filter (claimable now) (outbox tb))))"

definition claim_messages ::
    "outbox_settings \<Rightarrow> string \<Rightarrow> int list \<Rightarrow> datetime \<Rightarrow> bool \<Rightarrow> tables \<Rightarrow>
     claimed_message list result \<times> tables" where
  "claim_messages os owner locked now fault tb =
     (let batch = claim_batch os locked now tb in
      if fault then (Inl DatabaseError, tb)
      else (Inr (map (claimed_of os owner now) batch),
            tb\<lparr>outbox := update_where (\<lambda>m. ob_id m \<in> ob_id ` set batch) (lease_row os owner now)
                   (outbox tb)\<rparr>))"

section \<open>Completion and failure\<close>

definition owned :: "claimed_message \<Rightarrow> string \<Rightarrow> outbox_message \<Rightarrow> bool" where
  "owned c owner m =
     (ob_id m = cm_id c \<and> ob_status m = Processing \<and> ob_lease_owner m = Some owner)"

definition owned_update ::
    "claimed_message \<Rightarrow> string \<Rightarrow> (outbox_message \<Rightarrow> outbox_message) \<Rightarrow> tables \<Rightarrow> bool \<times> tables" where
  "owned_update c owner f tb =
     (length (filter (owned c owner) (outbox tb)) = 1,
      tb\<lparr>outbox := update_where (owned c owner) f (outbox tb)\<rparr>)"

definition succeed_row :: "datetime \<Rightarrow> outbox_message \<Rightarrow> outbox_message" where
  "succeed_row now m = m
     \<lparr>ob_status := Succeeded, ob_payload_encrypted := None, ob_lease_owner := None,
      ob_lease_expires_at := None, ob_failure_category := None, ob_traceparent := None,
      ob_tracestate := None, ob_updated_at := now, ob_terminal_at := Some now\<rparr>"

definition mark_succeeded ::
    "claimed_message \<Rightarrow> string \<Rightarrow> datetime \<Rightarrow> bool \<Rightarrow> tables \<Rightarrow> bool result \<times> tables" where
  "mark_succeeded c owner now fault tb =
     (if fault then (Inl DatabaseError, tb)
      else let (updated, tb') = owned_update c owner (succeed_row now) tb in (Inr updated, tb'))"

text \<open>\<open>digest16 text\<close>: the first two bytes of SHA-256 as a big-endian integer.\<close>

definition retry_delay :: "outbox_settings \<Rightarrow> (string \<Rightarrow> int) \<Rightarrow> (int \<Rightarrow> string) \<Rightarrow> claimed_message \<Rightarrow> int" where
  "retry_delay os digest16 show_id c =
     (let base = os_backoff_base os;
          maximum = os_backoff_max os;
          exponential = min maximum (base * 2 ^ nat (cm_attempt_count c - 1));
          jitter_limit = max 1 (min base (exponential div 4));
          jitter = digest16 (show_id (cm_id c) @ '':'' @ show_int (cm_attempt_count c))
                   mod (jitter_limit + 1) in
      min maximum (exponential + jitter))"

definition dead_row :: "datetime \<Rightarrow> string \<Rightarrow> outbox_message \<Rightarrow> outbox_message" where
  "dead_row now category m = m
     \<lparr>ob_status := DeadLetter, ob_payload_encrypted := None, ob_available_at := now,
      ob_lease_owner := None, ob_lease_expires_at := None, ob_failure_category := Some category,
      ob_traceparent := None, ob_tracestate := None, ob_updated_at := now,
      ob_terminal_at := Some now\<rparr>"

definition retry_row :: "datetime \<Rightarrow> datetime \<Rightarrow> string \<Rightarrow> outbox_message \<Rightarrow> outbox_message" where
  "retry_row now available category m = m
     \<lparr>ob_status := Pending, ob_available_at := available, ob_lease_owner := None,
      ob_lease_expires_at := None, ob_failure_category := Some category, ob_updated_at := now\<rparr>"

definition terminal_failure :: "outbox_settings \<Rightarrow> claimed_message \<Rightarrow> bool \<Rightarrow> datetime \<Rightarrow> bool" where
  "terminal_failure os c retryable now =
     (\<not> retryable \<or> os_max_attempts os \<le> cm_attempt_count c \<or> cm_payload_expires_at c \<le> now)"

definition mark_failed ::
    "outbox_settings \<Rightarrow> (string \<Rightarrow> int) \<Rightarrow> (int \<Rightarrow> string) \<Rightarrow> claimed_message \<Rightarrow> string \<Rightarrow> string \<Rightarrow> bool \<Rightarrow>
     datetime \<Rightarrow> bool \<Rightarrow> tables \<Rightarrow> string option result \<times> tables" where
  "mark_failed os digest16 show_id c owner category retryable now fault tb =
     (let terminal = terminal_failure os c retryable now;
          outcome = (if terminal then ''dead_letter'' else ''retried'');
          f = (if terminal then dead_row now category
               else retry_row now (now + seconds (retry_delay os digest16 show_id c)) category) in
      if fault then (Inl DatabaseError, tb)
      else let (updated, tb') = owned_update c owner f tb in
        (Inr (if updated then Some outcome else None), tb'))"

section \<open>The worker\<close>

text \<open>
  What happens around one message of a batch: the clock readings, what the sender does and
  whether the database or the shutdown grace fails. \<open>SendOther\<close> is an exception the worker does
  not catch: it leaves the batch.
\<close>

datatype send_outcome = SendOk | SendSmtp | SendOther

record delivery_event =
  de_grace_expired :: bool
  de_check_now :: datetime
  de_mark_now :: datetime
  de_send :: send_outcome
  de_fault :: bool

type_synonym worker_log = "(string \<times> string) list"

record worker =
  wk_settings :: outbox_settings
  wk_crypto :: crypto
  wk_digest16 :: "string \<Rightarrow> int"
  wk_show_id :: "int \<Rightarrow> string"
  wk_owner :: string

definition worker_fail ::
    "worker \<Rightarrow> delivery_event \<Rightarrow> claimed_message \<Rightarrow> string \<Rightarrow> bool \<Rightarrow> tables \<times> worker_log \<Rightarrow>
     unit result \<times> tables \<times> worker_log" where
  "worker_fail wk ev c category retryable s =
     (case mark_failed (wk_settings wk) (wk_digest16 wk) (wk_show_id wk) c (wk_owner wk) category
             retryable (de_mark_now ev) (de_fault ev) (fst s) of
        (Inl e, tb') \<Rightarrow> (Inl e, tb', snd s)
      | (Inr outcome, tb') \<Rightarrow> (Inr (), tb', snd s @
          (if category = ''expired'' then [(cm_message_type c, ''expired'')] else []) @
          [(cm_message_type c, case outcome of None \<Rightarrow> ''stale_owner'' | Some x \<Rightarrow> x)]))"

definition process_message ::
    "worker \<Rightarrow> delivery_event \<Rightarrow> claimed_message \<Rightarrow> tables \<times> worker_log \<Rightarrow>
     unit result \<times> tables \<times> worker_log" where
  "process_message wk ev c s0 =
     (let s = (fst s0, snd s0 @
            (if cm_lease_recovered c then [(cm_message_type c, ''lease_recovered'')] else [])) in
      if cm_payload_expires_at c \<le> de_check_now ev then worker_fail wk ev c ''expired'' False s
      else (case decrypt_email_payload (wk_crypto wk) (cm_encryption_version c)
                   (cm_payload_encrypted c) of
          Inl _ \<Rightarrow> worker_fail wk ev c ''invalid_payload'' False s
        | Inr payload \<Rightarrow>
           (case de_send ev of
              SendSmtp \<Rightarrow> worker_fail wk ev c ''smtp'' True s
            | SendOther \<Rightarrow> (Inl (ValueError ''send failed''), s)
            | SendOk \<Rightarrow>
               (case mark_succeeded c (wk_owner wk) (de_mark_now ev) (de_fault ev) (fst s) of
                  (Inl e, tb') \<Rightarrow> (Inl e, tb', snd s)
                | (Inr updated, tb') \<Rightarrow> (Inr (), tb', snd s @
                    [(cm_message_type c, if updated then ''succeeded'' else ''stale_owner'')])))))"

fun process_batch ::
    "worker \<Rightarrow> (delivery_event \<times> claimed_message) list \<Rightarrow> tables \<times> worker_log \<Rightarrow>
     unit result \<times> tables \<times> worker_log" where
  "process_batch wk [] s = (Inr (), s)"
| "process_batch wk ((ev, c) # rest) s =
     (let s1 = (fst s, snd s @ [(cm_message_type c, ''claimed'')]) in
      if de_grace_expired ev then (Inr (), s1)
      else (case process_message wk ev c s1 of
          (Inl e, s2) \<Rightarrow> (Inl e, s2)
        | (Inr _, s2) \<Rightarrow> process_batch wk rest s2))"

definition run_once ::
    "worker \<Rightarrow> bool \<Rightarrow> int list \<Rightarrow> datetime \<Rightarrow> bool \<Rightarrow> (claimed_message \<Rightarrow> delivery_event) \<Rightarrow>
     tables \<times> worker_log \<Rightarrow> int result \<times> tables \<times> worker_log" where
  "run_once wk stopping locked now fault events s =
     (if stopping then (Inr 0, s)
      else (case claim_messages (wk_settings wk) (wk_owner wk) locked now fault (fst s) of
          (Inl e, tb') \<Rightarrow> (Inl e, tb', snd s)
        | (Inr messages, tb') \<Rightarrow>
           (case process_batch wk (map (\<lambda>c. (events c, c)) messages) (tb', snd s) of
              (Inl e, s') \<Rightarrow> (Inl e, s')
            | (Inr _, s') \<Rightarrow> (Inr (int (length messages)), s'))))"

section \<open>The life of a message\<close>

definition outbox_ok :: "tables \<Rightarrow> bool" where
  "outbox_ok tb =
     (pairwise_ok ob_id outbox_agree (outbox tb) \<and> list_all outbox_check (outbox tb))"

lemma outbox_ok_row: "outbox_ok tb \<Longrightarrow> m \<in> set (outbox tb) \<Longrightarrow> outbox_check m"
  by (simp add: outbox_ok_def list_all_iff)

lemma outbox_ok_same:
  "outbox_ok tb \<Longrightarrow> m \<in> set (outbox tb) \<Longrightarrow> m' \<in> set (outbox tb) \<Longrightarrow> ob_id m = ob_id m' \<Longrightarrow> m = m'"
  by (auto simp: outbox_ok_def pairwise_ok_def distinct_map inj_on_def)

lemma outbox_row_check: "outbox_check (outbox_row cr i now trace ty p h e)"
  by (simp add: outbox_check_def outbox_row_def)

lemma lease_row_fields [simp]:
  "ob_id (lease_row os owner now m) = ob_id m"
  "ob_idempotency_key (lease_row os owner now m) = ob_idempotency_key m"
  "ob_status (lease_row os owner now m) = Processing"
  "ob_lease_owner (lease_row os owner now m) = Some owner"
  "ob_lease_expires_at (lease_row os owner now m) = Some (now + seconds (os_lease_seconds os))"
  "ob_attempt_count (lease_row os owner now m) = ob_attempt_count m + 1"
  "ob_payload_encrypted (lease_row os owner now m) = ob_payload_encrypted m"
  "ob_terminal_at (lease_row os owner now m) = ob_terminal_at m"
  by (simp_all add: lease_row_def)

lemma final_rows_fields [simp]:
  "ob_id (succeed_row now m) = ob_id m" "ob_id (dead_row now c m) = ob_id m"
  "ob_id (retry_row now av c m) = ob_id m"
  "ob_idempotency_key (succeed_row now m) = ob_idempotency_key m"
  "ob_idempotency_key (dead_row now c m) = ob_idempotency_key m"
  "ob_idempotency_key (retry_row now av c m) = ob_idempotency_key m"
  "ob_attempt_count (succeed_row now m) = ob_attempt_count m"
  "ob_attempt_count (dead_row now c m) = ob_attempt_count m"
  "ob_attempt_count (retry_row now av c m) = ob_attempt_count m"
  by (simp_all add: succeed_row_def dead_row_def retry_row_def)

lemma lease_row_check: "claimable now m \<Longrightarrow> outbox_check m \<Longrightarrow> outbox_check (lease_row os owner now' m)"
  by (auto simp: claimable_def outbox_check_def)

lemma final_rows_check:
  "outbox_check m \<Longrightarrow> ob_status m = Processing \<Longrightarrow> outbox_check (succeed_row now m)"
  "outbox_check m \<Longrightarrow> ob_status m = Processing \<Longrightarrow> outbox_check (dead_row now c m)"
  "outbox_check m \<Longrightarrow> ob_status m = Processing \<Longrightarrow> outbox_check (retry_row now av c m)"
  by (auto simp: outbox_check_def succeed_row_def dead_row_def retry_row_def)

text \<open>Every bulk update of the outbox is of this form.\<close>

lemma outbox_ok_update:
  assumes "outbox_ok tb"
    and "\<And>m. ob_id (f m) = ob_id m \<and> ob_idempotency_key (f m) = ob_idempotency_key m"
    and "\<And>m. m \<in> set (outbox tb) \<Longrightarrow> P m \<Longrightarrow> outbox_check m \<Longrightarrow> outbox_check (f m)"
  shows "outbox_ok (tb\<lparr>outbox := update_where P f (outbox tb)\<rparr>)"
proof -
  have "pairwise_ok ob_id outbox_agree (map (\<lambda>m. if P m then f m else m) (outbox tb))"
    by (rule outbox_table.map_ok) (use assms(1,2) in \<open>auto simp: outbox_ok_def outbox_agree_def\<close>)
  moreover have "list_all outbox_check (update_where P f (outbox tb))"
    using assms(1,3) by (auto simp: outbox_ok_def list_all_iff update_where_def)
  ultimately show ?thesis by (simp add: outbox_ok_def update_where_def)
qed

lemma claim_batch_rows:
  "set (claim_batch os locked now tb) \<subseteq> {m \<in> set (outbox tb). claimable now m \<and> ob_id m \<notin> set locked}"
  by (auto simp: claim_batch_def dest!: in_set_takeD)

lemma claim_batch_claimable: "m \<in> set (claim_batch os locked now tb) \<Longrightarrow> claimable now m"
  using claim_batch_rows by blast

lemma claim_rows:
  assumes "outbox_ok tb" and "m \<in> set (outbox tb)"
  shows "ob_id m \<in> ob_id ` set (claim_batch os locked now tb) \<longleftrightarrow> m \<in> set (claim_batch os locked now tb)"
  using outbox_ok_same [OF assms(1,2)] claim_batch_rows [of os locked now tb] by auto

inductive outbox_step :: "tables \<Rightarrow> tables \<Rightarrow> bool" where
  enqueue: "enqueue_email_delivery cr i now trace ty p h e tb = Inr tb' \<Longrightarrow> outbox_step tb tb'"
| claim: "claim_messages os owner locked now fault tb = (r, tb') \<Longrightarrow> outbox_step tb tb'"
| succeed: "mark_succeeded c owner now fault tb = (b, tb') \<Longrightarrow> outbox_step tb tb'"
| fail: "mark_failed os dg sh c owner category retryable now fault tb = (q, tb') \<Longrightarrow> outbox_step tb tb'"

definition final_update :: "(outbox_message \<Rightarrow> outbox_message) \<Rightarrow> bool" where
  "final_update f =
     ((\<exists>n. f = succeed_row n) \<or> (\<exists>n c. f = dead_row n c) \<or> (\<exists>n av c. f = retry_row n av c))"

lemma mark_succeeded_cases:
  assumes "mark_succeeded c owner now fault tb = (b, tb')"
  shows "tb' = tb \<or> (\<exists>f. final_update f \<and> tb' = tb\<lparr>outbox := update_where (owned c owner) f (outbox tb)\<rparr>)"
  using assms by (auto simp: mark_succeeded_def owned_update_def final_update_def split: if_splits)

lemma mark_failed_cases:
  assumes "mark_failed os dg sh c owner category retryable now fault tb = (q, tb')"
  shows "tb' = tb \<or> (\<exists>f. final_update f \<and> tb' = tb\<lparr>outbox := update_where (owned c owner) f (outbox tb)\<rparr>)"
proof -
  define f where "f = (if terminal_failure os c retryable now then dead_row now category
    else retry_row now (now + seconds (retry_delay os dg sh c)) category)"
  have "final_update f"
    unfolding f_def final_update_def by (cases "terminal_failure os c retryable now") (simp; blast)+
  moreover have "tb' = tb \<or> tb' = tb\<lparr>outbox := update_where (owned c owner) f (outbox tb)\<rparr>"
    using assms by (cases fault) (simp_all add: mark_failed_def owned_update_def Let_def flip: f_def)
  ultimately show ?thesis by blast
qed

lemma outbox_ok_mark:
  assumes "final_update f" and "outbox_ok tb"
  shows "outbox_ok (tb\<lparr>outbox := update_where (owned c owner) f (outbox tb)\<rparr>)"
proof (rule outbox_ok_update [OF assms(2)])
  show "ob_id (f m) = ob_id m \<and> ob_idempotency_key (f m) = ob_idempotency_key m" for m
    using assms(1) by (auto simp: final_update_def)
  show "outbox_check (f m)" if "owned c owner m" "outbox_check m" for m
    using assms(1) that final_rows_check by (auto simp: owned_def final_update_def)
qed

lemma enqueue_rows:
  assumes "enqueue_email_delivery cr i now trace ty p h e tb = Inr tb'"
  shows "tb' = tb\<lparr>outbox := outbox tb @ [outbox_row cr i now trace ty p h e]\<rparr> \<and>
    i \<notin> ob_id ` set (outbox tb) \<and>
    agrees_with ob_id outbox_agree (outbox_row cr i now trace ty p h e) (outbox tb)"
  using assms
  by (auto simp: enqueue_email_delivery_def insert_outbox_def outbox_row_def
      split: if_splits option.splits)

definition outbox_start :: "tables \<Rightarrow> bool" where
  "outbox_start tb = (outbox tb = [])"

interpretation outbox_system: invariant_system outbox_start outbox_step outbox_ok
proof
  fix tb tb'
  show "outbox_start tb \<Longrightarrow> outbox_ok tb"
    by (simp add: outbox_start_def outbox_ok_def pairwise_ok_def)
  assume ok: "outbox_ok tb" and "outbox_step tb tb'"
  from this(2) show "outbox_ok tb'"
  proof cases
    case (enqueue cr i now trace ty p h e)
    let ?m = "outbox_row cr i now trace ty p h e"
    have "ob_id ?m = i" by (simp add: outbox_row_def)
    then show ?thesis
      using enqueue_rows [OF enqueue] ok outbox_table.insert_ok [of "outbox tb" ?m] outbox_row_check
      by (auto simp: outbox_ok_def)
  next
    case (claim os owner locked now fault r)
    show ?thesis
    proof (cases fault)
      case False
      have "tb' = tb\<lparr>outbox := update_where (\<lambda>m. ob_id m \<in> ob_id ` set (claim_batch os locked now tb))
          (lease_row os owner now) (outbox tb)\<rparr>"
        using claim False by (simp add: claim_messages_def Let_def)
      moreover have "outbox_ok \<dots>"
      proof (rule outbox_ok_update [OF ok])
        fix m assume m: "m \<in> set (outbox tb)" "outbox_check m"
          "ob_id m \<in> ob_id ` set (claim_batch os locked now tb)"
        then have "claimable now m" using claim_rows [OF ok m(1)] claim_batch_claimable by blast
        then show "outbox_check (lease_row os owner now m)" using m(2) lease_row_check by blast
      qed simp
      ultimately show ?thesis by simp
    qed (use claim ok in \<open>simp add: claim_messages_def Let_def\<close>)
  next
    case (succeed c owner now fault b)
    from mark_succeeded_cases [OF succeed] show ?thesis using ok outbox_ok_mark by metis
  next
    case (fail os dg sh c owner category retryable now fault q)
    from mark_failed_cases [OF fail] show ?thesis using ok outbox_ok_mark by metis
  qed
qed

text \<open>A message in a terminal status is never touched again.\<close>

lemma terminal_row_stays:
  assumes "outbox_step tb tb'" and ok: "outbox_ok tb" and m: "m \<in> set (outbox tb)"
    and t: "terminal_status (ob_status m)"
  shows "m \<in> set (outbox tb')"
proof -
  have keep: "m \<in> set (update_where P f (outbox tb))" if "\<not> P m" for P f
    using m that by (force simp: update_where_def)
  have not_owned: "\<not> owned c owner m" for c owner using t by (auto simp: owned_def)
  from assms(1) show ?thesis
  proof cases
    case (enqueue cr i now trace ty p h e)
    then show ?thesis using enqueue_rows m by fastforce
  next
    case (claim os owner locked now fault r)
    have "\<not> claimable now m" using t by (auto simp: claimable_def)
    then have "ob_id m \<notin> ob_id ` set (claim_batch os locked now tb)"
      using claim_rows [OF ok m] claim_batch_rows by blast
    then show ?thesis using claim keep m by (auto simp: claim_messages_def Let_def split: if_splits)
  next
    case (succeed c owner now fault b)
    from mark_succeeded_cases [OF succeed] show ?thesis
    proof (elim disjE exE conjE)
      fix f assume "tb' = tb\<lparr>outbox := update_where (owned c owner) f (outbox tb)\<rparr>"
      then show ?thesis using keep [of "owned c owner" f] not_owned by simp
    qed (simp add: m)
  next
    case (fail os dg sh c owner category retryable now fault q)
    from mark_failed_cases [OF fail] show ?thesis
    proof (elim disjE exE conjE)
      fix f assume "tb' = tb\<lparr>outbox := update_where (owned c owner) f (outbox tb)\<rparr>"
      then show ?thesis using keep [of "owned c owner" f] not_owned by simp
    qed (simp add: m)
  qed
qed

lemma terminal_row_stays_steps:
  assumes "outbox_step\<^sup>*\<^sup>* tb tb'" and "outbox_ok tb" and "m \<in> set (outbox tb)"
    and "terminal_status (ob_status m)"
  shows "m \<in> set (outbox tb')"
  using assms(1)
proof (induction rule: rtranclp_induct)
  case (step u v)
  then show ?case using terminal_row_stays outbox_system.steps_inv [OF step(1) assms(2)] assms(4)
    by blast
qed (rule assms(3))

lemma claimed_of_fields [simp]:
  "cm_id (claimed_of os owner now m) = ob_id m"
  "cm_attempt_count (claimed_of os owner now m) = ob_attempt_count m + 1"
  by (simp_all add: claimed_of_def Let_def lease_row_def)

lemma claim_result:
  assumes "claim_messages os owner locked now fault tb = (Inr cs, tb')"
  shows "cs = map (claimed_of os owner now) (claim_batch os locked now tb) \<and>
    tb' = tb\<lparr>outbox := update_where (\<lambda>m. ob_id m \<in> ob_id ` set (claim_batch os locked now tb))
       (lease_row os owner now) (outbox tb)\<rparr>"
  using assms by (auto simp: claim_messages_def Let_def split: if_splits)

lemma filter_id_single:
  assumes "distinct (map key xs)" and "x \<in> set xs" and "P x" and "\<And>y. P y \<Longrightarrow> key y = key x"
  shows "filter P xs = [x]"
  using assms(1,2)
proof (induction xs)
  case (Cons y ys)
  show ?case
  proof (cases "y = x")
    case True
    then have "\<not> P z" if "z \<in> set ys" for z
      using Cons(2) that assms(4) by (metis distinct.simps(2) image_eqI list.simps(9) set_map)
    then show ?thesis using True assms(3) by (simp add: filter_empty_conv)
  next
    case False
    then have "x \<in> set ys" using Cons(3) by simp
    moreover have "\<not> P y"
      using Cons(2) \<open>x \<in> set ys\<close> assms(4)
      by (metis distinct.simps(2) image_eqI list.simps(9) set_map)
    ultimately show ?thesis using Cons by simp
  qed
qed simp

section \<open>The retry delay\<close>

lemma retry_delay_range:
  assumes "1 \<le> os_backoff_base os" and "os_backoff_base os \<le> os_backoff_max os"
  shows "os_backoff_base os \<le> retry_delay os dg sh c \<and> retry_delay os dg sh c \<le> os_backoff_max os \<and>
    min (os_backoff_max os) (os_backoff_base os * 2 ^ nat (cm_attempt_count c - 1))
      \<le> retry_delay os dg sh c"
proof -
  let ?b = "os_backoff_base os" and ?m = "os_backoff_max os"
  let ?e = "min ?m (?b * 2 ^ nat (cm_attempt_count c - 1))"
  let ?j = "dg (sh (cm_id c) @ '':'' @ show_int (cm_attempt_count c)) mod (max 1 (min ?b (?e div 4)) + 1)"
  have d: "retry_delay os dg sh c = min ?m (?e + ?j)" by (simp add: retry_delay_def Let_def)
  have j: "0 \<le> ?j" by (rule pos_mod_sign) simp
  have "?b * 1 \<le> ?b * 2 ^ nat (cm_attempt_count c - 1)"
    using assms(1) by (intro mult_left_mono) simp_all
  then have b: "?b \<le> ?e" using assms(2) by simp
  have bounds: "b \<le> min m (e + j) \<and> min m (e + j) \<le> m \<and> e \<le> min m (e + j)"
    if "0 \<le> j" "b \<le> e" "e \<le> m" for b e j m :: int
    using that by simp
  show ?thesis unfolding d by (rule bounds [OF j b]) simp
qed

section \<open>A sample outbox\<close>

definition sample_crypto :: crypto where
  "sample_crypto = \<lparr>cr_sha256 = (\<lambda>s. s), cr_encrypt = (\<lambda>s. s), cr_decrypt = Some,
     cr_dumps = (\<lambda>_. ''json''),
     cr_loads = (\<lambda>_. Some (JObject [(''action_url'', JString ''u''), (''recipient'', JString ''r''),
       (''token'', JString ''t'')]))\<rparr>"

definition sample_outbox_settings :: outbox_settings where
  "sample_outbox_settings = \<lparr>os_lease_seconds = 60, os_batch_size = 10, os_backoff_base = 5,
     os_backoff_max = 300, os_max_attempts = 5\<rparr>"

definition sample_payload :: email_payload where
  "sample_payload = \<lparr>ep_action_url = ''u'', ep_recipient = ''r'', ep_token = ''t''\<rparr>"

definition sample_message :: outbox_message where
  "sample_message = outbox_row sample_crypto 1 0 (None, None) PASSWORD_RESET_MESSAGE sample_payload
     ''h'' (Naive (days 1))"

definition sample_outbox :: tables where
  "sample_outbox = empty_tables\<lparr>outbox := [sample_message]\<rparr>"

definition sample_claimed :: tables where
  "sample_claimed =
     snd (claim_messages sample_outbox_settings ''w1'' [] (seconds 1) False sample_outbox)"

definition sample_claim :: claimed_message where
  "sample_claim = claimed_of sample_outbox_settings ''w1'' (seconds 1) sample_message"

lemma sample_enqueue:
  "enqueue_email_delivery sample_crypto 1 0 (None, None) PASSWORD_RESET_MESSAGE sample_payload
     ''h'' (Naive (days 1)) empty_tables = Inr sample_outbox"
  by code_simp

lemma sample_outbox_start: "outbox_start empty_tables"
  by code_simp

lemma sample_outbox_reached: "outbox_step\<^sup>*\<^sup>* empty_tables sample_outbox"
  using sample_enqueue by (blast intro: outbox_step.enqueue)

lemma sample_outbox_ok: "outbox_ok sample_outbox"
  by (rule outbox_system.reachable_inv [OF sample_outbox_start sample_outbox_reached])

lemma sample_claiming:
  "claim_messages sample_outbox_settings ''w1'' [] (seconds 1) False sample_outbox =
     (Inr [sample_claim], sample_claimed)"
proof -
  have "fst (claim_messages sample_outbox_settings ''w1'' [] (seconds 1) False sample_outbox) =
    Inr [sample_claim]" by code_simp
  then show ?thesis unfolding sample_claimed_def by (metis prod.collapse)
qed

lemma sample_claimed_ok: "outbox_ok sample_claimed"
  by (rule outbox_system.step_inv [OF sample_outbox_ok outbox_step.claim [OF sample_claiming]])

section \<open>Properties\<close>

text \<open>
  C11: in every outbox reached from an empty one by enqueueing, claiming, completing and failing
  messages, by any number of workers in any order, the table's checks hold (a lease exactly
  while processing, a payload exactly until a terminal status, distinct idempotency keys), and a
  message that has succeeded or been dead-lettered has lost its payload and never changes again.
\<close>

theorem outbox_lifecycle:
  assumes "outbox_start tb0" and "outbox_step\<^sup>*\<^sup>* tb0 tb" and "m \<in> set (outbox tb)"
  shows "outbox_check m \<and> (\<forall>m'\<in>set (outbox tb). ob_id m' \<noteq> ob_id m \<longrightarrow>
      ob_idempotency_key m' \<noteq> ob_idempotency_key m) \<and>
    (terminal_status (ob_status m) \<longrightarrow> ob_payload_encrypted m = None \<and>
      (\<forall>tb'. outbox_step\<^sup>*\<^sup>* tb tb' \<longrightarrow> m \<in> set (outbox tb')))"
proof -
  have ok: "outbox_ok tb" using outbox_system.reachable_inv [OF assms(1,2)] .
  have "outbox_check m" using outbox_ok_row [OF ok assms(3)] .
  moreover from this have "terminal_status (ob_status m) \<Longrightarrow> ob_payload_encrypted m = None"
    by (simp add: outbox_check_def)
  moreover have "ob_idempotency_key m' \<noteq> ob_idempotency_key m"
    if "m' \<in> set (outbox tb)" "ob_id m' \<noteq> ob_id m" for m'
    using ok pairwise_okD [of ob_id outbox_agree "outbox tb" m' m] that assms(3)
    by (simp add: outbox_ok_def outbox_agree_def)
  ultimately show ?thesis using terminal_row_stays_steps ok assms(3) by blast
qed

theorem outbox_lifecycle_witness:
  "outbox_check sample_message"
proof -
  have "sample_message \<in> set (outbox sample_outbox)" by (simp add: sample_outbox_def)
  then show ?thesis
    using outbox_lifecycle [OF sample_outbox_start sample_outbox_reached] by blast
qed

text \<open>
  A claim returns at most a batch, and only messages that were due or whose lease had run
  out; each is counted as one more attempt and leased to the claimer for the lease time, and
  until that time has passed no other claim on the resulting outbox gets any of them.
\<close>

theorem claim_exclusive:
  assumes "outbox_ok tb" and "claim_messages os owner locked now fault tb = (Inr cs, tb')"
    and "later < now + seconds (os_lease_seconds os)" and "c \<in> set cs"
  shows "(\<exists>m\<in>set (outbox tb). ob_id m = cm_id c \<and> claimable now m \<and>
       cm_attempt_count c = ob_attempt_count m + 1 \<and> lease_row os owner now m \<in> set (outbox tb')) \<and>
    length cs \<le> nat (os_batch_size os) \<and>
    cm_id c \<notin> ob_id ` set (claim_batch os' locked' later tb')"
proof -
  note res = claim_result [OF assms(2)]
  obtain m where m: "m \<in> set (claim_batch os locked now tb)" "c = claimed_of os owner now m"
    using assms(4) res by auto
  have old: "m \<in> set (outbox tb)" "claimable now m"
    using m(1) claim_batch_rows [of os locked now tb] by auto
  let ?new = "lease_row os owner now m"
  have new: "?new \<in> set (outbox tb')"
    using res old(1) m(1) by (force simp: update_where_def)
  have ok': "outbox_ok tb'"
    using outbox_system.step_inv [OF assms(1) outbox_step.claim [OF assms(2)]] .
  have "ob_id x \<noteq> cm_id c" if "x \<in> set (claim_batch os' locked' later tb')" for x
  proof
    assume "ob_id x = cm_id c"
    moreover have x: "x \<in> set (outbox tb')" "claimable later x"
      using that claim_batch_rows [of os' locked' later tb'] by auto
    ultimately have "x = ?new" using outbox_ok_same [OF ok' x(1) new] m(2) by simp
    then show False using x(2) assms(3) by (simp add: claimable_def)
  qed
  then have "cm_id c \<notin> ob_id ` set (claim_batch os' locked' later tb')" by (metis imageE)
  moreover have "length cs \<le> nat (os_batch_size os)" using res by (simp add: claim_batch_def)
  ultimately show ?thesis using old new m(2) by auto
qed

theorem claim_exclusive_witness:
  "cm_id sample_claim \<notin> ob_id ` set (claim_batch sample_outbox_settings [] (seconds 60) sample_claimed)"
proof -
  have "seconds 60 < seconds 1 + seconds (os_lease_seconds sample_outbox_settings)" by code_simp
  moreover have "sample_claim \<in> set [sample_claim]" by simp
  ultimately show ?thesis using claim_exclusive [OF sample_outbox_ok sample_claiming] by blast
qed



text \<open>
  With a backoff base between one second and the maximum, the delay before a retry is never
  below the base nor above the maximum, and it is at least the doubled base of the attempt as
  long as that stays below the maximum.
\<close>

theorem retry_delay_bounds:
  assumes "1 \<le> os_backoff_base os" and "os_backoff_base os \<le> os_backoff_max os"
  shows "os_backoff_base os \<le> retry_delay os dg sh c \<and> retry_delay os dg sh c \<le> os_backoff_max os \<and>
    min (os_backoff_max os) (os_backoff_base os * 2 ^ nat (cm_attempt_count c - 1))
      \<le> retry_delay os dg sh c"
  using retry_delay_range [OF assms] .

theorem retry_delay_bounds_witness:
  "5 \<le> retry_delay sample_outbox_settings (\<lambda>_. 9) (\<lambda>_. ''x'') sample_claim \<and>
   retry_delay sample_outbox_settings (\<lambda>_. 9) (\<lambda>_. ''x'') sample_claim \<le> 300"
proof -
  have v: "os_backoff_base sample_outbox_settings = 5" "os_backoff_max sample_outbox_settings = 300"
    by (simp_all add: sample_outbox_settings_def)
  show ?thesis
    using retry_delay_bounds [of sample_outbox_settings "\<lambda>_. 9" "\<lambda>_. ''x''" sample_claim]
    unfolding v by simp
qed

text \<open>
  With Fernet and JSON that give back the payload they were given, the payload of an enqueued
  message whose fields are not empty is read back by the worker unchanged.
\<close>

theorem payload_roundtrip:
  assumes "cr_decrypt cr (cr_encrypt cr (cr_dumps cr (payload_fields p))) =
      Some (cr_dumps cr (payload_fields p))"
    and "cr_loads cr (cr_dumps cr (payload_fields p)) =
      Some (JObject (map (map_prod id JString) (payload_fields p)))"
    and "ep_action_url p \<noteq> []" and "ep_recipient p \<noteq> []" and "ep_token p \<noteq> []"
  shows "decrypt_email_payload cr (ob_encryption_version (outbox_row cr i now trace ty p h e))
    (ob_payload_encrypted (outbox_row cr i now trace ty p h e)) = Inr p"
proof -
  have f: "string_field k kvs = Some v" if "map_of kvs k = Some (JString v)" "v \<noteq> []" for k kvs v
    using that by (cases v) simp_all
  have "Option.bind (cr_decrypt cr (cr_encrypt cr (cr_dumps cr (payload_fields p)))) (cr_loads cr) =
      Some (JObject [(''action_url'', JString (ep_action_url p)),
        (''recipient'', JString (ep_recipient p)), (''token'', JString (ep_token p))])"
    unfolding assms(1) bind.bind_lunit assms(2) by (simp add: payload_fields_def)
  then show ?thesis
    using f [OF _ assms(3)] f [OF _ assms(4)] f [OF _ assms(5)]
    by (simp add: decrypt_email_payload_def outbox_row_def del: string_field.simps)
qed

theorem payload_roundtrip_witness:
  "decrypt_email_payload sample_crypto 1 (ob_payload_encrypted sample_message) = Inr sample_payload"
proof -
  have "cr_decrypt sample_crypto (cr_encrypt sample_crypto (cr_dumps sample_crypto (payload_fields sample_payload))) =
      Some (cr_dumps sample_crypto (payload_fields sample_payload))"
    and "cr_loads sample_crypto (cr_dumps sample_crypto (payload_fields sample_payload)) =
      Some (JObject (map (map_prod id JString) (payload_fields sample_payload)))"
    and "ep_action_url sample_payload \<noteq> []" "ep_recipient sample_payload \<noteq> []"
      "ep_token sample_payload \<noteq> []"
    by code_simp+
  note rt = payload_roundtrip [OF this, of 1 0 "(None, None)" PASSWORD_RESET_MESSAGE "''h''" "Naive (days 1)"]
  have "ob_encryption_version sample_message = 1" by code_simp
  then show ?thesis using rt unfolding sample_message_def by simp
qed

end
