(* ===== verification/AccountState.thy ===== *)
theory AccountState
  imports Sessions Outbox
begin

text \<open>
  The account tables seen together: users, refresh tokens, action tokens (mail links and MFA
  challenges), recovery codes and the outbox. The theory holds the statements the account
  services execute on them and the contract every account operation has to keep: the database
  constraints, the invariants of the three kinds of token, and that no token row is lost or
  comes back to life.
\<close>

section \<open>Purposes\<close>

text \<open>
  \<^verbatim>\<open>services/email_verification.py\<close>, \<^verbatim>\<open>services/password_reset.py\<close>, \<^verbatim>\<open>services/mfa.py\<close>.
\<close>

definition EMAIL_VERIFICATION_PURPOSE :: string where
  "EMAIL_VERIFICATION_PURPOSE = ''email_verification''"

definition PASSWORD_RESET_PURPOSE :: string where
  "PASSWORD_RESET_PURPOSE = ''password_reset''"

definition MFA_LOGIN_PURPOSE :: string where
  "MFA_LOGIN_PURPOSE = ''mfa_login''"

definition OIDC_MFA_LOGIN_PURPOSE :: string where
  "OIDC_MFA_LOGIN_PURPOSE = ''mfa_login_oidc''"

lemmas purpose_defs = EMAIL_VERIFICATION_PURPOSE_def PASSWORD_RESET_PURPOSE_def
  MFA_LOGIN_PURPOSE_def OIDC_MFA_LOGIN_PURPOSE_def

section \<open>Statements\<close>

definition insert_action_token :: "action_token \<Rightarrow> tables \<Rightarrow> tables option" where
  "insert_action_token t tb =
     (if at_id t \<notin> at_id ` set (action_tokens tb) \<and>
         agrees_with at_id action_token_agree t (action_tokens tb) \<and>
         user_exists tb (at_user_id t)
      then Some (tb\<lparr>action_tokens := action_tokens tb @ [t]\<rparr>) else None)"

text \<open>\<open>UPDATE account_action_tokens SET consumed_at WHERE ... AND consumed_at IS NULL\<close>.\<close>

definition consume_with :: "datetime \<Rightarrow> action_token \<Rightarrow> action_token" where
  "consume_with now t = t\<lparr>at_consumed_at := Some now\<rparr>"

definition consume_where :: "(action_token \<Rightarrow> bool) \<Rightarrow> datetime \<Rightarrow> tables \<Rightarrow> tables" where
  "consume_where P now tb =
     tb\<lparr>action_tokens :=
       update_where (\<lambda>t. P t \<and> at_consumed_at t = None) (consume_with now) (action_tokens tb)\<rparr>"

text \<open>An \<open>UPDATE\<close> of one user row; \<open>username\<close> and \<open>email\<close> are never written by the program.\<close>

definition put_user :: "user \<Rightarrow> tables \<Rightarrow> tables" where
  "put_user u tb = tb\<lparr>users := put_row u_id u (users tb)\<rparr>"

definition delete_recovery_codes :: "int \<Rightarrow> tables \<Rightarrow> tables" where
  "delete_recovery_codes uid tb =
     tb\<lparr>recovery_codes := filter (\<lambda>r. rc_user_id r \<noteq> uid) (recovery_codes tb)\<rparr>"

definition insert_recovery_code :: "recovery_code \<Rightarrow> tables \<Rightarrow> tables option" where
  "insert_recovery_code r tb =
     (if rc_id r \<notin> rc_id ` set (recovery_codes tb) \<and>
         agrees_with rc_id recovery_code_agree r (recovery_codes tb) \<and>
         user_exists tb (rc_user_id r)
      then Some (tb\<lparr>recovery_codes := recovery_codes tb @ [r]\<rparr>) else None)"

fun insert_recovery_codes :: "recovery_code list \<Rightarrow> tables \<Rightarrow> tables option" where
  "insert_recovery_codes [] tb = Some tb"
| "insert_recovery_codes (r # rs) tb =
     Option.bind (insert_recovery_code r tb) (insert_recovery_codes rs)"

definition use_recovery_code :: "recovery_code \<Rightarrow> datetime \<Rightarrow> tables \<Rightarrow> tables" where
  "use_recovery_code r now tb =
     tb\<lparr>recovery_codes := put_row rc_id (r\<lparr>rc_used_at := Some now\<rparr>) (recovery_codes tb)\<rparr>"

definition insert_user :: "user \<Rightarrow> tables \<Rightarrow> tables option" where
  "insert_user u tb =
     (if u_id u \<notin> u_id ` set (users tb) \<and> agrees_with u_id user_agree u (users tb)
      then Some (tb\<lparr>users := users tb @ [u]\<rparr>) else None)"

section \<open>The invariant of the account tables\<close>

text \<open>The two purposes of an MFA login share one slot; every other purpose is its own.\<close>

definition slot :: "string \<Rightarrow> string" where
  "slot purpose = (if purpose = OIDC_MFA_LOGIN_PURPOSE then MFA_LOGIN_PURPOSE else purpose)"

definition action_agree :: "action_token \<Rightarrow> action_token \<Rightarrow> bool" where
  "action_agree s t =
     (at_token_hash s \<noteq> at_token_hash t \<and>
      (at_user_id s = at_user_id t \<and> slot (at_purpose s) = slot (at_purpose t) \<longrightarrow>
         at_consumed_at s \<noteq> None \<or> at_consumed_at t \<noteq> None))"

definition action_ok :: "tables \<Rightarrow> bool" where
  "action_ok tb = pairwise_ok at_id action_agree (action_tokens tb)"

text \<open>Multi-factor fields of a user: enabled needs a secret, a counter and no open enrollment.\<close>

definition user_mfa_ok :: "user \<Rightarrow> bool" where
  "user_mfa_ok u = (u_mfa_enabled_at u \<noteq> None \<longrightarrow>
     u_mfa_secret_encrypted u \<noteq> None \<and> u_mfa_last_counter u \<noteq> None \<and>
     u_mfa_enrollment_created_at u = None)"

definition account_ok :: "tables \<Rightarrow> bool" where
  "account_ok tb =
     (db_ok tb \<and> session_ok tb \<and> action_ok tb \<and> list_all user_mfa_ok (users tb))"

definition action_evolves :: "action_token \<Rightarrow> action_token \<Rightarrow> bool" where
  "action_evolves t t' =
     (at_id t' = at_id t \<and> at_token_hash t' = at_token_hash t \<and> at_user_id t' = at_user_id t \<and>
      at_purpose t' = at_purpose t \<and> at_target t' = at_target t \<and>
      (at_consumed_at t \<noteq> None \<longrightarrow> at_consumed_at t' = at_consumed_at t))"

definition actions_evolve :: "tables \<Rightarrow> tables \<Rightarrow> bool" where
  "actions_evolve tb tb' =
     (\<forall>t\<in>set (action_tokens tb). \<exists>t'\<in>set (action_tokens tb'). action_evolves t t')"

definition business_part :: "tables \<Rightarrow> tables" where
  "business_part tb = tb\<lparr>users := [], refresh_tokens := [], action_tokens := [],
     recovery_codes := [], outbox := []\<rparr>"

text \<open>What an account operation may do to the tables.\<close>

definition account_keeps :: "tables \<Rightarrow> tables \<Rightarrow> bool" where
  "account_keeps tb tb' =
     (business_part tb' = business_part tb \<and>
      (account_ok tb \<longrightarrow> account_ok tb' \<and> tokens_evolve tb tb' \<and> actions_evolve tb tb'))"

section \<open>The contract is a preorder\<close>

lemma action_evolves_refl [simp]: "action_evolves t t"
  by (simp add: action_evolves_def)

lemma action_evolves_trans: "action_evolves t u \<Longrightarrow> action_evolves u v \<Longrightarrow> action_evolves t v"
  by (simp add: action_evolves_def)

lemma actions_evolve_same: "action_tokens tb' = action_tokens tb \<Longrightarrow> actions_evolve tb tb'"
  unfolding actions_evolve_def using action_evolves_refl by metis

lemma actions_evolve_trans: "actions_evolve a b \<Longrightarrow> actions_evolve b c \<Longrightarrow> actions_evolve a c"
  unfolding actions_evolve_def using action_evolves_trans by metis

lemma actions_evolve_map:
  assumes "action_tokens tb' = map f (action_tokens tb)"
    and "\<And>t. t \<in> set (action_tokens tb) \<Longrightarrow> action_evolves t (f t)"
  shows "actions_evolve tb tb'"
  unfolding actions_evolve_def assms(1) set_map using assms(2) by blast

lemma tokens_evolve_same: "refresh_tokens tb' = refresh_tokens tb \<Longrightarrow> tokens_evolve tb tb'"
  using tokens_evolve_refl by (simp add: tokens_evolve_def)

lemma account_keeps_refl [simp]: "account_keeps tb tb"
  by (simp add: account_keeps_def tokens_evolve_refl actions_evolve_same)

lemma account_keeps_trans: "account_keeps a b \<Longrightarrow> account_keeps b c \<Longrightarrow> account_keeps a c"
  unfolding account_keeps_def using tokens_evolve_trans actions_evolve_trans by metis

lemma keeps_D:
  assumes "account_keeps tb tb'" and "account_ok tb"
  shows "account_ok tb'" and "tokens_evolve tb tb'" and "actions_evolve tb tb'"
  using assms by (simp_all add: account_keeps_def)

lemma account_okD:
  assumes "account_ok tb"
  shows "db_ok tb" and "session_ok tb" and "action_ok tb"
    and "u \<in> set (users tb) \<Longrightarrow> user_mfa_ok u"
  using assms by (simp_all add: account_ok_def list_all_iff)

section \<open>The database constraints, table by table\<close>

lemma pairwise_ok_filter: "pairwise_ok key agree xs \<Longrightarrow> pairwise_ok key agree (filter P xs)"
  by (auto simp: pairwise_ok_def distinct_map_filter)

lemmas db_parts = db_ok_def keys_ok_def checks_ok_def refs_ok_def exists_defs

lemma db_ok_refresh_tokens:
  "db_ok tb \<Longrightarrow> pairwise_ok rt_id refresh_token_agree xs
    \<Longrightarrow> (\<And>t. t \<in> set xs \<Longrightarrow> user_exists tb (rt_user_id t)) \<Longrightarrow> db_ok (tb\<lparr>refresh_tokens := xs\<rparr>)"
  by (simp add: db_parts)

lemma db_ok_action_tokens:
  "db_ok tb \<Longrightarrow> pairwise_ok at_id action_token_agree xs
    \<Longrightarrow> (\<And>t. t \<in> set xs \<Longrightarrow> user_exists tb (at_user_id t)) \<Longrightarrow> db_ok (tb\<lparr>action_tokens := xs\<rparr>)"
  by (simp add: db_parts)

lemma db_ok_recovery_codes:
  "db_ok tb \<Longrightarrow> pairwise_ok rc_id recovery_code_agree xs
    \<Longrightarrow> (\<And>t. t \<in> set xs \<Longrightarrow> user_exists tb (rc_user_id t)) \<Longrightarrow> db_ok (tb\<lparr>recovery_codes := xs\<rparr>)"
  by (simp add: db_parts)

lemma db_ok_outbox:
  "db_ok tb \<Longrightarrow> pairwise_ok ob_id outbox_agree xs \<Longrightarrow> (\<And>m. m \<in> set xs \<Longrightarrow> outbox_check m)
    \<Longrightarrow> db_ok (tb\<lparr>outbox := xs\<rparr>)"
  by (simp add: db_parts)

lemma user_exists_iff: "user_exists tb uid \<longleftrightarrow> uid \<in> u_id ` set (users tb)"
  by (auto simp: user_exists_def)

lemma db_ok_users:
  assumes "db_ok tb" and "pairwise_ok u_id user_agree xs" and "u_id ` set (users tb) \<subseteq> u_id ` set xs"
  shows "db_ok (tb\<lparr>users := xs\<rparr>)"
proof -
  have "user_exists (tb\<lparr>users := xs\<rparr>) uid" if "user_exists tb uid" for uid
    using that assms(3) by (auto simp: user_exists_iff)
  with assms(1,2) show ?thesis
    by (simp add: db_ok_def keys_ok_def checks_ok_def refs_ok_def company_exists_def job_exists_def
        application_exists_def history_parent_def)
qed

lemma db_ok_refs:
  assumes "db_ok tb"
  shows "t \<in> set (refresh_tokens tb) \<Longrightarrow> user_exists tb (rt_user_id t)"
    and "a \<in> set (action_tokens tb) \<Longrightarrow> user_exists tb (at_user_id a)"
    and "r \<in> set (recovery_codes tb) \<Longrightarrow> user_exists tb (rc_user_id r)"
  using assms by (simp_all add: db_ok_def refs_ok_def)

lemma db_ok_keys:
  assumes "db_ok tb"
  shows "pairwise_ok u_id user_agree (users tb)"
    and "pairwise_ok rt_id refresh_token_agree (refresh_tokens tb)"
    and "pairwise_ok at_id action_token_agree (action_tokens tb)"
    and "pairwise_ok rc_id recovery_code_agree (recovery_codes tb)"
    and "pairwise_ok ob_id outbox_agree (outbox tb)"
    and "m \<in> set (outbox tb) \<Longrightarrow> outbox_check m"
  using assms by (simp_all add: db_ok_def keys_ok_def checks_ok_def)

section \<open>Every statement keeps the contract\<close>

text \<open>Refresh tokens.\<close>

lemma keeps_tokens:
  assumes "business_part tb' = business_part tb" and "users tb' = users tb"
    and "action_tokens tb' = action_tokens tb"
    and "account_ok tb \<Longrightarrow> db_ok tb' \<and> session_ok tb' \<and> tokens_evolve tb tb'"
  shows "account_keeps tb tb'"
  using assms by (auto simp: account_keeps_def account_ok_def action_ok_def actions_evolve_same)

lemma keeps_revoke_where: "account_keeps tb (revoke_where P reason now tb)"
proof (rule keeps_tokens)
  assume "account_ok tb"
  then have db: "db_ok tb" and ok: "session_ok tb" by (simp_all add: account_ok_def)
  have "db_ok (revoke_where P reason now tb)"
    unfolding revoke_where_def
  proof (rule db_ok_refresh_tokens [OF db])
    show "pairwise_ok rt_id refresh_token_agree
        (update_where (\<lambda>t. P t \<and> \<not> rt_revoked t) (revoke_with reason now) (refresh_tokens tb))"
      unfolding update_where_def
      by (rule refresh_table.map_ok [OF db_ok_keys(2) [OF db]]) (auto simp: refresh_token_agree_def)
  qed (auto simp: set_update_where db_ok_refs(1) [OF db])
  then show "db_ok (revoke_where P reason now tb) \<and> session_ok (revoke_where P reason now tb) \<and>
      tokens_evolve tb (revoke_where P reason now tb)"
    using session_ok_revoke [OF ok] tokens_evolve_revoke by blast
qed (simp_all add: revoke_where_def business_part_def)

lemma db_ok_insert_token:
  assumes "insert_refresh_token t tb = Some tb'" and "db_ok tb"
  shows "db_ok tb'"
proof -
  note ins = insert_refresh_token_Some [OF assms(1)]
  have "pairwise_ok rt_id refresh_token_agree (refresh_tokens tb @ [t])"
    using refresh_table.insert_ok [OF db_ok_keys(2) [OF assms(2)]] ins by blast
  then have "db_ok (tb\<lparr>refresh_tokens := refresh_tokens tb @ [t]\<rparr>)"
    by (rule db_ok_refresh_tokens [OF assms(2)]) (use ins db_ok_refs(1) [OF assms(2)] in auto)
  then show ?thesis using ins by simp
qed

lemma keeps_insert_token:
  assumes "insert_refresh_token t tb = Some tb'" and "revocation_recorded t"
    and "rt_family_id t \<notin> rt_family_id ` set (refresh_tokens tb)"
  shows "account_keeps tb tb'"
proof (rule keeps_tokens)
  note ins = insert_refresh_token_Some [OF assms(1)]
  then show "business_part tb' = business_part tb" "users tb' = users tb"
    "action_tokens tb' = action_tokens tb"
    by (simp_all add: business_part_def)
  assume "account_ok tb"
  then have db: "db_ok tb" and ok: "session_ok tb" by (simp_all add: account_ok_def)
  have "session_ok tb'"
    by (rule session_ok_insert [OF assms(1) ok assms(2)]) (use assms(3) in \<open>metis image_eqI\<close>)+
  then show "db_ok tb' \<and> session_ok tb' \<and> tokens_evolve tb tb'"
    using db_ok_insert_token [OF assms(1) db] tokens_evolve_insert [OF assms(1)] by blast
qed

text \<open>Action tokens.\<close>

interpretation slot_table: keyed_table at_id action_agree
  by unfold_locales (auto simp: action_agree_def)

lemma keeps_actions:
  assumes "business_part tb' = business_part tb" and "users tb' = users tb"
    and "refresh_tokens tb' = refresh_tokens tb"
    and "account_ok tb \<Longrightarrow> db_ok tb' \<and> action_ok tb' \<and> actions_evolve tb tb'"
  shows "account_keeps tb tb'"
  using assms
  by (auto simp: account_keeps_def account_ok_def session_ok_def tokens_evolve_same)

lemma consume_with_fields [simp]:
  "at_id (consume_with now t) = at_id t" "at_token_hash (consume_with now t) = at_token_hash t"
  "at_user_id (consume_with now t) = at_user_id t" "at_purpose (consume_with now t) = at_purpose t"
  "at_target (consume_with now t) = at_target t" "at_consumed_at (consume_with now t) = Some now"
  "at_expires_at (consume_with now t) = at_expires_at t"
  by (simp_all add: consume_with_def)

lemma consume_where_rows:
  "action_tokens (consume_where P now tb) =
     map (\<lambda>t. if P t \<and> at_consumed_at t = None then consume_with now t else t) (action_tokens tb)"
  by (simp add: consume_where_def update_where_def)

lemma consume_where_fields [simp]:
  "users (consume_where P now tb) = users tb"
  "refresh_tokens (consume_where P now tb) = refresh_tokens tb"
  "recovery_codes (consume_where P now tb) = recovery_codes tb"
  "outbox (consume_where P now tb) = outbox tb"
  by (simp_all add: consume_where_def)

lemma keeps_consume_where: "account_keeps tb (consume_where P now tb)"
proof (rule keeps_actions)
  let ?f = "\<lambda>t. if P t \<and> at_consumed_at t = None then consume_with now t else t"
  assume "account_ok tb"
  then have db: "db_ok tb" and ok: "action_ok tb" by (simp_all add: account_ok_def)
  have "db_ok (consume_where P now tb)"
    unfolding consume_where_def update_where_def
  proof (rule db_ok_action_tokens [OF db])
    show "pairwise_ok at_id action_token_agree (map ?f (action_tokens tb))"
      by (rule action_table.map_ok [OF db_ok_keys(3) [OF db]]) (auto simp: action_token_agree_def)
  qed (auto simp: db_ok_refs(2) [OF db])
  moreover have "action_ok (consume_where P now tb)"
    unfolding action_ok_def consume_where_rows
    by (rule slot_table.map_ok) (use ok in \<open>auto simp: action_ok_def action_agree_def\<close>)
  moreover have "actions_evolve tb (consume_where P now tb)"
    by (rule actions_evolve_map [OF consume_where_rows]) (simp add: action_evolves_def)
  ultimately show "db_ok (consume_where P now tb) \<and> action_ok (consume_where P now tb) \<and>
      actions_evolve tb (consume_where P now tb)" by blast
qed (simp_all add: consume_where_def business_part_def)

lemma insert_action_token_Some:
  "insert_action_token t tb = Some tb' \<Longrightarrow>
     tb' = tb\<lparr>action_tokens := action_tokens tb @ [t]\<rparr> \<and> at_id t \<notin> at_id ` set (action_tokens tb) \<and>
     agrees_with at_id action_token_agree t (action_tokens tb) \<and> user_exists tb (at_user_id t)"
  by (auto simp: insert_action_token_def split: if_splits)

text \<open>A new token may be inserted when no token of its user and slot is live.\<close>

lemma keeps_insert_action:
  assumes "insert_action_token t tb = Some tb'"
    and "\<And>s. s \<in> set (action_tokens tb) \<Longrightarrow> at_user_id s = at_user_id t
      \<Longrightarrow> slot (at_purpose s) = slot (at_purpose t) \<Longrightarrow> at_consumed_at s \<noteq> None"
  shows "account_keeps tb tb'"
proof (rule keeps_actions)
  note ins = insert_action_token_Some [OF assms(1)]
  then show "business_part tb' = business_part tb" "users tb' = users tb"
    "refresh_tokens tb' = refresh_tokens tb"
    by (simp_all add: business_part_def)
  assume "account_ok tb"
  then have db: "db_ok tb" and ok: "action_ok tb" by (simp_all add: account_ok_def)
  have "db_ok (tb\<lparr>action_tokens := action_tokens tb @ [t]\<rparr>)"
    by (rule db_ok_action_tokens [OF db action_table.insert_ok [OF db_ok_keys(3) [OF db]]])
      (use ins db_ok_refs(2) [OF db] in auto)
  moreover have "agrees_with at_id action_agree t (action_tokens tb)"
    unfolding agrees_with_def
  proof (intro ballI impI)
    fix s assume s: "s \<in> set (action_tokens tb)" "at_id s \<noteq> at_id t"
    then have "at_token_hash t \<noteq> at_token_hash s"
      using ins by (auto simp: agrees_with_def action_token_agree_def)
    then show "action_agree t s" using assms(2) [OF s(1)] by (auto simp: action_agree_def)
  qed
  then have "action_ok tb'"
    using ins ok slot_table.insert_ok [of "action_tokens tb" t] by (simp add: action_ok_def)
  moreover have "actions_evolve tb tb'"
    using ins by (auto simp: actions_evolve_def intro: action_evolves_refl)
  ultimately show "db_ok tb' \<and> action_ok tb' \<and> actions_evolve tb tb'" using ins by blast
qed

text \<open>Users.\<close>

definition same_identity :: "user \<Rightarrow> user \<Rightarrow> bool" where
  "same_identity u v = (u_id u = u_id v \<and> u_username u = u_username v \<and> u_email u = u_email v)"

lemma keeps_users:
  assumes "tb' = tb\<lparr>users := xs\<rparr>" and "u_id ` set (users tb) \<subseteq> u_id ` set xs"
    and "account_ok tb \<Longrightarrow> pairwise_ok u_id user_agree xs"
    and "account_ok tb \<Longrightarrow> list_all user_mfa_ok xs"
  shows "account_keeps tb tb'"
proof -
  have "account_ok tb'" if ok: "account_ok tb"
    using db_ok_users [OF account_okD(1) [OF ok] assms(3) [OF ok] assms(2)] assms(4) [OF ok] ok
    by (simp add: assms(1) account_ok_def session_ok_def action_ok_def)
  then show ?thesis
    by (simp add: account_keeps_def assms(1) business_part_def tokens_evolve_same actions_evolve_same)
qed

lemma keeps_put_user:
  assumes "v \<in> set (users tb)" and "same_identity u v" and "user_mfa_ok v \<Longrightarrow> user_mfa_ok u"
  shows "account_keeps tb (put_user u tb)"
proof (rule keeps_users)
  show "put_user u tb = tb\<lparr>users := put_row u_id u (users tb)\<rparr>" by (simp add: put_user_def)
  show "u_id ` set (users tb) \<subseteq> u_id ` set (put_row u_id u (users tb))"
    by (simp flip: set_map)
  assume ok: "account_ok tb"
  note keys = db_ok_keys(1) [OF account_okD(1) [OF ok]]
  have "agrees_with u_id user_agree u (users tb)"
    using assms(1,2) pairwise_okD [OF keys, of v]
    by (auto simp: agrees_with_def same_identity_def user_agree_def split: option.splits)
  then show "pairwise_ok u_id user_agree (put_row u_id u (users tb))"
    by (rule user_table.put_ok [OF keys])
  show "list_all user_mfa_ok (put_row u_id u (users tb))"
    using assms(1,3) account_okD(4) [OF ok] by (auto simp: list_all_iff dest!: set_put_row)
qed

lemma keeps_insert_user:
  assumes "insert_user u tb = Some tb'" and "user_mfa_ok u"
  shows "account_keeps tb tb'"
proof (rule keeps_users)
  have ins: "tb' = tb\<lparr>users := users tb @ [u]\<rparr>" "u_id u \<notin> u_id ` set (users tb)"
    "agrees_with u_id user_agree u (users tb)"
    using assms(1) by (auto simp: insert_user_def split: if_splits)
  show "tb' = tb\<lparr>users := users tb @ [u]\<rparr>" by (rule ins)
  assume ok: "account_ok tb"
  show "pairwise_ok u_id user_agree (users tb @ [u])"
    by (rule user_table.insert_ok [OF db_ok_keys(1) [OF account_okD(1) [OF ok]] ins(2,3)])
  show "list_all user_mfa_ok (users tb @ [u])"
    using assms(2) ok by (simp add: account_ok_def)
qed auto

text \<open>Recovery codes and the outbox.\<close>

lemma keeps_other:
  assumes "business_part tb' = business_part tb" and "users tb' = users tb"
    and "refresh_tokens tb' = refresh_tokens tb" and "action_tokens tb' = action_tokens tb"
    and "account_ok tb \<Longrightarrow> db_ok tb'"
  shows "account_keeps tb tb'"
  using assms
  by (auto simp: account_keeps_def account_ok_def session_ok_def action_ok_def tokens_evolve_same
      actions_evolve_same)

lemma keeps_recovery:
  assumes "account_ok tb \<Longrightarrow> pairwise_ok rc_id recovery_code_agree xs"
    and "\<And>r. r \<in> set xs \<Longrightarrow> user_exists tb (rc_user_id r) \<or>
      (\<exists>s\<in>set (recovery_codes tb). rc_user_id s = rc_user_id r)"
  shows "account_keeps tb (tb\<lparr>recovery_codes := xs\<rparr>)"
proof (rule keeps_other)
  assume ok: "account_ok tb"
  note db = account_okD(1) [OF ok]
  show "db_ok (tb\<lparr>recovery_codes := xs\<rparr>)"
    by (rule db_ok_recovery_codes [OF db assms(1) [OF ok]]) (use assms(2) db_ok_refs(3) [OF db] in metis)
qed (simp_all add: business_part_def)

lemma keeps_delete_recovery: "account_keeps tb (delete_recovery_codes uid tb)"
  unfolding delete_recovery_codes_def
  by (rule keeps_recovery) (auto dest: account_okD(1) db_ok_keys(4) intro: pairwise_ok_filter)

lemma keeps_insert_recovery:
  assumes "insert_recovery_code r tb = Some tb'"
  shows "account_keeps tb tb'"
proof -
  have ins: "tb' = tb\<lparr>recovery_codes := recovery_codes tb @ [r]\<rparr>" "rc_id r \<notin> rc_id ` set (recovery_codes tb)"
    "agrees_with rc_id recovery_code_agree r (recovery_codes tb)" "user_exists tb (rc_user_id r)"
    using assms by (auto simp: insert_recovery_code_def split: if_splits)
  show ?thesis unfolding ins(1)
    by (rule keeps_recovery)
      (use ins in \<open>auto dest: account_okD(1) db_ok_keys(4) intro: recovery_table.insert_ok\<close>)
qed

lemma keeps_insert_recovery_codes:
  "insert_recovery_codes rs tb = Some tb' \<Longrightarrow> account_keeps tb tb'"
proof (induction rs arbitrary: tb)
  case (Cons r rs)
  then obtain mid where "insert_recovery_code r tb = Some mid" "insert_recovery_codes rs mid = Some tb'"
    by (auto simp: bind_eq_Some_conv)
  then show ?case using Cons.IH keeps_insert_recovery account_keeps_trans by metis
qed simp

lemma keeps_use_recovery:
  assumes "r \<in> set (recovery_codes tb)"
  shows "account_keeps tb (use_recovery_code r now tb)"
  unfolding use_recovery_code_def
proof (rule keeps_recovery)
  let ?r = "r\<lparr>rc_used_at := Some now\<rparr>"
  assume "account_ok tb"
  note keys = db_ok_keys(4) [OF account_okD(1) [OF this]]
  have "agrees_with rc_id recovery_code_agree ?r (recovery_codes tb)"
    using pairwise_okD [OF keys assms] by (auto simp: agrees_with_def recovery_code_agree_def)
  then show "pairwise_ok rc_id recovery_code_agree (put_row rc_id ?r (recovery_codes tb))"
    by (rule recovery_table.put_ok [OF keys])
next
  fix s assume s: "s \<in> set (put_row rc_id (r\<lparr>rc_used_at := Some now\<rparr>) (recovery_codes tb))"
  then have "\<exists>t\<in>set (recovery_codes tb). rc_user_id t = rc_user_id s"
    using assms by (auto dest!: set_put_row)
  then show "user_exists tb (rc_user_id s) \<or> (\<exists>t\<in>set (recovery_codes tb). rc_user_id t = rc_user_id s)"
    by blast
qed

lemma keeps_enqueue:
  assumes "enqueue_email_delivery cr i now trace ty p h e tb = Inr tb'"
  shows "account_keeps tb tb'"
proof (rule keeps_other)
  let ?m = "outbox_row cr i now trace ty p h e"
  have ins: "tb' = tb\<lparr>outbox := outbox tb @ [?m]\<rparr>" "ob_id ?m \<notin> ob_id ` set (outbox tb)"
    "agrees_with ob_id outbox_agree ?m (outbox tb)"
    using assms by (auto simp: enqueue_email_delivery_def insert_outbox_def split: if_splits)
  then show "business_part tb' = business_part tb" "users tb' = users tb"
    "refresh_tokens tb' = refresh_tokens tb" "action_tokens tb' = action_tokens tb"
    by (simp_all add: business_part_def)
  assume "account_ok tb"
  note db = account_okD(1) [OF this]
  show "db_ok tb'" unfolding ins(1)
    by (rule db_ok_outbox [OF db outbox_table.insert_ok [OF db_ok_keys(5) [OF db] ins(2,3)]])
      (use db_ok_keys(6) [OF db] outbox_row_check [of cr i now trace ty p h e] in auto)
qed

end
