(* ===== verification/ActionTokens.thy ===== *)
theory ActionTokens
  imports AccountState Schemas
begin

text \<open>
  Mail links: \<^verbatim>\<open>src/app/services/account_action_tokens.py\<close>,
  \<^verbatim>\<open>src/app/services/email_verification.py\<close>, \<^verbatim>\<open>src/app/services/password_reset.py\<close> and
  their endpoints \<^verbatim>\<open>src/app/api/v1/email_verification.py\<close> and
  \<^verbatim>\<open>src/app/api/v1/password_reset.py\<close>. The environment of every account operation is declared
  here; hashing, encryption, one-time passwords and random values are library functions, the
  clock readings and new identifiers are inputs.
\<close>

section \<open>Environment\<close>

record jwt_payload =
  jp_sub :: "string option"
  jp_amr :: "string list"
  jp_auth_time :: "int option"

record account_env =
  ac_auth :: auth_env              \<comment> \<open>session issuance; \<open>ae_fault\<close>: flush or commit fails\<close>
  ac_crypto :: crypto
  ac_now :: datetime               \<comment> \<open>\<open>utc_now()\<close> of the service\<close>
  ac_created_at :: datetime
  ac_updated_at :: datetime
  ac_new_id :: int                 \<comment> \<open>id of a new action token or user\<close>
  ac_new_token :: string           \<comment> \<open>\<open>secrets.token_urlsafe(32)\<close>\<close>
  ac_outbox_id :: int
  ac_outbox_now :: datetime
  ac_trace :: "string option \<times> string option"
  ac_delivery_mode :: string       \<comment> \<open>\<open>EMAIL_DELIVERY_MODE\<close>\<close>
  ac_verification_url :: string
  ac_reset_url :: string
  ac_verification_minutes :: int
  ac_reset_minutes :: int
  ac_hashpw :: "string \<Rightarrow> string"              \<comment> \<open>\<open>bcrypt.hashpw\<close> with a fresh salt\<close>
  ac_checkpw :: "string \<Rightarrow> string \<Rightarrow> bool option"  \<comment> \<open>\<open>None\<close>: \<open>TypeError\<close> or \<open>ValueError\<close>\<close>
  ac_mfa_enabled :: bool
  ac_fernet_key_ok :: bool
  ac_encrypt :: "string \<Rightarrow> string"
  ac_decrypt :: "string \<Rightarrow> string option"
  ac_otp :: "string \<Rightarrow> int \<Rightarrow> string"          \<comment> \<open>\<open>TOTP(secret).generate_otp(counter)\<close>\<close>
  ac_new_secret :: string          \<comment> \<open>\<open>pyotp.random_base32()\<close>\<close>
  ac_provisioning_uri :: "string \<Rightarrow> string \<Rightarrow> string \<Rightarrow> string"
  ac_mfa_issuer :: string
  ac_enrollment_minutes :: int
  ac_challenge_minutes :: int
  ac_step_up_minutes :: int
  ac_recent_auth_minutes :: int
  ac_recovery_count :: nat
  ac_token_hex :: "nat \<Rightarrow> string"             \<comment> \<open>the i-th \<open>secrets.token_hex(10)\<close>\<close>
  ac_code_id :: "nat \<Rightarrow> int"
  ac_decode :: "string \<Rightarrow> jwt_payload option"  \<comment> \<open>\<open>jwt.decode\<close>; \<open>None\<close>: \<open>PyJWTError\<close>\<close>
  ac_email :: "string \<Rightarrow> string option"       \<comment> \<open>\<open>EmailStr\<close>\<close>
  ac_utf8_length :: "string \<Rightarrow> nat"
  ac_printable :: "char \<Rightarrow> bool"            \<comment> \<open>\<open>str.isprintable\<close>\<close>

section \<open>Tokens\<close>

definition generate_account_action_token :: "account_env \<Rightarrow> string" where
  "generate_account_action_token e = ac_new_token e"

definition hash_account_action_token :: "account_env \<Rightarrow> string \<Rightarrow> string" where
  "hash_account_action_token e token = cr_sha256 (ac_crypto e) token"

definition action_row ::
    "account_env \<Rightarrow> int \<Rightarrow> string \<Rightarrow> string \<Rightarrow> int \<Rightarrow> action_token" where
  "action_row e uid purpose target lifetime =
     \<lparr>at_id = ac_new_id e, at_user_id = uid, at_purpose = purpose,
      at_token_hash = hash_account_action_token e (generate_account_action_token e),
      at_target = target, at_expires_at = ac_now e + minutes lifetime,
      at_consumed_at = None, at_created_at = ac_created_at e\<rparr>"

definition committed :: "account_env \<Rightarrow> tables \<Rightarrow> 'a result \<times> tables \<Rightarrow> 'a result \<times> tables" where
  "committed e tb r =
     (case r of (Inl err, _) \<Rightarrow> (Inl err, tb)
      | (Inr v, tb') \<Rightarrow> if ae_fault (ac_auth e) then (Inl DatabaseError, tb) else (Inr v, tb'))"

text \<open>The rows of a user and purpose that are still live are consumed before the new row is added.\<close>

definition issue_link ::
    "account_env \<Rightarrow> user \<Rightarrow> string \<Rightarrow> string \<Rightarrow> int \<Rightarrow> string \<Rightarrow> string \<Rightarrow> tables \<Rightarrow>
     (string \<times> string) option result \<times> tables" where
  "issue_link e user purpose email lifetime message_type url tb =
     (let raw = generate_account_action_token e;
          token = action_row e (u_id user) purpose email lifetime;
          tb1 = consume_where (\<lambda>t. at_user_id t = u_id user \<and> at_purpose t = purpose) (ac_now e) tb in
      committed e tb
        (case insert_action_token token tb1 of
           None \<Rightarrow> (Inl IntegrityError, tb)
         | Some tb2 \<Rightarrow>
             if ac_delivery_mode e = ''outbox'' then
               (case enqueue_email_delivery (ac_crypto e) (ac_outbox_id e) (ac_outbox_now e)
                       (ac_trace e) message_type
                       \<lparr>ep_action_url = url, ep_recipient = email, ep_token = raw\<rparr>
                       (at_token_hash token) (Aware (at_expires_at token) 0) tb2 of
                  Inl err \<Rightarrow> (Inl err, tb)
                | Inr tb3 \<Rightarrow> (Inr (Some (email, raw)), tb3))
             else (Inr (Some (email, raw)), tb2)))"

definition find_user_by_email :: "string \<Rightarrow> tables \<Rightarrow> user option" where
  "find_user_by_email email tb = find (\<lambda>u. u_email u = Some email) (users tb)"

definition find_user :: "int \<Rightarrow> tables \<Rightarrow> user option" where
  "find_user uid tb = find (\<lambda>u. u_id u = uid) (users tb)"

section \<open>Email verification\<close>

definition INVALID_VERIFICATION_TOKEN :: error where
  "INVALID_VERIFICATION_TOKEN = HTTPException 400 ''Invalid or expired verification token''"

definition issue_email_verification_token ::
    "account_env \<Rightarrow> string \<Rightarrow> tables \<Rightarrow> (string \<times> string) option result \<times> tables" where
  "issue_email_verification_token e email tb =
     (case find_user_by_email email tb of
        None \<Rightarrow> (Inr None, tb)
      | Some user \<Rightarrow>
          if u_email_verified_at user \<noteq> None then (Inr None, tb)
          else issue_link e user EMAIL_VERIFICATION_PURPOSE email (ac_verification_minutes e)
                 EMAIL_VERIFICATION_MESSAGE (ac_verification_url e) tb)"

definition find_action_token ::
    "account_env \<Rightarrow> string list \<Rightarrow> string \<Rightarrow> tables \<Rightarrow> action_token option" where
  "find_action_token e purposes token tb =
     find (\<lambda>t. at_token_hash t = hash_account_action_token e token \<and> at_purpose t \<in> set purposes)
       (action_tokens tb)"

definition usable :: "account_env \<Rightarrow> action_token \<Rightarrow> bool" where
  "usable e t = (at_consumed_at t = None \<and> \<not> as_utc (Naive (at_expires_at t)) \<le> ac_now e)"

definition put_action :: "action_token \<Rightarrow> tables \<Rightarrow> tables" where
  "put_action t tb = tb\<lparr>action_tokens := put_row at_id t (action_tokens tb)\<rparr>"

definition verified_user :: "account_env \<Rightarrow> user \<Rightarrow> user" where
  "verified_user e u = u\<lparr>u_email_verified_at := Some (ac_now e), u_updated_at := ac_updated_at e\<rparr>"

definition confirm_email_verification ::
    "account_env \<Rightarrow> string \<Rightarrow> tables \<Rightarrow> unit result \<times> tables" where
  "confirm_email_verification e token tb =
     (case find_action_token e [EMAIL_VERIFICATION_PURPOSE] token tb of
        None \<Rightarrow> (Inl INVALID_VERIFICATION_TOKEN, tb)
      | Some stored \<Rightarrow>
          if \<not> usable e stored then (Inl INVALID_VERIFICATION_TOKEN, tb)
          else (case find_user (at_user_id stored) tb of
              None \<Rightarrow> (Inl INVALID_VERIFICATION_TOKEN, tb)
            | Some user \<Rightarrow>
                if u_email user \<noteq> Some (at_target stored) then (Inl INVALID_VERIFICATION_TOKEN, tb)
                else committed e tb
                  (Inr (), put_user (verified_user e user) (put_action (consume_with (ac_now e) stored) tb))))"

section \<open>Password reset\<close>

definition INVALID_RESET_TOKEN :: error where
  "INVALID_RESET_TOKEN = HTTPException 400 ''Invalid or expired password reset token''"

definition issue_password_reset_token ::
    "account_env \<Rightarrow> string \<Rightarrow> tables \<Rightarrow> (string \<times> string) option result \<times> tables" where
  "issue_password_reset_token e email tb =
     (case find_user_by_email email tb of
        None \<Rightarrow> (Inr None, tb)
      | Some user \<Rightarrow>
          if \<not> u_is_active user \<or> u_email_verified_at user = None then (Inr None, tb)
          else issue_link e user PASSWORD_RESET_PURPOSE email (ac_reset_minutes e)
                 PASSWORD_RESET_MESSAGE (ac_reset_url e) tb)"

definition hash_password :: "account_env \<Rightarrow> string \<Rightarrow> string" where
  "hash_password e password = ac_hashpw e password"

definition verify_password :: "account_env \<Rightarrow> string \<Rightarrow> string \<Rightarrow> bool" where
  "verify_password e plain hashed =
     (case ac_checkpw e plain hashed of None \<Rightarrow> False | Some ok \<Rightarrow> ok)"

definition reset_user :: "account_env \<Rightarrow> string \<Rightarrow> user \<Rightarrow> user" where
  "reset_user e new_password u = u
     \<lparr>u_password := hash_password e new_password, u_password_login_enabled := True,
      u_updated_at := ac_updated_at e\<rparr>"

definition reset_eligible :: "action_token \<Rightarrow> user \<Rightarrow> bool" where
  "reset_eligible stored user =
     (u_is_active user \<and> u_email_verified_at user \<noteq> None \<and> u_email user = Some (at_target stored))"

definition confirm_password_reset ::
    "account_env \<Rightarrow> string \<Rightarrow> string \<Rightarrow> tables \<Rightarrow> unit result \<times> tables" where
  "confirm_password_reset e token new_password tb =
     (case find_action_token e [PASSWORD_RESET_PURPOSE] token tb of
        None \<Rightarrow> (Inl INVALID_RESET_TOKEN, tb)
      | Some stored \<Rightarrow>
          if \<not> usable e stored then (Inl INVALID_RESET_TOKEN, tb)
          else (case find_user (at_user_id stored) tb of
              None \<Rightarrow> (Inl INVALID_RESET_TOKEN, tb)
            | Some user \<Rightarrow>
                if \<not> reset_eligible stored user then (Inl INVALID_RESET_TOKEN, tb)
                else committed e tb
                  (Inr (),
                   revoke_where (\<lambda>t. rt_user_id t = u_id user) ''password_reset'' (ac_now e)
                     (consume_where (\<lambda>t. at_user_id t = u_id user \<and> at_purpose t = PASSWORD_RESET_PURPOSE)
                        (ac_now e) (put_user (reset_user e new_password user) tb)))))"

section \<open>Endpoints\<close>

text \<open>
  \<open>get_email_sender\<close> gives a sender in mode \<open>smtp\<close> only. A mail sent is a value of the result;
  the endpoint catches whatever the sender raises, so a failing delivery gives the same reply.
\<close>

record mail =
  ml_recipient :: string
  ml_token :: string
  ml_url :: string
  ml_subject :: string

definition get_email_sender :: "account_env \<Rightarrow> bool" where
  "get_email_sender e = (ac_delivery_mode e = ''smtp'')"

definition ACCEPTED_VERIFICATION :: string where
  "ACCEPTED_VERIFICATION = ''If the address is eligible, a verification email will be sent shortly''"

definition ACCEPTED_RESET :: string where
  "ACCEPTED_RESET = ''If the address is eligible, a password reset email will be sent''"

definition request_link ::
    "account_env \<Rightarrow> string \<Rightarrow> string \<Rightarrow> string \<Rightarrow>
     (tables \<Rightarrow> (string \<times> string) option result \<times> tables) \<Rightarrow> tables \<Rightarrow>
     string result \<times> mail list \<times> tables" where
  "request_link e accepted url subject issue tb =
     (if \<not> get_email_sender e \<and> ac_delivery_mode e \<noteq> ''outbox'' then (Inr accepted, [], tb)
      else (case issue tb of
          (Inl err, tb') \<Rightarrow> (Inl err, [], tb')
        | (Inr None, tb') \<Rightarrow> (Inr accepted, [], tb')
        | (Inr (Some (recipient, raw)), tb') \<Rightarrow>
            (Inr accepted,
             if get_email_sender e
             then [\<lparr>ml_recipient = recipient, ml_token = raw, ml_url = url, ml_subject = subject\<rparr>]
             else [], tb')))"

definition request_email_verification ::
    "(string \<Rightarrow> string option) \<Rightarrow> account_env \<Rightarrow> string \<Rightarrow> tables \<Rightarrow> string result \<times> mail list \<times> tables" where
  "request_email_verification email e raw tb =
     (case validate_email_request email raw of
        Inl err \<Rightarrow> (Inl err, [], tb)
      | Inr address \<Rightarrow> request_link e ACCEPTED_VERIFICATION (ac_verification_url e)
          ''Verify your email address'' (issue_email_verification_token e address) tb)"

definition confirm_verification :: "account_env \<Rightarrow> string \<Rightarrow> tables \<Rightarrow> string result \<times> tables" where
  "confirm_verification e token tb =
     (case validate_verification_confirm token of
        Inl err \<Rightarrow> (Inl err, tb)
      | Inr t \<Rightarrow> (case confirm_email_verification e t tb of
            (Inl err, tb') \<Rightarrow> (Inl err, tb')
          | (Inr _, tb') \<Rightarrow> (Inr ''Email address verified'', tb')))"

definition request_password_reset ::
    "(string \<Rightarrow> string option) \<Rightarrow> account_env \<Rightarrow> string \<Rightarrow> tables \<Rightarrow> string result \<times> mail list \<times> tables" where
  "request_password_reset email e raw tb =
     (case validate_email_request email raw of
        Inl err \<Rightarrow> (Inl err, [], tb)
      | Inr address \<Rightarrow> request_link e ACCEPTED_RESET (ac_reset_url e)
          ''Reset your password'' (issue_password_reset_token e address) tb)"

definition confirm_reset ::
    "(string \<Rightarrow> nat) \<Rightarrow> account_env \<Rightarrow> string \<Rightarrow> string \<Rightarrow> tables \<Rightarrow> string result \<times> tables" where
  "confirm_reset utf8_length e token new_password tb =
     (case validate_password_reset_confirm utf8_length token new_password of
        Inl err \<Rightarrow> (Inl err, tb)
      | Inr (t, p) \<Rightarrow> (case confirm_password_reset e t p tb of
            (Inl err, tb') \<Rightarrow> (Inl err, tb')
          | (Inr _, tb') \<Rightarrow> (Inr ''Password reset successfully'', tb')))"

section \<open>Every operation keeps the contract\<close>

lemma find_user_Some: "find_user uid tb = Some u \<Longrightarrow> u \<in> set (users tb) \<and> u_id u = uid"
  unfolding find_user_def by (rule find_Some)

lemma find_user_by_email_Some:
  "find_user_by_email email tb = Some u \<Longrightarrow> u \<in> set (users tb) \<and> u_email u = Some email"
  unfolding find_user_by_email_def by (rule find_Some)

lemma find_action_token_Some:
  "find_action_token e ps token tb = Some t \<Longrightarrow> t \<in> set (action_tokens tb) \<and>
     at_token_hash t = cr_sha256 (ac_crypto e) token \<and> at_purpose t \<in> set ps"
  unfolding find_action_token_def hash_account_action_token_def by (drule find_Some) simp

lemma committed_cases:
  "committed e tb r = (q, tb') \<Longrightarrow> tb' = tb \<or> (\<exists>v. r = (Inr v, tb') \<and> q = Inr v)"
  by (auto simp: committed_def split: sum.splits prod.splits if_splits)

lemma committed_Inr: "committed e tb r = (Inr v, tb') \<longleftrightarrow> r = (Inr v, tb') \<and> \<not> ae_fault (ac_auth e)"
  by (auto simp: committed_def split: sum.splits prod.splits if_splits)

lemma committed_Inl: "committed e tb r = (Inl err, tb') \<Longrightarrow> tb' = tb"
  by (auto simp: committed_def split: sum.splits prod.splits if_splits)

lemma action_row_fields [simp]:
  "at_id (action_row e uid p target m) = ac_new_id e" "at_user_id (action_row e uid p target m) = uid"
  "at_purpose (action_row e uid p target m) = p" "at_target (action_row e uid p target m) = target"
  "at_token_hash (action_row e uid p target m) = cr_sha256 (ac_crypto e) (ac_new_token e)"
  "at_consumed_at (action_row e uid p target m) = None"
  "at_expires_at (action_row e uid p target m) = ac_now e + minutes m"
  by (simp_all add: action_row_def hash_account_action_token_def generate_account_action_token_def)

lemma keeps_conditional:
  assumes "business_part tb' = business_part tb" and "account_ok tb \<Longrightarrow> account_keeps tb tb'"
  shows "account_keeps tb tb'"
  using assms by (auto simp: account_keeps_def)

text \<open>After the live rows of a slot are consumed, a new row of the slot may be inserted.\<close>

lemma keeps_consume_insert:
  assumes "insert_action_token t (consume_where P now tb) = Some tb'"
    and "\<And>s. s \<in> set (action_tokens tb) \<Longrightarrow> at_user_id s = at_user_id t
      \<Longrightarrow> slot (at_purpose s) = slot (at_purpose t) \<Longrightarrow> P s"
  shows "account_keeps tb tb'"
proof -
  have "at_consumed_at s \<noteq> None"
    if s: "s \<in> set (action_tokens (consume_where P now tb))" "at_user_id s = at_user_id t"
      "slot (at_purpose s) = slot (at_purpose t)" for s
  proof -
    obtain r where r: "r \<in> set (action_tokens tb)"
      and eq: "s = (if P r \<and> at_consumed_at r = None then consume_with now r else r)"
      using s(1) unfolding consume_where_rows set_map by blast
    then show ?thesis using assms(2) [OF r] s(2,3) by (auto split: if_splits)
  qed
  from keeps_insert_action [OF assms(1) this] show ?thesis
    using account_keeps_trans keeps_consume_where by blast
qed

lemma slot_mail: "p \<in> {EMAIL_VERIFICATION_PURPOSE, PASSWORD_RESET_PURPOSE}
    \<Longrightarrow> slot q = slot p \<longleftrightarrow> q = p"
  by (auto simp: slot_def purpose_defs)

lemma issue_link_keeps:
  assumes "issue_link e user p email m ty url tb = (r, tb')"
    and "p \<in> {EMAIL_VERIFICATION_PURPOSE, PASSWORD_RESET_PURPOSE}"
  shows "account_keeps tb tb'"
proof -
  let ?t = "action_row e (u_id user) p email m"
  let ?tb1 = "consume_where (\<lambda>t. at_user_id t = u_id user \<and> at_purpose t = p) (ac_now e) tb"
  have step: "account_keeps tb tb2" if "insert_action_token ?t ?tb1 = Some tb2" for tb2
    by (rule keeps_consume_insert [OF that]) (use slot_mail [OF assms(2)] in auto)
  show ?thesis
    using assms(1) unfolding issue_link_def Let_def
    by (auto dest!: committed_cases dest: keeps_enqueue intro: step account_keeps_trans
        split: option.splits if_splits sum.splits)
qed

lemma issue_verification_keeps:
  "issue_email_verification_token e email tb = (r, tb') \<Longrightarrow> account_keeps tb tb'"
  unfolding issue_email_verification_token_def
  by (auto intro: issue_link_keeps split: option.splits if_splits)

lemma issue_reset_keeps:
  "issue_password_reset_token e email tb = (r, tb') \<Longrightarrow> account_keeps tb tb'"
  unfolding issue_password_reset_token_def
  by (auto intro: issue_link_keeps split: option.splits if_splits)

lemma put_action_consume:
  assumes "distinct (map at_id (action_tokens tb))" and "t \<in> set (action_tokens tb)"
    and "at_consumed_at t = None"
  shows "put_action (consume_with now t) tb = consume_where (\<lambda>s. at_id s = at_id t) now tb"
proof -
  have same: "s = t" if "s \<in> set (action_tokens tb)" "at_id s = at_id t" for s
    using assms(1,2) that by (auto simp: distinct_map inj_on_def)
  have "put_row at_id (consume_with now t) (action_tokens tb) =
      update_where (\<lambda>s. at_id s = at_id t \<and> at_consumed_at s = None) (consume_with now) (action_tokens tb)"
    unfolding put_row_def update_where_def
  proof (intro map_cong refl)
    fix s assume "s \<in> set (action_tokens tb)"
    from same [OF this] show "(if at_id s = at_id (consume_with now t) then consume_with now t else s) =
        (if at_id s = at_id t \<and> at_consumed_at s = None then consume_with now s else s)"
      using assms(3) by (cases "at_id s = at_id t") simp_all
  qed
  then show ?thesis by (simp add: put_action_def consume_where_def)
qed

lemma keeps_put_action:
  assumes "t \<in> set (action_tokens tb)" and "at_consumed_at t = None"
  shows "account_keeps tb (put_action (consume_with now t) tb)"
proof (rule keeps_conditional)
  assume "account_ok tb"
  then have "distinct (map at_id (action_tokens tb))"
    by (simp add: account_ok_def action_ok_def pairwise_ok_def)
  from put_action_consume [OF this assms, of now]
  show "account_keeps tb (put_action (consume_with now t) tb)"
    using keeps_consume_where by metis
qed (simp add: put_action_def business_part_def)

lemma put_action_fields [simp]:
  "users (put_action t tb) = users tb" "refresh_tokens (put_action t tb) = refresh_tokens tb"
  "recovery_codes (put_action t tb) = recovery_codes tb" "outbox (put_action t tb) = outbox tb"
  by (simp_all add: put_action_def)

lemma user_rows_fields [simp]:
  "same_identity (verified_user e u) u" "same_identity (reset_user e p u) u"
  "user_mfa_ok (verified_user e u) \<longleftrightarrow> user_mfa_ok u" "user_mfa_ok (reset_user e p u) \<longleftrightarrow> user_mfa_ok u"
  by (simp_all add: verified_user_def reset_user_def same_identity_def user_mfa_ok_def)

lemma confirm_verification_keeps:
  assumes "confirm_email_verification e token tb = (r, tb')"
  shows "account_keeps tb tb'"
proof -
  have "account_keeps tb (put_user (verified_user e user) (put_action (consume_with (ac_now e) stored) tb))"
    if "find_action_token e ps token tb = Some stored" "usable e stored" "find_user uid tb = Some user"
    for ps stored user uid
  proof -
    have "stored \<in> set (action_tokens tb)" "at_consumed_at stored = None" "user \<in> set (users tb)"
      using that find_action_token_Some find_user_Some by (auto simp: usable_def)
    then show ?thesis
      by (intro account_keeps_trans [OF keeps_put_action keeps_put_user]) auto
  qed
  then show ?thesis
    using assms unfolding confirm_email_verification_def
    by (auto dest!: committed_cases split: option.splits if_splits)
qed

lemma confirm_reset_keeps:
  assumes "confirm_password_reset e token p tb = (r, tb')"
  shows "account_keeps tb tb'"
proof -
  have "account_keeps tb (put_user (reset_user e p user) tb)" if "find_user uid tb = Some user" for user uid
    using find_user_Some [OF that] by (intro keeps_put_user) auto
  then have "account_keeps tb (revoke_where Q reason now (consume_where P now (put_user (reset_user e p user) tb)))"
    if "find_user uid tb = Some user" for user uid P Q reason now
    using that account_keeps_trans keeps_consume_where keeps_revoke_where by metis
  then show ?thesis
    using assms unfolding confirm_password_reset_def
    by (auto dest!: committed_cases split: option.splits if_splits)
qed

section \<open>A sample account\<close>

definition sample_account :: account_env where
  "sample_account = \<lparr>ac_auth = sample_auth, ac_crypto = sample_crypto, ac_now = days 20000,
     ac_created_at = days 20000, ac_updated_at = days 20000, ac_new_id = 3,
     ac_new_token = ''0123456789abcdefghijklmnopqrstuv'', ac_outbox_id = 5,
     ac_outbox_now = days 20000, ac_trace = (None, None), ac_delivery_mode = ''smtp'',
     ac_verification_url = ''v'', ac_reset_url = ''r'', ac_verification_minutes = 30,
     ac_reset_minutes = 30, ac_hashpw = (\<lambda>p. CHR ''$'' # p),
     ac_checkpw = (\<lambda>p h. Some (h = CHR ''$'' # p)), ac_mfa_enabled = True,
     ac_fernet_key_ok = True, ac_encrypt = (\<lambda>s. CHR ''!'' # s),
     ac_decrypt = (\<lambda>s. case s of [] \<Rightarrow> None | _ # t \<Rightarrow> Some t),
     ac_otp = (\<lambda>s c. if even c then ''123456'' else ''654321''), ac_new_secret = ''S'',
     ac_provisioning_uri = (\<lambda>s n i. s @ n @ i), ac_mfa_issuer = ''JobTrack'',
     ac_enrollment_minutes = 10, ac_challenge_minutes = 5, ac_step_up_minutes = 10,
     ac_recent_auth_minutes = 10, ac_recovery_count = 2,
     ac_token_hex = (\<lambda>i. replicate 20 (if i = 0 then CHR ''a'' else CHR ''b'')),
     ac_code_id = (\<lambda>i. 100 + int i), ac_decode = (\<lambda>s. Some \<lparr>jp_sub = Some s, jp_amr = [''pwd''], jp_auth_time = None\<rparr>),
     ac_email = Some, ac_utf8_length = length, ac_printable = (\<lambda>_. True)\<rparr>"

definition sample_member :: user where
  "sample_member = (sample_user 1 ''ann'')\<lparr>u_email := Some ''ann@x'', u_email_verified_at := Some 0\<rparr>"

definition sample_accounts :: tables where
  "sample_accounts = empty_tables\<lparr>users := [sample_member]\<rparr>"

lemma sample_accounts_ok: "account_ok sample_accounts"
  by code_simp

definition sample_link_requested :: tables where
  "sample_link_requested = snd (issue_password_reset_token sample_account ''ann@x'' sample_accounts)"

lemma sample_link:
  "issue_password_reset_token sample_account ''ann@x'' sample_accounts =
     (Inr (Some (''ann@x'', ac_new_token sample_account)), sample_link_requested)"
proof -
  have "fst (issue_password_reset_token sample_account ''ann@x'' sample_accounts) =
    Inr (Some (''ann@x'', ac_new_token sample_account))" by code_simp
  then show ?thesis unfolding sample_link_requested_def by (metis prod.collapse)
qed

lemma sample_link_ok: "account_ok sample_link_requested"
  using keeps_D(1) [OF issue_reset_keeps [OF sample_link] sample_accounts_ok] .

section \<open>Properties\<close>

lemma find_user_iff:
  assumes "account_ok tb"
  shows "find_user uid tb = Some u \<longleftrightarrow> u \<in> set (users tb) \<and> u_id u = uid"
  using find_user_Some [of uid tb u] db_ok_distinct(1) [OF account_okD(1) [OF assms]]
  by (auto simp: find_user_def find_unique)

lemma find_action_token_iff:
  assumes "account_ok tb"
  shows "find_action_token e ps token tb = Some t \<longleftrightarrow> t \<in> set (action_tokens tb) \<and>
     at_token_hash t = cr_sha256 (ac_crypto e) token \<and> at_purpose t \<in> set ps"
proof
  assume t: "t \<in> set (action_tokens tb) \<and> at_token_hash t = cr_sha256 (ac_crypto e) token \<and>
    at_purpose t \<in> set ps"
  have ok: "pairwise_ok at_id action_agree (action_tokens tb)"
    using account_okD(3) [OF assms] by (simp add: action_ok_def)
  have "s = t" if s: "s \<in> set (action_tokens tb)" "at_token_hash s = at_token_hash t" for s
  proof -
    have "at_id s = at_id t"
      using pairwise_okD [OF ok s(1), of t] t s(2) by (auto simp: action_agree_def)
    then show ?thesis using pairwise_ok_distinct [OF ok] t s(1) by (auto simp: distinct_map inj_on_def)
  qed
  then show "find_action_token e ps token tb = Some t"
    unfolding find_action_token_def hash_account_action_token_def
    using t by (intro find_unique_row) auto
qed (rule find_action_token_Some)

definition others_tokens :: "int \<Rightarrow> tables \<Rightarrow> refresh_token list" where
  "others_tokens uid tb = filter (\<lambda>t. rt_user_id t \<noteq> uid) (refresh_tokens tb)"

lemma others_revoke:
  "others_tokens uid (revoke_where (\<lambda>t. rt_user_id t = uid \<and> Q t) reason now tb) = others_tokens uid tb"
proof -
  have "filter (\<lambda>t. rt_user_id t \<noteq> uid)
      (map (\<lambda>t. if (rt_user_id t = uid \<and> Q t) \<and> \<not> rt_revoked t then revoke_with reason now t else t) ts) =
    filter (\<lambda>t. rt_user_id t \<noteq> uid) ts" for ts
    by (induction ts) auto
  then show ?thesis by (simp add: others_tokens_def revoke_where_rows)
qed

lemma revoke_where_all:
  "t \<in> set (refresh_tokens (revoke_where P reason now tb)) \<Longrightarrow>
    (\<And>s. P (revoke_with reason now s) = P s) \<Longrightarrow> P t \<Longrightarrow> rt_revoked t"
  unfolding revoke_where_rows set_map by (auto split: if_splits)

lemma consume_where_all:
  assumes "t \<in> set (action_tokens (consume_where P now tb))"
    and "\<And>s. P (consume_with now s) = P s" and "P t"
  shows "at_consumed_at t \<noteq> None"
  using assms unfolding consume_where_rows set_map by (auto split: if_splits)

lemma revoke_where_fields [simp]:
  "users (revoke_where P reason now tb) = users tb"
  "action_tokens (revoke_where P reason now tb) = action_tokens tb"
  "recovery_codes (revoke_where P reason now tb) = recovery_codes tb"
  "outbox (revoke_where P reason now tb) = outbox tb"
  by (simp_all add: revoke_where_def)

lemma put_user_fields [simp]:
  "users (put_user u tb) = put_row u_id u (users tb)"
  "refresh_tokens (put_user u tb) = refresh_tokens tb"
  "action_tokens (put_user u tb) = action_tokens tb"
  "recovery_codes (put_user u tb) = recovery_codes tb" "outbox (put_user u tb) = outbox tb"
  by (simp_all add: put_user_def)



lemma live_after_issue:
  assumes "issue_link e user p email m ty url tb = (Inr (Some d), tb')"
  shows "d = (email, ac_new_token e) \<and>
    action_tokens tb' = map (\<lambda>t. if (at_user_id t = u_id user \<and> at_purpose t = p) \<and> at_consumed_at t = None
        then consume_with (ac_now e) t else t) (action_tokens tb) @ [action_row e (u_id user) p email m] \<and>
    outbox tb' = outbox tb @ (if ac_delivery_mode e = ''outbox''
      then [outbox_row (ac_crypto e) (ac_outbox_id e) (ac_outbox_now e) (ac_trace e) ty
              \<lparr>ep_action_url = url, ep_recipient = email, ep_token = ac_new_token e\<rparr>
              (cr_sha256 (ac_crypto e) (ac_new_token e)) (Aware (ac_now e + minutes m) 0)]
      else [])"
proof -
  let ?tb1 = "consume_where (\<lambda>t. at_user_id t = u_id user \<and> at_purpose t = p) (ac_now e) tb"
  let ?row = "action_row e (u_id user) p email m"
  obtain tb2 where ins: "insert_action_token ?row ?tb1 = Some tb2"
    and rest: "if ac_delivery_mode e = ''outbox''
      then enqueue_email_delivery (ac_crypto e) (ac_outbox_id e) (ac_outbox_now e) (ac_trace e) ty
        \<lparr>ep_action_url = url, ep_recipient = email, ep_token = ac_new_token e\<rparr> (at_token_hash ?row)
        (Aware (at_expires_at ?row) 0) tb2 = Inr tb'
      else tb' = tb2"
    and d: "d = (email, ac_new_token e)"
    using assms unfolding issue_link_def Let_def generate_account_action_token_def committed_Inr
    by (auto split: option.splits if_splits sum.splits)
  have tb2: "tb2 = ?tb1\<lparr>action_tokens := action_tokens ?tb1 @ [?row]\<rparr>"
    using insert_action_token_Some [OF ins] by blast
  then have rows: "action_tokens tb2 = action_tokens ?tb1 @ [?row]" "outbox tb2 = outbox tb" by simp_all
  have "action_tokens tb' = action_tokens tb2 \<and> outbox tb' = outbox tb2 @
    (if ac_delivery_mode e = ''outbox''
      then [outbox_row (ac_crypto e) (ac_outbox_id e) (ac_outbox_now e) (ac_trace e) ty
              \<lparr>ep_action_url = url, ep_recipient = email, ep_token = ac_new_token e\<rparr>
              (cr_sha256 (ac_crypto e) (ac_new_token e)) (Aware (ac_now e + minutes m) 0)]
      else [])"
    using rest unfolding enqueue_email_delivery_def insert_outbox_def
    by (auto split: if_splits)
  then show ?thesis using d rows unfolding consume_where_rows by simp
qed

lemma filter_consumed:
  "filter (\<lambda>t. P t \<and> at_consumed_at t = None)
     (map (\<lambda>t. if P t \<and> at_consumed_at t = None then consume_with now t else t) ts) = []"
  by (induction ts) auto

text \<open>
  When a reset link is issued, the token returned is the only live reset token of that user,
  it is bound to the address and to the configured lifetime, and in outbox mode exactly one
  mail is enqueued with it in the same transaction; in every other case the outbox is untouched.
\<close>

theorem latest_link_only:
  assumes "issue_password_reset_token e email tb = (Inr (Some (recipient, raw)), tb')"
  shows "\<exists>user\<in>set (users tb). u_email user = Some email \<and> u_is_active user \<and>
    u_email_verified_at user \<noteq> None \<and> recipient = email \<and> raw = ac_new_token e \<and>
    filter (\<lambda>t. (at_user_id t = u_id user \<and> at_purpose t = PASSWORD_RESET_PURPOSE) \<and> at_consumed_at t = None)
      (action_tokens tb') =
      [action_row e (u_id user) PASSWORD_RESET_PURPOSE email (ac_reset_minutes e)] \<and>
    outbox tb' = outbox tb @ (if ac_delivery_mode e = ''outbox''
      then [outbox_row (ac_crypto e) (ac_outbox_id e) (ac_outbox_now e) (ac_trace e)
              PASSWORD_RESET_MESSAGE
              \<lparr>ep_action_url = ac_reset_url e, ep_recipient = email, ep_token = raw\<rparr>
              (cr_sha256 (ac_crypto e) raw) (Aware (ac_now e + minutes (ac_reset_minutes e)) 0)]
      else [])"
proof -
  obtain user where u: "find_user_by_email email tb = Some user" "u_is_active user"
      "u_email_verified_at user \<noteq> None"
    and iss: "issue_link e user PASSWORD_RESET_PURPOSE email (ac_reset_minutes e)
      PASSWORD_RESET_MESSAGE (ac_reset_url e) tb = (Inr (Some (recipient, raw)), tb')"
    using assms unfolding issue_password_reset_token_def by (auto split: option.splits if_splits)
  have "user \<in> set (users tb)" "u_email user = Some email"
    using find_user_by_email_Some [OF u(1)] by auto
  then show ?thesis
    using u(2,3) live_after_issue [OF iss]
      filter_consumed [where P = "\<lambda>t. at_user_id t = u_id user \<and> at_purpose t = PASSWORD_RESET_PURPOSE"]
    by (intro bexI [of _ user]) simp_all
qed

theorem latest_link_only_witness:
  "\<exists>user\<in>set (users sample_accounts). u_email user = Some ''ann@x'' \<and> outbox sample_link_requested = []"
proof -
  have "ac_delivery_mode sample_account \<noteq> ''outbox''" "outbox sample_accounts = []"
    by (simp_all add: sample_account_def sample_accounts_def empty_tables_def)
  then show ?thesis using latest_link_only [OF sample_link] by auto
qed

definition link_fresh :: "account_env \<Rightarrow> string \<Rightarrow> tables \<Rightarrow> bool" where
  "link_fresh e message_type tb =
     (\<not> ae_fault (ac_auth e) \<and> ac_new_id e \<notin> at_id ` set (action_tokens tb) \<and>
      cr_sha256 (ac_crypto e) (ac_new_token e) \<notin> at_token_hash ` set (action_tokens tb) \<and>
      ac_outbox_id e \<notin> ob_id ` set (outbox tb) \<and>
      outbox_idempotency_key (ac_crypto e) message_type (cr_sha256 (ac_crypto e) (ac_new_token e))
        \<notin> ob_idempotency_key ` set (outbox tb))"

lemma issue_link_succeeds:
  assumes "link_fresh e ty tb" and "ty \<in> set SUPPORTED_MESSAGE_TYPES" and "user \<in> set (users tb)"
  shows "\<exists>tb'. issue_link e user p email m ty url tb = (Inr (Some (email, ac_new_token e)), tb')"
proof -
  let ?tb1 = "consume_where (\<lambda>t. at_user_id t = u_id user \<and> at_purpose t = p) (ac_now e) tb"
  let ?row = "action_row e (u_id user) p email m"
  let ?msg = "outbox_row (ac_crypto e) (ac_outbox_id e) (ac_outbox_now e) (ac_trace e) ty
    \<lparr>ep_action_url = url, ep_recipient = email, ep_token = ac_new_token e\<rparr> (at_token_hash ?row)
    (Aware (at_expires_at ?row) 0)"
  have same: "map at_id (action_tokens ?tb1) = map at_id (action_tokens tb)"
    "map at_token_hash (action_tokens ?tb1) = map at_token_hash (action_tokens tb)"
    unfolding consume_where_rows by simp_all
  have "insert_action_token ?row ?tb1 = Some (?tb1\<lparr>action_tokens := action_tokens ?tb1 @ [?row]\<rparr>)"
  proof -
    have "at_id ?row \<notin> at_id ` set (action_tokens ?tb1)"
      and "at_token_hash ?row \<notin> at_token_hash ` set (action_tokens ?tb1)"
      using assms(1) unfolding set_map [symmetric] same
      by (simp_all add: link_fresh_def)
    then show ?thesis
      using assms(3)
      by (auto simp: insert_action_token_def agrees_with_def action_token_agree_def user_exists_def
          simp del: action_row_fields(1,5))
  qed
  moreover have "insert_outbox ?msg (?tb1\<lparr>action_tokens := as\<rparr>) =
      Some (?tb1\<lparr>action_tokens := as, outbox := outbox tb @ [?msg]\<rparr>)" for as
  proof -
    have "ob_id ?msg \<notin> ob_id ` set (outbox tb)"
      and "ob_idempotency_key ?msg \<notin> ob_idempotency_key ` set (outbox tb)"
      using assms(1) by (simp_all add: link_fresh_def outbox_row_def)
    moreover have "outbox_check ?msg" by (cases "ac_trace e") (simp add: outbox_row_check)
    ultimately show ?thesis
      by (auto simp: insert_outbox_def agrees_with_def outbox_agree_def)
  qed
  ultimately show ?thesis
    using assms(1,2)
    by (auto simp: issue_link_def Let_def committed_def generate_account_action_token_def
        enqueue_email_delivery_def link_fresh_def)
qed

lemma request_link_reply:
  "issue tb = (Inr d, tb') \<Longrightarrow> fst (request_link e accepted url subject issue tb) = Inr accepted"
  by (cases d) (auto simp: request_link_def)

text \<open>
  C14: the reply to a reset request does not depend on the stored accounts: as long as the
  database accepts the new rows, it is the fixed message (or the validation error) for any two
  databases, whether the address is known, verified, disabled or not.
\<close>

theorem reset_request_uniform:
  assumes "link_fresh e PASSWORD_RESET_MESSAGE tb" and "link_fresh e PASSWORD_RESET_MESSAGE tb2"
  shows "fst (request_password_reset email e raw tb) = fst (request_password_reset email e raw tb2) \<and>
    fst (request_password_reset email e raw tb) =
      (case validate_email_request email raw of Inl err \<Rightarrow> Inl err | Inr _ \<Rightarrow> Inr ACCEPTED_RESET)"
proof -
  have "fst (request_password_reset email e raw tb) =
      (case validate_email_request email raw of Inl err \<Rightarrow> Inl err | Inr _ \<Rightarrow> Inr ACCEPTED_RESET)"
    if fresh: "link_fresh e PASSWORD_RESET_MESSAGE tb" for tb
  proof -
    have "\<exists>d tb'. issue_password_reset_token e address tb = (Inr d, tb')" for address
    proof (cases "find_user_by_email address tb")
      case (Some user)
      then show ?thesis
        using issue_link_succeeds [OF fresh _ , of user] find_user_by_email_Some [OF Some]
        by (fastforce simp: issue_password_reset_token_def SUPPORTED_MESSAGE_TYPES_def)
    qed (simp add: issue_password_reset_token_def)
    then have "fst (request_link e ACCEPTED_RESET (ac_reset_url e) ''Reset your password''
        (issue_password_reset_token e address) tb) = Inr ACCEPTED_RESET" for address
      using request_link_reply by metis
    then show ?thesis by (simp add: request_password_reset_def split: sum.splits)
  qed
  then show ?thesis using assms by simp
qed

theorem reset_request_uniform_witness:
  "fst (request_password_reset Some sample_account ''ann@x'' sample_accounts) =
   fst (request_password_reset Some sample_account ''ann@x'' empty_tables)"
proof -
  have "link_fresh sample_account PASSWORD_RESET_MESSAGE sample_accounts"
    "link_fresh sample_account PASSWORD_RESET_MESSAGE empty_tables"
    by code_simp+
  then show ?thesis using reset_request_uniform by blast
qed

end
