(* ===== verification/Mfa.thy ===== *)
theory Mfa
  imports ActionTokens
begin

text \<open>
  Multi-factor authentication: \<^verbatim>\<open>src/app/services/mfa.py\<close>. Enrollment, TOTP codes with a
  counter that only moves forward, recovery codes, and the login challenge that is exchanged for
  a session. Fernet and the one-time password function are library functions of the environment.
\<close>

section \<open>Availability and secrets\<close>

definition INVALID_FACTOR_DETAIL :: string where
  "INVALID_FACTOR_DETAIL = ''Invalid MFA credential''"

definition INVALID_CHALLENGE_DETAIL :: string where
  "INVALID_CHALLENGE_DETAIL = ''Invalid or expired MFA challenge''"

definition MFA_UNAVAILABLE :: error where
  "MFA_UNAVAILABLE = HTTPException 503 ''MFA is not available''"

definition require_available :: "account_env \<Rightarrow> unit result" where
  "require_available e =
     (if \<not> ac_mfa_enabled e \<or> \<not> ac_fernet_key_ok e then Inl MFA_UNAVAILABLE else Inr ())"

definition encrypt_secret :: "account_env \<Rightarrow> string \<Rightarrow> string result" where
  "encrypt_secret e secret =
     (case require_available e of Inl err \<Rightarrow> Inl err | Inr _ \<Rightarrow> Inr (ac_encrypt e secret))"

definition decrypt_secret :: "account_env \<Rightarrow> string \<Rightarrow> string result" where
  "decrypt_secret e encrypted_secret =
     (case require_available e of
        Inl err \<Rightarrow> Inl err
      | Inr _ \<Rightarrow> (case ac_decrypt e encrypted_secret of
            None \<Rightarrow> Inl MFA_UNAVAILABLE | Some secret \<Rightarrow> Inr secret))"

definition lock_user :: "int \<Rightarrow> tables \<Rightarrow> user result" where
  "lock_user uid tb =
     (case find_user uid tb of
        None \<Rightarrow> Inl (HTTPException 401 INVALID_FACTOR_DETAIL)
      | Some user \<Rightarrow>
          if \<not> u_is_active user then Inl (HTTPException 401 INVALID_FACTOR_DETAIL) else Inr user)"

definition verify_current_password :: "account_env \<Rightarrow> user \<Rightarrow> string \<Rightarrow> unit result" where
  "verify_current_password e user password =
     (if \<not> verify_password e password (u_password user)
      then Inl (HTTPException 401 INVALID_FACTOR_DETAIL) else Inr ())"

section \<open>TOTP codes\<close>

definition is_digit :: "char \<Rightarrow> bool" where
  "is_digit c = (of_char c \<in> {48..57::nat})"

text \<open>The loop over the offsets \<open>(-1, 0, 1)\<close>; the first counter whose code matches decides.\<close>

fun match_counters :: "(int \<Rightarrow> string) \<Rightarrow> string \<Rightarrow> int option \<Rightarrow> int list \<Rightarrow> int option" where
  "match_counters otp code last_counter [] = None"
| "match_counters otp code last_counter (counter # rest) =
     (if otp counter = code then
        (case last_counter of
           Some used \<Rightarrow> if counter \<le> used then None else Some counter
         | None \<Rightarrow> Some counter)
      else match_counters otp code last_counter rest)"

definition matching_totp_counter ::
    "account_env \<Rightarrow> user \<Rightarrow> string \<Rightarrow> datetime \<Rightarrow> int option result" where
  "matching_totp_counter e user code now =
     (if \<not> list_all is_digit code \<or> length code \<noteq> 6 \<or>
         u_mfa_secret_encrypted user = None \<or> u_mfa_secret_encrypted user = Some []
      then Inr None
      else (case decrypt_secret e (the (u_mfa_secret_encrypted user)) of
          Inl err \<Rightarrow> Inl err
        | Inr secret \<Rightarrow>
            (let current_counter = timestamp_of now div 30 in
             Inr (match_counters (ac_otp e secret) code (u_mfa_last_counter user)
                    [current_counter - 1, current_counter, current_counter + 1]))))"

section \<open>Recovery codes\<close>

definition is_ascii :: "string \<Rightarrow> bool" where
  "is_ascii s = list_all (\<lambda>c. of_char c < (128::nat)) s"

definition normalize_recovery_code :: "string \<Rightarrow> string" where
  "normalize_recovery_code code = py_upper (py_strip (filter (\<lambda>c. c \<noteq> CHR ''-'') code))"

text \<open>\<open>None\<close>: \<open>UnicodeEncodeError\<close>.\<close>

definition hash_recovery_code :: "account_env \<Rightarrow> string \<Rightarrow> string option" where
  "hash_recovery_code e code =
     (if is_ascii (normalize_recovery_code code)
      then Some (cr_sha256 (ac_crypto e) (normalize_recovery_code code)) else None)"

definition group_code :: "string \<Rightarrow> string" where
  "group_code raw = join ''-'' (map (\<lambda>index. take 4 (drop index raw)) [0, 4, 8, 12, 16])"

definition new_recovery_codes :: "account_env \<Rightarrow> string list" where
  "new_recovery_codes e =
     map (\<lambda>i. group_code (py_upper (ac_token_hex e i))) [0..<ac_recovery_count e]"

definition recovery_row :: "account_env \<Rightarrow> int \<Rightarrow> nat \<Rightarrow> string \<Rightarrow> recovery_code" where
  "recovery_row e uid i code =
     \<lparr>rc_id = ac_code_id e i, rc_user_id = uid,
      rc_code_hash = cr_sha256 (ac_crypto e) (normalize_recovery_code code),
      rc_created_at = ac_created_at e, rc_used_at = None\<rparr>"

definition replace_recovery_codes ::
    "account_env \<Rightarrow> int \<Rightarrow> tables \<Rightarrow> string list \<times> tables option" where
  "replace_recovery_codes e uid tb =
     (let codes = new_recovery_codes e in
      (codes, insert_recovery_codes (map (\<lambda>(i, c). recovery_row e uid i c) (enumerate 0 codes))
                (delete_recovery_codes uid tb)))"

definition consume_recovery_code ::
    "account_env \<Rightarrow> int \<Rightarrow> string \<Rightarrow> datetime \<Rightarrow> tables \<Rightarrow> bool \<times> tables" where
  "consume_recovery_code e uid code now tb =
     (case hash_recovery_code e code of
        None \<Rightarrow> (False, tb)
      | Some code_hash \<Rightarrow>
          (case find (\<lambda>r. rc_user_id r = uid \<and> rc_code_hash r = code_hash \<and> rc_used_at r = None)
                  (recovery_codes tb) of
             None \<Rightarrow> (False, tb)
           | Some recovery \<Rightarrow> (True, use_recovery_code recovery now tb)))"

definition revoke_sessions :: "int \<Rightarrow> datetime \<Rightarrow> string \<Rightarrow> tables \<Rightarrow> tables" where
  "revoke_sessions uid now reason tb = revoke_where (\<lambda>t. rt_user_id t = uid) reason now tb"

section \<open>Status and enrollment\<close>

record mfa_status =
  ms_enabled :: bool
  ms_recovery_codes_remaining :: nat

definition get_mfa_status :: "int \<Rightarrow> tables \<Rightarrow> mfa_status" where
  "get_mfa_status uid tb =
     (let enabled = (case find_user uid tb of None \<Rightarrow> False | Some u \<Rightarrow> u_mfa_enabled_at u \<noteq> None) in
      \<lparr>ms_enabled = enabled,
       ms_recovery_codes_remaining =
         (if enabled
          then length (filter (\<lambda>r. rc_user_id r = uid \<and> rc_used_at r = None) (recovery_codes tb))
          else 0)\<rparr>)"

record mfa_enrollment =
  me_secret :: string
  me_provisioning_uri :: string
  me_expires_at :: datetime

definition enrolling_user :: "account_env \<Rightarrow> string \<Rightarrow> user \<Rightarrow> user" where
  "enrolling_user e encrypted u = u
     \<lparr>u_mfa_secret_encrypted := Some encrypted, u_mfa_enrollment_created_at := Some (ac_now e),
      u_mfa_last_counter := None, u_updated_at := ac_updated_at e\<rparr>"

definition begin_totp_enrollment ::
    "account_env \<Rightarrow> int \<Rightarrow> string \<Rightarrow> tables \<Rightarrow> mfa_enrollment result \<times> tables" where
  "begin_totp_enrollment e uid password tb =
     (case require_available e of
        Inl err \<Rightarrow> (Inl err, tb)
      | Inr _ \<Rightarrow>
     (case lock_user uid tb of
        Inl err \<Rightarrow> (Inl err, tb)
      | Inr user \<Rightarrow>
     (case verify_current_password e user password of
        Inl err \<Rightarrow> (Inl err, tb)
      | Inr _ \<Rightarrow>
          if u_mfa_enabled_at user \<noteq> None
          then (Inl (HTTPException 409 ''MFA is already enabled''), tb)
          else committed e tb
            (case encrypt_secret e (ac_new_secret e) of
               Inl err \<Rightarrow> (Inl err, tb)
             | Inr encrypted \<Rightarrow>
                 (Inr \<lparr>me_secret = ac_new_secret e,
                       me_provisioning_uri = ac_provisioning_uri e (ac_new_secret e)
                         (first_nonempty (u_email user) None (u_username user)) (ac_mfa_issuer e),
                       me_expires_at = ac_now e + minutes (ac_enrollment_minutes e)\<rparr>,
                  delete_recovery_codes (u_id user) (put_user (enrolling_user e encrypted user) tb))))))"

definition enrolled_user :: "account_env \<Rightarrow> int \<Rightarrow> user \<Rightarrow> user" where
  "enrolled_user e counter u = u
     \<lparr>u_mfa_enabled_at := Some (ac_now e), u_mfa_enrollment_created_at := None,
      u_mfa_last_counter := Some counter, u_updated_at := ac_updated_at e\<rparr>"

definition enrollment_open :: "account_env \<Rightarrow> user \<Rightarrow> bool" where
  "enrollment_open e user =
     (u_mfa_enabled_at user = None \<and>
      (case u_mfa_enrollment_created_at user of
         None \<Rightarrow> False
       | Some created \<Rightarrow>
           \<not> as_utc (Naive created) + minutes (ac_enrollment_minutes e) \<le> ac_now e))"

definition confirm_totp_enrollment ::
    "account_env \<Rightarrow> int \<Rightarrow> string \<Rightarrow> tables \<Rightarrow> string list result \<times> tables" where
  "confirm_totp_enrollment e uid code tb =
     (case lock_user uid tb of
        Inl err \<Rightarrow> (Inl err, tb)
      | Inr user \<Rightarrow>
          if \<not> enrollment_open e user then (Inl (HTTPException 400 INVALID_FACTOR_DETAIL), tb)
          else (case matching_totp_counter e user code (ac_now e) of
              Inl err \<Rightarrow> (Inl err, tb)
            | Inr None \<Rightarrow> (Inl (HTTPException 400 INVALID_FACTOR_DETAIL), tb)
            | Inr (Some counter) \<Rightarrow> committed e tb
                (case replace_recovery_codes e (u_id user) tb of
                   (_, None) \<Rightarrow> (Inl IntegrityError, tb)
                 | (codes, Some tb1) \<Rightarrow> (Inr codes, put_user (enrolled_user e counter user) tb1))))"

section \<open>New recovery codes and switching off\<close>

definition counted_user :: "account_env \<Rightarrow> int \<Rightarrow> user \<Rightarrow> user" where
  "counted_user e counter u = u\<lparr>u_mfa_last_counter := Some counter, u_updated_at := ac_updated_at e\<rparr>"

definition regenerate_recovery_codes ::
    "account_env \<Rightarrow> int \<Rightarrow> string \<Rightarrow> string \<Rightarrow> tables \<Rightarrow> string list result \<times> tables" where
  "regenerate_recovery_codes e uid password code tb =
     (case lock_user uid tb of
        Inl err \<Rightarrow> (Inl err, tb)
      | Inr user \<Rightarrow>
     (case verify_current_password e user password of
        Inl err \<Rightarrow> (Inl err, tb)
      | Inr _ \<Rightarrow>
          if u_mfa_enabled_at user = None then (Inl (HTTPException 400 INVALID_FACTOR_DETAIL), tb)
          else (case matching_totp_counter e user code (ac_now e) of
              Inl err \<Rightarrow> (Inl err, tb)
            | Inr None \<Rightarrow> (Inl (HTTPException 400 INVALID_FACTOR_DETAIL), tb)
            | Inr (Some counter) \<Rightarrow> committed e tb
                (case replace_recovery_codes e (u_id user) tb of
                   (_, None) \<Rightarrow> (Inl IntegrityError, tb)
                 | (codes, Some tb1) \<Rightarrow>
                     (Inr codes,
                      revoke_sessions (u_id user) (ac_now e) ''mfa_recovery_regenerated''
                        (put_user (counted_user e counter user) tb1))))))"

definition plain_user :: "account_env \<Rightarrow> user \<Rightarrow> user" where
  "plain_user e u = u
     \<lparr>u_mfa_secret_encrypted := None, u_mfa_enrollment_created_at := None,
      u_mfa_enabled_at := None, u_mfa_last_counter := None, u_updated_at := ac_updated_at e\<rparr>"

definition disable_mfa ::
    "account_env \<Rightarrow> int \<Rightarrow> string \<Rightarrow> string \<Rightarrow> tables \<Rightarrow> unit result \<times> tables" where
  "disable_mfa e uid password code tb =
     (case lock_user uid tb of
        Inl err \<Rightarrow> (Inl err, tb)
      | Inr user \<Rightarrow>
     (case verify_current_password e user password of
        Inl err \<Rightarrow> (Inl err, tb)
      | Inr _ \<Rightarrow>
          if u_mfa_enabled_at user = None then (Inl (HTTPException 400 INVALID_FACTOR_DETAIL), tb)
          else (case matching_totp_counter e user code (ac_now e) of
              Inl err \<Rightarrow> (Inl err, tb)
            | Inr counter \<Rightarrow>
                (let (valid, tb1) =
                   (if counter \<noteq> None then (True, tb)
                    else consume_recovery_code e (u_id user) code (ac_now e) tb) in
                 if \<not> valid then (Inl (HTTPException 400 INVALID_FACTOR_DETAIL), tb)
                 else committed e tb
                   (Inr (), revoke_sessions (u_id user) (ac_now e) ''mfa_disabled''
                      (delete_recovery_codes (u_id user) (put_user (plain_user e user) tb1)))))))"

section \<open>The login challenge\<close>

record mfa_challenge =
  mc_challenge_token :: string
  mc_expires_in :: int

definition mfa_purposes :: "string list" where
  "mfa_purposes = [MFA_LOGIN_PURPOSE, OIDC_MFA_LOGIN_PURPOSE]"

definition prepare_mfa_login_challenge ::
    "account_env \<Rightarrow> user \<Rightarrow> string \<Rightarrow> string \<Rightarrow> tables \<Rightarrow> mfa_challenge result \<times> tables" where
  "prepare_mfa_login_challenge e user device primary_method tb =
     (case require_available e of
        Inl err \<Rightarrow> (Inl err, tb)
      | Inr _ \<Rightarrow>
          if primary_method \<notin> {''pwd'', ''oidc''}
          then (Inl (ValueError ''Unsupported primary authentication method''), tb)
          else
            (let raw = generate_account_action_token e;
                 purpose = (if primary_method = ''oidc'' then OIDC_MFA_LOGIN_PURPOSE
                            else MFA_LOGIN_PURPOSE);
                 tb1 = consume_where (\<lambda>t. at_user_id t = u_id user \<and> at_purpose t \<in> set mfa_purposes)
                         (ac_now e) tb in
             (case insert_action_token
                     (action_row e (u_id user) purpose device (ac_challenge_minutes e)) tb1 of
                None \<Rightarrow> (Inl IntegrityError, tb)
              | Some tb2 \<Rightarrow>
                  (Inr \<lparr>mc_challenge_token = raw, mc_expires_in = ac_challenge_minutes e * 60\<rparr>, tb2))))"

definition issue_mfa_login_challenge ::
    "account_env \<Rightarrow> user \<Rightarrow> string \<Rightarrow> tables \<Rightarrow> mfa_challenge result \<times> tables" where
  "issue_mfa_login_challenge e user device tb =
     committed e tb (prepare_mfa_login_challenge e user device ''pwd'' tb)"

definition primary_method_of :: "action_token \<Rightarrow> string" where
  "primary_method_of challenge =
     (if at_purpose challenge = OIDC_MFA_LOGIN_PURPOSE then ''oidc'' else ''pwd'')"

text \<open>
  Accepting a factor, before the session is issued: the TOTP counter, or a recovery code, which
  also revokes every session of the user. \<open>None\<close> in the sum: neither matches.
\<close>

definition accept_factor ::
    "account_env \<Rightarrow> user \<Rightarrow> string \<Rightarrow> tables \<Rightarrow> (string \<times> tables) result" where
  "accept_factor e user code tb =
     (case matching_totp_counter e user code (ac_now e) of
        Inl err \<Rightarrow> Inl err
      | Inr (Some counter) \<Rightarrow> Inr (''otp'', put_user (counted_user e counter user) tb)
      | Inr None \<Rightarrow>
          (case consume_recovery_code e (u_id user) code (ac_now e) tb of
             (False, _) \<Rightarrow> Inl (HTTPException 400 INVALID_FACTOR_DETAIL)
           | (True, tb1) \<Rightarrow>
               Inr (''recovery'', revoke_sessions (u_id user) (ac_now e) ''mfa_recovery_used'' tb1)))"

definition verify_mfa_login_challenge ::
    "account_env \<Rightarrow> string \<Rightarrow> string \<Rightarrow> tables \<Rightarrow> token_pair result \<times> tables" where
  "verify_mfa_login_challenge e challenge_token code tb =
     (case require_available e of
        Inl err \<Rightarrow> (Inl err, tb)
      | Inr _ \<Rightarrow>
     (case find_action_token e mfa_purposes challenge_token tb of
        None \<Rightarrow> (Inl (HTTPException 400 INVALID_CHALLENGE_DETAIL), tb)
      | Some challenge \<Rightarrow>
          if \<not> usable e challenge then (Inl (HTTPException 400 INVALID_CHALLENGE_DETAIL), tb)
          else (case lock_user (at_user_id challenge) tb of
              Inl err \<Rightarrow> (Inl err, tb)
            | Inr user \<Rightarrow>
                if u_mfa_enabled_at user = None
                then (Inl (HTTPException 400 INVALID_CHALLENGE_DETAIL), tb)
                else (case accept_factor e user code tb of
                    Inl err \<Rightarrow> (Inl err, tb)
                  | Inr (authentication_method, tb1) \<Rightarrow>
                      committed e tb
                        (prepare_session_tokens (ac_auth e) (u_id user) (at_target challenge)
                           [primary_method_of challenge, authentication_method]
                           (put_action (consume_with (ac_now e) challenge) tb1))))))"

section \<open>Every operation keeps the contract\<close>

lemma lock_user_Inr: "lock_user uid tb = Inr u \<Longrightarrow> u \<in> set (users tb) \<and> u_id u = uid \<and> u_is_active u"
  unfolding lock_user_def using find_user_Some [of uid tb u] by (auto split: option.splits if_splits)

lemma matching_secret:
  "matching_totp_counter e u code now = Inr (Some c) \<Longrightarrow> u_mfa_secret_encrypted u \<noteq> None"
  unfolding matching_totp_counter_def by (auto split: if_splits)

lemma mfa_users_identity [simp]:
  "same_identity (enrolling_user e x u) u" "same_identity (enrolled_user e c u) u"
  "same_identity (counted_user e c u) u" "same_identity (plain_user e u) u"
  by (simp_all add: same_identity_def enrolling_user_def enrolled_user_def counted_user_def plain_user_def)

lemma mfa_users_id [simp]:
  "u_id (enrolling_user e x u) = u_id u" "u_id (enrolled_user e c u) = u_id u"
  "u_id (counted_user e c u) = u_id u" "u_id (plain_user e u) = u_id u"
  "u_id (verified_user e u) = u_id u" "u_id (reset_user e p u) = u_id u"
  using mfa_users_identity user_rows_fields(1,2) by (simp_all only: same_identity_def)

lemma mfa_users_ok:
  "u_mfa_enabled_at u = None \<Longrightarrow> user_mfa_ok (enrolling_user e x u)"
  "u_mfa_secret_encrypted u \<noteq> None \<Longrightarrow> user_mfa_ok (enrolled_user e c u)"
  "user_mfa_ok u \<Longrightarrow> user_mfa_ok (counted_user e c u)" "user_mfa_ok (plain_user e u)"
  by (simp_all add: user_mfa_ok_def enrolling_user_def enrolled_user_def counted_user_def plain_user_def)

lemma delete_recovery_users [simp]: "users (delete_recovery_codes uid tb) = users tb"
  by (simp add: delete_recovery_codes_def)

lemma insert_recovery_users: "insert_recovery_codes rs tb = Some tb' \<Longrightarrow> users tb' = users tb"
proof (induction rs arbitrary: tb)
  case (Cons r rs)
  then show ?case by (force simp: bind_eq_Some_conv insert_recovery_code_def split: if_splits)
qed simp

lemma replace_codes:
  assumes "replace_recovery_codes e uid tb = (codes, Some tb1)"
  shows "account_keeps tb tb1" and "users tb1 = users tb"
proof -
  have ins: "insert_recovery_codes (map (\<lambda>(i, c). recovery_row e uid i c) (enumerate 0 codes))
      (delete_recovery_codes uid tb) = Some tb1"
    using assms by (auto simp: replace_recovery_codes_def Let_def)
  show "account_keeps tb tb1"
    using account_keeps_trans [OF keeps_delete_recovery keeps_insert_recovery_codes [OF ins]] .
  show "users tb1 = users tb" using insert_recovery_users [OF ins] by simp
qed

lemma consume_code:
  assumes "consume_recovery_code e uid code now tb = (b, tb1)"
  shows "account_keeps tb tb1" and "users tb1 = users tb" and "action_tokens tb1 = action_tokens tb"
    and "refresh_tokens tb1 = refresh_tokens tb"
  using assms unfolding consume_recovery_code_def
  by (auto simp: use_recovery_code_def [symmetric] dest!: find_Some intro: keeps_use_recovery
      split: option.splits)
    (simp_all add: use_recovery_code_def)

lemma begin_keeps:
  assumes "begin_totp_enrollment e uid password tb = (r, tb')"
  shows "account_keeps tb tb'"
proof -
  have "account_keeps tb (delete_recovery_codes uid' (put_user (enrolling_user e x user) tb))"
    if "lock_user uid tb = Inr user" "u_mfa_enabled_at user = None" for user x uid'
    using lock_user_Inr [OF that(1)] mfa_users_ok(1) [OF that(2)]
    by (intro account_keeps_trans [OF keeps_put_user keeps_delete_recovery]) auto
  then show ?thesis
    using assms unfolding begin_totp_enrollment_def
    by (auto dest!: committed_cases split: sum.splits if_splits)
qed

lemma confirm_totp_keeps:
  assumes "confirm_totp_enrollment e uid code tb = (r, tb')"
  shows "account_keeps tb tb'"
proof -
  have "account_keeps tb (put_user (enrolled_user e c user) tb1)"
    if "lock_user uid tb = Inr user" "replace_recovery_codes e u tb = (codes, Some tb1)"
      "matching_totp_counter e user code now = Inr (Some c)" for user u codes tb1 c now
    using lock_user_Inr [OF that(1)] replace_codes [OF that(2)]
      mfa_users_ok(2) [OF matching_secret [OF that(3)]]
    by (intro account_keeps_trans [OF replace_codes(1) [OF that(2)] keeps_put_user]) auto
  then show ?thesis
    using assms unfolding confirm_totp_enrollment_def
    by (auto dest!: committed_cases split: sum.splits if_splits option.splits prod.splits)
qed

lemma keeps_put_counted:
  assumes "user \<in> set (users tb)"
  shows "account_keeps tb (put_user (counted_user e c user) tb)"
  by (rule keeps_put_user [OF assms mfa_users_identity(3) mfa_users_ok(3)])

lemma regenerate_keeps:
  assumes "regenerate_recovery_codes e uid password code tb = (r, tb')"
  shows "account_keeps tb tb'"
proof -
  have "account_keeps tb (revoke_sessions u' now (reason) (put_user (counted_user e c user) tb1))"
    if "lock_user uid tb = Inr user" "replace_recovery_codes e u tb = (codes, Some tb1)"
    for user u codes tb1 c u' now reason
    unfolding revoke_sessions_def
    using lock_user_Inr [OF that(1)] replace_codes [OF that(2)]
    by (intro account_keeps_trans [OF replace_codes(1) [OF that(2)] account_keeps_trans [OF keeps_put_counted
          keeps_revoke_where]]) simp
  then show ?thesis
    using assms unfolding regenerate_recovery_codes_def
    by (auto dest!: committed_cases split: sum.splits if_splits option.splits prod.splits)
qed

lemma disable_keeps:
  assumes "disable_mfa e uid password code tb = (r, tb')"
  shows "account_keeps tb tb'"
proof -
  have *: "account_keeps tb (revoke_sessions u now reason (delete_recovery_codes u' (put_user (plain_user e user) tb1)))"
    if "lock_user uid tb = Inr user" "account_keeps tb tb1" "users tb1 = users tb"
    for user tb1 u u' now reason
    unfolding revoke_sessions_def using lock_user_Inr [OF that(1)] that(3) mfa_users_ok(4)
    by (intro account_keeps_trans [OF that(2) account_keeps_trans [OF keeps_put_user account_keeps_trans [OF
          keeps_delete_recovery keeps_revoke_where]]]) auto
  show ?thesis
    using assms unfolding disable_mfa_def
    by (auto dest!: committed_cases dest: consume_code(1,2) intro: *
        split: sum.splits if_splits option.splits prod.splits)
qed

lemma slot_mfa:
  assumes "p \<in> set mfa_purposes" and "slot q = slot p"
  shows "q \<in> set mfa_purposes"
proof -
  have "slot p = MFA_LOGIN_PURPOSE" using assms(1) by (auto simp: mfa_purposes_def slot_def)
  then show ?thesis using assms(2) by (auto simp: mfa_purposes_def slot_def split: if_splits)
qed

lemma challenge_keeps:
  assumes "prepare_mfa_login_challenge e user device m tb = (r, tb')"
  shows "account_keeps tb tb'"
proof -
  have "account_keeps tb tb2"
    if "insert_action_token (action_row e (u_id user) p device mins)
      (consume_where (\<lambda>t. at_user_id t = u_id user \<and> at_purpose t \<in> set mfa_purposes) now tb) = Some tb2"
      and "p \<in> set mfa_purposes" for p mins tb2 now
    by (rule keeps_consume_insert [OF that(1)])
      (use slot_mfa [OF that(2)] in simp_all)
  then show ?thesis
    using assms unfolding prepare_mfa_login_challenge_def Let_def
    by (auto simp: mfa_purposes_def split: sum.splits if_splits option.splits)
qed

lemma issue_challenge_keeps:
  "issue_mfa_login_challenge e user device tb = (r, tb') \<Longrightarrow> account_keeps tb tb'"
  unfolding issue_mfa_login_challenge_def
  by (auto dest!: committed_cases intro: challenge_keeps)

text \<open>Sessions: the new family identifier must be unused.\<close>

definition family_fresh :: "account_env \<Rightarrow> tables \<Rightarrow> bool" where
  "family_fresh e tb = (ae_new_family (ac_auth e) \<notin> rt_family_id ` set (refresh_tokens tb))"

lemma families_revoke [simp]:
  "rt_family_id ` set (refresh_tokens (revoke_where P reason now tb)) =
     rt_family_id ` set (refresh_tokens tb)"
proof -
  have "map rt_family_id (refresh_tokens (revoke_where P reason now tb)) =
      map rt_family_id (refresh_tokens tb)"
    unfolding revoke_where_rows by simp
  then show ?thesis by (metis set_map)
qed

lemma issue_session_keeps:
  assumes "prepare_session_tokens (ac_auth e) uid device ms tb = (r, tb')" and "family_fresh e tb"
  shows "account_keeps tb tb'"
  using issue_cases [OF assms(1)] assms(2)
  by (auto simp: family_fresh_def intro: keeps_insert_token)

lemma accept_factor_keeps:
  assumes "accept_factor e user code tb = Inr (m, tb1)" and "user \<in> set (users tb)"
  shows "account_keeps tb tb1" and "action_tokens tb1 = action_tokens tb"
    and "rt_family_id ` set (refresh_tokens tb1) = rt_family_id ` set (refresh_tokens tb)"
proof -
  consider (otp) c where "tb1 = put_user (counted_user e c user) tb"
    | (recovery) tb0 where "consume_recovery_code e (u_id user) code (ac_now e) tb = (True, tb0)"
        "tb1 = revoke_sessions (u_id user) (ac_now e) ''mfa_recovery_used'' tb0"
    using assms(1) unfolding accept_factor_def
    by (auto split: sum.splits option.splits prod.splits bool.splits)
  then have "account_keeps tb tb1 \<and> action_tokens tb1 = action_tokens tb \<and>
    rt_family_id ` set (refresh_tokens tb1) = rt_family_id ` set (refresh_tokens tb)"
  proof cases
    case otp
    then show ?thesis using keeps_put_counted [OF assms(2)] by simp
  next
    case recovery
    then show ?thesis
      using consume_code [OF recovery(1)] account_keeps_trans [OF _ keeps_revoke_where]
      by (simp add: revoke_sessions_def)
  qed
  then show "account_keeps tb tb1" "action_tokens tb1 = action_tokens tb"
    "rt_family_id ` set (refresh_tokens tb1) = rt_family_id ` set (refresh_tokens tb)" by blast+
qed

lemma verify_cases:
  assumes "verify_mfa_login_challenge e token code tb = (r, tb')"
  obtains (failed) err where "r = Inl err" and "tb' = tb"
  | (passed) challenge user m tb1 pair where "find_action_token e mfa_purposes token tb = Some challenge"
    and "usable e challenge" and "lock_user (at_user_id challenge) tb = Inr user"
    and "u_mfa_enabled_at user \<noteq> None" and "accept_factor e user code tb = Inr (m, tb1)"
    and "prepare_session_tokens (ac_auth e) (u_id user) (at_target challenge)
      [primary_method_of challenge, m] (put_action (consume_with (ac_now e) challenge) tb1) = (Inr pair, tb')"
    and "r = Inr pair" and "\<not> ae_fault (ac_auth e)"
proof (cases r)
  case (Inl err)
  have "tb' = tb"
    using assms Inl unfolding verify_mfa_login_challenge_def
    by (auto dest: committed_Inl split: sum.splits if_splits option.splits prod.splits)
  then show thesis using failed Inl by blast
next
  case (Inr pair)
  show thesis
    using assms Inr unfolding verify_mfa_login_challenge_def
    by (auto simp: committed_Inr split: sum.splits if_splits option.splits prod.splits intro: passed)
qed

lemma verify_keeps:
  assumes "verify_mfa_login_challenge e token code tb = (r, tb')" and "family_fresh e tb"
  shows "account_keeps tb tb'"
  using assms(1)
proof (cases rule: verify_cases)
  case (passed challenge user m tb1 pair)
  have ch: "challenge \<in> set (action_tokens tb)" "at_consumed_at challenge = None"
    using find_action_token_Some [OF passed(1)] passed(2) by (auto simp: usable_def)
  note acc = accept_factor_keeps [OF passed(5)] lock_user_Inr [OF passed(3)]
  have "account_keeps tb (put_action (consume_with (ac_now e) challenge) tb1)"
    using acc ch by (intro account_keeps_trans [OF acc(1) keeps_put_action]) auto
  moreover have "family_fresh e (put_action (consume_with (ac_now e) challenge) tb1)"
    using assms(2) acc by (simp add: family_fresh_def)
  ultimately show ?thesis using issue_session_keeps [OF passed(6)] account_keeps_trans by blast
qed simp

end
