(* ===== verification/Accounts.thy ===== *)
theory Accounts
  imports Mfa
begin

text \<open>
  Authentication and the account endpoints: \<^verbatim>\<open>src/app/auth/\<close> (\<open>login\<close>, \<open>register\<close>,
  \<open>verify\<close>, \<open>decode_token\<close>, \<open>current_user\<close>, \<open>permissions\<close>, \<open>recent_auth\<close>, \<open>mfa\<close>) and
  \<^verbatim>\<open>src/app/api/v1/\<close> (\<open>auth\<close>, \<open>sessions\<close>, \<open>mfa\<close>, \<open>email_verification\<close>,
  \<open>password_reset\<close>, \<open>admin\<close>). \<open>run_account\<close> dispatches a request; the theorems are about runs
  of requests of all kinds in any order.
\<close>

section \<open>Access tokens\<close>

definition verify_token :: "account_env \<Rightarrow> string \<Rightarrow> jwt_payload result" where
  "verify_token e token =
     (case ac_decode e token of
        None \<Rightarrow> Inl (unauthorized ''Invalid token'') | Some payload \<Rightarrow> Inr payload)"

definition decode_token :: "account_env \<Rightarrow> string \<Rightarrow> jwt_payload result" where
  "decode_token e token =
     (case verify_token e token of
        Inl err \<Rightarrow> Inl err
      | Inr payload \<Rightarrow>
          if jp_sub payload = None then Inl (unauthorized ''Invalid token'') else Inr payload)"

definition get_current_user :: "account_env \<Rightarrow> string \<Rightarrow> tables \<Rightarrow> user result" where
  "get_current_user e token tb =
     (case decode_token e token of
        Inl err \<Rightarrow> Inl err
      | Inr payload \<Rightarrow>
          if jp_sub payload = None \<or> jp_sub payload = Some []
          then Inl (unauthorized ''Invalid token'')
          else (case find (\<lambda>u. jp_sub payload = Some (u_username u)) (users tb) of
              None \<Rightarrow> Inl (unauthorized ''User not found'')
            | Some user \<Rightarrow>
                if \<not> u_is_active user then Inl (unauthorized ''Inactive user'') else Inr user))"

definition require_admin :: "user \<Rightarrow> user result" where
  "require_admin user =
     (if u_role user \<noteq> ''admin'' then Inl (HTTPException 403 ''Admin access required'') else Inr user)"

definition stale :: "datetime \<Rightarrow> int \<Rightarrow> int \<Rightarrow> bool" where
  "stale now auth_time max_age_minutes =
     (let authenticated_at = seconds auth_time in
      authenticated_at > now + seconds 30 \<or> now - authenticated_at > minutes max_age_minutes)"

definition require_recent_authentication :: "account_env \<Rightarrow> string \<Rightarrow> jwt_payload result" where
  "require_recent_authentication e token =
     (case decode_token e token of
        Inl err \<Rightarrow> Inl err
      | Inr payload \<Rightarrow>
          (case jp_auth_time payload of
             None \<Rightarrow> Inl (HTTPException 403 ''Recent authentication required'')
           | Some auth_time \<Rightarrow>
               if \<not> (''pwd'' \<in> set (jp_amr payload) \<or> ''oidc'' \<in> set (jp_amr payload)) \<or>
                  stale (ac_now e) auth_time (ac_recent_auth_minutes e)
               then Inl (HTTPException 403 ''Recent authentication required'')
               else Inr payload))"

definition require_recent_mfa :: "account_env \<Rightarrow> string \<Rightarrow> jwt_payload result" where
  "require_recent_mfa e token =
     (case decode_token e token of
        Inl err \<Rightarrow> Inl err
      | Inr payload \<Rightarrow>
          (case jp_auth_time payload of
             None \<Rightarrow> Inl (HTTPException 403 ''Recent MFA authentication required'')
           | Some auth_time \<Rightarrow>
               if ''otp'' \<notin> set (jp_amr payload) \<or>
                  \<not> (''pwd'' \<in> set (jp_amr payload) \<or> ''oidc'' \<in> set (jp_amr payload)) \<or>
                  stale (ac_now e) auth_time (ac_step_up_minutes e)
               then Inl (HTTPException 403 ''Recent MFA authentication required'')
               else Inr payload))"

section \<open>Login and registration\<close>

datatype login_reply = LoginTokens token_pair | LoginChallenge mfa_challenge

definition INVALID_LOGIN :: error where
  "INVALID_LOGIN = HTTPException 401 ''Invalid username or password''"

definition get_device_name :: "account_env \<Rightarrow> string option \<Rightarrow> string option \<Rightarrow> string" where
  "get_device_name e device_header user_agent =
     normalize_device_name (ac_printable e) device_header user_agent"

definition login ::
    "account_env \<Rightarrow> string \<Rightarrow> string \<Rightarrow> string \<Rightarrow> tables \<Rightarrow> login_reply result \<times> tables" where
  "login e username password device tb =
     (case find (\<lambda>u. u_username u = username) (users tb) of
        None \<Rightarrow> (Inl INVALID_LOGIN, tb)
      | Some user \<Rightarrow>
          if \<not> u_is_active user then (Inl INVALID_LOGIN, tb)
          else if \<not> u_password_login_enabled user \<or> \<not> verify_password e password (u_password user)
          then (Inl INVALID_LOGIN, tb)
          else if u_mfa_enabled_at user \<noteq> None then
            (case issue_mfa_login_challenge e user device tb of
               (Inl err, tb') \<Rightarrow> (Inl err, tb')
             | (Inr challenge, tb') \<Rightarrow> (Inr (LoginChallenge challenge), tb'))
          else
            (case committed e tb
                   (prepare_session_tokens (ac_auth e) (u_id user) device [''pwd''] tb) of
               (Inl err, tb') \<Rightarrow> (Inl err, tb')
             | (Inr tokens, tb') \<Rightarrow> (Inr (LoginTokens tokens), tb')))"

definition registered_user :: "account_env \<Rightarrow> user_create \<Rightarrow> user" where
  "registered_user e d =
     \<lparr>u_id = ac_new_id e, u_username = uc_username d,
      u_password = hash_password e (uc_password d), u_password_login_enabled = True,
      u_role = ''user'', u_email = uc_email d, u_email_verified_at = None,
      u_mfa_secret_encrypted = None, u_mfa_enrollment_created_at = None,
      u_mfa_enabled_at = None, u_mfa_last_counter = None, u_is_active = True,
      u_created_at = ac_created_at e, u_updated_at = ac_updated_at e\<rparr>"

definition register :: "account_env \<Rightarrow> user_create \<Rightarrow> tables \<Rightarrow> user result \<times> tables" where
  "register e body tb =
     (case validate_user_create (ac_email e) body of
        Inl err \<Rightarrow> (Inl err, tb)
      | Inr d \<Rightarrow>
          (let db_user = registered_user e d in
           case insert_user db_user tb of
             None \<Rightarrow> (Inl (HTTPException 409 ''Username or email is already registered''), tb)
           | Some tb' \<Rightarrow> committed e tb (Inr db_user, tb')))"

section \<open>Administration\<close>

definition USER_NOT_FOUND :: error where
  "USER_NOT_FOUND = HTTPException 404 ''User not found''"

definition admin_get_user :: "int \<Rightarrow> tables \<Rightarrow> user result" where
  "admin_get_user uid tb =
     (case find_user uid tb of None \<Rightarrow> Inl USER_NOT_FOUND | Some user \<Rightarrow> Inr user)"

definition role_user :: "account_env \<Rightarrow> string \<Rightarrow> user \<Rightarrow> user" where
  "role_user e role u =
     (if role = u_role u then u else u\<lparr>u_role := role, u_updated_at := ac_updated_at e\<rparr>)"

definition update_user_role ::
    "account_env \<Rightarrow> int \<Rightarrow> string \<Rightarrow> tables \<Rightarrow> user result \<times> tables" where
  "update_user_role e uid role tb =
     (case admin_get_user uid tb of
        Inl err \<Rightarrow> (Inl err, tb)
      | Inr user \<Rightarrow> committed e tb (Inr (role_user e role user), put_user (role_user e role user) tb))"

definition status_user :: "account_env \<Rightarrow> bool \<Rightarrow> user \<Rightarrow> user" where
  "status_user e active u =
     (if active = u_is_active u then u
      else u\<lparr>u_is_active := active, u_updated_at := ac_updated_at e\<rparr>)"

definition update_user_status ::
    "account_env \<Rightarrow> int \<Rightarrow> bool \<Rightarrow> tables \<Rightarrow> user result \<times> tables" where
  "update_user_status e uid active tb =
     (case admin_get_user uid tb of
        Inl err \<Rightarrow> (Inl err, tb)
      | Inr user \<Rightarrow>
          (let user' = status_user e active user; tb1 = put_user user' tb in
           if active then committed e tb (Inr user', tb1)
           else (case revoke_all_user_sessions (ac_auth e) (u_id user) ''account_disabled'' tb1 of
               (Inl err, _) \<Rightarrow> (Inl err, tb)
             | (Inr _, tb2) \<Rightarrow> (Inr user', tb2))))"

text \<open>
  \<open>DELETE FROM users\<close>: refresh tokens refer to the user without a cascade, and the cascade over
  the companies meets the restricting reference of the jobs; action tokens, recovery codes and
  companies without jobs are deleted with the user.
\<close>

definition delete_user_row :: "int \<Rightarrow> tables \<Rightarrow> tables option" where
  "delete_user_row uid tb =
     (if (\<exists>t\<in>set (refresh_tokens tb). rt_user_id t = uid) \<or>
         (\<exists>j\<in>set (jobs tb). j_owner_id j = uid) then None
      else Some (tb\<lparr>users := del_row u_id uid (users tb),
                    companies := filter (\<lambda>c. c_owner_id c \<noteq> uid) (companies tb),
                    action_tokens := filter (\<lambda>t. at_user_id t \<noteq> uid) (action_tokens tb),
                    recovery_codes := filter (\<lambda>r. rc_user_id r \<noteq> uid) (recovery_codes tb)\<rparr>))"

definition delete_user :: "account_env \<Rightarrow> int \<Rightarrow> tables \<Rightarrow> string result \<times> tables" where
  "delete_user e uid tb =
     (case admin_get_user uid tb of
        Inl err \<Rightarrow> (Inl err, tb)
      | Inr user \<Rightarrow>
          (case delete_user_row (u_id user) tb of
             None \<Rightarrow> (Inl IntegrityError, tb)
           | Some tb' \<Rightarrow> committed e tb (Inr ''User deleted successfully'', tb')))"

section \<open>Requests\<close>

datatype account_reply =
    TokenReply token_pair
  | LoginReply login_reply
  | MessageReply string
  | UserReply user
  | UsersReply "user list"
  | SessionsReply "device_session list"
  | StatusReply mfa_status
  | EnrollmentReply mfa_enrollment
  | CodesReply "string list"

datatype public_request =
    Register user_create
  | Login string string "string option" "string option"
  | Refresh string
  | Logout string
  | RequestVerification string
  | ConfirmVerification string
  | RequestReset string
  | ConfirmReset string string
  | VerifyChallenge string string

datatype member_request =
    GetMe
  | GetSessions
  | RevokeSession string
  | RevokeAllSessions
  | MfaStatus
  | EnrollTotp string
  | ConfirmTotp string
  | RegenerateCodes string string
  | DisableMfa string string

datatype admin_request =
    AdminTest
  | ListUsers
  | GetUser int
  | UpdateRole int string
  | UpdateStatus int bool
  | DeleteUser int

datatype account_request =
    Public public_request
  | Member string member_request    \<comment> \<open>with the bearer token\<close>
  | Admin string admin_request

definition reply_as :: "('a \<Rightarrow> 'b) \<Rightarrow> 'a result \<times> tables \<Rightarrow> 'b result \<times> tables" where
  "reply_as f r = (case r of (Inl err, tb) \<Rightarrow> (Inl err, tb) | (Inr v, tb) \<Rightarrow> (Inr (f v), tb))"

definition without_mail :: "'a result \<times> mail list \<times> tables \<Rightarrow> 'a result \<times> tables" where
  "without_mail r = (fst r, snd (snd r))"

definition checked :: "bool \<Rightarrow> (tables \<Rightarrow> 'a result \<times> tables) \<Rightarrow> tables \<Rightarrow> 'a result \<times> tables" where
  "checked ok run tb = (if ok then run tb else (Inl RequestValidationError, tb))"

fun public_route ::
    "account_env \<Rightarrow> public_request \<Rightarrow> tables \<Rightarrow> account_reply result \<times> tables" where
  "public_route e (Register body) tb = reply_as UserReply (register e body tb)"
| "public_route e (Login username password device user_agent) tb =
     reply_as LoginReply (login e username password (get_device_name e device user_agent) tb)"
| "public_route e (Refresh token) tb =
     reply_as TokenReply (refresh_access_token (ac_auth e) token tb)"
| "public_route e (Logout token) tb =
     reply_as (\<lambda>_. MessageReply ''Logged out successfully'') (revoke_refresh_token (ac_auth e) token tb)"
| "public_route e (RequestVerification raw) tb =
     reply_as MessageReply (without_mail (request_email_verification (ac_email e) e raw tb))"
| "public_route e (ConfirmVerification token) tb =
     reply_as MessageReply (confirm_verification e token tb)"
| "public_route e (RequestReset raw) tb =
     reply_as MessageReply (without_mail (request_password_reset (ac_email e) e raw tb))"
| "public_route e (ConfirmReset token new_password) tb =
     reply_as MessageReply (confirm_reset (ac_utf8_length e) e token new_password tb)"
| "public_route e (VerifyChallenge token code) tb =
     reply_as TokenReply (checked (mfa_challenge_token_ok token \<and> mfa_code_ok code)
       (verify_mfa_login_challenge e token code) tb)"

fun member_route ::
    "account_env \<Rightarrow> user \<Rightarrow> member_request \<Rightarrow> tables \<Rightarrow> account_reply result \<times> tables" where
  "member_route e user GetMe tb = (Inr (UserReply user), tb)"
| "member_route e user GetSessions tb =
     (Inr (SessionsReply (list_active_sessions (ac_auth e) (u_id user) tb)), tb)"
| "member_route e user (RevokeSession session_id) tb =
     reply_as (\<lambda>_. MessageReply ''Session revoked'')
       (revoke_session_family (ac_auth e) (u_id user) session_id tb)"
| "member_route e user RevokeAllSessions tb =
     reply_as (\<lambda>_. MessageReply ''All sessions revoked'')
       (revoke_all_user_sessions (ac_auth e) (u_id user) ''user_revoked'' tb)"
| "member_route e user MfaStatus tb = (Inr (StatusReply (get_mfa_status (u_id user) tb)), tb)"
| "member_route e user (EnrollTotp password) tb =
     reply_as EnrollmentReply (checked (mfa_password_ok password)
       (begin_totp_enrollment e (u_id user) password) tb)"
| "member_route e user (ConfirmTotp code) tb =
     reply_as CodesReply (checked (mfa_code_ok code) (confirm_totp_enrollment e (u_id user) code) tb)"
| "member_route e user (RegenerateCodes password code) tb =
     reply_as CodesReply (checked (mfa_password_ok password \<and> mfa_code_ok code)
       (regenerate_recovery_codes e (u_id user) password code) tb)"
| "member_route e user (DisableMfa password code) tb =
     reply_as (\<lambda>_. MessageReply ''MFA disabled'') (checked (mfa_password_ok password \<and> mfa_code_ok code)
       (disable_mfa e (u_id user) password code) tb)"

fun admin_route ::
    "account_env \<Rightarrow> user \<Rightarrow> admin_request \<Rightarrow> tables \<Rightarrow> account_reply result \<times> tables" where
  "admin_route e user AdminTest tb = (Inr (MessageReply ''Welcome admin''), tb)"
| "admin_route e user ListUsers tb = (Inr (UsersReply (users tb)), tb)"
| "admin_route e user (GetUser uid) tb = reply_as UserReply (admin_get_user uid tb, tb)"
| "admin_route e user (UpdateRole uid role) tb = reply_as UserReply (update_user_role e uid role tb)"
| "admin_route e user (UpdateStatus uid active) tb =
     reply_as UserReply (update_user_status e uid active tb)"
| "admin_route e user (DeleteUser uid) tb = reply_as MessageReply (delete_user e uid tb)"

fun run_account ::
    "account_env \<Rightarrow> account_request \<Rightarrow> tables \<Rightarrow> account_reply result \<times> tables" where
  "run_account e (Public q) tb = public_route e q tb"
| "run_account e (Member token q) tb =
     (case get_current_user e token tb of
        Inl err \<Rightarrow> (Inl err, tb) | Inr user \<Rightarrow> member_route e user q tb)"
| "run_account e (Admin token q) tb =
     (case get_current_user e token tb of
        Inl err \<Rightarrow> (Inl err, tb)
      | Inr user \<Rightarrow> (case require_admin user of
            Inl err \<Rightarrow> (Inl err, tb) | Inr admin \<Rightarrow> admin_route e admin q tb))"

section \<open>The interface of an account operation\<close>

text \<open>
  Every operation but the deletion of a user promises the contract of \<open>AccountState\<close>, given that
  a new session family is not in use. What follows for its callers is proved here once.
\<close>

locale account_operation =
  fixes run :: "account_env \<Rightarrow> tables \<Rightarrow> 'a result \<times> tables"
  assumes keeps: "run e tb = (r, tb') \<Longrightarrow> family_fresh e tb \<Longrightarrow> account_keeps tb tb'"
begin

lemma keeps_ok: "run e tb = (r, tb') \<Longrightarrow> family_fresh e tb \<Longrightarrow> account_ok tb \<Longrightarrow> account_ok tb'"
  using keeps keeps_D(1) by blast

lemma keeps_business: "run e tb = (r, tb') \<Longrightarrow> family_fresh e tb \<Longrightarrow> business_part tb' = business_part tb"
  using keeps by (auto simp: account_keeps_def)

end

lemma reply_as_snd: "reply_as f r = (q, tb') \<Longrightarrow> \<exists>v. r = (v, tb')"
  by (auto simp: reply_as_def split: prod.splits sum.splits)

lemma reply_operation:
  assumes "account_operation run"
  shows "account_operation (\<lambda>e tb. reply_as f (run e tb))"
  using assms by unfold_locales (auto dest!: reply_as_snd dest: account_operation.keeps)

lemma checked_operation:
  assumes "account_operation run"
  shows "account_operation (\<lambda>e. checked ok (run e))"
  using assms by unfold_locales (auto simp: checked_def dest: account_operation.keeps split: if_splits)

lemma read_operation: "account_operation (\<lambda>e tb. (f e tb, tb))"
  by unfold_locales simp

interpretation verify: account_operation "\<lambda>e. verify_mfa_login_challenge e token code" for token code
  by unfold_locales (rule verify_keeps)

interpretation enroll: account_operation "\<lambda>e. begin_totp_enrollment e uid password" for uid password
  by unfold_locales (rule begin_keeps)

interpretation confirm_totp: account_operation "\<lambda>e. confirm_totp_enrollment e uid code" for uid code
  by unfold_locales (rule confirm_totp_keeps)

interpretation regenerate: account_operation "\<lambda>e. regenerate_recovery_codes e uid password code"
  for uid password code
  by unfold_locales (rule regenerate_keeps)

interpretation disable: account_operation "\<lambda>e. disable_mfa e uid password code" for uid password code
  by unfold_locales (rule disable_keeps)

interpretation login: account_operation "\<lambda>e. login e username password (device e)"
  for username password and device :: "account_env \<Rightarrow> string"
proof
  fix e tb r tb'
  assume run: "login e username password (device e) tb = (r, tb')" and fresh: "family_fresh e tb"
  have "account_keeps tb mid" if "committed e tb
      (prepare_session_tokens (ac_auth e) uid (device e) ms tb) = (v, mid)" for uid ms v mid
    using committed_cases [OF that] issue_session_keeps fresh by auto
  then show "account_keeps tb tb'"
    using run unfolding login_def
    by (auto dest: issue_challenge_keeps split: option.splits if_splits prod.splits sum.splits)
qed

interpretation register: account_operation "\<lambda>e. register e body" for body
proof
  fix e tb r tb'
  have "user_mfa_ok (registered_user e d)" for d
    by (simp add: user_mfa_ok_def registered_user_def)
  then show "register e body tb = (r, tb') \<Longrightarrow> account_keeps tb tb'"
    unfolding register_def
    by (auto simp: Let_def dest!: committed_cases intro: keeps_insert_user split: option.splits sum.splits)
qed

lemma role_status_user [simp]:
  "same_identity (role_user e role u) u" "same_identity (status_user e active u) u"
  "user_mfa_ok (role_user e role u) \<longleftrightarrow> user_mfa_ok u"
  "user_mfa_ok (status_user e active u) \<longleftrightarrow> user_mfa_ok u"
  by (simp_all add: role_user_def status_user_def same_identity_def user_mfa_ok_def)

lemma admin_get_user_Inr: "admin_get_user uid tb = Inr u \<Longrightarrow> u \<in> set (users tb) \<and> u_id u = uid"
  unfolding admin_get_user_def using find_user_Some by (auto split: option.splits)

interpretation update_role: account_operation "\<lambda>e. update_user_role e uid role" for uid role
proof
  fix e tb r tb'
  show "update_user_role e uid role tb = (r, tb') \<Longrightarrow> account_keeps tb tb'"
    unfolding update_user_role_def
    by (auto dest!: committed_cases dest: admin_get_user_Inr intro!: keeps_put_user split: sum.splits)
qed

lemma revoke_user_keeps:
  "revoke_user_sessions ae uid family reason tb = (r, tb') \<Longrightarrow> account_keeps tb tb'"
  using revoke_user_cases keeps_revoke_where account_keeps_refl by metis

interpretation update_status: account_operation "\<lambda>e. update_user_status e uid active" for uid active
proof
  fix e tb r tb'
  have put: "account_keeps tb (put_user (status_user e active u) tb)"
    if "admin_get_user uid tb = Inr u" for u
    using admin_get_user_Inr [OF that] by (intro keeps_put_user [of u]) auto
  moreover have "account_keeps tb mid"
    if "admin_get_user uid tb = Inr u" and "revoke_all_user_sessions (ac_auth e) x reason
      (put_user (status_user e active u) tb) = (v, mid)" for u x reason v mid
    using account_keeps_trans [OF put [OF that(1)] revoke_user_keeps] that(2)
    unfolding revoke_all_user_sessions_def by blast
  ultimately show "update_user_status e uid active tb = (r, tb') \<Longrightarrow> account_keeps tb tb'"
    unfolding update_user_status_def Let_def
    by (auto dest!: committed_cases split: sum.splits if_splits prod.splits)
qed

interpretation refresh: account_operation "\<lambda>e. refresh_access_token (ac_auth e) token" for token
proof
  fix e tb r tb'
  let ?ae = "ac_auth e"
  assume run: "refresh_access_token ?ae token tb = (r, tb')"
  show "account_keeps tb tb'"
  proof (cases r)
    case (Inr pair)
    obtain stored and user :: user where st: "find_refresh_token ?ae token tb = Some stored"
      and ins: "insert_refresh_token (session_row ?ae (u_id user) (rt_family_id stored) (rt_device_name stored))
        (tb\<lparr>refresh_tokens := put_row rt_id (rotate_row (ae_now ?ae) stored) (refresh_tokens tb)\<rparr>) = Some tb'"
      using run Inr by (auto elim!: refresh_Inr)
    let ?rot = "tb\<lparr>refresh_tokens := put_row rt_id (rotate_row (ae_now ?ae) stored) (refresh_tokens tb)\<rparr>"
    have stored: "stored \<in> set (refresh_tokens tb)" using find_refresh_token_Some [OF st] by simp
    show ?thesis
    proof (rule keeps_tokens)
      show "business_part tb' = business_part tb" "users tb' = users tb" "action_tokens tb' = action_tokens tb"
        using insert_refresh_token_Some [OF ins] by (simp_all add: business_part_def)
      assume ok: "account_ok tb"
      note db = account_okD(1) [OF ok]
      have "agrees_with rt_id refresh_token_agree (rotate_row (ae_now ?ae) stored) (refresh_tokens tb)"
        using pairwise_okD [OF db_ok_keys(2) [OF db] stored]
        by (simp add: agrees_with_def refresh_token_agree_def)
      then have "pairwise_ok rt_id refresh_token_agree
          (put_row rt_id (rotate_row (ae_now ?ae) stored) (refresh_tokens tb))"
        by (rule refresh_table.put_ok [OF db_ok_keys(2) [OF db]])
      then have "db_ok ?rot"
        by (rule db_ok_refresh_tokens [OF db])
          (use db_ok_refs(1) [OF db] stored in \<open>auto dest!: set_put_row\<close>)
      then show "db_ok tb' \<and> session_ok tb' \<and> tokens_evolve tb tb'"
        using db_ok_insert_token [OF ins] refresh_ok [OF run] refresh_evolves [OF run] account_okD(2) [OF ok]
        by blast
    qed
  next
    case (Inl err)
    then have "tb' = tb \<or> (\<exists>P reason now. tb' = revoke_where P reason now tb)"
      using run unfolding refresh_access_token_def revoke_all_user_sessions_def revoke_family_def
        revoke_user_sessions_def committing_def
      by (auto simp: Let_def split: option.splits if_splits)
    then show ?thesis using keeps_revoke_where account_keeps_refl by metis
  qed
qed

interpretation logout: account_operation "\<lambda>e. revoke_refresh_token (ac_auth e) token" for token
  by unfold_locales (use logout_cases keeps_revoke_where account_keeps_refl in metis)

interpretation revoke_one: account_operation "\<lambda>e. revoke_session_family (ac_auth e) uid family" for uid family
  by unfold_locales (simp add: revoke_session_family_def revoke_user_keeps)

interpretation revoke_all: account_operation "\<lambda>e. revoke_all_user_sessions (ac_auth e) uid reason"
  for uid reason
  by unfold_locales (simp add: revoke_all_user_sessions_def revoke_user_keeps)

lemma request_link_snd:
  "without_mail (request_link e accepted url subject issue tb) = (r, tb')
    \<Longrightarrow> tb' = tb \<or> (\<exists>v. issue tb = (v, tb'))"
  by (auto simp: without_mail_def request_link_def split: if_splits prod.splits sum.splits option.splits)

interpretation ask_verification: account_operation
    "\<lambda>e tb. without_mail (request_email_verification (ac_email e) e raw tb)" for raw
proof
  fix e tb r tb'
  show "without_mail (request_email_verification (ac_email e) e raw tb) = (r, tb') \<Longrightarrow> account_keeps tb tb'"
    unfolding request_email_verification_def
    by (auto dest!: request_link_snd dest: issue_verification_keeps split: sum.splits)
      (simp add: without_mail_def)
qed

interpretation ask_reset: account_operation
    "\<lambda>e tb. without_mail (request_password_reset (ac_email e) e raw tb)" for raw
proof
  fix e tb r tb'
  show "without_mail (request_password_reset (ac_email e) e raw tb) = (r, tb') \<Longrightarrow> account_keeps tb tb'"
    unfolding request_password_reset_def
    by (auto dest!: request_link_snd dest: issue_reset_keeps split: sum.splits)
      (simp add: without_mail_def)
qed

interpretation confirm_link: account_operation "\<lambda>e. confirm_verification e token" for token
  by unfold_locales (auto simp: confirm_verification_def dest: confirm_verification_keeps
      split: sum.splits prod.splits)

interpretation confirm_reset: account_operation
    "\<lambda>e. confirm_reset (ac_utf8_length e) e token new_password" for token new_password
  by unfold_locales (auto simp: confirm_reset_def dest: confirm_reset_keeps split: sum.splits prod.splits)

section \<open>Every request\<close>

lemmas reply_keeps = reply_operation [THEN account_operation.keeps]
lemmas checked_reply_keeps = reply_operation [OF checked_operation, THEN account_operation.keeps]

interpretation public_route: account_operation "\<lambda>e. public_route e q" for q
proof
  fix e tb r tb'
  assume run: "public_route e q tb = (r, tb')" and fresh: "family_fresh e tb"
  then show "account_keeps tb tb'"
    by (cases q) (auto elim!:
        reply_keeps [OF register.account_operation_axioms]
        reply_keeps [OF login.account_operation_axioms [where device = "\<lambda>e. get_device_name e a b" for a b]]
        reply_keeps [OF refresh.account_operation_axioms]
        reply_keeps [OF logout.account_operation_axioms]
        reply_keeps [OF ask_verification.account_operation_axioms]
        reply_keeps [OF confirm_link.account_operation_axioms]
        reply_keeps [OF ask_reset.account_operation_axioms]
        reply_keeps [OF confirm_reset.account_operation_axioms]
        checked_reply_keeps [OF verify.account_operation_axioms])
qed

interpretation member_route: account_operation "\<lambda>e. member_route e user q" for user q
proof
  fix e tb r tb'
  assume run: "member_route e user q tb = (r, tb')" and fresh: "family_fresh e tb"
  then show "account_keeps tb tb'"
    by (cases q) (auto elim!:
        reply_keeps [OF revoke_one.account_operation_axioms]
        reply_keeps [OF revoke_all.account_operation_axioms]
        checked_reply_keeps [OF enroll.account_operation_axioms]
        checked_reply_keeps [OF confirm_totp.account_operation_axioms]
        checked_reply_keeps [OF regenerate.account_operation_axioms]
        checked_reply_keeps [OF disable.account_operation_axioms])
qed

fun deletes_user :: "account_request \<Rightarrow> bool" where
  "deletes_user (Admin token (DeleteUser uid)) = True"
| "deletes_user q = False"

lemma admin_route_keeps:
  assumes "admin_route e user q tb = (r, tb')" and "\<not> deletes_user (Admin token q)" and "family_fresh e tb"
  shows "account_keeps tb tb'"
  using assms by (cases q) (auto dest!: reply_as_snd elim!:
        reply_keeps [OF update_role.account_operation_axioms]
        reply_keeps [OF update_status.account_operation_axioms])

lemma run_account_keeps:
  assumes "run_account e q tb = (r, tb')" and "\<not> deletes_user q" and "family_fresh e tb"
  shows "account_keeps tb tb'"
  using assms
  by (cases q) (auto elim: public_route.keeps member_route.keeps admin_route_keeps
      split: sum.splits)

section \<open>Deleting a user\<close>

lemma delete_user_row_Some:
  assumes "delete_user_row uid tb = Some tb'"
  shows "tb' = tb\<lparr>users := del_row u_id uid (users tb),
      companies := filter (\<lambda>c. c_owner_id c \<noteq> uid) (companies tb),
      action_tokens := filter (\<lambda>t. at_user_id t \<noteq> uid) (action_tokens tb),
      recovery_codes := filter (\<lambda>r. rc_user_id r \<noteq> uid) (recovery_codes tb)\<rparr>"
    and "t \<in> set (refresh_tokens tb) \<Longrightarrow> rt_user_id t \<noteq> uid"
    and "j \<in> set (jobs tb) \<Longrightarrow> j_owner_id j \<noteq> uid"
  using assms by (auto simp: delete_user_row_def split: if_splits)

lemma db_ok_delete_user:
  assumes "delete_user_row uid tb = Some tb'" and "db_ok tb"
  shows "db_ok tb'"
proof -
  note del = delete_user_row_Some [OF assms(1)]
  note refs = db_okD(3) [OF assms(2), unfolded refs_ok_def]
  have user: "user_exists tb' x" if "user_exists tb x" "x \<noteq> uid" for x
    using that unfolding del(1) by (auto simp: user_exists_def)
  have company: "company_exists tb' x c" if "company_exists tb x c" "x \<noteq> uid" for x c
    using that unfolding del(1) by (auto simp: company_exists_def)
  have app: "a_owner_id a \<noteq> uid" if "a \<in> set (applications tb)" for a
    using refs that del(3) by (auto simp: job_exists_def)
  have int: "i_owner_id i \<noteq> uid" if "i \<in> set (interviews tb)" for i
    using refs that app by (auto simp: application_exists_def)
  have "refs_ok tb'"
    unfolding refs_ok_def
  proof (intro conjI ballI)
    fix c assume "c \<in> set (companies tb')"
    then have "c \<in> set (companies tb)" "c_owner_id c \<noteq> uid" unfolding del(1) by auto
    then show "user_exists tb' (c_owner_id c)" using refs user by blast
  next
    fix j assume "j \<in> set (jobs tb')"
    then have j: "j \<in> set (jobs tb)" unfolding del(1) by simp
    then show "user_exists tb' (j_owner_id j)" "company_exists tb' (j_owner_id j) (j_company_id j)"
      using refs user company del(3) by blast+
  next
    fix a assume "a \<in> set (applications tb')"
    then have a: "a \<in> set (applications tb)" unfolding del(1) by simp
    then show "user_exists tb' (a_owner_id a)" using refs user app by blast
    have "job_exists tb (a_owner_id a) (a_job_id a)" using refs a by blast
    then show "job_exists tb' (a_owner_id a) (a_job_id a)" unfolding del(1) by (simp add: job_exists_def)
  next
    fix h assume "h \<in> set (histories tb')"
    then have "history_parent tb (h_application_id h)" using refs unfolding del(1) by simp
    then show "history_parent tb' (h_application_id h)" unfolding del(1) by (simp add: history_parent_def)
  next
    fix i assume "i \<in> set (interviews tb')"
    then have i: "i \<in> set (interviews tb)" unfolding del(1) by simp
    then show "user_exists tb' (i_owner_id i)" using refs user int by blast
    have "application_exists tb (i_owner_id i) (i_application_id i)" using refs i by blast
    then show "application_exists tb' (i_owner_id i) (i_application_id i)"
      unfolding del(1) by (simp add: application_exists_def)
  next
    fix t assume "t \<in> set (refresh_tokens tb')"
    then have "t \<in> set (refresh_tokens tb)" unfolding del(1) by simp
    then show "user_exists tb' (rt_user_id t)" using refs user del(2) by blast
  next
    fix t assume "t \<in> set (action_tokens tb')"
    then have "t \<in> set (action_tokens tb)" "at_user_id t \<noteq> uid" unfolding del(1) by auto
    then show "user_exists tb' (at_user_id t)" using refs user by blast
  next
    fix t assume "t \<in> set (recovery_codes tb')"
    then have "t \<in> set (recovery_codes tb)" "rc_user_id t \<noteq> uid" unfolding del(1) by auto
    then show "user_exists tb' (rc_user_id t)" using refs user by blast
  qed
  moreover have "keys_ok tb'"
    using db_okD(1) [OF assms(2)] unfolding del(1) keys_ok_def del_row_def
    by (auto intro: pairwise_ok_filter)
  moreover have "checks_ok tb'"
    using db_okD(2) [OF assms(2)] unfolding del(1) checks_ok_def by simp
  ultimately show ?thesis by (simp add: db_ok_def)
qed

lemma account_ok_delete_user:
  assumes "delete_user e uid tb = (r, tb')" and ok: "account_ok tb"
  shows "account_ok tb' \<and> tokens_evolve tb tb'"
proof -
  have "account_ok del \<and> tokens_evolve tb del" if row: "delete_user_row x tb = Some del" for x del
  proof -
    note del = delete_user_row_Some [OF row]
    have "action_ok del" "session_ok del" "list_all user_mfa_ok (users del)"
      using ok unfolding del(1)
      by (auto simp: account_ok_def action_ok_def session_ok_def list_all_iff intro: pairwise_ok_filter)
    then show ?thesis
      using db_ok_delete_user [OF row account_okD(1) [OF ok]] tokens_evolve_same [of del tb] del(1)
      by (simp add: account_ok_def)
  qed
  then show ?thesis
    using assms tokens_evolve_refl unfolding delete_user_def
    by (auto dest!: committed_cases split: sum.splits option.splits)
qed

lemma run_account_ok:
  assumes run: "run_account e q tb = (r, tb')" and "family_fresh e tb" and ok: "account_ok tb"
  shows "account_ok tb' \<and> tokens_evolve tb tb'"
proof (cases "deletes_user q")
  case True
  then obtain token uid where q: "q = Admin token (DeleteUser uid)"
    by (cases q rule: deletes_user.cases) auto
  have "tb' = tb \<or> (\<exists>v. delete_user e uid tb = (v, tb'))"
    using run unfolding q by (auto dest!: reply_as_snd split: sum.splits)
  then show ?thesis using account_ok_delete_user ok tokens_evolve_refl by blast
next
  case False
  show ?thesis using keeps_D(1,2) [OF run_account_keeps [OF run False assms(2)] ok] by blast
qed

section \<open>Runs\<close>

text \<open>
  The guard says that a new family identifier (a random UUID) is not in use. \<open>lasting_step\<close>
  leaves out the deletion of users, which takes their action tokens with it.
\<close>

inductive account_step :: "tables \<Rightarrow> tables \<Rightarrow> bool" where
  request: "run_account e q tb = (r, tb') \<Longrightarrow> family_fresh e tb \<Longrightarrow> account_step tb tb'"

inductive lasting_step :: "tables \<Rightarrow> tables \<Rightarrow> bool" where
  request: "run_account e q tb = (r, tb') \<Longrightarrow> family_fresh e tb \<Longrightarrow> \<not> deletes_user q
    \<Longrightarrow> lasting_step tb tb'"

inductive_cases account_stepE: "account_step tb tb'"
inductive_cases lasting_stepE: "lasting_step tb tb'"

definition account_start :: "tables \<Rightarrow> bool" where
  "account_start tb = (db_ok tb \<and> refresh_tokens tb = [] \<and> action_tokens tb = [] \<and>
     list_all user_mfa_ok (users tb))"

interpretation accounts: invariant_system account_start account_step account_ok
proof
  fix tb tb'
  show "account_start tb \<Longrightarrow> account_ok tb"
    by (simp add: account_start_def account_ok_def session_ok_def action_ok_def pairwise_ok_def)
  show "account_ok tb \<Longrightarrow> account_step tb tb' \<Longrightarrow> account_ok tb'"
    using run_account_ok by (auto elim: account_stepE)
qed

interpretation lasting: invariant_system account_start lasting_step account_ok
  by unfold_locales (auto elim!: lasting_stepE intro: accounts.start_inv dest: run_account_ok)

lemma account_steps_evolve:
  assumes "account_step\<^sup>*\<^sup>* tb tb'" and "account_ok tb"
  shows "tokens_evolve tb tb'"
  using assms
proof (induction rule: rtranclp_induct)
  case (step y z)
  then have "account_ok y" using accounts.steps_inv by blast
  then have "tokens_evolve y z" using step(2) run_account_ok by (auto elim: account_stepE)
  then show ?case using step.IH [OF step.prems] tokens_evolve_trans by blast
qed (rule tokens_evolve_refl)

lemma lasting_steps_evolve:
  assumes "lasting_step\<^sup>*\<^sup>* tb tb'" and "account_ok tb"
  shows "actions_evolve tb tb'"
  using assms
proof (induction rule: rtranclp_induct)
  case (step y z)
  then have "account_ok y" using lasting.steps_inv by blast
  then have "actions_evolve y z"
    using step(2) keeps_D(3) [OF run_account_keeps] by (auto elim!: lasting_stepE)
  then show ?case using step.IH [OF step.prems] actions_evolve_trans by blast
qed (simp add: actions_evolve_same)

section \<open>What the later states remember\<close>

lemma consumed_stays:
  assumes "account_ok tb" and "lasting_step\<^sup>*\<^sup>* tb tb'" and "t \<in> set (action_tokens tb)"
    and "at_consumed_at t \<noteq> None" and "at_token_hash t = cr_sha256 (ac_crypto e) token"
  shows "find_action_token e ps token tb' = Some s \<Longrightarrow> \<not> usable e s"
proof -
  assume found: "find_action_token e ps token tb' = Some s"
  obtain t' where t': "t' \<in> set (action_tokens tb')" "action_evolves t t'"
    using lasting_steps_evolve [OF assms(2,1)] assms(3) by (auto simp: actions_evolve_def)
  have ok: "account_ok tb'" using lasting.steps_inv [OF assms(2,1)] .
  have "find_action_token e [at_purpose s] token tb' = Some s"
    using found find_action_token_iff [OF ok] by auto
  moreover have "at_token_hash t' = cr_sha256 (ac_crypto e) token" "at_consumed_at t' \<noteq> None"
    using t'(2) assms(4,5) by (auto simp: action_evolves_def)
  moreover have "s = t'"
  proof -
    have pw: "pairwise_ok at_id action_agree (action_tokens tb')"
      using account_okD(3) [OF ok] by (simp add: action_ok_def)
    have s: "s \<in> set (action_tokens tb')" "at_token_hash s = at_token_hash t'"
      using find_action_token_Some [OF found] \<open>at_token_hash t' = _\<close> by auto
    then have "at_id s = at_id t'" using pairwise_okD [OF pw s(1) t'(1)] by (auto simp: action_agree_def)
    then show ?thesis
      using pairwise_ok_distinct [OF pw] s(1) t'(1) by (auto simp: distinct_map inj_on_def)
  qed
  ultimately show "\<not> usable e s" by (simp add: usable_def)
qed

lemma consumed_refused:
  assumes "account_ok tb" and "lasting_step\<^sup>*\<^sup>* tb tb'" and "t \<in> set (action_tokens tb)"
    and "at_consumed_at t \<noteq> None" and "at_token_hash t = cr_sha256 (ac_crypto e) token"
  shows "confirm_password_reset e token password tb' = (Inl INVALID_RESET_TOKEN, tb') \<and>
    confirm_email_verification e token tb' = (Inl INVALID_VERIFICATION_TOKEN, tb') \<and>
    \<not> is_ok (fst (verify_mfa_login_challenge e token code tb'))"
proof -
  note refused = consumed_stays [OF assms]
  have "\<not> is_ok (fst (verify_mfa_login_challenge e token code tb'))"
    using refused [of mfa_purposes] unfolding verify_mfa_login_challenge_def
    by (auto split: sum.splits option.splits)
  then show ?thesis
    using refused [of "[PASSWORD_RESET_PURPOSE]"] refused [of "[EMAIL_VERIFICATION_PURPOSE]"]
    by (auto simp: confirm_password_reset_def confirm_email_verification_def split: option.splits)
qed

lemma consume_where_consumes:
  assumes "t \<in> set (action_tokens tb)" and "P t"
  shows "\<exists>s\<in>set (action_tokens (consume_where P now tb)).
    at_consumed_at s \<noteq> None \<and> at_token_hash s = at_token_hash t"
proof (cases "at_consumed_at t")
  case None
  then have "consume_with now t \<in> set (action_tokens (consume_where P now tb))"
    unfolding consume_where_rows using assms by force
  then show ?thesis by (metis consume_with_fields(2,6) option.distinct(1))
next
  case (Some x)
  then have "t \<in> set (action_tokens (consume_where P now tb))"
    unfolding consume_where_rows using assms by force
  then show ?thesis using Some by blast
qed

lemma put_action_row: "t \<in> set (action_tokens tb) \<Longrightarrow> at_id t' = at_id t
    \<Longrightarrow> t' \<in> set (action_tokens (put_action t' tb))"
  by (force simp: put_action_def put_row_def)

lemma confirm_reset_Inr:
  assumes "confirm_password_reset e token password tb = (Inr u, tb')"
  obtains stored user where "find_action_token e [PASSWORD_RESET_PURPOSE] token tb = Some stored"
    and "usable e stored" and "find_user (at_user_id stored) tb = Some user" and "reset_eligible stored user"
    and "tb' = revoke_where (\<lambda>t. rt_user_id t = u_id user) ''password_reset'' (ac_now e)
       (consume_where (\<lambda>t. at_user_id t = u_id user \<and> at_purpose t = PASSWORD_RESET_PURPOSE)
          (ac_now e) (put_user (reset_user e password user) tb))"
  using assms unfolding confirm_password_reset_def
  by (auto simp: committed_Inr split: option.splits if_splits)

lemma confirm_verification_Inr:
  assumes "confirm_email_verification e token tb = (Inr u, tb')"
  obtains stored user where "find_action_token e [EMAIL_VERIFICATION_PURPOSE] token tb = Some stored"
    and "usable e stored" and "find_user (at_user_id stored) tb = Some user"
    and "tb' = put_user (verified_user e user) (put_action (consume_with (ac_now e) stored) tb)"
  using assms unfolding confirm_email_verification_def
  by (auto simp: committed_Inr split: option.splits if_splits)

lemma reset_consumes:
  assumes "confirm_password_reset e token password tb = (Inr u, tb')"
  shows "\<exists>t\<in>set (action_tokens tb'). at_consumed_at t \<noteq> None \<and>
    at_token_hash t = cr_sha256 (ac_crypto e) token"
  using assms
proof (rule confirm_reset_Inr)
  fix stored user
  assume found: "find_action_token e [PASSWORD_RESET_PURPOSE] token tb = Some stored"
    and user: "find_user (at_user_id stored) tb = Some user"
    and tb': "tb' = revoke_where (\<lambda>t. rt_user_id t = u_id user) ''password_reset'' (ac_now e)
       (consume_where (\<lambda>t. at_user_id t = u_id user \<and> at_purpose t = PASSWORD_RESET_PURPOSE)
          (ac_now e) (put_user (reset_user e password user) tb))"
  note st = find_action_token_Some [OF found]
  have "at_user_id stored = u_id user \<and> at_purpose stored = PASSWORD_RESET_PURPOSE"
    using st find_user_Some [OF user] by simp
  with consume_where_consumes [of stored "put_user (reset_user e password user) tb"
      "\<lambda>t. at_user_id t = u_id user \<and> at_purpose t = PASSWORD_RESET_PURPOSE" "ac_now e"] st
  show ?thesis unfolding tb' by simp
qed

lemma verification_consumes:
  assumes "confirm_email_verification e token tb = (Inr u, tb')"
  shows "\<exists>t\<in>set (action_tokens tb'). at_consumed_at t \<noteq> None \<and>
    at_token_hash t = cr_sha256 (ac_crypto e) token"
  using assms
proof (rule confirm_verification_Inr)
  fix stored user
  assume found: "find_action_token e [EMAIL_VERIFICATION_PURPOSE] token tb = Some stored"
    and tb': "tb' = put_user (verified_user e user) (put_action (consume_with (ac_now e) stored) tb)"
  note st = find_action_token_Some [OF found]
  then have "consume_with (ac_now e) stored \<in> set (action_tokens tb')"
    unfolding tb' put_user_fields by (intro put_action_row) auto
  then show ?thesis using st by (metis consume_with_fields(2,6) option.distinct(1))
qed

lemma issue_session_actions:
  assumes "prepare_session_tokens ae uid device ms tb = (r, tb')"
  shows "action_tokens tb' = action_tokens tb" and "users tb' = users tb"
  using issue_cases [OF assms] insert_refresh_token_Some by fastforce+

lemma challenge_consumes:
  assumes "verify_mfa_login_challenge e token code tb = (Inr pair, tb')"
  shows "\<exists>t\<in>set (action_tokens tb'). at_consumed_at t \<noteq> None \<and>
    at_token_hash t = cr_sha256 (ac_crypto e) token"
  using assms
proof (cases rule: verify_cases)
  case (passed challenge user m tb1 pair')
  note st = find_action_token_Some [OF passed(1)]
  have "action_tokens tb1 = action_tokens tb"
    using accept_factor_keeps(2) [OF passed(5)] lock_user_Inr [OF passed(3)] by blast
  then have "consume_with (ac_now e) challenge \<in> set (action_tokens tb')"
    unfolding issue_session_actions [OF passed(6)] using st by (intro put_action_row) auto
  then show ?thesis using st by (metis consume_with_fields(2,6) option.distinct(1))
qed simp

section \<open>Properties\<close>




definition sample_reset_done :: tables where
  "sample_reset_done = snd (confirm_password_reset sample_account (ac_new_token sample_account)
     ''new-password1'' sample_link_requested)"

lemma sample_reset:
  "confirm_password_reset sample_account (ac_new_token sample_account) ''new-password1''
     sample_link_requested = (Inr (), sample_reset_done)"
proof -
  have "fst (confirm_password_reset sample_account (ac_new_token sample_account) ''new-password1''
      sample_link_requested) = Inr ()" by code_simp
  then show ?thesis unfolding sample_reset_done_def by (metis prod.collapse)
qed


text \<open>
  C17: a password reset ends every session: no refresh token that the user had before it is
  accepted in any later state, whatever account requests follow.
\<close>

theorem reset_ends_sessions:
  assumes "account_ok tb" and "find_action_token e [PASSWORD_RESET_PURPOSE] token tb = Some stored"
    and "confirm_password_reset e token password tb = (Inr (), tb1)" and "account_step\<^sup>*\<^sup>* tb1 tb2"
    and "t \<in> set (refresh_tokens tb)" and "rt_user_id t = at_user_id stored"
    and "rt_token t = ae_sha256 ae refresh"
  shows "\<not> is_ok (fst (refresh_access_token ae refresh tb2))"
proof -
  obtain stored' user where "find_action_token e [PASSWORD_RESET_PURPOSE] token tb = Some stored'"
    and "find_user (at_user_id stored') tb = Some user"
    and tb1: "tb1 = revoke_where (\<lambda>t. rt_user_id t = u_id user) ''password_reset'' (ac_now e)
       (consume_where (\<lambda>t. at_user_id t = u_id user \<and> at_purpose t = PASSWORD_RESET_PURPOSE)
          (ac_now e) (put_user (reset_user e password user) tb))"
    by (rule confirm_reset_Inr [OF assms(3)])
  then have user: "find_user (at_user_id stored) tb = Some user" using assms(2) by simp
  define t1 where "t1 = (if rt_user_id t = u_id user \<and> \<not> rt_revoked t
    then revoke_with ''password_reset'' (ac_now e) t else t)"
  have t1: "t1 \<in> set (refresh_tokens tb1)" "rt_token t1 = rt_token t" "rt_revoked t1"
    using assms(5,6) find_user_Some [OF user] unfolding tb1 revoke_where_rows t1_def by auto
  have ok1: "account_ok tb1" using keeps_D(1) [OF confirm_reset_keeps [OF assms(3)] assms(1)] .
  obtain t2 where t2: "t2 \<in> set (refresh_tokens tb2)" "row_evolves t1 t2"
    using account_steps_evolve [OF assms(4) ok1] t1(1) by (auto simp: tokens_evolve_def)
  have "session_ok tb2" using accounts.steps_inv [OF assms(4) ok1] account_okD(2) by blast
  from revoked_refused [OF this t2(1)] show ?thesis
    using t1 t2(2) assms(7) by (auto simp: row_evolves_def)
qed

definition sample_signed_in :: tables where
  "sample_signed_in =
     snd (prepare_session_tokens sample_auth 1 ''laptop'' [''pwd''] sample_link_requested)"

lemma sample_signed_in_ok: "account_ok sample_signed_in"
proof -
  have "family_fresh sample_account sample_link_requested" by code_simp
  moreover have "ac_auth sample_account = sample_auth" by (simp add: sample_account_def)
  ultimately show ?thesis
    using issue_session_keeps [of sample_account 1 "''laptop''" "[''pwd'']" sample_link_requested]
      keeps_D(1) [OF _ sample_link_ok]
    unfolding sample_signed_in_def by (metis prod.collapse)
qed

theorem reset_ends_sessions_witness:
  "\<not> is_ok (fst (refresh_access_token sample_auth2 ''t1''
     (snd (confirm_password_reset sample_account (ac_new_token sample_account) ''new-password1''
       sample_signed_in))))"
proof -
  let ?run = "confirm_password_reset sample_account (ac_new_token sample_account) ''new-password1''
    sample_signed_in"
  let ?stored = "hd (action_tokens sample_signed_in)"
  let ?t = "hd (refresh_tokens sample_signed_in)"
  have found: "find_action_token sample_account [PASSWORD_RESET_PURPOSE] (ac_new_token sample_account)
      sample_signed_in = Some ?stored"
    and ok: "fst ?run = Inr ()"
    and t: "?t \<in> set (refresh_tokens sample_signed_in)" "rt_user_id ?t = at_user_id ?stored"
      "rt_token ?t = ae_sha256 sample_auth2 ''t1''"
    by code_simp+
  have "?run = (Inr (), snd ?run)" using ok by (metis prod.collapse)
  from reset_ends_sessions [OF sample_signed_in_ok found this rtranclp.rtrancl_refl t]
  show ?thesis .
qed

end
