(* ===== verification/AccountSecurity.thy ===== *)
theory AccountSecurity
  imports Accounts
begin

text \<open>
  What the account operations promise about second factors, disabled users and step-up
  authentication: the TOTP counter only advances, no session of a user with MFA starts without
  a second factor, a disabled user is locked out, and only a fresh second factor passes the
  step-up checks.
\<close>

section \<open>Accepted TOTP counters\<close>

lemma match_counters_Some:
  "match_counters otp code last_counter cs = Some c \<Longrightarrow>
     c \<in> set cs \<and> otp c = code \<and> (\<forall>used. last_counter = Some used \<longrightarrow> used < c)"
  by (induction cs) (auto split: if_splits option.splits)

lemma matching_run:
  assumes "matching_totp_counter e u code now = Inr (Some c)"
  obtains secret where "list_all is_digit code" and "length code = 6"
    and "match_counters (ac_otp e secret) code (u_mfa_last_counter u)
      [timestamp_of now div 30 - 1, timestamp_of now div 30, timestamp_of now div 30 + 1] = Some c"
  using assms unfolding matching_totp_counter_def Let_def by (auto split: if_splits sum.splits)

lemma matching_counter_Some:
  assumes "matching_totp_counter e u code now = Inr (Some c)"
  shows "c - timestamp_of now div 30 \<in> {-1, 0, 1}" and "\<And>used. u_mfa_last_counter u = Some used \<Longrightarrow> used < c"
    and "list_all is_digit code" and "length code = 6"
proof -
  obtain secret where digits: "list_all is_digit code" "length code = 6"
    and m: "match_counters (ac_otp e secret) code (u_mfa_last_counter u)
      [timestamp_of now div 30 - 1, timestamp_of now div 30, timestamp_of now div 30 + 1] = Some c"
    by (rule matching_run [OF assms])
  show "c - timestamp_of now div 30 \<in> {-1, 0, 1}" using match_counters_Some [OF m] by auto
  show "\<And>used. u_mfa_last_counter u = Some used \<Longrightarrow> used < c" using match_counters_Some [OF m] by blast
  show "list_all is_digit code" "length code = 6" by (rule digits)+
qed

section \<open>How the users table moves\<close>

text \<open>An enabled user stays enabled and its counter does not fall.\<close>

definition mfa_advances :: "user \<Rightarrow> user \<Rightarrow> bool" where
  "mfa_advances v u =
     (u_id u = u_id v \<and>
      (u_mfa_enabled_at v \<noteq> None \<longrightarrow> u_mfa_enabled_at u \<noteq> None \<and>
        (\<forall>c. u_mfa_last_counter v = Some c \<longrightarrow> (\<exists>d. u_mfa_last_counter u = Some d \<and> c \<le> d))))"

definition users_advance :: "tables \<Rightarrow> tables \<Rightarrow> bool" where
  "users_advance tb tb' = (\<forall>v\<in>set (users tb). \<exists>u\<in>set (users tb'). mfa_advances v u)"

lemma mfa_advances_refl [simp]: "mfa_advances v v"
  by (simp add: mfa_advances_def)

lemma mfa_advances_trans: "mfa_advances u v \<Longrightarrow> mfa_advances v w \<Longrightarrow> mfa_advances u w"
  unfolding mfa_advances_def by (metis order.trans)

lemma users_advance_same: "users tb' = users tb \<Longrightarrow> users_advance tb tb'"
  unfolding users_advance_def using mfa_advances_refl by metis

lemma users_advance_trans: "users_advance a b \<Longrightarrow> users_advance b c \<Longrightarrow> users_advance a c"
  unfolding users_advance_def using mfa_advances_trans by metis

lemma users_advance_put:
  assumes "account_ok tb" and "v \<in> set (users tb)" and "mfa_advances v u"
    and "users tb' = put_row u_id u (users tb)"
  shows "users_advance tb tb'"
  unfolding users_advance_def
proof
  fix w assume w: "w \<in> set (users tb)"
  show "\<exists>u'\<in>set (users tb'). mfa_advances w u'"
  proof (cases "u_id w = u_id u")
    case True
    then have "w = v"
      using assms(2,3) w db_ok_distinct(1) [OF account_okD(1) [OF assms(1)]]
      by (auto simp: mfa_advances_def distinct_map inj_on_def)
    then have "u \<in> set (users tb')"
      unfolding assms(4) put_row_def set_map using w True by (metis (mono_tags, lifting) image_eqI)
    then show ?thesis using \<open>w = v\<close> assms(3) by blast
  next
    case False
    then have "w \<in> set (users tb')"
      unfolding assms(4) put_row_def set_map using w by (metis (mono_tags, lifting) image_eqI)
    then show ?thesis using mfa_advances_refl by blast
  qed
qed

lemma users_advance_insert: "insert_user u tb = Some tb' \<Longrightarrow> users_advance tb tb'"
  unfolding insert_user_def users_advance_def
  by (auto split: if_splits intro: mfa_advances_refl)

section \<open>Session families\<close>

definition families :: "tables \<Rightarrow> string set" where
  "families tb = rt_family_id ` set (refresh_tokens tb)"

lemma families_same: "refresh_tokens tb' = refresh_tokens tb \<Longrightarrow> families tb' = families tb"
  by (simp add: families_def)

text \<open>
  A quiet operation starts no session, and no user's second factor is switched off or set back.
\<close>

definition quiet :: "tables \<Rightarrow> tables \<Rightarrow> bool" where
  "quiet tb tb' = (families tb' \<subseteq> families tb \<and> users_advance tb tb')"

lemma quiet_refl [simp]: "quiet tb tb"
  by (simp add: quiet_def users_advance_same)

lemma quiet_trans: "quiet a b \<Longrightarrow> quiet b c \<Longrightarrow> quiet a c"
  unfolding quiet_def using users_advance_trans by blast

lemma quiet_same: "users tb' = users tb \<Longrightarrow> refresh_tokens tb' = refresh_tokens tb \<Longrightarrow> quiet tb tb'"
  by (simp add: quiet_def users_advance_same families_def)

lemma quiet_revoke: "quiet tb (revoke_where P reason now tb)"
  by (simp add: quiet_def users_advance_same families_def)

lemma quiet_put:
  assumes "account_ok tb" and "v \<in> set (users tb)" and "mfa_advances v u"
  shows "quiet tb (put_user u tb)"
  using users_advance_put [OF assms, of "put_user u tb"] by (simp add: quiet_def families_def)

lemma insert_action_same:
  "insert_action_token t tb = Some tb' \<Longrightarrow> users tb' = users tb \<and> refresh_tokens tb' = refresh_tokens tb"
  using insert_action_token_Some [of t tb tb'] by simp

lemma enqueue_same:
  "enqueue_email_delivery cr i n tr ty pl h x tb = Inr tb'
    \<Longrightarrow> users tb' = users tb \<and> refresh_tokens tb' = refresh_tokens tb"
  by (auto simp: enqueue_email_delivery_def insert_outbox_def split: if_splits)

lemma quiet_issue_link:
  assumes "issue_link e user p email m ty url tb = (r, tb')"
  shows "quiet tb tb'"
  using assms unfolding issue_link_def Let_def
  by (intro quiet_same) (auto dest!: committed_cases insert_action_same enqueue_same
      split: option.splits if_splits sum.splits)

lemma advances_rows [simp]:
  "mfa_advances u (verified_user e u)" "mfa_advances u (reset_user e p u)"
  "mfa_advances u (role_user e role u)" "mfa_advances u (status_user e active u)"
  by (simp_all add: mfa_advances_def verified_user_def reset_user_def role_user_def status_user_def)

lemma advances_new:
  "u_mfa_enabled_at u = None \<Longrightarrow> mfa_advances u (enrolling_user e x u)"
  "u_mfa_enabled_at u = None \<Longrightarrow> mfa_advances u (enrolled_user e c u)"
  by (simp_all add: mfa_advances_def)

lemma advances_counted:
  "matching_totp_counter e u code now = Inr (Some c) \<Longrightarrow> mfa_advances u (counted_user e c u)"
  using matching_counter_Some(2) [of e u code now c]
  by (fastforce simp: mfa_advances_def counted_user_def)

lemma quiet_confirm_verification:
  assumes "account_ok tb" and "confirm_email_verification e token tb = (r, tb')"
  shows "quiet tb tb'"
proof (cases r)
  case (Inr u)
  show ?thesis using assms(2) unfolding Inr
  proof (rule confirm_verification_Inr)
    fix stored user
    assume st: "find_action_token e [EMAIL_VERIFICATION_PURPOSE] token tb = Some stored" "usable e stored"
      and user: "find_user (at_user_id stored) tb = Some user"
      and tb': "tb' = put_user (verified_user e user) (put_action (consume_with (ac_now e) stored) tb)"
    have "quiet tb (put_user (verified_user e user) tb)"
      using find_user_Some [OF user] by (intro quiet_put [OF assms(1)]) auto
    then show "quiet tb tb'"
      unfolding tb' by (simp add: quiet_def families_def users_advance_def)
  qed
next
  case (Inl err)
  then have "tb' = tb"
    using assms(2) unfolding confirm_email_verification_def
    by (auto dest: committed_Inl split: option.splits if_splits)
  then show ?thesis by simp
qed

lemma quiet_confirm_reset:
  assumes "account_ok tb" and "confirm_password_reset e token password tb = (r, tb')"
  shows "quiet tb tb'"
proof (cases r)
  case (Inr u)
  show ?thesis using assms(2) unfolding Inr
  proof (rule confirm_reset_Inr)
    fix stored user
    assume user: "find_user (at_user_id stored) tb = Some user"
      and tb': "tb' = revoke_where (\<lambda>t. rt_user_id t = u_id user) ''password_reset'' (ac_now e)
       (consume_where (\<lambda>t. at_user_id t = u_id user \<and> at_purpose t = PASSWORD_RESET_PURPOSE)
          (ac_now e) (put_user (reset_user e password user) tb))"
    have "quiet tb (put_user (reset_user e password user) tb)"
      using find_user_Some [OF user] by (intro quiet_put [OF assms(1)]) auto
    moreover have "quiet mid (consume_where P now mid)" for P now mid by (rule quiet_same) simp_all
    ultimately show "quiet tb tb'" unfolding tb' using quiet_trans quiet_revoke by blast
  qed
next
  case (Inl err)
  then have "tb' = tb"
    using assms(2) unfolding confirm_password_reset_def
    by (auto dest: committed_Inl split: option.splits if_splits)
  then show ?thesis by simp
qed

lemma delete_recovery_same: "quiet tb (delete_recovery_codes uid tb)"
  by (rule quiet_same) (simp_all add: delete_recovery_codes_def)

lemma insert_codes_tokens:
  "insert_recovery_codes rs tb = Some tb' \<Longrightarrow> refresh_tokens tb' = refresh_tokens tb"
proof (induction rs arbitrary: tb)
  case (Cons r rs)
  then show ?case by (force simp: bind_eq_Some_conv insert_recovery_code_def split: if_splits)
qed simp

lemma replace_codes_tokens:
  "replace_recovery_codes e uid tb = (codes, Some tb1) \<Longrightarrow> refresh_tokens tb1 = refresh_tokens tb"
  by (auto simp: replace_recovery_codes_def Let_def delete_recovery_codes_def dest!: insert_codes_tokens)

lemma quiet_put_after:
  assumes "account_ok tb" and "account_keeps tb tb1" and "users tb1 = users tb"
    and "refresh_tokens tb1 = refresh_tokens tb" and "v \<in> set (users tb)" and "mfa_advances v u"
  shows "quiet tb (put_user u tb1)"
proof -
  have "quiet tb1 (put_user u tb1)"
    by (rule quiet_put [OF keeps_D(1) [OF assms(2,1)] _ assms(6)]) (simp add: assms(3,5))
  then show ?thesis using quiet_trans [OF quiet_same [OF assms(3,4)]] by blast
qed

lemma quiet_begin:
  assumes "account_ok tb" and "begin_totp_enrollment e uid password tb = (r, tb')"
  shows "quiet tb tb'"
proof -
  have "quiet tb (delete_recovery_codes u (put_user (enrolling_user e x user) tb))"
    if "lock_user uid tb = Inr user" "u_mfa_enabled_at user = None" for user x u
    using lock_user_Inr [OF that(1)] advances_new(1) [OF that(2)] delete_recovery_same
      quiet_put [OF assms(1)] quiet_trans by blast
  then show ?thesis
    using assms(2) unfolding begin_totp_enrollment_def
    by (auto dest!: committed_cases split: sum.splits if_splits)
qed

lemma quiet_confirm_totp:
  assumes "account_ok tb" and "confirm_totp_enrollment e uid code tb = (r, tb')"
  shows "quiet tb tb'"
proof -
  have "quiet tb (put_user (enrolled_user e c user) tb1)"
    if "lock_user uid tb = Inr user" "enrollment_open e user"
      "replace_recovery_codes e u tb = (codes, Some tb1)" for user u codes tb1 c
    using that(2) lock_user_Inr [OF that(1)] advances_new(2) [of user]
      quiet_put_after [OF assms(1) replace_codes [OF that(3)] replace_codes_tokens [OF that(3)]]
    by (auto simp: enrollment_open_def)
  then show ?thesis
    using assms(2) unfolding confirm_totp_enrollment_def
    by (auto dest!: committed_cases split: sum.splits if_splits option.splits prod.splits)
qed

lemma quiet_regenerate:
  assumes "account_ok tb" and "regenerate_recovery_codes e uid password code tb = (r, tb')"
  shows "quiet tb tb'"
proof -
  have "quiet tb (revoke_sessions u' now reason (put_user (counted_user e c user) tb1))"
    if "lock_user uid tb = Inr user" "replace_recovery_codes e u tb = (codes, Some tb1)"
      "matching_totp_counter e user code now = Inr (Some c)" for user u codes tb1 c u' now reason
    unfolding revoke_sessions_def
    using lock_user_Inr [OF that(1)] advances_counted [OF that(3)] quiet_trans quiet_revoke
      quiet_put_after [OF assms(1) replace_codes [OF that(2)] replace_codes_tokens [OF that(2)]]
    by blast
  then show ?thesis
    using assms(2) unfolding regenerate_recovery_codes_def
    by (auto dest!: committed_cases split: sum.splits if_splits option.splits prod.splits)
qed

lemma quiet_revoke_user: "revoke_user_sessions ae uid family reason tb = (r, tb') \<Longrightarrow> quiet tb tb'"
  using revoke_user_cases quiet_revoke quiet_refl by metis

lemma quiet_logout: "revoke_refresh_token ae token tb = (r, tb') \<Longrightarrow> quiet tb tb'"
  using logout_cases quiet_revoke quiet_refl by metis

lemma quiet_refresh:
  assumes "refresh_access_token ae token tb = (r, tb')"
  shows "quiet tb tb'"
proof (cases r)
  case (Inr pair)
  obtain stored and user :: user where st: "find_refresh_token ae token tb = Some stored"
    and ins: "insert_refresh_token (session_row ae (u_id user) (rt_family_id stored) (rt_device_name stored))
      (tb\<lparr>refresh_tokens := put_row rt_id (rotate_row (ae_now ae) stored) (refresh_tokens tb)\<rparr>) = Some tb'"
    using assms Inr by (auto elim!: refresh_Inr)
  have tb': "refresh_tokens tb' = put_row rt_id (rotate_row (ae_now ae) stored) (refresh_tokens tb) @
      [session_row ae (u_id user) (rt_family_id stored) (rt_device_name stored)]" "users tb' = users tb"
    using insert_refresh_token_Some [OF ins] by simp_all
  have "stored \<in> set (refresh_tokens tb)" using find_refresh_token_Some [OF st] by blast
  then have "families tb' \<subseteq> families tb"
    unfolding families_def tb'(1) by (auto dest!: set_put_row)
  then show ?thesis using users_advance_same [OF tb'(2)] by (simp add: quiet_def)
next
  case (Inl err)
  then have "tb' = tb \<or> (\<exists>P reason now. tb' = revoke_where P reason now tb)"
    using assms unfolding refresh_access_token_def revoke_all_user_sessions_def revoke_family_def
      revoke_user_sessions_def committing_def
    by (auto simp: Let_def split: option.splits if_splits)
  then show ?thesis using quiet_revoke quiet_refl by metis
qed

lemma quiet_role:
  assumes "account_ok tb" and "update_user_role e uid role tb = (r, tb')"
  shows "quiet tb tb'"
proof -
  have "quiet tb (put_user (role_user e role u) tb)" if "admin_get_user uid tb = Inr u" for u
    using admin_get_user_Inr [OF that] by (intro quiet_put [OF assms(1), of u]) auto
  then show ?thesis
    using assms(2) unfolding update_user_role_def by (auto dest!: committed_cases split: sum.splits)
qed

lemma quiet_status:
  assumes "account_ok tb" and "update_user_status e uid active tb = (r, tb')"
  shows "quiet tb tb'"
proof -
  have put: "quiet tb (put_user (status_user e active u) tb)" if "admin_get_user uid tb = Inr u" for u
    using admin_get_user_Inr [OF that] by (intro quiet_put [OF assms(1), of u]) auto
  moreover have "quiet tb mid"
    if "admin_get_user uid tb = Inr u" and "revoke_all_user_sessions (ac_auth e) x reason
      (put_user (status_user e active u) tb) = (v, mid)" for u x reason v mid
    using quiet_trans [OF put [OF that(1)] quiet_revoke_user] that(2)
    unfolding revoke_all_user_sessions_def by blast
  ultimately show ?thesis
    using assms(2) unfolding update_user_status_def Let_def
    by (auto dest!: committed_cases split: sum.splits if_splits prod.splits)
qed

lemma quiet_register: "register e body tb = (r, tb') \<Longrightarrow> quiet tb tb'"
  unfolding register_def Let_def
  by (auto simp: quiet_def families_def insert_user_def dest!: committed_cases
      intro: users_advance_same users_advance_insert [unfolded insert_user_def]
      split: option.splits sum.splits if_splits)

lemma quiet_link_request:
  "without_mail (request_link e accepted url subject issue tb) = (r, tb')
    \<Longrightarrow> (\<And>v. issue tb = (v, tb') \<Longrightarrow> quiet tb tb') \<Longrightarrow> quiet tb tb'"
  using request_link_snd by (metis quiet_refl)

lemma without_mail_triple [simp]: "without_mail (a, b, c) = (a, c)"
  by (simp add: without_mail_def)

lemma quiet_issues:
  "issue_email_verification_token e email tb = (v, tb') \<Longrightarrow> quiet tb tb'"
  "issue_password_reset_token e email tb = (v, tb') \<Longrightarrow> quiet tb tb'"
  unfolding issue_email_verification_token_def issue_password_reset_token_def
  by (auto dest: quiet_issue_link split: option.splits if_splits)

lemma quiet_requests:
  "without_mail (request_email_verification email e raw tb) = (r, tb') \<Longrightarrow> quiet tb tb'"
  "without_mail (request_password_reset email e raw tb) = (r, tb') \<Longrightarrow> quiet tb tb'"
  unfolding request_email_verification_def request_password_reset_def
  by (auto elim!: quiet_link_request dest: quiet_issues split: sum.splits)

text \<open>The requests that may start a session or switch off a second factor.\<close>

fun starts_session :: "account_request \<Rightarrow> bool" where
  "starts_session (Public (Login _ _ _ _)) = True"
| "starts_session (Public (VerifyChallenge _ _)) = True"
| "starts_session q = False"

fun disables_mfa :: "account_request \<Rightarrow> bool" where
  "disables_mfa (Member token (DisableMfa _ _)) = True"
| "disables_mfa q = False"

lemma public_quiet:
  assumes "account_ok tb" and "public_route e q tb = (r, tb')" and "\<not> starts_session (Public q)"
  shows "quiet tb tb'"
  using assms
  by (cases q) (auto dest!: reply_as_snd dest: quiet_register quiet_refresh quiet_logout quiet_requests
      quiet_confirm_verification quiet_confirm_reset simp: confirm_verification_def confirm_reset_def
      split: sum.splits prod.splits)

lemma member_quiet:
  assumes "account_ok tb" and "member_route e user q tb = (r, tb')" and "\<not> disables_mfa (Member t q)"
  shows "quiet tb tb'"
  using assms
  by (cases q) (auto dest!: reply_as_snd dest: quiet_revoke_user quiet_begin quiet_confirm_totp
      quiet_regenerate simp: checked_def revoke_session_family_def revoke_all_user_sessions_def
      split: if_splits)

lemma admin_quiet:
  assumes "account_ok tb" and "admin_route e user q tb = (r, tb')" and "\<not> deletes_user (Admin t q)"
  shows "quiet tb tb'"
  using assms by (cases q) (auto dest!: reply_as_snd dest: quiet_role quiet_status)

lemma run_account_quiet:
  assumes "account_ok tb" and "run_account e q tb = (r, tb')"
    and "\<not> starts_session q" and "\<not> disables_mfa q" and "\<not> deletes_user q"
  shows "quiet tb tb'"
  using assms by (cases q) (auto dest: public_quiet member_quiet admin_quiet
      simp: require_admin_def split: sum.splits if_splits)

text \<open>Starting a session leaves the second factors as they are, or moves a counter forward.\<close>

lemma challenge_same:
  assumes "prepare_mfa_login_challenge e user device m tb = (r, tb')"
  shows "users tb' = users tb \<and> refresh_tokens tb' = refresh_tokens tb"
  using assms unfolding prepare_mfa_login_challenge_def Let_def
  by (auto dest!: insert_action_same split: sum.splits if_splits option.splits)

lemma login_users:
  assumes "login e username password device tb = (r, tb')"
  shows "users tb' = users tb"
proof -
  have "users mid = users tb" if "committed e tb
      (prepare_session_tokens (ac_auth e) uid device ms tb) = (v, mid)" for uid ms v mid
    using committed_cases [OF that] issue_session_actions(2) by auto
  moreover have "users mid = users tb" if "issue_mfa_login_challenge e user device tb = (v, mid)" for user v mid
    using that unfolding issue_mfa_login_challenge_def
    by (auto dest!: committed_cases challenge_same)
  ultimately show ?thesis
    using assms unfolding login_def
    by (auto split: option.splits if_splits prod.splits sum.splits)
qed

lemma accept_factor_users:
  assumes "account_ok tb" and "accept_factor e user code tb = Inr (m, tb1)" and "user \<in> set (users tb)"
  shows "users_advance tb tb1"
proof -
  have "users_advance tb (put_user (counted_user e c user) tb)"
    if "matching_totp_counter e user code (ac_now e) = Inr (Some c)" for c
    by (rule users_advance_put [OF assms(1,3) advances_counted [OF that]]) simp
  moreover have "users_advance tb (revoke_sessions u now reason mid)"
    if "consume_recovery_code e x code (ac_now e) tb = (True, mid)" for u now reason mid x
    using consume_code(2) [OF that] by (intro users_advance_same) (simp add: revoke_sessions_def)
  ultimately show ?thesis
    using assms(2) unfolding accept_factor_def
    by (auto split: sum.splits option.splits prod.splits bool.splits)
qed

lemma verify_users:
  assumes "account_ok tb" and "verify_mfa_login_challenge e token code tb = (r, tb')"
  shows "users_advance tb tb'"
  using assms(2)
proof (cases rule: verify_cases)
  case (passed challenge user m tb1 pair)
  have "users_advance tb tb1"
    using accept_factor_users [OF assms(1) passed(5)] lock_user_Inr [OF passed(3)] by blast
  moreover have "users tb' = users tb1" using issue_session_actions(2) [OF passed(6)] by simp
  ultimately show ?thesis by (simp add: users_advance_def)
qed (simp add: users_advance_same)

lemma run_account_users:
  assumes "account_ok tb" and "run_account e q tb = (r, tb')" and "\<not> disables_mfa q" and "\<not> deletes_user q"
  shows "users_advance tb tb'"
proof (cases "starts_session q")
  case False
  then show ?thesis using run_account_quiet [OF assms(1,2) _ assms(3,4)] by (simp add: quiet_def)
next
  case True
  then show ?thesis
    using assms(2) verify_users [OF assms(1)]
    by (cases q rule: starts_session.cases)
      (auto dest!: reply_as_snd login_users intro: users_advance_same simp: checked_def split: if_splits)
qed

inductive guarded_step :: "tables \<Rightarrow> tables \<Rightarrow> bool" where
  request: "run_account e q tb = (r, tb') \<Longrightarrow> family_fresh e tb \<Longrightarrow> \<not> deletes_user q
    \<Longrightarrow> \<not> disables_mfa q \<Longrightarrow> guarded_step tb tb'"

inductive_cases guarded_stepE: "guarded_step tb tb'"

lemma guarded_steps_advance:
  assumes "guarded_step\<^sup>*\<^sup>* tb tb'" and "account_ok tb"
  shows "account_ok tb' \<and> users_advance tb tb'"
  using assms
proof (induction rule: rtranclp_induct)
  case (step y z)
  then have y: "account_ok y" "users_advance tb y" by auto
  then have "account_ok z \<and> users_advance y z"
    using step(2) run_account_ok run_account_users by (auto elim!: guarded_stepE)
  then show ?case using y users_advance_trans by blast
qed (simp add: users_advance_same)

section \<open>A sample member with a second factor\<close>

definition sample_mfa_member :: user where
  "sample_mfa_member = sample_member\<lparr>u_password := ''$pw'', u_mfa_secret_encrypted := Some ''!S'',
     u_mfa_enabled_at := Some 0, u_mfa_last_counter := Some 5\<rparr>"

definition sample_mfa_tables :: tables where
  "sample_mfa_tables = snd (login sample_account ''ann'' ''pw'' ''laptop''
     (empty_tables\<lparr>users := [sample_mfa_member]\<rparr>))"

lemma sample_mfa_ok: "account_ok sample_mfa_tables"
proof -
  have "account_ok (empty_tables\<lparr>users := [sample_mfa_member]\<rparr>)"
    "family_fresh sample_account (empty_tables\<lparr>users := [sample_mfa_member]\<rparr>)"
    by code_simp+
  from login.keeps_ok [OF _ this(2,1), of "''ann''" "''pw''" "\<lambda>_. ''laptop''"] show ?thesis
    unfolding sample_mfa_tables_def by (metis prod.collapse)
qed

lemma sample_family_fresh: "family_fresh sample_account sample_mfa_tables"
  by code_simp

definition sample_mfa_verified :: tables where
  "sample_mfa_verified = snd (verify_mfa_login_challenge sample_account
     (ac_new_token sample_account) ''123456'' sample_mfa_tables)"

lemma sample_verify:
  "verify_mfa_login_challenge sample_account (ac_new_token sample_account) ''123456'' sample_mfa_tables =
     (Inr \<lparr>tk_access = ''ann'', tk_refresh = ''t1''\<rparr>, sample_mfa_verified)"
proof -
  have "fst (verify_mfa_login_challenge sample_account (ac_new_token sample_account) ''123456''
      sample_mfa_tables) = Inr \<lparr>tk_access = ''ann'', tk_refresh = ''t1''\<rparr>" by code_simp
  then show ?thesis unfolding sample_mfa_verified_def by (metis prod.collapse)
qed

section \<open>Properties\<close>

text \<open>
  C18: a TOTP code is never accepted twice: once a challenge has been passed with the code of a
  counter, every code that is accepted for this user in a later state belongs to a strictly
  larger counter, and to one of the three time steps around the clock, as long as MFA is not
  switched off in between.
\<close>

theorem totp_never_replayed:
  assumes "account_ok tb" and "family_fresh e tb"
    and "verify_mfa_login_challenge e token code tb = (Inr pair, tb1)"
    and "find_action_token e mfa_purposes token tb = Some challenge"
    and "lock_user (at_user_id challenge) tb = Inr user"
    and "matching_totp_counter e user code (ac_now e) = Inr (Some c)"
    and "guarded_step\<^sup>*\<^sup>* tb1 tb2" and "user2 \<in> set (users tb2)" and "u_id user2 = u_id user"
    and "matching_totp_counter e2 user2 code2 now2 = Inr (Some c2)"
  shows "c < c2 \<and> c2 - timestamp_of now2 div 30 \<in> {-1, 0, 1}"
proof -
  have ok1: "account_ok tb1" using verify.keeps_ok [OF assms(3,2,1)] .
  have "users tb1 = put_row u_id (counted_user e c user) (users tb)"
    using assms(3)
  proof (cases rule: verify_cases)
    case (passed challenge' user' m mid pair')
    then have "challenge' = challenge" "user' = user" using assms(4,5) by auto
    then show ?thesis
      using passed(5) assms(6) issue_session_actions(2) [OF passed(6)] by (auto simp: accept_factor_def)
  qed simp
  moreover have user: "user \<in> set (users tb)" using lock_user_Inr [OF assms(5)] by blast
  ultimately have row: "counted_user e c user \<in> set (users tb1)"
    by (force simp: put_row_def)
  have en: "u_mfa_enabled_at (counted_user e c user) \<noteq> None"
    using assms(3)
  proof (cases rule: verify_cases)
    case (passed challenge' user' m mid pair')
    then show ?thesis using assms(4,5) by (simp add: counted_user_def)
  qed simp
  note later = guarded_steps_advance [OF assms(7) ok1]
  then obtain u2 where u2: "u2 \<in> set (users tb2)" "mfa_advances (counted_user e c user) u2"
    using row by (auto simp: users_advance_def)
  have "u2 = user2"
    using u2 assms(8,9) db_ok_distinct(1) [OF account_okD(1) [OF conjunct1 [OF later]]]
    by (auto simp: mfa_advances_def distinct_map inj_on_def)
  then obtain d where d: "u_mfa_last_counter user2 = Some d" "c \<le> d"
    using u2(2) en by (auto simp: mfa_advances_def counted_user_def)
  from matching_counter_Some(1) [OF assms(10)] matching_counter_Some(2) [OF assms(10) d(1)] d(2)
  show ?thesis by auto
qed

theorem totp_never_replayed_witness:
  "\<not> (\<exists>c2. matching_totp_counter sample_account (hd (users sample_mfa_verified)) ''123456''
     (ac_now sample_account) = Inr (Some c2) \<and> c2 \<le> 57600000)"
proof -
  have facts: "family_fresh sample_account sample_mfa_tables"
    "find_action_token sample_account mfa_purposes (ac_new_token sample_account) sample_mfa_tables =
       Some (hd (action_tokens sample_mfa_tables))"
    "lock_user (at_user_id (hd (action_tokens sample_mfa_tables))) sample_mfa_tables = Inr sample_mfa_member"
    "matching_totp_counter sample_account sample_mfa_member ''123456'' (ac_now sample_account) =
       Inr (Some 57600000)"
    "hd (users sample_mfa_verified) \<in> set (users sample_mfa_verified)"
    "u_id (hd (users sample_mfa_verified)) = u_id sample_mfa_member"
    by code_simp+
  show ?thesis
    using totp_never_replayed [OF sample_mfa_ok facts(1) sample_verify facts(2-4)
        rtranclp.rtrancl_refl facts(5,6)]
    by fastforce
qed

lemma login_new_family:
  assumes "account_ok tb" and "login e username password device tb = (r, tb')"
    and "t \<in> set (refresh_tokens tb')" and "rt_family_id t \<notin> families tb"
  shows "\<exists>u\<in>set (users tb). u_id u = rt_user_id t \<and> u_mfa_enabled_at u = None"
proof -
  have old: False if "refresh_tokens tb' = refresh_tokens tb"
    using assms(3,4) that by (auto simp: families_def)
  obtain user where user: "find (\<lambda>u. u_username u = username) (users tb) = Some user"
    and plain: "u_mfa_enabled_at user = None"
    and run: "\<exists>v. committed e tb (prepare_session_tokens (ac_auth e) (u_id user) device [''pwd''] tb) = (v, tb')"
    using assms(2) old unfolding login_def issue_mfa_login_challenge_def
    by (auto dest!: committed_cases challenge_same split: option.splits if_splits prod.splits sum.splits)
  then obtain v where "prepare_session_tokens (ac_auth e) (u_id user) device [''pwd''] tb = (v, tb')"
    using old committed_cases by metis
  from issue_cases [OF this] have "insert_refresh_token
      (session_row (ac_auth e) (u_id user) (ae_new_family (ac_auth e)) device) tb = Some tb'"
    using old by auto
  from insert_refresh_token_Some [OF this] have "rt_user_id t = u_id user"
    using assms(3,4) by (auto simp: families_def)
  then show ?thesis using find_Some [OF user] plain by metis
qed

lemma consume_families: "consume_recovery_code e uid code now tb = (b, tb1) \<Longrightarrow> families tb1 = families tb"
  by (rule families_same [OF consume_code(4)])

lemma families_disable:
  assumes "disable_mfa e uid password code tb = (r, tb')"
  shows "families tb' \<subseteq> families tb"
proof -
  have same: "families (revoke_sessions u now reason (delete_recovery_codes u' (put_user v mid))) = families mid"
    for u now reason u' v mid
    unfolding families_def revoke_sessions_def families_revoke by (simp add: delete_recovery_codes_def)
  then show ?thesis
    using assms unfolding disable_mfa_def
    by (auto dest!: committed_cases dest: consume_families
        split: sum.splits if_splits option.splits prod.splits)
qed

lemma families_delete: "delete_user e uid tb = (r, tb') \<Longrightarrow> families tb' \<subseteq> families tb"
  unfolding delete_user_def
  by (auto dest!: committed_cases delete_user_row_Some(1) simp: families_def
      split: sum.splits option.splits)

lemma families_other:
  assumes "account_ok tb" and "run_account e q tb = (r, tb')" and "disables_mfa q \<or> deletes_user q"
  shows "families tb' \<subseteq> families tb"
  using assms(3)
proof
  assume "disables_mfa q"
  then obtain token password code where q: "q = Member token (DisableMfa password code)"
    by (cases q rule: disables_mfa.cases) auto
  show ?thesis
    using assms(2) families_disable unfolding q
    by (fastforce dest!: reply_as_snd simp: checked_def split: sum.splits if_splits)
next
  assume "deletes_user q"
  then obtain token uid where q: "q = Admin token (DeleteUser uid)"
    by (cases q rule: deletes_user.cases) auto
  show ?thesis
    using assms(2) families_delete unfolding q
    by (fastforce dest!: reply_as_snd split: sum.splits)
qed

lemma verify_new_family:
  assumes "verify_mfa_login_challenge e token code tb = (r, tb')"
    and "t \<in> set (refresh_tokens tb')" and "rt_family_id t \<notin> families tb"
  obtains challenge user m mid where "find_action_token e mfa_purposes token tb = Some challenge"
    and "usable e challenge" and "lock_user (at_user_id challenge) tb = Inr user"
    and "accept_factor e user code tb = Inr (m, mid)" and "rt_user_id t = u_id user"
  using assms(1)
proof (cases rule: verify_cases)
  case failed
  then show thesis using assms(2,3) by (simp add: families_def)
next
  case (passed challenge user m mid pair)
  let ?before = "put_action (consume_with (ac_now e) challenge) mid"
  have old: "families ?before = families tb"
    using accept_factor_keeps(3) [OF passed(5)] lock_user_Inr [OF passed(3)] by (simp add: families_def)
  from issue_cases [OF passed(6)] have "rt_user_id t = u_id user"
  proof
    assume "tb' = ?before"
    then show ?thesis using assms(2,3) old by (auto simp: families_def)
  next
    assume "insert_refresh_token (session_row (ac_auth e) (u_id user) (ae_new_family (ac_auth e))
      (at_target challenge)) ?before = Some tb'"
    from insert_refresh_token_Some [OF this] show ?thesis
      using assms(2,3) old by (auto simp: families_def)
  qed
  then show thesis using that passed(1,2,3,5) by blast
qed



lemma disabled_status:
  assumes "update_user_status e uid False tb = (Inr u, tb')"
  obtains user where "admin_get_user uid tb = Inr user" and "u = status_user e False user"
    and "tb' = revoke_where (\<lambda>t. rt_user_id t = u_id user \<and> True) ''account_disabled'' (ae_now (ac_auth e))
      (put_user (status_user e False user) tb)"
  using assms unfolding update_user_status_def Let_def revoke_all_user_sessions_def
    revoke_user_sessions_def committing_def
  by (auto split: sum.splits if_splits)

lemma username_unique:
  assumes "account_ok tb" and "u \<in> set (users tb)"
  shows "find (\<lambda>v. u_username v = u_username u) (users tb) = Some u"
    and "find (\<lambda>v. Some (u_username u) = Some (u_username v)) (users tb) = Some u"
proof -
  have "v = u" if "v \<in> set (users tb)" "u_username v = u_username u" for v
  proof -
    note keys = db_ok_keys(1) [OF account_okD(1) [OF assms(1)]]
    have "u_id v = u_id u"
      using pairwise_okD [OF keys that(1) assms(2)] that(2) by (auto simp: user_agree_def)
    then show ?thesis
      using pairwise_ok_distinct [OF keys] that(1) assms(2) by (auto simp: distinct_map inj_on_def)
  qed
  then show "find (\<lambda>v. u_username v = u_username u) (users tb) = Some u"
    "find (\<lambda>v. Some (u_username u) = Some (u_username v)) (users tb) = Some u"
    using assms(2) by (auto intro!: find_unique_row)
qed






definition decodes_own :: "account_env \<Rightarrow> auth_env \<Rightarrow> bool" where
  "decodes_own e ae = (\<forall>c. ac_decode e (ae_encode ae c) =
     Some \<lparr>jp_sub = Some (cl_sub c), jp_amr = cl_amr c, jp_auth_time = cl_auth_time c\<rparr>)"

lemma decode_created:
  "decodes_own e ae \<Longrightarrow> decode_token e (create_access_token ae sub amr auth_time) =
     Inr \<lparr>jp_sub = Some sub, jp_amr = amr, jp_auth_time = auth_time\<rparr>"
  by (simp add: decodes_own_def create_access_token_def decode_token_def verify_token_def)

lemma issued_access:
  assumes "prepare_session_tokens ae uid device ms tb = (Inr pair, tb')"
  obtains user where "find (\<lambda>u. u_id u = uid) (users tb) = Some user"
    and "tk_access pair = create_access_token ae (u_username user) ms (Some (timestamp_of (ae_now ae)))"
  using assms unfolding prepare_session_tokens_def
  by (auto simp: Let_def split: option.splits if_splits)

lemma accepted_method:
  assumes "accept_factor e user code tb = Inr (m, tb1)"
  shows "m = (if \<exists>c. matching_totp_counter e user code (ac_now e) = Inr (Some c)
    then ''otp'' else ''recovery'')"
proof (cases "matching_totp_counter e user code (ac_now e)")
  case (Inr c)
  then show ?thesis using assms unfolding accept_factor_def
    by (cases c) (auto split: prod.splits bool.splits)
qed (use assms in \<open>simp add: accept_factor_def\<close>)

lemma refresh_step_up:
  assumes "decodes_own e ae" and "refresh_access_token ae token tb = (Inr pair, tb')"
  shows "\<not> is_ok (require_recent_authentication e (tk_access pair)) \<and>
    \<not> is_ok (require_recent_mfa e (tk_access pair))"
proof -
  obtain user :: user where "pair = \<lparr>tk_access = create_access_token ae (u_username user)
      [''refresh''] None, tk_refresh = fst (create_refresh_token ae)\<rparr>"
    by (rule refresh_Inr [OF assms(2)]) blast
  then have "decode_token e (tk_access pair) =
      Inr \<lparr>jp_sub = Some (u_username user), jp_amr = [''refresh''], jp_auth_time = None\<rparr>"
    using decode_created [OF assms(1)] by simp
  then show ?thesis by (simp add: require_recent_authentication_def require_recent_mfa_def)
qed

lemma verify_step_up:
  assumes "decodes_own e (ac_auth e')"
    and run: "verify_mfa_login_challenge e' token code tb = (Inr pair, tb')"
    and hyp: "find_action_token e' mfa_purposes token tb = Some challenge"
      "lock_user (at_user_id challenge) tb = Inr user"
  shows "is_ok (require_recent_mfa e (tk_access pair)) \<longleftrightarrow>
    (\<exists>c. matching_totp_counter e' user code (ac_now e') = Inr (Some c)) \<and>
    \<not> stale (ac_now e) (timestamp_of (ae_now (ac_auth e'))) (ac_step_up_minutes e)"
  using run
proof (cases rule: verify_cases)
  case (passed challenge' user' m tb1 pair')
  then have same: "challenge' = challenge" "user' = user" "pair' = pair" using hyp by auto
  obtain v :: user where access: "tk_access pair = create_access_token (ac_auth e') (u_username v)
      [primary_method_of challenge, m] (Some (timestamp_of (ae_now (ac_auth e'))))"
    using same by (auto intro: issued_access [OF passed(6)])
  have decoded: "decode_token e (tk_access pair) = Inr \<lparr>jp_sub = Some (u_username v),
      jp_amr = [primary_method_of challenge, m],
      jp_auth_time = Some (timestamp_of (ae_now (ac_auth e')))\<rparr>"
    unfolding access by (rule decode_created [OF assms(1)])
  have acc: "accept_factor e' user code tb = Inr (m, tb1)" using passed(5) same by simp
  have factor: "m = (if \<exists>c. matching_totp_counter e' user code (ac_now e') = Inr (Some c)
      then ''otp'' else ''recovery'')"
    by (rule accepted_method [OF acc])
  have primary: "primary_method_of challenge \<in> {''pwd'', ''oidc''}"
    by (simp add: primary_method_of_def)
  show ?thesis
  proof (cases "\<exists>c. matching_totp_counter e' user code (ac_now e') = Inr (Some c)")
    case True
    then have "m = ''otp''" using factor by simp
    then have "is_ok (require_recent_mfa e (tk_access pair)) \<longleftrightarrow>
        \<not> stale (ac_now e) (timestamp_of (ae_now (ac_auth e'))) (ac_step_up_minutes e)"
      using decoded primary by (auto simp: require_recent_mfa_def)
    then show ?thesis using True by auto
  next
    case False
    then have "m = ''recovery''" using factor by simp
    then have "''otp'' \<notin> set [primary_method_of challenge, m]" by (simp add: primary_method_of_def)
    then have "\<not> is_ok (require_recent_mfa e (tk_access pair))"
      unfolding require_recent_mfa_def decoded by (simp del: list.set)
    then show ?thesis using False by (auto split: sum.splits option.splits)
  qed
qed simp

text \<open>
  The access token of a refresh never passes a step-up check, whatever the clock; the one
  of a passed challenge passes the MFA step-up check exactly when a TOTP code was accepted (not a
  recovery code) and the authentication is at most the configured age old and at most 30 seconds
  in the future. The hypothesis is that decoding gives
  back the claims that were encoded.
\<close>

theorem step_up_sources:
  assumes "decodes_own e (ac_auth e')"
  shows "(refresh_access_token (ac_auth e') token tb = (Inr pair, tb') \<longrightarrow>
      \<not> is_ok (require_recent_authentication e (tk_access pair)) \<and>
      \<not> is_ok (require_recent_mfa e (tk_access pair))) \<and>
    (verify_mfa_login_challenge e' token code tb = (Inr pair, tb') \<and>
      find_action_token e' mfa_purposes token tb = Some challenge \<and>
      lock_user (at_user_id challenge) tb = Inr user \<longrightarrow>
      (is_ok (require_recent_mfa e (tk_access pair)) \<longleftrightarrow>
        (\<exists>c. matching_totp_counter e' user code (ac_now e') = Inr (Some c)) \<and>
        seconds (timestamp_of (ae_now (ac_auth e'))) \<le> ac_now e + seconds 30 \<and>
        ac_now e - seconds (timestamp_of (ae_now (ac_auth e'))) \<le> minutes (ac_step_up_minutes e)))"
proof (intro conjI impI)
  assume "refresh_access_token (ac_auth e') token tb = (Inr pair, tb')"
  note no = refresh_step_up [OF assms this]
  show "\<not> is_ok (require_recent_authentication e (tk_access pair))"
    "\<not> is_ok (require_recent_mfa e (tk_access pair))" using no by blast+
next
  assume "verify_mfa_login_challenge e' token code tb = (Inr pair, tb') \<and>
      find_action_token e' mfa_purposes token tb = Some challenge \<and>
      lock_user (at_user_id challenge) tb = Inr user"
  then have "is_ok (require_recent_mfa e (tk_access pair)) \<longleftrightarrow>
      (\<exists>c. matching_totp_counter e' user code (ac_now e') = Inr (Some c)) \<and>
      \<not> stale (ac_now e) (timestamp_of (ae_now (ac_auth e'))) (ac_step_up_minutes e)"
    using verify_step_up [OF assms] by blast
  then show "is_ok (require_recent_mfa e (tk_access pair)) \<longleftrightarrow>
        (\<exists>c. matching_totp_counter e' user code (ac_now e') = Inr (Some c)) \<and>
        seconds (timestamp_of (ae_now (ac_auth e'))) \<le> ac_now e + seconds 30 \<and>
        ac_now e - seconds (timestamp_of (ae_now (ac_auth e'))) \<le> minutes (ac_step_up_minutes e)"
    by (simp add: stale_def Let_def not_less)
qed

section \<open>A sample token encoding\<close>

text \<open>A prefix-free encoding of claims, so that decoding can give them back.\<close>

definition code_string :: "string \<Rightarrow> string" where
  "code_string s = concat (map (\<lambda>c. [CHR ''x'', c]) s) @ ''.''"

definition code_strings :: "string list \<Rightarrow> string" where
  "code_strings ss = concat (map (\<lambda>s. CHR ''x'' # code_string s) ss) @ ''.''"

definition code_claims :: "claims \<Rightarrow> string" where
  "code_claims c = code_strings ([cl_sub c, cl_aud c, cl_iss c, show_int (cl_exp c)] @
     (case cl_auth_time c of None \<Rightarrow> [''none''] | Some t \<Rightarrow> [''some'', show_int t]) @ cl_amr c)"

lemma code_string_prefix: "code_string s @ r = code_string t @ r' \<Longrightarrow> s = t \<and> r = r'"
proof (induction s arbitrary: t)
  case Nil
  then show ?case by (cases t) (auto simp: code_string_def)
next
  case (Cons a s)
  then show ?case by (cases t) (auto simp: code_string_def)
qed

lemma code_strings_inject: "code_strings ss = code_strings ts \<Longrightarrow> ss = ts"
proof (induction ss arbitrary: ts)
  case Nil
  then show ?case by (cases ts) (auto simp: code_strings_def)
next
  case (Cons s ss)
  then obtain t ts' where ts: "ts = t # ts'" by (cases ts) (auto simp: code_strings_def)
  have "code_string s @ code_strings ss = code_string t @ code_strings ts'"
    using Cons.prems by (simp add: ts code_strings_def)
  from code_string_prefix [OF this] show ?case using Cons.IH ts by simp
qed

lemma code_claims_inject: "code_claims c = code_claims d \<Longrightarrow> c = d"
  unfolding code_claims_def
  by (drule code_strings_inject, cases c; cases d) (auto dest!: show_int_inject split: option.splits)

definition sample_decode :: "string \<Rightarrow> jwt_payload option" where
  "sample_decode s = (if \<exists>c. code_claims c = s
     then (let c = (THE c. code_claims c = s) in
       Some \<lparr>jp_sub = Some (cl_sub c), jp_amr = cl_amr c, jp_auth_time = cl_auth_time c\<rparr>)
     else None)"

lemma sample_decode: "sample_decode (code_claims c) =
    Some \<lparr>jp_sub = Some (cl_sub c), jp_amr = cl_amr c, jp_auth_time = cl_auth_time c\<rparr>"
proof -
  have "(THE d. code_claims d = code_claims c) = c" using code_claims_inject by blast
  then show ?thesis by (auto simp: sample_decode_def)
qed

lemma refresh_any_encoding:
  "is_ok (fst (refresh_access_token (ae\<lparr>ae_encode := f\<rparr>) token tb)) =
   is_ok (fst (refresh_access_token ae token tb))"
  by (simp add: refresh_access_token_def find_refresh_token_def hash_refresh_token_def
      session_row_def create_refresh_token_def committing_def revoke_all_user_sessions_def
      revoke_user_sessions_def Let_def split: option.split)

theorem step_up_sources_witness:
  "\<not> is_ok (require_recent_mfa (sample_account\<lparr>ac_decode := sample_decode\<rparr>)
     (case fst (refresh_access_token (sample_auth2\<lparr>ae_encode := code_claims\<rparr>) ''t1''
        sample_session_tables) of Inr pair \<Rightarrow> tk_access pair | Inl _ \<Rightarrow> []))"
proof -
  let ?ae = "sample_auth2\<lparr>ae_encode := code_claims\<rparr>"
  let ?e = "sample_account\<lparr>ac_decode := sample_decode\<rparr>"
  let ?run = "refresh_access_token ?ae ''t1'' sample_session_tables"
  have auth: "ac_auth (sample_account\<lparr>ac_auth := ?ae\<rparr>) = ?ae" by simp
  have dec: "decodes_own ?e (ac_auth (sample_account\<lparr>ac_auth := ?ae\<rparr>))"
    by (simp add: decodes_own_def sample_decode)
  have "is_ok (fst ?run)" unfolding refresh_any_encoding by (simp add: sample_refresh)
  then obtain pair where run: "?run = (Inr pair, snd ?run)"
    by (metis is_ok_iff prod.collapse)
  have "\<not> is_ok (require_recent_mfa ?e (tk_access pair))"
    using step_up_sources [OF dec, of "''t1''" sample_session_tables pair "snd ?run"] run
    unfolding auth by blast
  then show ?thesis by (subst run) simp
qed

lemma login_challenged:
  assumes "account_ok tb" and "u \<in> set (users tb)"
    and "login e (u_username u) password device tb = (Inr (LoginChallenge ch), tb')"
  shows "u_mfa_enabled_at u \<noteq> None \<and> refresh_tokens tb' = refresh_tokens tb \<and> users tb' = users tb \<and>
    filter (\<lambda>t. (at_user_id t = u_id u \<and> at_purpose t \<in> set mfa_purposes) \<and> at_consumed_at t = None)
      (action_tokens tb') = [action_row e (u_id u) MFA_LOGIN_PURPOSE device (ac_challenge_minutes e)]"
proof -
  let ?P = "\<lambda>t. at_user_id t = u_id u \<and> at_purpose t \<in> set mfa_purposes"
  have en: "u_mfa_enabled_at u \<noteq> None"
    and prep: "prepare_mfa_login_challenge e u device ''pwd'' tb = (Inr ch, tb')"
    using assms(3) unfolding login_def username_unique(1) [OF assms(1,2)] issue_mfa_login_challenge_def
    by (auto simp: committed_Inr split: if_splits prod.splits sum.splits)
  from prep have "insert_action_token (action_row e (u_id u) MFA_LOGIN_PURPOSE device
      (ac_challenge_minutes e)) (consume_where ?P (ac_now e) tb) = Some tb'"
    unfolding prepare_mfa_login_challenge_def Let_def
    by (auto split: sum.splits option.splits)
  from insert_action_token_Some [OF this]
  have "action_tokens tb' = map (\<lambda>t. if ?P t \<and> at_consumed_at t = None then consume_with (ac_now e) t else t)
      (action_tokens tb) @ [action_row e (u_id u) MFA_LOGIN_PURPOSE device (ac_challenge_minutes e)]"
    unfolding consume_where_rows [symmetric] by simp
  then have "filter (\<lambda>t. ?P t \<and> at_consumed_at t = None) (action_tokens tb') =
      [action_row e (u_id u) MFA_LOGIN_PURPOSE device (ac_challenge_minutes e)]"
    by (simp only: filter_append filter_consumed) (simp add: mfa_purposes_def)
  then show ?thesis using en challenge_same [OF prep] by blast
qed

lemma login_issued:
  assumes "account_ok tb" and "u \<in> set (users tb)"
    and "login e (u_username u) password device tb = (Inr (LoginTokens pair), tb')"
  shows "u_mfa_enabled_at u = None \<and> tb' = tb\<lparr>refresh_tokens := refresh_tokens tb @
    [session_row (ac_auth e) (u_id u) (ae_new_family (ac_auth e)) device]\<rparr>"
proof -
  have en: "u_mfa_enabled_at u = None"
    and prep: "prepare_session_tokens (ac_auth e) (u_id u) device [''pwd''] tb = (Inr pair, tb')"
    using assms(3) unfolding login_def username_unique(1) [OF assms(1,2)]
    by (auto simp: committed_Inr split: if_splits prod.splits sum.splits)
  from prep obtain user where us: "find (\<lambda>v. u_id v = u_id u) (users tb) = Some user"
    and ins: "insert_refresh_token (session_row (ac_auth e) (u_id user)
      (ae_new_family (ac_auth e)) device) tb = Some tb'"
    unfolding prepare_session_tokens_def by (auto simp: Let_def split: option.splits if_splits)
  have "u_id user = u_id u" using find_Some [OF us] by simp
  then show ?thesis using en insert_refresh_token_Some [OF ins] by simp
qed

text \<open>
  Password login on every branch: an unknown name, an inactive user, a user without password
  login and a wrong password get the same reply and change nothing; a user with MFA gets a
  challenge and no session, with exactly one live challenge left; any other user gets exactly
  one new live session for the device, and nothing else changes.
\<close>

theorem login_complete:
  assumes "account_ok tb" and "u \<in> set (users tb)" and "login e (u_username u) password device tb = (r, tb')"
  shows "(name \<notin> u_username ` set (users tb) \<longrightarrow>
      login e name password device tb = (Inl INVALID_LOGIN, tb)) \<and>
    (\<not> (u_is_active u \<and> u_password_login_enabled u \<and> verify_password e password (u_password u)) \<longrightarrow>
      r = Inl INVALID_LOGIN \<and> tb' = tb) \<and>
    (\<not> is_ok r \<longrightarrow> tb' = tb) \<and>
    (r = Inr (LoginChallenge ch) \<longrightarrow> u_mfa_enabled_at u \<noteq> None \<and>
      refresh_tokens tb' = refresh_tokens tb \<and> users tb' = users tb \<and>
      filter (\<lambda>t. (at_user_id t = u_id u \<and> at_purpose t \<in> set mfa_purposes) \<and> at_consumed_at t = None)
        (action_tokens tb') =
        [action_row e (u_id u) MFA_LOGIN_PURPOSE device (ac_challenge_minutes e)]) \<and>
    (r = Inr (LoginTokens pair) \<longrightarrow> u_mfa_enabled_at u = None \<and>
      tb' = tb\<lparr>refresh_tokens := refresh_tokens tb @
        [session_row (ac_auth e) (u_id u) (ae_new_family (ac_auth e)) device]\<rparr>)"
proof -
  note byname = username_unique(1) [OF assms(1,2)]
  have run: "login e (u_username u) password device tb = (r, tb')" by (rule assms(3))
  have unknown: "login e name password device tb = (Inl INVALID_LOGIN, tb)"
    if "name \<notin> u_username ` set (users tb)"
    using that by (auto simp: login_def find_none_iff split: option.split dest: find_Some)
  have failed: "tb' = tb" if "\<not> is_ok r"
    using run that unfolding login_def byname issue_mfa_login_challenge_def
    by (auto dest: committed_Inl split: if_splits prod.splits sum.splits)
  have "r = Inl INVALID_LOGIN \<and> tb' = tb"
    if "\<not> (u_is_active u \<and> u_password_login_enabled u \<and> verify_password e password (u_password u))"
    using run that unfolding login_def byname by (auto split: if_splits)
  with unknown failed login_challenged [OF assms(1,2)] login_issued [OF assms(1,2)] run
  show ?thesis by blast
qed

theorem login_complete_witness:
  "login sample_account ''bob'' ''pw'' ''laptop'' sample_accounts = (Inl INVALID_LOGIN, sample_accounts)"
proof -
  have "sample_member \<in> set (users sample_accounts)" "''bob'' \<notin> u_username ` set (users sample_accounts)"
    by code_simp+
  from login_complete [OF sample_accounts_ok this(1) prod.collapse [symmetric], where name = "''bob''"]
    this(2)
  show ?thesis by blast
qed

end
