(* ===== verification/RateLimit.thy ===== *)
theory RateLimit
  imports Prelude
begin

text \<open>
  Rate limiting: \<^verbatim>\<open>src/app/middlewares/rate_limit.py\<close>,
  \<^verbatim>\<open>src/app/dependencies/business_rate_limit.py\<close> and \<^verbatim>\<open>src/app/core/client_ip.py\<close>. Both
  backends count requests per client and fixed window; the interface \<open>fixed_window\<close> states
  what they have in common, and the bounds are proved from it once. The clock is the integer
  number of microseconds; \<open>cleanup\<close> reads it a second time.
\<close>

section \<open>Decisions\<close>

record decision =
  rd_allowed :: bool
  rd_retry_after :: int

section \<open>The limiter in memory\<close>

record limiter =
  rl_limit :: int
  rl_window :: int
  rl_requests :: "string \<Rightarrow> (int \<times> int) option"

definition window_at :: "int \<Rightarrow> datetime \<Rightarrow> int" where
  "window_at window t = t div seconds window"

definition cleanup :: "datetime \<Rightarrow> limiter \<Rightarrow> limiter" where
  "cleanup now l =
     (let current_window = window_at (rl_window l) now in
      l\<lparr>rl_requests := (\<lambda>client. case rl_requests l client of
          None \<Rightarrow> None
        | Some state \<Rightarrow> if current_window \<le> fst state then Some state else None)\<rparr>)"

definition retry_after_at :: "int \<Rightarrow> datetime \<Rightarrow> int" where
  "retry_after_at window t = max 1 (window - (t mod seconds window) div seconds 1)"

definition limiter_check ::
    "datetime \<Rightarrow> datetime \<Rightarrow> string \<Rightarrow> limiter \<Rightarrow> decision \<times> limiter" where
  "limiter_check current_time cleanup_time client l =
     (let current_window = window_at (rl_window l) current_time;
          l1 = cleanup cleanup_time l;
          (stored_window, stored_count) =
            (case rl_requests l1 client of None \<Rightarrow> (current_window, 0) | Some state \<Rightarrow> state);
          count = (if stored_window \<noteq> current_window then 0 else stored_count) + 1 in
      (\<lparr>rd_allowed = (count \<le> rl_limit l), rd_retry_after = retry_after_at (rl_window l) current_time\<rparr>,
       l1\<lparr>rl_requests := (rl_requests l1)(client := Some (current_window, count))\<rparr>))"

definition is_allowed :: "datetime \<Rightarrow> datetime \<Rightarrow> string \<Rightarrow> limiter \<Rightarrow> bool \<times> limiter" where
  "is_allowed current_time cleanup_time client l =
     (let (d, l') = limiter_check current_time cleanup_time client l in (rd_allowed d, l'))"

section \<open>The limiter in Redis\<close>

text \<open>
  The Lua script runs atomically. An entry is its count and its expiry time in seconds
  (\<open>None\<close>: no expiry); Redis drops an entry whose expiry has passed.
\<close>

type_synonym redis_store = "string \<Rightarrow> (int \<times> int option) option"

definition redis_get :: "int \<Rightarrow> redis_store \<Rightarrow> string \<Rightarrow> (int \<times> int option) option" where
  "redis_get now store key = (case store key of
     Some (count, Some expires) \<Rightarrow> if expires \<le> now then None else Some (count, Some expires)
   | entry \<Rightarrow> entry)"

definition rate_limit_script ::
    "int \<Rightarrow> int \<Rightarrow> string \<Rightarrow> redis_store \<Rightarrow> (int \<times> int) \<times> redis_store" where
  "rate_limit_script now window prefix store =
     (let bucket = now div window;
          key = prefix @ show_int bucket;
          (old, ttl) = (case redis_get now store key of None \<Rightarrow> (0, None) | Some entry \<Rightarrow> entry);
          count = old + 1;
          maximum_ttl = window * 2;
          expires = (if count = 1 \<or> ttl = None then Some (now + maximum_ttl) else ttl);
          retry_after = window - now mod window in
      ((count, retry_after), store(key := Some (count, expires))))"

record redis_limiter =
  rr_limit :: int
  rr_window :: int
  rr_identifier :: "string \<Rightarrow> string"        \<comment> \<open>\<open>hmac.new(key_secret, m, sha256).hexdigest()\<close>\<close>
  rr_compressed :: "string \<Rightarrow> string option"  \<comment> \<open>\<open>ip_address(candidate).compressed\<close>\<close>

definition normalize_client :: "redis_limiter \<Rightarrow> string \<Rightarrow> string" where
  "normalize_client l v =
     (let candidate = py_strip v in
      case rr_compressed l candidate of
        Some address \<Rightarrow> address
      | None \<Rightarrow>
          (let folded = take 255 (py_casefold candidate) in
           if folded = [] then ''unknown'' else folded))"

definition key_prefix :: "redis_limiter \<Rightarrow> string \<Rightarrow> string" where
  "key_prefix l client =
     ''fpapi:rate-limit:v1:'' @
     rr_identifier l (''jobtrack-api:rate-limit:v1:'' @ normalize_client l client) @ '':''"

definition redis_check ::
    "redis_limiter \<Rightarrow> int \<Rightarrow> string \<Rightarrow> redis_store \<Rightarrow> decision \<times> redis_store" where
  "redis_check l now client store =
     (let ((count, retry_after), store') =
        rate_limit_script now (rr_window l) (key_prefix l client) store in
      (\<lparr>rd_allowed = (count \<le> rr_limit l), rd_retry_after = max 1 retry_after\<rparr>, store'))"

section \<open>The client's address\<close>

text \<open>\<open>ip_address\<close>: an IPv4 address, or an IPv6 address with the IPv4 address it maps, if any.\<close>

datatype ip_address = IPv4 string | IPv6 string "string option"

definition resolve_client_ip :: "(string \<Rightarrow> ip_address option) \<Rightarrow> string option \<Rightarrow> string" where
  "resolve_client_ip parse client =
     (case client of
        None \<Rightarrow> ''unknown''
      | Some host \<Rightarrow>
          if 45 < length host then ''unknown''
          else (case parse host of
              None \<Rightarrow> ''unknown''
            | Some (IPv6 _ (Some mapped)) \<Rightarrow> mapped
            | Some (IPv6 compressed None) \<Rightarrow> compressed
            | Some (IPv4 compressed) \<Rightarrow> compressed))"

section \<open>The middleware and the dependency\<close>

record rate_env =
  re_redis :: bool                 \<comment> \<open>\<open>RATE_LIMIT_BACKEND == "redis"\<close>\<close>
  re_redis_ok :: bool              \<comment> \<open>the call raises none of \<open>RedisError\<close>, \<open>OSError\<close>, \<open>TimeoutError\<close>\<close>
  re_open :: bool                  \<comment> \<open>\<open>RATE_LIMIT_FAILURE_MODE == "open"\<close>\<close>
  re_business_open :: bool         \<comment> \<open>\<open>BUSINESS_WRITE_RATE_LIMIT_FAILURE_MODE == "open"\<close>\<close>
  re_time :: datetime
  re_cleanup_time :: datetime
  re_redis_seconds :: int          \<comment> \<open>Redis \<open>TIME\<close>\<close>
  re_parse :: "string \<Rightarrow> ip_address option"
  re_redis_limiter :: redis_limiter
  re_business_redis :: redis_limiter

record rate_state =
  rs_limiter :: limiter
  rs_business :: limiter
  rs_redis :: redis_store
  rs_decisions :: "(string \<times> string) list"   \<comment> \<open>\<open>RATE_LIMIT_DECISIONS_TOTAL\<close>\<close>
  rs_errors :: "(string \<times> string) list"      \<comment> \<open>\<open>RATE_LIMIT_BACKEND_ERRORS_TOTAL\<close>\<close>

datatype gate = Pass | Refuse int string int   \<comment> \<open>status, detail, \<open>Retry-After\<close>\<close>

definition RATE_LIMIT_EXEMPT_PATHS :: "string list" where
  "RATE_LIMIT_EXEMPT_PATHS =
     [''/health'', ''/health/db'', ''/health/live'', ''/health/ready'', ''/metrics'']"

definition count_decision :: "string \<Rightarrow> string \<Rightarrow> rate_state \<Rightarrow> rate_state" where
  "count_decision backend outcome s = s\<lparr>rs_decisions := rs_decisions s @ [(backend, outcome)]\<rparr>"

definition count_error :: "string \<Rightarrow> rate_state \<Rightarrow> rate_state" where
  "count_error operation s = s\<lparr>rs_errors := rs_errors s @ [(''redis'', operation)]\<rparr>"

definition backend_name :: "rate_env \<Rightarrow> string" where
  "backend_name e = (if re_redis e then ''redis'' else ''memory'')"

definition rate_limit_middleware ::
    "rate_env \<Rightarrow> string \<Rightarrow> string option \<Rightarrow> rate_state \<Rightarrow> gate \<times> rate_state" where
  "rate_limit_middleware e path client s =
     (if path \<in> set RATE_LIMIT_EXEMPT_PATHS then (Pass, s)
      else if re_redis e \<and> \<not> re_redis_ok e then
        (if re_open e
         then (Pass, count_decision ''redis'' ''fail_open'' (count_error ''decision'' s))
         else (Refuse 503 ''Rate limit service unavailable'' 1,
               count_decision ''redis'' ''fail_closed'' (count_error ''decision'' s)))
      else
        (let address = resolve_client_ip (re_parse e) client;
             (d, s1) =
               (if re_redis e then
                  (let (d, store) = redis_check (re_redis_limiter e) (re_redis_seconds e) address (rs_redis s)
                   in (d, s\<lparr>rs_redis := store\<rparr>))
                else
                  (let (d, l) = limiter_check (re_time e) (re_cleanup_time e) address (rs_limiter s)
                   in (d, s\<lparr>rs_limiter := l\<rparr>)));
             s2 = count_decision (backend_name e) (if rd_allowed d then ''allowed'' else ''blocked'') s1 in
         if \<not> rd_allowed d then (Refuse 429 ''Too many requests'' (rd_retry_after d), s2)
         else (Pass, s2)))"

definition business_subject :: "int \<Rightarrow> string" where
  "business_subject uid = ''business-write:user:'' @ show_int uid"

definition enforce_business_write_rate_limit ::
    "rate_env \<Rightarrow> int \<Rightarrow> rate_state \<Rightarrow> gate \<times> rate_state" where
  "enforce_business_write_rate_limit e uid s =
     (if re_redis e \<and> \<not> re_redis_ok e then
        (if re_business_open e
         then (Pass, count_decision ''redis'' ''business_write_fail_open'' (count_error ''business_write'' s))
         else (Refuse 503 ''Rate limit service unavailable'' 1, count_error ''business_write'' s))
      else
        (let (d, s1) =
               (if re_redis e then
                  (let (d, store) = redis_check (re_business_redis e) (re_redis_seconds e)
                     (business_subject uid) (rs_redis s) in (d, s\<lparr>rs_redis := store\<rparr>))
                else
                  (let (d, l) = limiter_check (re_time e) (re_cleanup_time e) (business_subject uid)
                     (rs_business s) in (d, s\<lparr>rs_business := l\<rparr>)));
             s2 = count_decision (backend_name e)
               (if rd_allowed d then ''business_write_allowed'' else ''business_write_blocked'') s1 in
         if \<not> rd_allowed d then (Refuse 429 ''Too many write requests'' (rd_retry_after d), s2)
         else (Pass, s2)))"

section \<open>The interface of a fixed-window counter\<close>

text \<open>
  The specification keeps the requests themselves: a request is admitted when fewer than
  \<open>limit\<close> requests of its subject were made in its window before it.
\<close>

definition made :: "('e \<Rightarrow> 'c) \<Rightarrow> ('e \<Rightarrow> int) \<Rightarrow> 'e list \<Rightarrow> 'c \<Rightarrow> int \<Rightarrow> int" where
  "made subject slot history c b =
     int (length (filter (\<lambda>h. subject h = c \<and> slot h = b) history))"

fun admit :: "('e \<Rightarrow> 'c) \<Rightarrow> ('e \<Rightarrow> int) \<Rightarrow> int \<Rightarrow> 'e list \<Rightarrow> 'e list \<Rightarrow> bool list" where
  "admit subject slot limit history [] = []"
| "admit subject slot limit history (e # es) =
     (made subject slot history (subject e) (slot e) < limit) #
     admit subject slot limit (history @ [e]) es"

fun serve :: "('e \<Rightarrow> 's \<Rightarrow> bool \<times> 's) \<Rightarrow> 'e list \<Rightarrow> 's \<Rightarrow> bool list" where
  "serve run [] s = []"
| "serve run (e # es) s = (let (a, s') = run e s in a # serve run es s')"

lemma made_snoc:
  "made subject slot (h @ [e]) c b =
     made subject slot h c b + (if subject e = c \<and> slot e = b then 1 else 0)"
  by (simp add: made_def)

locale fixed_window =
  fixes run :: "'e \<Rightarrow> 's \<Rightarrow> bool \<times> 's"
    and subject :: "'e \<Rightarrow> 'c"
    and slot :: "'e \<Rightarrow> int"
    and ok :: "'e \<Rightarrow> bool"
    and counted :: "'s \<Rightarrow> 'c \<Rightarrow> int \<Rightarrow> int"
    and ready :: "int \<Rightarrow> 's \<Rightarrow> bool"
    and limit :: int
  assumes decides: "ready b s \<Longrightarrow> b \<le> slot e \<Longrightarrow> ok e \<Longrightarrow>
      fst (run e s) \<longleftrightarrow> counted s (subject e) (slot e) < limit"
    and counts: "ready b s \<Longrightarrow> b \<le> slot e \<Longrightarrow> ok e \<Longrightarrow> slot e \<le> b' \<Longrightarrow>
      counted (snd (run e s)) c b' = counted s c b' + (if subject e = c \<and> slot e = b' then 1 else 0)"
    and stays: "ready b s \<Longrightarrow> b \<le> slot e \<Longrightarrow> ok e \<Longrightarrow> ready (slot e) (snd (run e s))"
begin

lemma serve_admits:
  assumes "ready b s" and "\<And>c b'. b \<le> b' \<Longrightarrow> counted s c b' = made subject slot h c b'"
    and "sorted (b # map slot es)" and "list_all ok es"
  shows "serve run es s = admit subject slot limit h es"
  using assms
proof (induction es arbitrary: b s h)
  case (Cons e es)
  have e: "b \<le> slot e" "ok e" "sorted (slot e # map slot es)" using Cons.prems(3,4) by auto
  have "serve run es (snd (run e s)) = admit subject slot limit (h @ [e]) es"
  proof (rule Cons.IH [OF stays [OF Cons.prems(1) e(1,2)]])
    show "counted (snd (run e s)) c b' = made subject slot (h @ [e]) c b'" if "slot e \<le> b'" for c b'
      using counts [OF Cons.prems(1) e(1,2) that] Cons.prems(2) [of b' c] e(1) that
      by (simp add: made_snoc)
  qed (use e Cons.prems(4) in auto)
  then show ?case
    using decides [OF Cons.prems(1) e(1,2)] Cons.prems(2) [OF e(1)]
    by (simp add: case_prod_beta Let_def)
qed simp

end

text \<open>How many requests of a subject the specification admits in a window.\<close>

lemma admitted_count:
  "int (length (filter (\<lambda>(e, a). a \<and> subject e = c \<and> slot e = b)
      (zip es (admit subject slot limit h es)))) =
   max 0 (min (made subject slot es c b) (limit - made subject slot h c b))"
proof (induction es arbitrary: h)
  case (Cons e es)
  have "made subject slot (e # es) c b =
      made subject slot es c b + (if subject e = c \<and> slot e = b then 1 else 0)"
    "0 \<le> made subject slot es c b"
    by (simp_all add: made_def)
  then show ?case
    using Cons.IH [of "h @ [e]"] by (auto simp: made_snoc)
qed (simp add: made_def)

section \<open>The memory limiter keeps the interface\<close>

type_synonym check_event = "datetime \<times> datetime \<times> string"

definition memory_run :: "check_event \<Rightarrow> limiter \<Rightarrow> bool \<times> limiter" where
  "memory_run ev l = is_allowed (fst ev) (fst (snd ev)) (snd (snd ev)) l"

definition memory_slot :: "int \<Rightarrow> check_event \<Rightarrow> int" where
  "memory_slot w ev = window_at w (fst ev)"

text \<open>The two readings of the clock in one check fall into the same window.\<close>

definition same_window :: "int \<Rightarrow> check_event \<Rightarrow> bool" where
  "same_window w ev = (window_at w (fst (snd ev)) = window_at w (fst ev))"

definition memory_counted :: "limiter \<Rightarrow> string \<Rightarrow> int \<Rightarrow> int" where
  "memory_counted l client b =
     (case rl_requests l client of Some (w, n) \<Rightarrow> if w = b then n else 0 | None \<Rightarrow> 0)"

definition memory_ready :: "int \<Rightarrow> int \<Rightarrow> int \<Rightarrow> limiter \<Rightarrow> bool" where
  "memory_ready lim w b l =
     (rl_limit l = lim \<and> rl_window l = w \<and> (\<forall>c x n. rl_requests l c = Some (x, n) \<longrightarrow> x \<le> b))"

interpretation memory: fixed_window memory_run "\<lambda>ev. snd (snd ev)" "memory_slot w" "same_window w"
    memory_counted "memory_ready lim w" lim
  for w lim :: int
proof
  fix b s e b' c
  assume ready: "memory_ready lim w b s" and le: "b \<le> memory_slot w e" and same: "same_window w e"
  obtain t tc client where e: "e = (t, tc, client)" by (cases e) auto
  note defs = memory_run_def is_allowed_def limiter_check_def cleanup_def memory_slot_def
    same_window_def memory_counted_def memory_ready_def e Let_def
  have w: "rl_window s = w" and stored: "\<And>c x n. rl_requests s c = Some (x, n) \<Longrightarrow> x \<le> b"
    using ready by (auto simp: memory_ready_def)
  show "fst (memory_run e s) \<longleftrightarrow> memory_counted s (snd (snd e)) (memory_slot w e) < lim"
    using ready le same by (auto simp: defs split: option.splits if_splits prod.splits)
  have kept: "rl_limit (snd (memory_run e s)) = rl_limit s" "rl_window (snd (memory_run e s)) = rl_window s"
    by (simp_all add: defs split: option.splits prod.splits)
  have came: "c = client \<and> x = window_at w t \<or> rl_requests s c = Some (x, n)"
    if "rl_requests (snd (memory_run e s)) c = Some (x, n)" for c x n
    using that w same by (auto simp: defs split: option.splits if_splits prod.splits)
  have "x \<le> memory_slot w e" if "rl_requests (snd (memory_run e s)) c = Some (x, n)" for c x n
    using came [OF that] stored [of c x n] le by (auto simp: memory_slot_def e)
  then show "memory_ready lim w (memory_slot w e) (snd (memory_run e s))"
    using ready kept by (simp add: memory_ready_def)
  assume later: "memory_slot w e \<le> b'"
  have after: "rl_requests (snd (memory_run e s)) client =
      Some (window_at w t, memory_counted s client (window_at w t) + 1)"
    using w same by (auto simp: defs split: option.splits if_splits prod.splits)
  have old: "memory_counted (snd (memory_run e s)) c b' = memory_counted s c b'" if "c \<noteq> client"
    using w same later that
    by (auto simp: defs split: option.splits if_splits prod.splits)
  show "memory_counted (snd (memory_run e s)) c b' =
      memory_counted s c b' + (if snd (snd e) = c \<and> memory_slot w e = b' then 1 else 0)"
  proof (cases "c = client")
    case True
    have "memory_counted s client b' = 0" if "memory_slot w e < b'"
      using stored [of client] le that
      by (cases "rl_requests s client") (auto simp: memory_counted_def)
    then show ?thesis
      using True later after by (cases "memory_slot w e = b'") (auto simp: memory_counted_def memory_slot_def e)
  next
    case False
    then show ?thesis using old by (simp add: e)
  qed
qed

section \<open>The Redis limiter keeps the interface\<close>

type_synonym redis_event = "int \<times> string"

definition redis_run ::
    "redis_limiter \<Rightarrow> redis_event \<Rightarrow> redis_store \<Rightarrow> bool \<times> redis_store" where
  "redis_run l ev store =
     (let (d, store') = redis_check l (fst ev) (snd ev) store in (rd_allowed d, store'))"

definition redis_slot :: "redis_limiter \<Rightarrow> redis_event \<Rightarrow> int" where
  "redis_slot l ev = fst ev div rr_window l"

definition identity :: "redis_limiter \<Rightarrow> string \<Rightarrow> string" where
  "identity l client = rr_identifier l (''jobtrack-api:rate-limit:v1:'' @ normalize_client l client)"

definition window_key :: "string \<Rightarrow> int \<Rightarrow> string" where
  "window_key i b = ''fpapi:rate-limit:v1:'' @ i @ '':'' @ show_int b"

definition redis_counted :: "redis_store \<Rightarrow> string \<Rightarrow> int \<Rightarrow> int" where
  "redis_counted store i b = (case store (window_key i b) of Some (n, _) \<Rightarrow> n | None \<Rightarrow> 0)"

text \<open>No counter expires before its window has ended.\<close>

definition redis_ready :: "redis_limiter \<Rightarrow> redis_store \<Rightarrow> bool" where
  "redis_ready l store =
     (0 < rr_window l \<and>
      (\<forall>i b n x. store (window_key i b) = Some (n, Some x) \<longrightarrow> (b + 1) * rr_window l \<le> x))"

lemma nat_digits_no_colon: "CHR '':'' \<notin> set (nat_digits n)"
proof (induction n rule: nat_digits.induct)
  case (1 n)
  have digit: "char_of (48 + m) \<noteq> CHR '':''" if "m < 10" for m :: nat
  proof
    assume "char_of (48 + m) = CHR '':''"
    then have "(of_char (char_of (48 + m) :: char) :: nat) = of_char CHR '':''" by simp
    with that show False by simp
  qed
  show ?case
    using 1 digit [of n] digit [of "n mod 10"] by (subst nat_digits.simps) auto
qed

lemma show_int_no_colon: "CHR '':'' \<notin> set (show_int b)"
  using nat_digits_no_colon by (auto simp: show_int_def)

lemma prefix_before_inject:
  "x \<notin> set u \<Longrightarrow> x \<notin> set v \<Longrightarrow> u @ x # p = v @ x # q \<Longrightarrow> u = v"
  by (induction u arbitrary: v) (auto simp: Cons_eq_append_conv append_eq_Cons_conv)

lemma window_key_inject [simp]: "window_key i b = window_key i' b' \<longleftrightarrow> i = i' \<and> b = b'"
proof
  assume eq: "window_key i b = window_key i' b'"
  have "rev (show_int b) @ CHR '':'' # rev i = rev (show_int b') @ CHR '':'' # rev i'"
    using arg_cong [OF eq, of rev] by (simp add: window_key_def)
  then have "rev (show_int b) = rev (show_int b')"
    by (rule prefix_before_inject [rotated 2]) (use show_int_no_colon in auto)
  then show "i = i' \<and> b = b'"
    using eq show_int_inject by (auto simp: window_key_def)
qed simp

lemma key_prefix_window: "key_prefix l client @ show_int b = window_key (identity l client) b"
  by (simp add: key_prefix_def window_key_def identity_def)

lemma now_before_end: "0 < w \<Longrightarrow> now < (now div w + 1) * w" for now :: int
  using div_mult_mod_eq [of now w] pos_mod_bound [of w now] unfolding distrib_right by linarith

lemma redis_live:
  assumes "redis_ready l s"
  shows "redis_get now s (window_key i (now div rr_window l)) = s (window_key i (now div rr_window l))"
  using assms now_before_end [of "rr_window l" now] unfolding redis_get_def redis_ready_def
  by (fastforce split: option.splits prod.splits)

lemma redis_run_step:
  assumes "redis_ready l s" and "i = identity l client" and "b = now div rr_window l"
  obtains expires where
    "redis_run l (now, client) s =
      (redis_counted s i b + 1 \<le> rr_limit l,
       s(window_key i b := Some (redis_counted s i b + 1, Some expires)))"
    "expires = now + rr_window l * 2 \<or> (\<exists>n. s (window_key i b) = Some (n, Some expires))"
proof -
  note defs = redis_run_def redis_check_def rate_limit_script_def redis_counted_def key_prefix_window
    redis_live [OF assms(1)] assms(2,3) Let_def
  show ?thesis
  proof (cases "s (window_key i b)")
    case None
    then show ?thesis using that [of "now + rr_window l * 2"] by (simp add: defs)
  next
    case (Some entry)
    then show ?thesis
      using that [of "now + rr_window l * 2"] that [of "the (snd entry)"]
      by (cases entry; cases "snd entry"; cases "fst entry = 0") (simp_all add: defs)
  qed
qed

interpretation redis: fixed_window "redis_run l" "\<lambda>ev. identity l (snd ev)" "redis_slot l"
    "\<lambda>_. True" redis_counted "\<lambda>_. redis_ready l" "rr_limit l"
  for l :: redis_limiter
proof
  fix b :: int and e :: redis_event and s b' c
  assume ready: "redis_ready l s"
  obtain now client where e: "e = (now, client)" by (cases e)
  let ?i = "identity l client" and ?b = "now div rr_window l"
  obtain expires where run: "redis_run l e s =
      (redis_counted s ?i ?b + 1 \<le> rr_limit l,
       s(window_key ?i ?b := Some (redis_counted s ?i ?b + 1, Some expires)))"
    and expires: "expires = now + rr_window l * 2 \<or> (\<exists>n. s (window_key ?i ?b) = Some (n, Some expires))"
    using redis_run_step [OF ready refl refl] e by metis
  show "fst (redis_run l e s) \<longleftrightarrow> redis_counted s (identity l (snd e)) (redis_slot l e) < rr_limit l"
    using run by (auto simp: redis_slot_def e)
  show "redis_counted (snd (redis_run l e s)) c b' =
      redis_counted s c b' + (if identity l (snd e) = c \<and> redis_slot l e = b' then 1 else 0)"
    using run by (auto simp: redis_counted_def redis_slot_def e)
  have w: "0 < rr_window l" using ready by (simp add: redis_ready_def)
  have "(?b + 1) * rr_window l \<le> now + rr_window l * 2"
    using w div_mult_mod_eq [of now "rr_window l"] pos_mod_sign [OF w, of now]
    unfolding distrib_right by linarith
  then have "(?b + 1) * rr_window l \<le> expires"
    using expires ready by (auto simp: redis_ready_def)
  then show "redis_ready l (snd (redis_run l e s))"
    using run ready by (auto simp: redis_ready_def)
qed

section \<open>Properties\<close>

definition new_limiter :: "int \<Rightarrow> int \<Rightarrow> limiter" where
  "new_limiter limit window = \<lparr>rl_limit = limit, rl_window = window, rl_requests = (\<lambda>_. None)\<rparr>"

definition redis_event_of :: "check_event \<Rightarrow> redis_event" where
  "redis_event_of ev = (timestamp_of (fst ev), snd (snd ev))"

lemma memory_ready_new: "memory_ready lim w b (new_limiter lim w)"
  by (simp add: memory_ready_def new_limiter_def)

lemma redis_ready_empty: "0 < rr_window l \<Longrightarrow> redis_ready l (\<lambda>_. None)"
  by (simp add: redis_ready_def)

text \<open>Redis cuts its windows at the same instants as the limiter in memory.\<close>

lemma redis_slot_of: "0 < rr_window l \<Longrightarrow> redis_slot l (redis_event_of ev) = memory_slot (rr_window l) ev"
  using zdiv_zmult2_eq [of "rr_window l" "fst ev" 1000000]
  by (simp add: redis_slot_def redis_event_of_def memory_slot_def window_at_def timestamp_of_def
      seconds_def mult.commute)

lemma admit_rename:
  assumes "\<And>e e'. e \<in> set (h @ es) \<Longrightarrow> e' \<in> set (h @ es) \<Longrightarrow>
      subject' (f e) = subject' (f e') \<longleftrightarrow> subject e = subject e'"
    and "\<And>e. slot' (f e) = slot e"
  shows "admit subject' slot' limit (map f h) (map f es) = admit subject slot limit h es"
  using assms(1)
proof (induction es arbitrary: h)
  case (Cons e es)
  have "made subject' slot' (map f h) (subject' (f e)) (slot' (f e)) =
      made subject slot h (subject e) (slot e)"
    using Cons.prems assms(2)
    by (auto simp: made_def filter_map comp_def intro!: arg_cong [of _ _ length] filter_cong)
  then show ?case using Cons.IH [of "h @ [e]"] Cons.prems by simp
qed simp

lemma sorted_below:
  fixes f :: "'a \<Rightarrow> 'b::linorder"
  assumes "sorted (map f es)"
  obtains b where "sorted (b # map f es)"
  using assms by (cases es) (auto intro: that)

lemma memory_serves:
  assumes "sorted (map (memory_slot w) es)" and "list_all (same_window w) es"
  shows "serve memory_run es (new_limiter lim w) =
    admit (\<lambda>ev. snd (snd ev)) (memory_slot w) lim [] es"
proof -
  obtain b where "sorted (b # map (memory_slot w) es)" using assms(1) by (rule sorted_below)
  then show ?thesis
    using memory.serve_admits [OF memory_ready_new _ _ assms(2), where b = b and h = "[]" and lim = lim]
    by (simp add: memory_counted_def new_limiter_def made_def)
qed

lemma redis_serves:
  assumes "0 < rr_window l" and "sorted (map (redis_slot l) es)"
  shows "serve (redis_run l) es (\<lambda>_. None) =
    admit (\<lambda>ev. identity l (snd ev)) (redis_slot l) (rr_limit l) [] es"
proof -
  obtain b where "sorted (b # map (redis_slot l) es)" using assms(2) by (rule sorted_below)
  then show ?thesis
    using redis.serve_admits [OF redis_ready_empty [OF assms(1)], where b = b and h = "[]"]
    by (simp add: redis_counted_def made_def list_all_iff)
qed

text \<open>
  C21: the two rate limiters implement the same specification. On requests in the order of
  their windows, the limiter in memory, and the Redis script on the same requests and keyed
  by distinct digests, admit a request exactly when fewer than \<open>limit\<close> requests of the
  client came before it in its window.
\<close>

theorem limiters_refine_spec:
  assumes "0 < rr_window l" and "lim = rr_limit l" and "w = rr_window l"
    and "sorted (map (memory_slot w) es)" and "list_all (same_window w) es"
    and "inj_on (identity l) ((\<lambda>ev. snd (snd ev)) ` set es)"
  shows "serve memory_run es (new_limiter lim w) =
      admit (\<lambda>ev. snd (snd ev)) (memory_slot w) lim [] es \<and>
    serve (redis_run l) (map redis_event_of es) (\<lambda>_. None) =
      admit (\<lambda>ev. snd (snd ev)) (memory_slot w) lim [] es"
proof -
  have "sorted (map (redis_slot l) (map redis_event_of es))"
    using assms(4) redis_slot_of [OF assms(1)] by (simp add: comp_def assms(3))
  then have "serve (redis_run l) (map redis_event_of es) (\<lambda>_. None) =
      admit (\<lambda>ev. identity l (snd ev)) (redis_slot l) (rr_limit l) [] (map redis_event_of es)"
    by (rule redis_serves [OF assms(1)])
  also have "\<dots> = admit (\<lambda>ev. identity l (snd ev)) (redis_slot l) lim
      (map redis_event_of []) (map redis_event_of es)"
    by (simp add: assms(2))
  also have "\<dots> = admit (\<lambda>ev. snd (snd ev)) (memory_slot w) lim [] es"
  proof (rule admit_rename)
    show "identity l (snd (redis_event_of e)) = identity l (snd (redis_event_of e')) \<longleftrightarrow>
        snd (snd e) = snd (snd e')" if "e \<in> set ([] @ es)" "e' \<in> set ([] @ es)" for e e'
      using that by (simp add: redis_event_of_def inj_on_eq_iff [OF assms(6)])
  qed (simp add: redis_slot_of [OF assms(1)] assms(3))
  finally show ?thesis using memory_serves [OF assms(4,5)] by blast
qed

lemma length_admit: "length (admit subject slot limit h es) = length es"
  by (induction es arbitrary: h) simp_all

lemma admit_append:
  "admit subject slot limit h (es @ fs) =
     admit subject slot limit h es @ admit subject slot limit (h @ es) fs"
  by (induction es arbitrary: h) simp_all

text \<open>After \<open>Retry-After\<close> seconds the next window has begun.\<close>

lemma retry_after_bounds: "0 < w \<Longrightarrow> 1 \<le> retry_after_at w t \<and> retry_after_at w t \<le> w"
  by (simp add: retry_after_at_def seconds_def pos_imp_zdiv_nonneg_iff)

lemma retry_after_next_window:
  assumes "0 < w" and "t + seconds (retry_after_at w t) \<le> t'"
  shows "window_at w t < window_at w t'"
proof -
  let ?W = "seconds w" and ?r = "t mod seconds w"
  have W: "0 < ?W" using assms(1) by (simp add: seconds_def)
  have "?r div seconds 1 * seconds 1 \<le> ?r"
    using div_mult_mod_eq [of ?r "seconds 1"] pos_mod_sign [of "seconds 1" ?r]
    by (simp add: seconds_def)
  then have "?W - ?r \<le> seconds (retry_after_at w t)"
    by (auto simp: retry_after_at_def seconds_def max_def)
  then have "(window_at w t + 1) * ?W \<le> t'"
    using assms(2) div_mult_mod_eq [of t ?W] unfolding window_at_def distrib_right by linarith
  then have "window_at w t + 1 \<le> t' div ?W"
    using zdiv_mono1 [OF _ W, of "(window_at w t + 1) * ?W" t'] W by simp
  then show ?thesis by (simp add: window_at_def)
qed

text \<open>
  C23: \<open>Retry-After\<close> is honoured: it lies between one second and the window, and a client that
  stays silent for that long is admitted again, whatever happened before and whatever other
  clients did meanwhile.
\<close>

theorem retry_after_honoured:
  assumes "0 < w" and "0 < lim"
    and "sorted (map (memory_slot w) (es @ [(t, tc, c)] @ fs @ [(t', tc', c)]))"
    and "list_all (same_window w) (es @ [(t, tc, c)] @ fs @ [(t', tc', c)])"
    and "list_all (\<lambda>ev. snd (snd ev) \<noteq> c) fs"
    and "t + seconds (retry_after_at w t) \<le> t'"
  shows "1 \<le> retry_after_at w t \<and> retry_after_at w t \<le> w \<and>
    last (serve memory_run (es @ [(t, tc, c)] @ fs @ [(t', tc', c)]) (new_limiter lim w))"
proof -
  let ?h = "es @ [(t, tc, c)] @ fs"
  have "serve memory_run (?h @ [(t', tc', c)]) (new_limiter lim w) =
      admit (\<lambda>ev. snd (snd ev)) (memory_slot w) lim [] (?h @ [(t', tc', c)])"
    using memory_serves assms(3,4) by simp
  moreover have "made (\<lambda>ev. snd (snd ev)) (memory_slot w) ?h c (memory_slot w (t', tc', c)) = 0"
  proof -
    have later: "window_at w t < window_at w t'" by (rule retry_after_next_window [OF assms(1,6)])
    have "\<not> (snd (snd h) = c \<and> memory_slot w h = memory_slot w (t', tc', c))" if "h \<in> set ?h" for h
    proof (cases "h \<in> set fs")
      case True
      then show ?thesis using assms(5) by (simp add: list_all_iff)
    next
      case False
      then have "memory_slot w h \<le> window_at w t"
        using that assms(3) by (auto simp: sorted_append memory_slot_def)
      then show ?thesis using later by (simp add: memory_slot_def)
    qed
    then show ?thesis by (simp add: made_def filter_empty_conv)
  qed
  ultimately show ?thesis using assms(2) retry_after_bounds [OF assms(1)] by (simp add: admit_append)
qed

definition sample_redis_limiter :: redis_limiter where
  "sample_redis_limiter =
     \<lparr>rr_limit = 1, rr_window = 60, rr_identifier = (\<lambda>m. m), rr_compressed = (\<lambda>_. None)\<rparr>"

definition sample_events :: "check_event list" where
  "sample_events =
     [(seconds 10, seconds 10, ''a''), (seconds 20, seconds 21, ''b''), (seconds 59, seconds 59, ''a''),
      (seconds 60, seconds 61, ''a'')]"

theorem limiters_refine_spec_witness:
  "serve memory_run sample_events (new_limiter 1 60) = [True, True, False, True] \<and>
   serve (redis_run sample_redis_limiter) (map redis_event_of sample_events) (\<lambda>_. None) =
     [True, True, False, True]"
proof -
  have "sorted (map (memory_slot 60) sample_events)" "list_all (same_window 60) sample_events"
    "admit (\<lambda>ev. snd (snd ev)) (memory_slot 60) 1 [] sample_events = [True, True, False, True]"
    "identity sample_redis_limiter ''a'' \<noteq> identity sample_redis_limiter ''b''"
    "0 < rr_window sample_redis_limiter" "1 = rr_limit sample_redis_limiter"
    "60 = rr_window sample_redis_limiter"
    by code_simp+
  note facts = this
  have "inj_on (identity sample_redis_limiter) {''a'', ''b''}"
    using facts(4) by (auto simp only: inj_on_def insert_iff empty_iff)
  then have inj: "inj_on (identity sample_redis_limiter) ((\<lambda>ev. snd (snd ev)) ` set sample_events)"
    by (simp add: sample_events_def insert_commute)
  show ?thesis
    using limiters_refine_spec [OF facts(5-7,1,2) inj] unfolding facts(3) .
qed

theorem retry_after_honoured_witness:
  "retry_after_at 60 (seconds 59) = 1 \<and>
   last (serve memory_run
     ([(seconds 10, seconds 10, ''a'')] @ [(seconds 59, seconds 59, ''a'')] @
      [(seconds 59, seconds 59, ''b'')] @ [(seconds 60, seconds 60, ''a'')]) (new_limiter 1 60))"
proof -
  have "retry_after_at 60 (seconds 59) = 1" by code_simp
  then show ?thesis
    using retry_after_honoured [of 60 1 "[(seconds 10, seconds 10, ''a'')]" "seconds 59" "seconds 59" "''a''"
        "[(seconds 59, seconds 59, ''b'')]" "seconds 60" "seconds 60"]
    by (simp add: memory_slot_def same_window_def window_at_def seconds_def)
qed

section \<open>The middleware in front of the limiter\<close>

text \<open>
  A request: the two readings of the clock, the path and the peer's host. The middleware with
  the limiter in memory is itself a fixed-window counter of the resolved addresses.
\<close>

type_synonym request_event = "datetime \<times> datetime \<times> string \<times> string option"

definition gate_run :: "rate_env \<Rightarrow> request_event \<Rightarrow> rate_state \<Rightarrow> bool \<times> rate_state" where
  "gate_run e ev s =
     (case ev of (t, tc, path, client) \<Rightarrow>
        let (g, s') = rate_limit_middleware (e\<lparr>re_time := t, re_cleanup_time := tc\<rparr>) path client s
        in (g = Pass, s'))"

definition gate_address :: "rate_env \<Rightarrow> request_event \<Rightarrow> string" where
  "gate_address e ev = resolve_client_ip (re_parse e) (snd (snd (snd ev)))"

definition gate_ok :: "rate_env \<Rightarrow> int \<Rightarrow> request_event \<Rightarrow> bool" where
  "gate_ok e w ev = (\<not> re_redis e \<and> window_at w (fst (snd ev)) = window_at w (fst ev) \<and>
     fst (snd (snd ev)) \<notin> set RATE_LIMIT_EXEMPT_PATHS)"

definition gate_slot :: "int \<Rightarrow> request_event \<Rightarrow> int" where
  "gate_slot w ev = window_at w (fst ev)"

lemma gate_run_memory:
  assumes "gate_ok e w ev"
  shows "fst (gate_run e ev s) = fst (memory_run (fst ev, fst (snd ev), gate_address e ev) (rs_limiter s))"
    and "rs_limiter (snd (gate_run e ev s)) =
      snd (memory_run (fst ev, fst (snd ev), gate_address e ev) (rs_limiter s))"
  using assms
  by (auto simp: gate_run_def gate_ok_def gate_address_def memory_run_def is_allowed_def
      rate_limit_middleware_def count_decision_def Let_def split: prod.splits)

interpretation gate: fixed_window "gate_run e" "gate_address e" "gate_slot w" "gate_ok e w"
    "\<lambda>s. memory_counted (rs_limiter s)" "\<lambda>b s. memory_ready lim w b (rs_limiter s)" lim
  for e :: rate_env and w lim :: int
proof
  fix b and s :: rate_state and ev b' c
  assume ready: "memory_ready lim w b (rs_limiter s)" and le: "b \<le> gate_slot w ev"
    and ok: "gate_ok e w ev"
  let ?m = "(fst ev, fst (snd ev), gate_address e ev)"
  have m: "b \<le> memory_slot w ?m" "same_window w ?m"
    using le ok by (simp_all add: memory_slot_def gate_slot_def same_window_def gate_ok_def)
  note run = gate_run_memory [OF ok, of s]
  show "fst (gate_run e ev s) \<longleftrightarrow>
      memory_counted (rs_limiter s) (gate_address e ev) (gate_slot w ev) < lim"
    using memory.decides [OF ready m] run by (simp add: memory_slot_def gate_slot_def)
  show "memory_ready lim w (gate_slot w ev) (rs_limiter (snd (gate_run e ev s)))"
    using memory.stays [OF ready m] run by (simp add: memory_slot_def gate_slot_def)
  assume "gate_slot w ev \<le> b'"
  then show "memory_counted (rs_limiter (snd (gate_run e ev s))) c b' = memory_counted (rs_limiter s) c b' +
      (if gate_address e ev = c \<and> gate_slot w ev = b' then 1 else 0)"
    using memory.counts [OF ready m, of b' c] run by (simp add: memory_slot_def gate_slot_def)
qed

lemma gate_serves:
  assumes "sorted (map (gate_slot w) es)" and "list_all (gate_ok e w) es"
    and "rs_limiter s = new_limiter lim w"
  shows "serve (gate_run e) es s = admit (gate_address e) (gate_slot w) lim [] es"
proof -
  obtain b where "sorted (b # map (gate_slot w) es)" using assms(1) by (rule sorted_below)
  then show ?thesis
    using gate.serve_admits [OF _ _ _ assms(2), where b = b and h = "[]" and lim = lim and s = s]
      memory_ready_new [of lim w b] assms(3)
    by (simp add: memory_counted_def new_limiter_def made_def)
qed

text \<open>
  C22: the middleware lets exactly the first \<open>limit\<close> requests of an address through in each
  window, whatever the other addresses do: the number that pass is the smaller of the limit
  and the number of requests.
\<close>

theorem window_budget:
  assumes "0 \<le> lim" and "sorted (map (gate_slot w) es)" and "list_all (gate_ok e w) es"
    and "rs_limiter s = new_limiter lim w"
  shows "int (length (filter (\<lambda>(ev, passed). passed \<and> gate_address e ev = c \<and> gate_slot w ev = b)
      (zip es (serve (gate_run e) es s)))) =
    min lim (int (length (filter (\<lambda>ev. gate_address e ev = c \<and> gate_slot w ev = b) es)))"
  using assms(1) gate_serves [OF assms(2-4)]
    admitted_count [of "gate_address e" c "gate_slot w" b es lim "[]"]
  by (simp add: made_def min.commute)

definition sample_rate_env :: rate_env where
  "sample_rate_env =
     \<lparr>re_redis = False, re_redis_ok = True, re_open = False, re_business_open = False, re_time = 0,
      re_cleanup_time = 0, re_redis_seconds = 0, re_parse = (\<lambda>h. Some (IPv4 h)),
      re_redis_limiter = sample_redis_limiter, re_business_redis = sample_redis_limiter\<rparr>"

definition sample_rate_state :: rate_state where
  "sample_rate_state =
     \<lparr>rs_limiter = new_limiter 1 60, rs_business = new_limiter 1 60, rs_redis = (\<lambda>_. None),
      rs_decisions = [], rs_errors = []\<rparr>"

definition sample_requests :: "request_event list" where
  "sample_requests =
     [(seconds 10, seconds 10, ''/jobs'', Some ''10.0.0.1''), (seconds 20, seconds 20, ''/jobs'', Some ''10.0.0.2''),
      (seconds 30, seconds 30, ''/companies'', Some ''10.0.0.1'')]"

theorem window_budget_witness:
  "int (length (filter (\<lambda>(ev, passed). passed \<and> gate_address sample_rate_env ev = ''10.0.0.1'' \<and>
      gate_slot 60 ev = 0)
      (zip sample_requests (serve (gate_run sample_rate_env) sample_requests sample_rate_state)))) = 1"
proof -
  have "sorted (map (gate_slot 60) sample_requests)" "list_all (gate_ok sample_rate_env 60) sample_requests"
    "length (filter (\<lambda>ev. gate_address sample_rate_env ev = ''10.0.0.1'' \<and> gate_slot 60 ev = 0)
      sample_requests) = 2"
    by code_simp+
  then show ?thesis
    using window_budget [of 1 60 sample_requests sample_rate_env sample_rate_state "''10.0.0.1''" 0]
    by (simp add: sample_rate_state_def)
qed

end
