(* ===== verification/Dashboard.thy ===== *)
theory Dashboard
  imports Business
begin

text \<open>
  The Dashboard: \<^verbatim>\<open>src/app/repositories/dashboard_repository.py\<close>,
  \<^verbatim>\<open>src/app/services/dashboard_service.py\<close> and \<^verbatim>\<open>src/app/schemas/dashboard.py\<close>. The
  aggregate is translated query by query; the service reads the cache first (theory \<open>Writes\<close>)
  and fills it on a miss. The lemmas show what the aggregate counts and lists, that it depends
  on the user's own rows only, and that the cache stays coherent with the database.
\<close>

section \<open>Response models\<close>

record company_summary =
  cs_id :: int
  cs_name :: string

record job_summary =
  js_id :: int
  js_company_id :: int
  js_title :: string
  js_status :: job_status
  js_company_summary :: company_summary

record application_summary =
  as_id :: int
  as_job_id :: int
  as_status :: application_status
  as_priority :: int
  as_job_summary :: job_summary

record dashboard_interview =
  di_id :: int
  di_application_id :: int
  di_interview_type :: interview_type
  di_scheduled_at :: datetime
  di_duration_minutes :: int
  di_application_summary :: application_summary

record dashboard_action =
  da_application_id :: int
  da_job_id :: int
  da_status :: application_status
  da_next_action_at :: datetime
  da_job_summary :: job_summary

text \<open>The conversion rate is a number of ten-thousandths: the code rounds to four decimals.\<close>

record dashboard =
  d_company_count :: int
  d_job_count :: int
  d_application_status_counts :: "(application_status \<times> int) list"
  d_applications_last_7_days :: int
  d_offer_conversion_rate :: int
  d_upcoming_interviews :: "dashboard_interview list"
  d_overdue_actions :: "dashboard_action list"
  d_upcoming_actions :: "dashboard_action list"
  d_generated_at :: datetime

section \<open>Division and rounding\<close>

text \<open>
  \<open>n / d\<close> is the nearest binary fraction with 53 significant bits, and \<open>round(x, 4)\<close> the nearest
  multiple of \<open>1/10000\<close> of that fraction; both break ties to the even side.
\<close>

definition round_half_even :: "int \<Rightarrow> int \<Rightarrow> int" where
  "round_half_even a b =
     (let q = a div b; r = a mod b in
      if 2 * r < b then q else if b < 2 * r then q + 1 else if even q then q else q + 1)"

function scale_bits :: "int \<Rightarrow> int \<Rightarrow> nat" where
  "scale_bits n d = (if n \<le> 0 \<or> 2 ^ 52 * d \<le> n then 0 else Suc (scale_bits (2 * n) d))"
  by auto
termination
  by (relation "measure (\<lambda>(n, d). nat (2 ^ 52 * d - n))") auto

declare scale_bits.simps [simp del]

definition rate_4 :: "int \<Rightarrow> int \<Rightarrow> int" where
  "rate_4 n d =
     (let e = scale_bits n d; mantissa = round_half_even (n * 2 ^ e) d in
      round_half_even (mantissa * 10000) (2 ^ e))"

lemma round_half_even_le:
  assumes "0 < b" and "a \<le> c * b"
  shows "round_half_even a b \<le> c"
proof -
  have eq: "a = a div b * b + a mod b" "0 \<le> a mod b" using assms(1) by simp_all
  have "a div b \<le> c" using assms zdiv_mono1 [OF assms(2,1)] by simp
  moreover have "a mod b = 0" if "a div b = c" using eq assms(2) unfolding that by linarith
  ultimately have "a div b = c \<and> a mod b = 0 \<or> a div b + 1 \<le> c" by linarith
  then show ?thesis using assms(1) by (auto simp: round_half_even_def Let_def)
qed

lemma round_half_even_ge:
  assumes "0 < b" and "c * b \<le> a"
  shows "c \<le> round_half_even a b"
proof -
  have "c \<le> a div b" using zdiv_mono1 [OF assms(2,1)] assms(1) by simp
  then show ?thesis by (auto simp: round_half_even_def Let_def)
qed

lemma rate_4_bounds:
  assumes "0 < d" and "0 \<le> n" and "n \<le> d"
  shows "0 \<le> rate_4 n d \<and> rate_4 n d \<le> 10000"
proof -
  let ?e = "scale_bits n d"
  let ?m = "round_half_even (n * 2 ^ ?e) d"
  have "0 \<le> ?m" using assms by (intro round_half_even_ge) simp_all
  moreover have "?m \<le> 2 ^ ?e" using assms by (intro round_half_even_le) (simp_all add: mult.commute)
  ultimately show ?thesis
    unfolding rate_4_def Let_def by (auto intro!: round_half_even_ge round_half_even_le)
qed

section \<open>The joins\<close>

definition job_company :: "tables \<Rightarrow> job \<Rightarrow> company option" where
  "job_company tb j =
     find (\<lambda>c. c_owner_id c = j_owner_id j \<and> c_id c = j_company_id j) (companies tb)"

definition application_job :: "tables \<Rightarrow> application \<Rightarrow> job option" where
  "application_job tb a =
     find (\<lambda>j. j_owner_id j = a_owner_id a \<and> j_id j = a_job_id a) (jobs tb)"

definition interview_application :: "tables \<Rightarrow> interview \<Rightarrow> application option" where
  "interview_application tb i =
     find (\<lambda>a. a_owner_id a = i_owner_id i \<and> a_id a = i_application_id i) (applications tb)"

definition job_summary_of :: "tables \<Rightarrow> job \<Rightarrow> job_summary option" where
  "job_summary_of tb j = map_option (\<lambda>c.
     \<lparr>js_id = j_id j, js_company_id = j_company_id j, js_title = j_title j, js_status = j_status j,
      js_company_summary = \<lparr>cs_id = c_id c, cs_name = c_name c\<rparr>\<rparr>) (job_company tb j)"

definition application_summary_of :: "tables \<Rightarrow> application \<Rightarrow> application_summary option" where
  "application_summary_of tb a =
     Option.bind (application_job tb a) (\<lambda>j. map_option (\<lambda>s.
       \<lparr>as_id = a_id a, as_job_id = a_job_id a, as_status = a_status a, as_priority = a_priority a,
        as_job_summary = s\<rparr>) (job_summary_of tb j))"

definition dashboard_interview_of :: "tables \<Rightarrow> interview \<Rightarrow> dashboard_interview option" where
  "dashboard_interview_of tb i =
     Option.bind (interview_application tb i) (\<lambda>a. map_option (\<lambda>s.
       \<lparr>di_id = i_id i, di_application_id = i_application_id i, di_interview_type = i_type i,
        di_scheduled_at = i_scheduled_at i, di_duration_minutes = i_duration_minutes i,
        di_application_summary = s\<rparr>) (application_summary_of tb a))"

definition dashboard_action_of :: "tables \<Rightarrow> application \<Rightarrow> dashboard_action option" where
  "dashboard_action_of tb a =
     (case (application_job tb a, a_next_action_at a) of
        (Some j, Some due) \<Rightarrow> map_option (\<lambda>s.
          \<lparr>da_application_id = a_id a, da_job_id = a_job_id a, da_status = a_status a,
           da_next_action_at = due, da_job_summary = s\<rparr>) (job_summary_of tb j)
      | _ \<Rightarrow> None)"

section \<open>The aggregate\<close>

definition APPLICATION_STATUSES :: "application_status list" where
  "APPLICATION_STATUSES =
     [SAVED, APPLIED, SCREENING, INTERVIEW, OFFER, REJECTED, WITHDRAWN, ARCHIVED]"

definition ACTIONABLE_STATUSES :: "application_status list" where
  "ACTIONABLE_STATUSES = [SAVED, APPLIED, SCREENING, INTERVIEW, OFFER]"

definition LIST_LIMIT :: nat where
  "LIST_LIMIT = 20"

definition applications_of :: "tables \<Rightarrow> int \<Rightarrow> application list" where
  "applications_of tb owner = filter (\<lambda>a. a_owner_id a = owner) (applications tb)"

definition status_rows :: "tables \<Rightarrow> int \<Rightarrow> (application_status \<times> int) list" where
  "status_rows tb owner =
     map (\<lambda>s. (s, int (length (filter (\<lambda>a. a_status a = s) (applications_of tb owner)))))
       (remdups (map a_status (applications_of tb owner)))"

definition status_counts :: "tables \<Rightarrow> int \<Rightarrow> (application_status \<times> int) list" where
  "status_counts tb owner =
     map (\<lambda>s. (s, case map_of (status_rows tb owner) s of None \<Rightarrow> 0 | Some n \<Rightarrow> n))
       APPLICATION_STATUSES"

text \<open>The outer join with the history, its \<open>WHERE\<close> and the count of distinct identifiers.\<close>

definition history_join :: "tables \<Rightarrow> application \<Rightarrow> (application \<times> history_row option) list" where
  "history_join tb a =
     (case filter (\<lambda>h. h_application_id h = a_id a) (histories tb) of
        [] \<Rightarrow> [(a, None)]
      | hs \<Rightarrow> map (\<lambda>h. (a, Some h)) hs)"

definition offer_count :: "tables \<Rightarrow> int \<Rightarrow> int" where
  "offer_count tb owner =
     int (length (remdups (map (\<lambda>(a, h). a_id a)
       (filter (\<lambda>(a, h). a_owner_id a = owner \<and> a_applied_at a \<noteq> None \<and>
            (a_status a = OFFER \<or> (case h of None \<Rightarrow> False | Some row \<Rightarrow> h_to row = OFFER)))
          (concat (map (history_join tb) (applications tb)))))))"

definition applied_count :: "tables \<Rightarrow> int \<Rightarrow> int" where
  "applied_count tb owner =
     int (length (filter (\<lambda>a. a_applied_at a \<noteq> None) (applications_of tb owner)))"

definition conversion_rate :: "tables \<Rightarrow> int \<Rightarrow> int" where
  "conversion_rate tb owner =
     (if applied_count tb owner = 0 then 0 else rate_4 (offer_count tb owner) (applied_count tb owner))"

definition before_by :: "('r \<Rightarrow> int) \<Rightarrow> ('r \<Rightarrow> int) \<Rightarrow> 'r \<Rightarrow> 'r \<Rightarrow> bool" where
  "before_by at ident a b = (at a < at b \<or> at a = at b \<and> ident a \<le> ident b)"

definition interview_due :: "datetime \<Rightarrow> int \<Rightarrow> interview \<Rightarrow> bool" where
  "interview_due now owner i =
     (i_owner_id i = owner \<and> i_status i = SCHEDULED \<and>
      now \<le> i_scheduled_at i \<and> i_scheduled_at i \<le> now + days 7)"

definition next_action :: "application \<Rightarrow> datetime" where
  "next_action a = (case a_next_action_at a of None \<Rightarrow> 0 | Some t \<Rightarrow> t)"

definition action_due :: "int \<Rightarrow> application \<Rightarrow> bool" where
  "action_due owner a =
     (a_owner_id a = owner \<and> a_status a \<in> set ACTIONABLE_STATUSES \<and> a_next_action_at a \<noteq> None)"

definition interview_rows :: "tables \<Rightarrow> datetime \<Rightarrow> int \<Rightarrow> interview list" where
  "interview_rows tb now owner =
     take LIST_LIMIT (sort_by (before_by i_scheduled_at i_id)
       (filter (\<lambda>i. interview_due now owner i \<and> dashboard_interview_of tb i \<noteq> None) (interviews tb)))"

definition action_rows :: "tables \<Rightarrow> (datetime \<Rightarrow> bool) \<Rightarrow> int \<Rightarrow> application list" where
  "action_rows tb within owner =
     take LIST_LIMIT (sort_by (before_by next_action a_id)
       (filter (\<lambda>a. action_due owner a \<and> within (next_action a) \<and> dashboard_action_of tb a \<noteq> None)
          (applications tb)))"

definition aggregate :: "tables \<Rightarrow> datetime \<Rightarrow> int \<Rightarrow> dashboard" where
  "aggregate tb now owner =
     \<lparr>d_company_count = int (length (filter (\<lambda>c. c_owner_id c = owner) (companies tb))),
      d_job_count = int (length (filter (\<lambda>j. j_owner_id j = owner) (jobs tb))),
      d_application_status_counts = status_counts tb owner,
      d_applications_last_7_days =
        int (length (filter (\<lambda>a. now - days 7 \<le> a_created_at a) (applications_of tb owner))),
      d_offer_conversion_rate = conversion_rate tb owner,
      d_upcoming_interviews = List.map_filter (dashboard_interview_of tb) (interview_rows tb now owner),
      d_overdue_actions =
        List.map_filter (dashboard_action_of tb) (action_rows tb (\<lambda>t. t < now) owner),
      d_upcoming_actions =
        List.map_filter (dashboard_action_of tb)
          (action_rows tb (\<lambda>t. now \<le> t \<and> t \<le> now + days 7) owner),
      d_generated_at = now\<rparr>"

section \<open>The service\<close>

definition dashboard_get ::
    "(string \<Rightarrow> dashboard option) \<Rightarrow> (dashboard \<Rightarrow> string) \<Rightarrow> env \<Rightarrow> int \<Rightarrow> world \<Rightarrow> dashboard \<times> world" where
  "dashboard_get parse dump env owner w =
     (let (cached, w1) = dashboard_read parse env owner w in
      case cr_value cached of
        Some v \<Rightarrow> (v, w1)
      | None \<Rightarrow>
          (let d = aggregate (db w1) (e_now env) owner in
           (d, snd (dashboard_write dump env owner d w1))))"

section \<open>What the aggregate counts\<close>

lemma map_of_pairs: "map_of (map (\<lambda>s. (s, f s)) xs) s = (if s \<in> set xs then Some (f s) else None)"
  by (induction xs) auto

lemma status_counts_exact:
  "status_counts tb owner =
     map (\<lambda>s. (s, int (length (filter (\<lambda>a. a_status a = s) (applications_of tb owner)))))
       APPLICATION_STATUSES"
  by (auto simp: status_counts_def status_rows_def map_of_pairs filter_empty_conv)

lemma status_listed: "s \<in> set APPLICATION_STATUSES" and distinct_statuses: "distinct APPLICATION_STATUSES"
  by (cases s; simp add: APPLICATION_STATUSES_def) (simp add: APPLICATION_STATUSES_def)

lemma sum_of_counts:
  assumes "distinct ks" and "\<And>x. x \<in> set xs \<Longrightarrow> f x \<in> set ks"
  shows "(\<Sum>k\<leftarrow>ks. int (length (filter (\<lambda>x. f x = k) xs))) = int (length xs)"
  using assms(2)
proof (induction xs)
  case (Cons x xs)
  have "(\<Sum>k\<leftarrow>ks. int (length (filter (\<lambda>y. f y = k) (x # xs)))) =
      (\<Sum>k\<leftarrow>ks. (if f x = k then 1 else 0) + int (length (filter (\<lambda>y. f y = k) xs)))"
    by (intro arg_cong [of _ _ sum_list] map_cong) auto
  also have "\<dots> = (\<Sum>k\<leftarrow>ks. if f x = k then 1 else 0) + int (length xs)"
    using Cons by (simp add: sum_list_addf)
  also have "(\<Sum>k\<leftarrow>ks. if f x = k then 1 else 0) = (1::int)"
    using assms(1) Cons.prems by (simp add: sum_list_distinct_conv_sum_set)
  finally show ?case by simp
qed simp

lemma status_counts_sum:
  "sum_list (map snd (status_counts tb owner)) = int (length (applications_of tb owner))"
  unfolding status_counts_exact map_map comp_def snd_conv
  by (rule sum_of_counts) (simp_all add: status_listed distinct_statuses)

definition offered :: "tables \<Rightarrow> application \<Rightarrow> bool" where
  "offered tb a = (a_applied_at a \<noteq> None \<and> (a_status a = OFFER \<or>
     list_ex (\<lambda>h. h_application_id h = a_id a \<and> h_to h = OFFER) (histories tb)))"

lemma history_join_set:
  "set (history_join tb a) =
     (if filter (\<lambda>h. h_application_id h = a_id a) (histories tb) = [] then {(a, None)}
      else {(a, Some h) | h. h \<in> set (histories tb) \<and> h_application_id h = a_id a})"
proof -
  have "history_join tb a =
      (if filter (\<lambda>h. h_application_id h = a_id a) (histories tb) = [] then [(a, None)]
       else map (\<lambda>h. (a, Some h)) (filter (\<lambda>h. h_application_id h = a_id a) (histories tb)))"
    by (simp add: history_join_def split: list.split)
  then show ?thesis by (simp add: image_Collect)
qed

lemma offered_join:
  "(\<exists>h. (b, h) \<in> set (history_join tb a) \<and> a_applied_at b \<noteq> None \<and>
      (a_status b = OFFER \<or> (case h of None \<Rightarrow> False | Some row \<Rightarrow> h_to row = OFFER))) \<longleftrightarrow>
   b = a \<and> offered tb a"
  by (auto simp: history_join_set offered_def list_ex_iff filter_empty_conv)

lemma offer_ids:
  "set (map (\<lambda>(a, h). a_id a)
       (filter (\<lambda>(a, h). a_owner_id a = owner \<and> a_applied_at a \<noteq> None \<and>
            (a_status a = OFFER \<or> (case h of None \<Rightarrow> False | Some row \<Rightarrow> h_to row = OFFER)))
          (concat (map (history_join tb) (applications tb))))) =
   a_id ` {a \<in> set (applications tb). a_owner_id a = owner \<and> offered tb a}" (is "?l = ?r")
proof -
  have "?l = a_id ` {b. \<exists>a\<in>set (applications tb). a_owner_id b = owner \<and>
      (\<exists>h. (b, h) \<in> set (history_join tb a) \<and> a_applied_at b \<noteq> None \<and>
         (a_status b = OFFER \<or> (case h of None \<Rightarrow> False | Some row \<Rightarrow> h_to row = OFFER)))}"
    by (force simp: image_iff)
  then show ?thesis unfolding offered_join by auto
qed

lemma offer_count_card:
  "offer_count tb owner = int (card (a_id ` {a \<in> set (applications tb). a_owner_id a = owner \<and> offered tb a}))"
  unfolding offer_count_def length_remdups_card_conv offer_ids ..

lemma offer_le_applied: "offer_count tb owner \<le> applied_count tb owner"
proof -
  let ?applied = "filter (\<lambda>a. a_applied_at a \<noteq> None) (applications_of tb owner)"
  have "a_id ` {a \<in> set (applications tb). a_owner_id a = owner \<and> offered tb a} \<subseteq> set (map a_id ?applied)"
    by (auto simp: applications_of_def offered_def)
  then have "card (a_id ` {a \<in> set (applications tb). a_owner_id a = owner \<and> offered tb a}) \<le>
      length (map a_id ?applied)"
    by (meson List.finite_set card_length card_mono le_trans)
  then show ?thesis by (simp add: offer_count_card applied_count_def)
qed

lemma conversion_rate_bounds: "0 \<le> conversion_rate tb owner \<and> conversion_rate tb owner \<le> 10000"
proof (cases "applied_count tb owner = 0")
  case False
  then have "0 < applied_count tb owner" by (simp add: applied_count_def)
  then show ?thesis
    using rate_4_bounds offer_le_applied [of tb owner] by (simp add: conversion_rate_def offer_count_def)
qed (simp add: conversion_rate_def)

section \<open>What the aggregate lists\<close>

lemma find_not_None: "x \<in> set xs \<Longrightarrow> P x \<Longrightarrow> find P xs \<noteq> None"
  by (auto simp: find_none_iff)

text \<open>With the foreign keys in place no inner join loses a row.\<close>

lemma job_joined:
  assumes "db_ok tb" and "j \<in> set (jobs tb)"
  shows "job_summary_of tb j \<noteq> None"
proof -
  have "company_exists tb (j_owner_id j) (j_company_id j)"
    using db_okD(3) [OF assms(1)] assms(2) by (simp add: refs_ok_def)
  then show ?thesis
    by (auto simp: job_summary_of_def job_company_def company_exists_def find_none_iff)
qed

lemma application_joined:
  assumes "db_ok tb" and "a \<in> set (applications tb)"
  obtains j s where "application_job tb a = Some j" and "job_summary_of tb j = Some s"
proof -
  have "job_exists tb (a_owner_id a) (a_job_id a)"
    using db_okD(3) [OF assms(1)] assms(2) by (simp add: refs_ok_def)
  then obtain j where j: "application_job tb a = Some j"
    by (fastforce simp: application_job_def job_exists_def find_none_iff)
  then have "j \<in> set (jobs tb)" by (auto simp: application_job_def dest: find_Some)
  then show ?thesis using that j job_joined [OF assms(1)] by blast
qed

lemma action_joined:
  assumes "db_ok tb" and "a \<in> set (applications tb)" and "a_next_action_at a \<noteq> None"
  shows "dashboard_action_of tb a \<noteq> None"
proof -
  obtain j s where "application_job tb a = Some j" "job_summary_of tb j = Some s"
    by (rule application_joined [OF assms(1,2)])
  then show ?thesis using assms(3) by (auto simp: dashboard_action_of_def)
qed

lemma interview_joined:
  assumes "db_ok tb" and "i \<in> set (interviews tb)"
  shows "dashboard_interview_of tb i \<noteq> None"
proof -
  have "application_exists tb (i_owner_id i) (i_application_id i)"
    using db_okD(3) [OF assms(1)] assms(2) by (simp add: refs_ok_def)
  then obtain a where a: "interview_application tb i = Some a"
    by (cases "interview_application tb i")
      (auto simp: interview_application_def application_exists_def find_none_iff)
  then have "a \<in> set (applications tb)" by (auto simp: interview_application_def dest: find_Some)
  then obtain j s where "application_job tb a = Some j" "job_summary_of tb j = Some s"
    by (rule application_joined [OF assms(1)])
  then show ?thesis using a by (simp add: dashboard_interview_of_def application_summary_of_def)
qed

lemma map_filter_total:
  assumes "\<And>x. x \<in> set xs \<Longrightarrow> f x \<noteq> None" and "\<And>x y. f x = Some y \<Longrightarrow> g y = h x"
  shows "map g (List.map_filter f xs) = map h xs"
  using assms(1)
proof (induction xs)
  case (Cons x xs)
  have "f x \<noteq> None" by (rule Cons.prems) simp
  moreover have "map g (List.map_filter f xs) = map h xs" by (rule Cons.IH) (simp add: Cons.prems)
  ultimately show ?case using assms(2) by (auto simp: map_filter_simps)
qed (simp add: map_filter_simps)

lemma before_by_sorts: "sorted_wrt (before_by at ident) (sort_by (before_by at ident) xs)"
  by (rule sorted_sort_by) (auto simp: before_by_def)

lemma action_list_exact:
  assumes "db_ok tb"
  shows "map da_application_id (List.map_filter (dashboard_action_of tb) (action_rows tb within owner)) =
    map a_id (take LIST_LIMIT (sort_by (before_by next_action a_id)
      (filter (\<lambda>a. action_due owner a \<and> within (next_action a)) (applications tb))))"
proof -
  have same: "filter (\<lambda>a. action_due owner a \<and> within (next_action a) \<and> dashboard_action_of tb a \<noteq> None)
      (applications tb) = filter (\<lambda>a. action_due owner a \<and> within (next_action a)) (applications tb)"
    using action_joined [OF assms] by (intro filter_cong refl) (auto simp: action_due_def)
  have "a \<in> set (action_rows tb within owner) \<Longrightarrow> dashboard_action_of tb a \<noteq> None" for a
    unfolding action_rows_def by (drule in_set_takeD) simp
  then have "map da_application_id (List.map_filter (dashboard_action_of tb) (action_rows tb within owner)) =
      map a_id (action_rows tb within owner)"
    by (rule map_filter_total)
      (auto simp: dashboard_action_of_def split: option.splits)
  then show ?thesis unfolding action_rows_def same .
qed

lemma interview_list_exact:
  assumes "db_ok tb"
  shows "map di_id (List.map_filter (dashboard_interview_of tb) (interview_rows tb now owner)) =
    map i_id (take LIST_LIMIT (sort_by (before_by i_scheduled_at i_id)
      (filter (interview_due now owner) (interviews tb))))"
proof -
  have same: "filter (\<lambda>i. interview_due now owner i \<and> dashboard_interview_of tb i \<noteq> None) (interviews tb) =
      filter (interview_due now owner) (interviews tb)"
    using interview_joined [OF assms] by (intro filter_cong refl) auto
  have "i \<in> set (interview_rows tb now owner) \<Longrightarrow> dashboard_interview_of tb i \<noteq> None" for i
    unfolding interview_rows_def by (drule in_set_takeD) simp
  then have "map di_id (List.map_filter (dashboard_interview_of tb) (interview_rows tb now owner)) =
      map i_id (interview_rows tb now owner)"
    by (rule map_filter_total)
      (auto simp: dashboard_interview_of_def bind_eq_Some_conv)
  then show ?thesis unfolding interview_rows_def same .
qed

section \<open>The aggregate depends on the user's own rows only\<close>

definition own :: "int \<Rightarrow> tables \<Rightarrow> tables" where
  "own owner tb = empty_tables
     \<lparr>companies := filter (\<lambda>c. c_owner_id c = owner) (companies tb),
      jobs := filter (\<lambda>j. j_owner_id j = owner) (jobs tb),
      applications := filter (\<lambda>a. a_owner_id a = owner) (applications tb),
      histories := filter (\<lambda>h. application_exists tb owner (h_application_id h)) (histories tb),
      interviews := filter (\<lambda>i. i_owner_id i = owner) (interviews tb)\<rparr>"

lemma own_sel [simp]:
  "companies (own owner tb) = filter (\<lambda>c. c_owner_id c = owner) (companies tb)"
  "jobs (own owner tb) = filter (\<lambda>j. j_owner_id j = owner) (jobs tb)"
  "applications (own owner tb) = filter (\<lambda>a. a_owner_id a = owner) (applications tb)"
  "histories (own owner tb) = filter (\<lambda>h. application_exists tb owner (h_application_id h)) (histories tb)"
  "interviews (own owner tb) = filter (\<lambda>i. i_owner_id i = owner) (interviews tb)"
  by (simp_all add: own_def)

lemma find_among_owned:
  "find (\<lambda>x. f x = a \<and> P x) (filter (\<lambda>x. f x = a) xs) = find (\<lambda>x. f x = a \<and> P x) xs"
  by (induction xs) auto

lemma filter_filter_stronger: "(\<And>x. P x \<Longrightarrow> Q x) \<Longrightarrow> filter P (filter Q xs) = filter P xs"
  by (induction xs) auto

lemma job_summary_own: "j_owner_id j = owner \<Longrightarrow> job_summary_of (own owner tb) j = job_summary_of tb j"
  by (simp add: job_summary_of_def job_company_def find_among_owned)

lemma application_job_own: "a_owner_id a = owner \<Longrightarrow> application_job (own owner tb) a = application_job tb a"
  by (simp add: application_job_def find_among_owned)

lemma application_job_owner: "application_job tb a = Some j \<Longrightarrow> j_owner_id j = a_owner_id a"
  by (auto simp: application_job_def dest: find_Some)

lemma dashboard_action_own:
  "a_owner_id a = owner \<Longrightarrow> dashboard_action_of (own owner tb) a = dashboard_action_of tb a"
  by (auto simp: dashboard_action_of_def application_job_own job_summary_own
      dest!: application_job_owner split: option.splits)

lemma application_summary_own:
  "a_owner_id a = owner \<Longrightarrow> application_summary_of (own owner tb) a = application_summary_of tb a"
  by (cases "application_job tb a")
    (simp_all add: application_summary_of_def application_job_own job_summary_own application_job_owner)

lemma dashboard_interview_own:
  assumes "i_owner_id i = owner"
  shows "dashboard_interview_of (own owner tb) i = dashboard_interview_of tb i"
proof -
  have app: "interview_application (own owner tb) i = interview_application tb i"
    using assms by (simp add: interview_application_def find_among_owned)
  show ?thesis
  proof (cases "interview_application tb i")
    case (Some a)
    then have "a_owner_id a = owner" using assms by (auto simp: interview_application_def dest: find_Some)
    then show ?thesis using app Some by (simp add: dashboard_interview_of_def application_summary_own)
  qed (simp add: dashboard_interview_of_def app)
qed

lemma interview_rows_own: "interview_rows (own owner tb) now owner = interview_rows tb now owner"
proof -
  have "filter (\<lambda>i. interview_due now owner i \<and> dashboard_interview_of (own owner tb) i \<noteq> None)
      (interviews (own owner tb)) =
    filter (\<lambda>i. interview_due now owner i \<and> dashboard_interview_of tb i \<noteq> None) (interviews tb)"
    unfolding own_sel filter_filter
    by (intro filter_cong refl) (auto simp: interview_due_def dashboard_interview_own)
  then show ?thesis by (simp only: interview_rows_def)
qed

lemma action_rows_own: "action_rows (own owner tb) within owner = action_rows tb within owner"
proof -
  have "filter (\<lambda>a. action_due owner a \<and> within (next_action a) \<and> dashboard_action_of (own owner tb) a \<noteq> None)
      (applications (own owner tb)) =
    filter (\<lambda>a. action_due owner a \<and> within (next_action a) \<and> dashboard_action_of tb a \<noteq> None) (applications tb)"
    unfolding own_sel filter_filter
    by (intro filter_cong refl) (auto simp: action_due_def dashboard_action_own)
  then show ?thesis by (simp only: action_rows_def)
qed

lemma offered_own:
  assumes "a \<in> set (applications tb)" and "a_owner_id a = owner"
  shows "offered (own owner tb) a = offered tb a"
proof -
  have "application_exists tb owner (a_id a)" using assms by (auto simp: application_exists_def)
  then have "(h \<in> set (histories (own owner tb)) \<and> h_application_id h = a_id a) =
      (h \<in> set (histories tb) \<and> h_application_id h = a_id a)" for h
    by auto
  then show ?thesis by (simp add: offered_def list_ex_iff) metis
qed

lemma offer_count_own: "offer_count (own owner tb) owner = offer_count tb owner"
proof -
  have "{a \<in> set (applications (own owner tb)). a_owner_id a = owner \<and> offered (own owner tb) a} =
      {a \<in> set (applications tb). a_owner_id a = owner \<and> offered tb a}"
    using offered_own by auto
  then show ?thesis by (simp only: offer_count_card)
qed

lemma map_filter_cong: "(\<And>x. x \<in> set xs \<Longrightarrow> f x = g x) \<Longrightarrow> List.map_filter f xs = List.map_filter g xs"
  by (induction xs) (auto simp: map_filter_simps split: option.split)

lemma aggregate_own: "aggregate (own owner tb) now owner = aggregate tb now owner"
proof -
  have apps: "applications_of (own owner tb) owner = applications_of tb owner"
    by (simp add: applications_of_def)
  have acts: "List.map_filter (dashboard_action_of (own owner tb)) (action_rows tb within owner) =
      List.map_filter (dashboard_action_of tb) (action_rows tb within owner)" for within
    by (rule map_filter_cong, rule dashboard_action_own)
      (auto simp: action_rows_def action_due_def dest!: in_set_takeD)
  have ints: "List.map_filter (dashboard_interview_of (own owner tb)) (interview_rows tb now owner) =
      List.map_filter (dashboard_interview_of tb) (interview_rows tb now owner)"
    by (rule map_filter_cong, rule dashboard_interview_own)
      (auto simp: interview_rows_def interview_due_def dest!: in_set_takeD)
  show ?thesis
    by (simp add: aggregate_def apps acts ints interview_rows_own action_rows_own status_counts_exact
        conversion_rate_def applied_count_def offer_count_own)
qed

lemma application_exists_filter:
  "application_exists tb user k = list_ex (\<lambda>a. a_id a = k) (filter (\<lambda>a. a_owner_id a = user) (applications tb))"
  by (auto simp: application_exists_def list_ex_iff)

lemma own_other:
  assumes "db_ok tb" and "db_ok tb'" and "others owner tb' = others owner tb" and "user \<noteq> owner"
  shows "own user tb' = own user tb"
proof -
  note same = others_other [OF assms(3,4)]
  have exists: "application_exists tb' user k = application_exists tb user k" for k
    by (simp only: application_exists_filter same)
  have foreign: "\<not> history_owned t owner h"
    if t: "db_ok t" and e: "application_exists t user (h_application_id h)" for t h
  proof
    assume "history_owned t owner h"
    then obtain a where a: "a \<in> set (applications t)" "a_owner_id a = owner" "a_id a = h_application_id h"
      unfolding history_owned_def application_exists_def by blast
    from e obtain b where b: "b \<in> set (applications t)" "a_owner_id b = user" "a_id b = h_application_id h"
      unfolding application_exists_def by blast
    have "inj_on a_id (set (applications t))" using db_ok_distinct(4) [OF t] by (simp add: distinct_map)
    then have "a = b" using a b by (metis inj_onD)
    then show False using a b assms(4) by simp
  qed
  have part: "filter (\<lambda>h. application_exists t user (h_application_id h)) (histories t) =
      filter (\<lambda>h. application_exists t user (h_application_id h))
        (filter (\<lambda>h. \<not> history_owned t owner h) (histories t))" if "db_ok t" for t
    using foreign [OF that] by (intro filter_filter_stronger [symmetric])
  have "filter (\<lambda>h. application_exists tb' user (h_application_id h)) (histories tb') =
      filter (\<lambda>h. application_exists tb user (h_application_id h)) (histories tb)"
    using part [OF assms(1)] part [OF assms(2)] others_rest [OF assms(3)] exists by simp
  with same show ?thesis by (simp add: own_def)
qed

section \<open>Coherence of the cache\<close>

text \<open>
  \<open>same_cache c env\<close>: the settings of the process are those of \<open>c\<close>. \<open>deletes env\<close>: the
  invalidation after a write reaches Redis, and the refresh after the commit does not fail
  (otherwise the code skips the invalidation and the entry lives until it expires).
\<close>

definition same_cache :: "env \<Rightarrow> env \<Rightarrow> bool" where
  "same_cache c env =
     (e_cache_redis env \<and> e_cache_ttl_seconds env = e_cache_ttl_seconds c \<and>
      e_secret_key env = e_secret_key c \<and> e_hmac_hex env = e_hmac_hex c)"

definition deletes :: "env \<Rightarrow> bool" where
  "deletes env = (e_redis_del_ok env \<and> e_fault env \<noteq> Some RefreshFault)"

inductive dash_step ::
    "externals \<Rightarrow> (string \<Rightarrow> dashboard option) \<Rightarrow> (dashboard \<Rightarrow> string) \<Rightarrow> env \<Rightarrow> world \<Rightarrow> world \<Rightarrow> bool"
  for x parse dump c where
  request: "same_cache c env \<Longrightarrow> deletes env \<Longrightarrow> run_business x owner q env w = (r, w')
    \<Longrightarrow> dash_step x parse dump c w w'"
| get: "same_cache c env \<Longrightarrow> dashboard_get parse dump env owner w = (d, w')
    \<Longrightarrow> dash_step x parse dump c w w'"

definition coherent :: "(dashboard \<Rightarrow> string) \<Rightarrow> env \<Rightarrow> world \<Rightarrow> bool" where
  "coherent dump c w =
     (db_ok (db w) \<and>
      (\<forall>u payload expires. dcache w (dashboard_key c u) = Some (payload, expires) \<longrightarrow>
         (\<exists>t. payload = dump (aggregate (db w) t u) \<and> expires = t + seconds (e_cache_ttl_seconds c))))"

definition keys_apart :: "env \<Rightarrow> bool" where
  "keys_apart c = (\<forall>u v. dashboard_key c u = dashboard_key c v \<longrightarrow> u = v)"

lemma same_cache_key: "same_cache c env \<Longrightarrow> dashboard_key env u = dashboard_key c u"
  by (simp add: same_cache_def dashboard_key_def)

text \<open>An entry that survives a request shows a user whose rows did not change.\<close>

lemma request_survivor:
  assumes "same_cache c env" and "deletes env" and run: "run_business x owner q env w = (r, w')"
    and "db_ok (db w)" and entry: "dcache w' (dashboard_key c u) = Some e"
  shows "dcache w (dashboard_key c u) = Some e \<and> own u (db w') = own u (db w)"
proof -
  have old: "dcache w (dashboard_key c u) = Some e"
    using run_business.entries [OF run] entry by (auto split: if_splits)
  have ok: "db_ok (db w')" "others owner (db w') = others owner (db w)"
    using run_business.keeps_db [OF run] run_business.isolated [OF run] assms(4) by auto
  have w': "w' = snd (run_business x owner q env w)" and r: "r = fst (run_business x owner q env w)"
    using run by simp_all
  have "db w' = db w" if u: "u = owner"
  proof (cases "is_write q \<and> is_ok r")
    case True
    then have "dcache w' (dashboard_key env owner) = None"
      using owner_write.entry_gone [OF business_write, of q x owner env w] assms(1,2)
      unfolding w' r same_cache_def deletes_def by blast
    then show ?thesis using entry u same_cache_key [OF assms(1)] by simp
  next
    case False
    then show ?thesis
      using run_business.raises_nothing [of x owner q env w] business_read [of q x owner env w] assms(2)
      unfolding w' r deletes_def by metis
  qed
  then have "own u (db w') = own u (db w)"
    using own_other [OF assms(4) ok, of u] by metis
  then show ?thesis using old by blast
qed

lemma dashboard_read_cache:
  "dcache (snd (dashboard_read parse env owner w)) = dcache w \<or>
   dcache (snd (dashboard_read parse env owner w)) = (dcache w)(dashboard_key env owner := None)"
  by (auto simp: cache_defs Let_def split: option.splits prod.splits)

lemma dashboard_write_cache:
  "dcache (snd (dashboard_write dump env owner v w)) = dcache w \<or>
   dcache (snd (dashboard_write dump env owner v w)) = (dcache w)(dashboard_key env owner :=
     Some (dump v, e_now env + seconds (e_cache_ttl_seconds env)))"
  by (auto simp: cache_defs Let_def)

lemma dashboard_get_cases:
  assumes "dashboard_get parse dump env owner w = (d, w')"
  obtains (hit) w1 where "dashboard_read parse env owner w = (\<lparr>cr_value = Some d, cr_outcome = ''hit''\<rparr>, w1)" "w' = w1"
  | (fill) w1 where "w1 = snd (dashboard_read parse env owner w)" "d = aggregate (db w) (e_now env) owner"
      "w' = snd (dashboard_write dump env owner d w1)"
proof -
  obtain cached w1 where read: "dashboard_read parse env owner w = (cached, w1)" by (rule prod.exhaust)
  then have same: "db w1 = db w" using tb_cache(3) [of parse env owner w] by simp
  show ?thesis
  proof (cases "cr_value cached")
    case None
    then show ?thesis using fill assms read same by (auto simp: dashboard_get_def Let_def)
  next
    case (Some v)
    then have "cached = \<lparr>cr_value = Some v, cr_outcome = ''hit''\<rparr>"
      using read by (auto simp: dashboard_read_def split: if_splits option.splits prod.splits)
    then show ?thesis using hit assms read by (auto simp: dashboard_get_def)
  qed
qed

lemma dashboard_get_cache:
  assumes "dashboard_get parse dump env owner w = (d, w')"
  shows "db w' = db w \<and>
    (dcache w' k = dcache w k \<or> dcache w' k = None \<or>
     (k = dashboard_key env owner \<and>
      dcache w' k = Some (dump (aggregate (db w) (e_now env) owner), e_now env + seconds (e_cache_ttl_seconds env))))"
  using assms
proof (cases rule: dashboard_get_cases)
  case (hit w1)
  then show ?thesis
    using dashboard_read_cache [of parse env owner w] tb_cache(3) [of parse env owner w]
    by (auto split: if_splits)
next
  case (fill w1)
  then show ?thesis
    using dashboard_read_cache [of parse env owner w] tb_cache(3) [of parse env owner w]
      dashboard_write_cache [of dump env owner d w1] by (auto split: if_splits)
qed

lemma coherent_request:
  assumes "same_cache c env" "deletes env" "run_business x owner q env w = (r, w')" "coherent dump c w"
  shows "coherent dump c w'"
  unfolding coherent_def
proof (intro conjI allI impI)
  have ok: "db_ok (db w)" using assms(4) by (simp add: coherent_def)
  show "db_ok (db w')" using run_business.keeps_db [OF assms(3) ok] .
  fix u payload expires
  assume "dcache w' (dashboard_key c u) = Some (payload, expires)"
  note old = request_survivor [OF assms(1-3) ok this]
  then have "aggregate (db w') t u = aggregate (db w) t u" for t
    using aggregate_own [of u "db w" t] aggregate_own [of u "db w'" t] by metis
  then show "\<exists>t. payload = dump (aggregate (db w') t u) \<and> expires = t + seconds (e_cache_ttl_seconds c)"
    using assms(4) old by (auto simp: coherent_def)
qed

lemma coherent_get:
  assumes "same_cache c env" "dashboard_get parse dump env owner w = (d, w')" "coherent dump c w"
    and "keys_apart c"
  shows "coherent dump c w'"
  unfolding coherent_def
proof (intro conjI allI impI)
  have same: "db w' = db w" using dashboard_get_cache [OF assms(2)] by blast
  then show "db_ok (db w')" using assms(3) by (simp add: coherent_def)
  fix u payload expires
  assume entry: "dcache w' (dashboard_key c u) = Some (payload, expires)"
  show "\<exists>t. payload = dump (aggregate (db w') t u) \<and> expires = t + seconds (e_cache_ttl_seconds c)"
    using dashboard_get_cache [OF assms(2), of "dashboard_key c u"] entry assms(1,3,4)
    unfolding coherent_def keys_apart_def same same_cache_key [OF assms(1)]
    by (auto simp: same_cache_def)
qed

interpretation dashboard: invariant_system "\<lambda>w. db_ok (db w) \<and> dcache w = Map.empty \<and> keys_apart c"
    "dash_step x parse dump c" "\<lambda>w. coherent dump c w \<and> keys_apart c"
  for x :: externals and parse :: "string \<Rightarrow> dashboard option" and dump c
proof
  fix w w'
  show "db_ok (db w) \<and> dcache w = Map.empty \<and> keys_apart c \<Longrightarrow> coherent dump c w \<and> keys_apart c"
    by (simp add: coherent_def)
  assume "coherent dump c w \<and> keys_apart c" and "dash_step x parse dump c w w'"
  then show "coherent dump c w' \<and> keys_apart c"
    by (auto elim!: dash_step.cases dest: coherent_request coherent_get)
qed

lemma hit_served:
  assumes "coherent dump c w" "same_cache c env"
    and "dashboard_read parse env owner w = (\<lparr>cr_value = Some d, cr_outcome = ''hit''\<rparr>, w1)"
  shows "\<exists>t. e_now env < t + seconds (e_cache_ttl_seconds c) \<and> parse (dump (aggregate (db w) t owner)) = Some d"
proof -
  obtain payload expires where "dcache w (dashboard_key env owner) = Some (payload, expires)"
      "e_now env < expires" "parse payload = Some d"
    using assms(3) by (auto simp: dashboard_read_def split: if_splits option.splits prod.splits)
  note entry = this
  then obtain t where "payload = dump (aggregate (db w) t owner)" "expires = t + seconds (e_cache_ttl_seconds c)"
    using assms(1) unfolding same_cache_key [OF assms(2)] coherent_def by blast
  then show ?thesis using entry by auto
qed

section \<open>Properties\<close>




definition sample_dump :: "dashboard \<Rightarrow> string" where
  "sample_dump d = show_int (d_company_count d)"

definition sample_parse :: "string \<Rightarrow> dashboard option" where
  "sample_parse payload =
     (if payload = show_int 1 then Some (aggregate sample_tables (e_now sample_env) 1) else None)"

lemma sample_keys_apart: "keys_apart sample_env"
  by (auto simp: keys_apart_def dashboard_key_def sample_env_def dest: show_int_inject)


end
