(* ===== verification/Config.thy ===== *)
theory Config
  imports RateLimit Outbox Complex_Main
begin

text \<open>
  The settings of \<^verbatim>\<open>src/app/core/config.py\<close>: the fields with their bounds and the validator
  \<open>validate_production_settings\<close>, check by check in the order of the code. A float is the
  rational number it stands for. \<open>urlsplit\<close> of the standard library is written out on ASCII
  text; the check of a bracketed IPv6 host, the parsers of \<open>ipaddress\<close> and Fernet's check of a
  key are parameters. The lemmas connect accepted settings with the limiters and the worker.
\<close>

section \<open>Fields\<close>

datatype cache_backend = NoCache | RedisCache

datatype rate_backend = MemoryBackend | RedisBackend

datatype failure_mode = Closed | Open

datatype delivery_mode = Disabled | Smtp | Outbox_Delivery

datatype token_auth = Client_Secret_Basic | Client_Secret_Post

record settings =
  APP_NAME :: string
  ENVIRONMENT :: string
  DEBUG :: bool
  LOG_LEVEL :: string
  DATABASE_URL :: string
  SECRET_KEY :: string
  ALGORITHM :: string
  ACCESS_TOKEN_EXPIRE_MINUTES :: int
  REFRESH_TOKEN_EXPIRE_DAYS :: int
  JWT_AUDIENCE :: string
  JWT_ISSUER :: string
  CORS_ORIGINS :: string
  FORWARDED_ALLOW_IPS :: string
  REDIS_URL :: string
  REDIS_CONNECT_TIMEOUT_SECONDS :: rat
  REDIS_SOCKET_TIMEOUT_SECONDS :: rat
  REDIS_MAX_CONNECTIONS :: int
  DASHBOARD_CACHE_BACKEND :: cache_backend
  DASHBOARD_CACHE_TTL_SECONDS :: int
  DASHBOARD_CACHE_MAX_BYTES :: int
  RATE_LIMIT_BACKEND :: rate_backend
  RATE_LIMIT_LIMIT :: int
  RATE_LIMIT_WINDOW_SECONDS :: int
  RATE_LIMIT_FAILURE_MODE :: failure_mode
  RATE_LIMIT_KEY_SECRET :: string
  BUSINESS_WRITE_RATE_LIMIT :: int
  BUSINESS_WRITE_RATE_LIMIT_WINDOW_SECONDS :: int
  BUSINESS_WRITE_RATE_LIMIT_FAILURE_MODE :: failure_mode
  EMAIL_DELIVERY_MODE :: delivery_mode
  OUTBOX_ENCRYPTION_KEY :: string
  OUTBOX_POLL_INTERVAL_SECONDS :: rat
  OUTBOX_BATCH_SIZE :: int
  OUTBOX_LEASE_SECONDS :: int
  OUTBOX_MAX_ATTEMPTS :: int
  OUTBOX_BACKOFF_BASE_SECONDS :: int
  OUTBOX_BACKOFF_MAX_SECONDS :: int
  OUTBOX_SHUTDOWN_GRACE_SECONDS :: int
  EMAIL_VERIFICATION_URL :: string
  EMAIL_VERIFICATION_TOKEN_EXPIRE_MINUTES :: int
  PASSWORD_RESET_URL :: string
  PASSWORD_RESET_TOKEN_EXPIRE_MINUTES :: int
  MFA_ENABLED :: bool
  MFA_ISSUER :: string
  MFA_ENCRYPTION_KEY :: string
  MFA_ENROLLMENT_EXPIRE_MINUTES :: int
  MFA_CHALLENGE_EXPIRE_MINUTES :: int
  MFA_RECOVERY_CODE_COUNT :: int
  MFA_STEP_UP_MAX_AGE_MINUTES :: int
  OIDC_ENABLED :: bool
  OIDC_ISSUER :: string
  OIDC_CLIENT_ID :: string
  OIDC_CLIENT_SECRET :: string
  OIDC_REDIRECT_URI :: string
  OIDC_SCOPES :: string
  OIDC_ALLOWED_ALGORITHMS :: string
  OIDC_TOKEN_ENDPOINT_AUTH_METHOD :: token_auth
  OIDC_TRANSACTION_ENCRYPTION_KEY :: string
  OIDC_TRANSACTION_EXPIRE_MINUTES :: int
  OIDC_RECENT_AUTH_MAX_AGE_MINUTES :: int
  OIDC_HTTP_TIMEOUT_SECONDS :: rat
  OIDC_CACHE_BACKEND :: cache_backend
  OIDC_DISCOVERY_CACHE_TTL_SECONDS :: int
  OIDC_JWKS_CACHE_TTL_SECONDS :: int
  OIDC_CACHE_REFRESH_LOCK_SECONDS :: int
  OIDC_CACHE_REFRESH_WAIT_SECONDS :: rat
  OIDC_CACHE_MAX_DOCUMENT_BYTES :: int
  TRACING_ENABLED :: bool
  OTEL_SERVICE_NAME :: string
  OTEL_EXPORTER_OTLP_ENDPOINT :: string
  OTEL_EXPORT_TIMEOUT_SECONDS :: rat
  OTEL_TRACE_SAMPLE_RATIO :: rat
  SMTP_HOST :: string
  SMTP_PORT :: int
  SMTP_USERNAME :: string
  SMTP_PASSWORD :: string
  SMTP_FROM :: string
  SMTP_STARTTLS :: bool
  SMTP_TIMEOUT_SECONDS :: int

definition fields_ok :: "settings \<Rightarrow> bool" where
  "fields_ok s =
     (0 < REDIS_CONNECT_TIMEOUT_SECONDS s \<and> REDIS_CONNECT_TIMEOUT_SECONDS s \<le> 30 \<and>
      0 < REDIS_SOCKET_TIMEOUT_SECONDS s \<and> REDIS_SOCKET_TIMEOUT_SECONDS s \<le> 30 \<and>
      0 < REDIS_MAX_CONNECTIONS s \<and> REDIS_MAX_CONNECTIONS s \<le> 1000 \<and>
      30 \<le> DASHBOARD_CACHE_TTL_SECONDS s \<and> DASHBOARD_CACHE_TTL_SECONDS s \<le> 300 \<and>
      1024 \<le> DASHBOARD_CACHE_MAX_BYTES s \<and> DASHBOARD_CACHE_MAX_BYTES s \<le> 1048576 \<and>
      0 < RATE_LIMIT_LIMIT s \<and> RATE_LIMIT_LIMIT s \<le> 1000000 \<and>
      0 < RATE_LIMIT_WINDOW_SECONDS s \<and> RATE_LIMIT_WINDOW_SECONDS s \<le> 86400 \<and>
      0 < BUSINESS_WRITE_RATE_LIMIT s \<and> BUSINESS_WRITE_RATE_LIMIT s \<le> 10000 \<and>
      0 < BUSINESS_WRITE_RATE_LIMIT_WINDOW_SECONDS s \<and> BUSINESS_WRITE_RATE_LIMIT_WINDOW_SECONDS s \<le> 86400 \<and>
      0 < OUTBOX_POLL_INTERVAL_SECONDS s \<and> OUTBOX_POLL_INTERVAL_SECONDS s \<le> 60 \<and>
      0 < OUTBOX_BATCH_SIZE s \<and> OUTBOX_BATCH_SIZE s \<le> 100 \<and>
      0 < OUTBOX_LEASE_SECONDS s \<and> OUTBOX_LEASE_SECONDS s \<le> 3600 \<and>
      0 < OUTBOX_MAX_ATTEMPTS s \<and> OUTBOX_MAX_ATTEMPTS s \<le> 100 \<and>
      0 < OUTBOX_BACKOFF_BASE_SECONDS s \<and> OUTBOX_BACKOFF_BASE_SECONDS s \<le> 3600 \<and>
      0 < OUTBOX_BACKOFF_MAX_SECONDS s \<and> OUTBOX_BACKOFF_MAX_SECONDS s \<le> 86400 \<and>
      0 < OUTBOX_SHUTDOWN_GRACE_SECONDS s \<and> OUTBOX_SHUTDOWN_GRACE_SECONDS s \<le> 3600 \<and>
      0 < OIDC_DISCOVERY_CACHE_TTL_SECONDS s \<and> OIDC_DISCOVERY_CACHE_TTL_SECONDS s \<le> 86400 \<and>
      0 < OIDC_JWKS_CACHE_TTL_SECONDS s \<and> OIDC_JWKS_CACHE_TTL_SECONDS s \<le> 86400 \<and>
      0 < OIDC_CACHE_REFRESH_LOCK_SECONDS s \<and> OIDC_CACHE_REFRESH_LOCK_SECONDS s \<le> 60 \<and>
      0 \<le> OIDC_CACHE_REFRESH_WAIT_SECONDS s \<and> OIDC_CACHE_REFRESH_WAIT_SECONDS s \<le> 10 \<and>
      1024 \<le> OIDC_CACHE_MAX_DOCUMENT_BYTES s \<and> OIDC_CACHE_MAX_DOCUMENT_BYTES s \<le> 1048576 \<and>
      0 < OTEL_EXPORT_TIMEOUT_SECONDS s \<and> OTEL_EXPORT_TIMEOUT_SECONDS s \<le> 30 \<and>
      0 \<le> OTEL_TRACE_SAMPLE_RATIO s \<and> OTEL_TRACE_SAMPLE_RATIO s \<le> 1)"

text \<open>The defaults; the database URL and the secret key have none.\<close>

definition default_settings :: "string \<Rightarrow> string \<Rightarrow> settings" where
  "default_settings database_url secret_key =
     \<lparr>APP_NAME = ''JobTrack API'',
      ENVIRONMENT = ''development'',
      DEBUG = False,
      LOG_LEVEL = ''INFO'',
      DATABASE_URL = database_url,
      SECRET_KEY = secret_key,
      ALGORITHM = ''HS256'',
      ACCESS_TOKEN_EXPIRE_MINUTES = 30,
      REFRESH_TOKEN_EXPIRE_DAYS = 7,
      JWT_AUDIENCE = ''fastapi-client'',
      JWT_ISSUER = ''jobtrack-api'',
      CORS_ORIGINS = '''',
      FORWARDED_ALLOW_IPS = '''',
      REDIS_URL = '''',
      REDIS_CONNECT_TIMEOUT_SECONDS = 1,
      REDIS_SOCKET_TIMEOUT_SECONDS = 1,
      REDIS_MAX_CONNECTIONS = 20,
      DASHBOARD_CACHE_BACKEND = NoCache,
      DASHBOARD_CACHE_TTL_SECONDS = 60,
      DASHBOARD_CACHE_MAX_BYTES = 262144,
      RATE_LIMIT_BACKEND = MemoryBackend,
      RATE_LIMIT_LIMIT = 100,
      RATE_LIMIT_WINDOW_SECONDS = 60,
      RATE_LIMIT_FAILURE_MODE = Closed,
      RATE_LIMIT_KEY_SECRET = '''',
      BUSINESS_WRITE_RATE_LIMIT = 30,
      BUSINESS_WRITE_RATE_LIMIT_WINDOW_SECONDS = 60,
      BUSINESS_WRITE_RATE_LIMIT_FAILURE_MODE = Open,
      EMAIL_DELIVERY_MODE = Disabled,
      OUTBOX_ENCRYPTION_KEY = '''',
      OUTBOX_POLL_INTERVAL_SECONDS = 1,
      OUTBOX_BATCH_SIZE = 10,
      OUTBOX_LEASE_SECONDS = 30,
      OUTBOX_MAX_ATTEMPTS = 5,
      OUTBOX_BACKOFF_BASE_SECONDS = 5,
      OUTBOX_BACKOFF_MAX_SECONDS = 300,
      OUTBOX_SHUTDOWN_GRACE_SECONDS = 30,
      EMAIL_VERIFICATION_URL = ''http://localhost:3000/verify-email'',
      EMAIL_VERIFICATION_TOKEN_EXPIRE_MINUTES = 30,
      PASSWORD_RESET_URL = ''http://localhost:3000/reset-password'',
      PASSWORD_RESET_TOKEN_EXPIRE_MINUTES = 30,
      MFA_ENABLED = False,
      MFA_ISSUER = ''JobTrack'',
      MFA_ENCRYPTION_KEY = '''',
      MFA_ENROLLMENT_EXPIRE_MINUTES = 10,
      MFA_CHALLENGE_EXPIRE_MINUTES = 5,
      MFA_RECOVERY_CODE_COUNT = 10,
      MFA_STEP_UP_MAX_AGE_MINUTES = 10,
      OIDC_ENABLED = False,
      OIDC_ISSUER = '''',
      OIDC_CLIENT_ID = '''',
      OIDC_CLIENT_SECRET = '''',
      OIDC_REDIRECT_URI = ''http://localhost:8000/auth/oidc/callback'',
      OIDC_SCOPES = ''openid email profile'',
      OIDC_ALLOWED_ALGORITHMS = ''RS256'',
      OIDC_TOKEN_ENDPOINT_AUTH_METHOD = Client_Secret_Basic,
      OIDC_TRANSACTION_ENCRYPTION_KEY = '''',
      OIDC_TRANSACTION_EXPIRE_MINUTES = 5,
      OIDC_RECENT_AUTH_MAX_AGE_MINUTES = 10,
      OIDC_HTTP_TIMEOUT_SECONDS = 5,
      OIDC_CACHE_BACKEND = NoCache,
      OIDC_DISCOVERY_CACHE_TTL_SECONDS = 300,
      OIDC_JWKS_CACHE_TTL_SECONDS = 300,
      OIDC_CACHE_REFRESH_LOCK_SECONDS = 5,
      OIDC_CACHE_REFRESH_WAIT_SECONDS = 1,
      OIDC_CACHE_MAX_DOCUMENT_BYTES = 262144,
      TRACING_ENABLED = False,
      OTEL_SERVICE_NAME = ''jobtrack-api'',
      OTEL_EXPORTER_OTLP_ENDPOINT = ''http://localhost:4318'',
      OTEL_EXPORT_TIMEOUT_SECONDS = 5,
      OTEL_TRACE_SAMPLE_RATIO = 1,
      SMTP_HOST = '''',
      SMTP_PORT = 587,
      SMTP_USERNAME = '''',
      SMTP_PASSWORD = '''',
      SMTP_FROM = '''',
      SMTP_STARTTLS = True,
      SMTP_TIMEOUT_SECONDS = 10\<rparr>"

section \<open>URLs and text\<close>

definition py_partition :: "char \<Rightarrow> string \<Rightarrow> string \<times> string option" where
  "py_partition c s = (takeWhile (\<lambda>x. x \<noteq> c) s,
     (case dropWhile (\<lambda>x. x \<noteq> c) s of [] \<Rightarrow> None | _ # rest \<Rightarrow> Some rest))"

fun py_split_on :: "char \<Rightarrow> string \<Rightarrow> string list" where
  "py_split_on c [] = [[]]"
| "py_split_on c (x # xs) =
     (if x = c then [] # py_split_on c xs
      else (case py_split_on c xs of [] \<Rightarrow> [[x]] | w # ws \<Rightarrow> (x # w) # ws))"

fun py_split_words :: "string \<Rightarrow> string \<Rightarrow> string list" where
  "py_split_words word [] = (if word = [] then [] else [rev word])"
| "py_split_words word (x # xs) =
     (if is_space x then (if word = [] then [] else [rev word]) @ py_split_words [] xs
      else py_split_words (x # word) xs)"

definition py_split :: "string \<Rightarrow> string list" where
  "py_split s = py_split_words [] s"

definition py_rstrip_char :: "char \<Rightarrow> string \<Rightarrow> string" where
  "py_rstrip_char c s = rev (dropWhile (\<lambda>x. x = c) (rev s))"

definition starts_with :: "string \<Rightarrow> string \<Rightarrow> bool" where
  "starts_with p s = (take (length p) s = p)"

definition utf8_length :: "string \<Rightarrow> int" where
  "utf8_length s = (\<Sum>c\<leftarrow>s. if (of_char c :: nat) < 128 then 1 else 2)"

record split_result =
  sr_scheme :: string
  sr_netloc :: string
  sr_path :: string
  sr_query :: string
  sr_fragment :: string

definition ascii_alpha :: "char \<Rightarrow> bool" where
  "ascii_alpha c = (let n = (of_char (to_lower c) :: nat) in 97 \<le> n \<and> n \<le> 122)"

definition scheme_char :: "char \<Rightarrow> bool" where
  "scheme_char c =
     (ascii_alpha c \<or> c \<in> set ''+-.'' \<or>
      (let n = (of_char c :: nat) in 48 \<le> n \<and> n \<le> 57))"

definition clean_url :: "string \<Rightarrow> string" where
  "clean_url url =
     filter (\<lambda>c. (of_char c :: nat) \<notin> {9, 10, 13}) (dropWhile (\<lambda>c. (of_char c :: nat) \<le> 32) url)"

text \<open>\<open>None\<close>: \<open>urlsplit\<close> raises \<open>ValueError\<close> on an invalid bracketed host.\<close>

definition urlsplit :: "(string \<Rightarrow> bool) \<Rightarrow> string \<Rightarrow> split_result option" where
  "urlsplit bracketed_ok url0 =
     (let url1 = clean_url url0;
          before = fst (py_partition CHR '':'' url1);
          schemed = (CHR '':'' \<in> set url1 \<and> before \<noteq> [] \<and> ascii_alpha (hd before) \<and> list_all scheme_char before);
          scheme = (if schemed then py_casefold before else []);
          url2 = (if schemed then drop (length before + 1) url1 else url1);
          located = starts_with ''//'' url2;
          netloc = (if located then takeWhile (\<lambda>c. c \<notin> set ''/?#'') (drop 2 url2) else []);
          url3 = (if located then dropWhile (\<lambda>c. c \<notin> set ''/?#'') (drop 2 url2) else url2);
          (url4, fragment) = py_partition CHR ''#'' url3;
          (path, query) = py_partition CHR ''?'' url4;
          opens = (CHR ''['' \<in> set netloc); closes = (CHR '']'' \<in> set netloc) in
      if opens \<noteq> closes \<or> (opens \<and> \<not> bracketed_ok netloc) then None
      else Some \<lparr>sr_scheme = scheme, sr_netloc = netloc, sr_path = path,
             sr_query = (case query of None \<Rightarrow> [] | Some q \<Rightarrow> q),
             sr_fragment = (case fragment of None \<Rightarrow> [] | Some f \<Rightarrow> f)\<rparr>)"

definition has_userinfo :: "split_result \<Rightarrow> bool" where
  "has_userinfo u = (CHR ''@'' \<in> set (sr_netloc u))"

definition hostname :: "split_result \<Rightarrow> string option" where
  "hostname u =
     (let hostinfo = rev (takeWhile (\<lambda>c. c \<noteq> CHR ''@'') (rev (sr_netloc u)));
          host = (case snd (py_partition CHR ''['' hostinfo) of
             Some bracketed \<Rightarrow> fst (py_partition CHR '']'' bracketed)
           | None \<Rightarrow> fst (py_partition CHR '':'' hostinfo)) in
      if host = [] then None
      else (case py_partition CHR ''%'' host of
          (name, None) \<Rightarrow> Some (py_casefold name)
        | (name, Some zone) \<Rightarrow> Some (py_casefold name @ CHR ''%'' # zone)))"

section \<open>The validator\<close>

text \<open>
  Each group of checks returns the message of the first one that fails; an \<open>urlsplit\<close> that
  raises is one more failing check.
\<close>

record config_env =
  ce_bracketed_ok :: "string \<Rightarrow> bool"
  ce_ip_address :: "string \<Rightarrow> bool"
  ce_ip_network :: "string \<Rightarrow> bool"
  ce_fernet_key :: "string \<Rightarrow> bool"

fun first_error :: "string option list \<Rightarrow> string option" where
  "first_error [] = None"
| "first_error (None # es) = first_error es"
| "first_error (Some e # es) = Some e"

definition require :: "bool \<Rightarrow> string \<Rightarrow> string option" where
  "require ok message = (if ok then None else Some message)"

definition with_url ::
    "config_env \<Rightarrow> string \<Rightarrow> (split_result \<Rightarrow> string option) \<Rightarrow> string option" where
  "with_url ce url check =
     (case urlsplit (ce_bracketed_ok ce) url of None \<Rightarrow> Some ''Invalid IPv6 URL'' | Some u \<Rightarrow> check u)"

definition proxy_entries :: "settings \<Rightarrow> string list" where
  "proxy_entries s = map py_strip (py_split_on CHR '','' (FORWARDED_ALLOW_IPS s))"

definition check_proxy :: "config_env \<Rightarrow> string \<Rightarrow> string option" where
  "check_proxy ce entry =
     (if entry = [] then None
      else if entry = ''*'' then Some ''FORWARDED_ALLOW_IPS must not trust every client''
      else require (if CHR ''/'' \<in> set entry then ce_ip_network ce entry else ce_ip_address ce entry)
        ''FORWARDED_ALLOW_IPS must contain only valid IP addresses or canonical CIDR networks'')"

definition check_proxies :: "config_env \<Rightarrow> settings \<Rightarrow> string option" where
  "check_proxies ce s =
     first_error
       (require (\<not> (FORWARDED_ALLOW_IPS s \<noteq> [] \<and> list_ex (\<lambda>v. v = []) (proxy_entries s)))
          ''FORWARDED_ALLOW_IPS must not contain empty entries''
        # map (check_proxy ce) (proxy_entries s))"

definition check_redis :: "config_env \<Rightarrow> settings \<Rightarrow> string option" where
  "check_redis ce s =
     first_error
       [if RATE_LIMIT_BACKEND s = RedisBackend \<or> OIDC_CACHE_BACKEND s = RedisCache \<or>
           DASHBOARD_CACHE_BACKEND s = RedisCache
        then with_url ce (REDIS_URL s) (\<lambda>u.
          require (sr_scheme u \<in> {''redis'', ''rediss''} \<and> hostname u \<noteq> None)
            ''REDIS_URL must be a redis:// or rediss:// URL when a Redis backend is enabled'')
        else None,
        require (RATE_LIMIT_BACKEND s = RedisBackend \<longrightarrow> 32 \<le> utf8_length (RATE_LIMIT_KEY_SECRET s))
          ''RATE_LIMIT_KEY_SECRET must contain at least 32 bytes when the Redis rate-limit backend is enabled'',
        require (\<not> (OIDC_CACHE_BACKEND s = RedisCache \<and>
            of_int (OIDC_CACHE_REFRESH_LOCK_SECONDS s) \<le> OIDC_CACHE_REFRESH_WAIT_SECONDS s))
          ''OIDC_CACHE_REFRESH_WAIT_SECONDS must be less than OIDC_CACHE_REFRESH_LOCK_SECONDS'']"

definition check_outbox :: "config_env \<Rightarrow> settings \<Rightarrow> string option" where
  "check_outbox ce s =
     (if EMAIL_DELIVERY_MODE s \<noteq> Outbox_Delivery then None
      else first_error
       [require (ce_fernet_key ce (OUTBOX_ENCRYPTION_KEY s))
          ''OUTBOX_ENCRYPTION_KEY must be a valid Fernet key when transactional delivery is enabled'',
        require (OUTBOX_BACKOFF_BASE_SECONDS s \<le> OUTBOX_BACKOFF_MAX_SECONDS s)
          ''OUTBOX_BACKOFF_MAX_SECONDS must be greater than or equal to OUTBOX_BACKOFF_BASE_SECONDS'',
        require (SMTP_TIMEOUT_SECONDS s < OUTBOX_LEASE_SECONDS s)
          ''OUTBOX_LEASE_SECONDS must be greater than SMTP_TIMEOUT_SECONDS'',
        require (SMTP_TIMEOUT_SECONDS s \<le> OUTBOX_SHUTDOWN_GRACE_SECONDS s)
          ''OUTBOX_SHUTDOWN_GRACE_SECONDS must be at least SMTP_TIMEOUT_SECONDS''])"

definition check_mfa :: "config_env \<Rightarrow> settings \<Rightarrow> string option" where
  "check_mfa ce s =
     require (MFA_ENABLED s \<longrightarrow> ce_fernet_key ce (MFA_ENCRYPTION_KEY s))
       ''MFA_ENCRYPTION_KEY must be a valid Fernet key when MFA is enabled''"

definition asymmetric_algorithms :: "string list" where
  "asymmetric_algorithms =
     [''RS256'', ''RS384'', ''RS512'', ''PS256'', ''PS384'', ''PS512'', ''ES256'', ''ES384'', ''ES512'',
      ''EdDSA'']"

definition allowed_algorithms :: "settings \<Rightarrow> string list" where
  "allowed_algorithms s =
     filter (\<lambda>v. v \<noteq> []) (map py_strip (py_split_on CHR '','' (OIDC_ALLOWED_ALGORITHMS s)))"

definition check_oidc :: "config_env \<Rightarrow> settings \<Rightarrow> string option" where
  "check_oidc ce s =
     (if \<not> OIDC_ENABLED s then None
      else first_error
       [require (OIDC_ISSUER s \<noteq> [] \<and> OIDC_CLIENT_ID s \<noteq> [] \<and> OIDC_CLIENT_SECRET s \<noteq> [])
          ''OIDC_ISSUER, OIDC_CLIENT_ID, and OIDC_CLIENT_SECRET are required when OIDC is enabled'',
        require (''openid'' \<in> set (py_split (OIDC_SCOPES s))) ''OIDC_SCOPES must include openid'',
        require (py_strip (OIDC_ALLOWED_ALGORITHMS s) \<noteq> []) ''OIDC_ALLOWED_ALGORITHMS cannot be empty'',
        require (set (allowed_algorithms s) \<subseteq> set asymmetric_algorithms)
          ''OIDC_ALLOWED_ALGORITHMS must contain only asymmetric signing algorithms'',
        with_url ce (OIDC_ISSUER s) (\<lambda>issuer. with_url ce (OIDC_REDIRECT_URI s) (\<lambda>redirect. first_error
         [require (sr_scheme issuer = ''https'' \<and> sr_netloc issuer \<noteq> [] \<and> sr_query issuer = [] \<and>
             sr_fragment issuer = []) ''OIDC_ISSUER must be an HTTPS URL without query or fragment'',
          require (length (py_rstrip_char CHR ''/'' (OIDC_ISSUER s)) \<le> 255)
            ''OIDC_ISSUER must not exceed 255 characters'',
          require (sr_scheme redirect \<noteq> [] \<and> sr_netloc redirect \<noteq> [] \<and> sr_fragment redirect = [])
            ''OIDC_REDIRECT_URI must be an absolute URL without fragment''])),
        require (ce_fernet_key ce (OIDC_TRANSACTION_ENCRYPTION_KEY s))
          ''OIDC_TRANSACTION_ENCRYPTION_KEY must be a valid Fernet key when OIDC is enabled''])"

definition check_smtp :: "settings \<Rightarrow> string option" where
  "check_smtp s =
     require (EMAIL_DELIVERY_MODE s \<noteq> Disabled \<longrightarrow> SMTP_HOST s \<noteq> [] \<and> SMTP_FROM s \<noteq> [])
       ''SMTP_HOST and SMTP_FROM are required when SMTP delivery is enabled''"

definition check_tracing :: "config_env \<Rightarrow> settings \<Rightarrow> string option" where
  "check_tracing ce s =
     (if \<not> TRACING_ENABLED s then None
      else first_error
       [with_url ce (OTEL_EXPORTER_OTLP_ENDPOINT s) (\<lambda>endpoint. first_error
         [require (sr_scheme endpoint \<in> {''http'', ''https''} \<and> sr_netloc endpoint \<noteq> [])
            ''OTEL_EXPORTER_OTLP_ENDPOINT must be an absolute http:// or https:// URL when tracing is enabled'',
          require (\<not> has_userinfo endpoint)
            ''OTEL_EXPORTER_OTLP_ENDPOINT must not contain embedded credentials'']),
        require (py_strip (OTEL_SERVICE_NAME s) \<noteq> []) ''OTEL_SERVICE_NAME cannot be empty when tracing is enabled'',
        require (length (OTEL_SERVICE_NAME s) \<le> 128) ''OTEL_SERVICE_NAME must not exceed 128 characters''])"

definition placeholder_secrets :: "string list" where
  "placeholder_secrets =
     [''change_this_to_a_random_secret_key'', ''generate_a_secure_random_secret_key'', ''your-secret-key'']"

definition placeholder_rate_limit_keys :: "string list" where
  "placeholder_rate_limit_keys =
     [''change_this_to_a_random_rate_limit_key'', ''generate_a_secure_random_rate_limit_key'']"

definition is_production :: "settings \<Rightarrow> bool" where
  "is_production s = (py_casefold (ENVIRONMENT s) = ''production'')"

definition check_production :: "config_env \<Rightarrow> settings \<Rightarrow> string option" where
  "check_production ce s =
     (if \<not> is_production s then None
      else first_error
       [require (\<not> (RATE_LIMIT_BACKEND s = RedisBackend \<and>
            RATE_LIMIT_KEY_SECRET s \<in> set placeholder_rate_limit_keys))
          ''RATE_LIMIT_KEY_SECRET must not use a placeholder in production'',
        require (\<not> DEBUG s) ''DEBUG must be false in production'',
        require (EMAIL_DELIVERY_MODE s \<noteq> Disabled \<longrightarrow>
            starts_with ''https://'' (EMAIL_VERIFICATION_URL s) \<and> starts_with ''https://'' (PASSWORD_RESET_URL s))
          ''Email action URLs must use HTTPS in production'',
        if OIDC_ENABLED s then with_url ce (OIDC_REDIRECT_URI s) (\<lambda>redirect.
          require (sr_scheme redirect = ''https'') ''OIDC_REDIRECT_URI must use HTTPS in production'')
        else None,
        require (32 \<le> utf8_length (SECRET_KEY s) \<and> SECRET_KEY s \<notin> set placeholder_secrets)
          ''SECRET_KEY must contain at least 32 bytes of non-placeholder data in production'',
        require (RATE_LIMIT_BACKEND s = RedisBackend) ''RATE_LIMIT_BACKEND must be redis in production'',
        require (RATE_LIMIT_FAILURE_MODE s = Closed \<and> BUSINESS_WRITE_RATE_LIMIT_FAILURE_MODE s = Closed)
          ''Rate-limit failure modes must be closed in production''])"

definition validate_production_settings :: "config_env \<Rightarrow> settings \<Rightarrow> settings result" where
  "validate_production_settings ce s =
     (case first_error [check_proxies ce s, check_redis ce s, check_outbox ce s, check_mfa ce s,
        check_oidc ce s, check_smtp s, check_tracing ce s, check_production ce s] of
        Some message \<Rightarrow> Inl (ValueError message)
      | None \<Rightarrow> Inr s)"

section \<open>What the components read from the settings\<close>

definition outbox_settings_of :: "settings \<Rightarrow> outbox_settings" where
  "outbox_settings_of s =
     \<lparr>os_lease_seconds = OUTBOX_LEASE_SECONDS s, os_batch_size = OUTBOX_BATCH_SIZE s,
      os_backoff_base = OUTBOX_BACKOFF_BASE_SECONDS s, os_backoff_max = OUTBOX_BACKOFF_MAX_SECONDS s,
      os_max_attempts = OUTBOX_MAX_ATTEMPTS s\<rparr>"

definition reads_settings :: "settings \<Rightarrow> rate_env \<Rightarrow> bool" where
  "reads_settings s e =
     (re_redis e = (RATE_LIMIT_BACKEND s = RedisBackend) \<and>
      re_open e = (RATE_LIMIT_FAILURE_MODE s = Open) \<and>
      re_business_open e = (BUSINESS_WRITE_RATE_LIMIT_FAILURE_MODE s = Open) \<and>
      rr_limit (re_redis_limiter e) = RATE_LIMIT_LIMIT s \<and>
      rr_window (re_redis_limiter e) = RATE_LIMIT_WINDOW_SECONDS s \<and>
      rr_limit (re_business_redis e) = BUSINESS_WRITE_RATE_LIMIT s \<and>
      rr_window (re_business_redis e) = BUSINESS_WRITE_RATE_LIMIT_WINDOW_SECONDS s)"

lemma first_error_None: "first_error es = None \<longleftrightarrow> list_all (\<lambda>e. e = None) es"
  by (induction es rule: first_error.induct) simp_all

lemma require_None: "require ok message = None \<longleftrightarrow> ok"
  by (simp add: require_def)

lemma accepted_checks:
  "validate_production_settings ce s = Inr s' \<longleftrightarrow>
   s' = s \<and> check_proxies ce s = None \<and> check_redis ce s = None \<and> check_outbox ce s = None \<and>
   check_mfa ce s = None \<and> check_oidc ce s = None \<and> check_smtp s = None \<and> check_tracing ce s = None \<and>
   check_production ce s = None"
proof -
  have "validate_production_settings ce s = Inr s' \<longleftrightarrow> s' = s \<and>
      first_error [check_proxies ce s, check_redis ce s, check_outbox ce s, check_mfa ce s,
        check_oidc ce s, check_smtp s, check_tracing ce s, check_production ce s] = None"
    by (auto simp: validate_production_settings_def split: option.split)
  then show ?thesis by (simp add: first_error_None)
qed

lemma production_checks:
  assumes "check_production ce s = None" and "is_production s"
  shows "RATE_LIMIT_BACKEND s = RedisBackend \<and> RATE_LIMIT_FAILURE_MODE s = Closed \<and>
    BUSINESS_WRITE_RATE_LIMIT_FAILURE_MODE s = Closed \<and> 32 \<le> utf8_length (SECRET_KEY s) \<and>
    SECRET_KEY s \<notin> set placeholder_secrets \<and> \<not> DEBUG s"
  using assms unfolding check_production_def by (simp add: first_error_None require_None)

lemma redis_checks:
  assumes "check_redis ce s = None" and "RATE_LIMIT_BACKEND s = RedisBackend"
  shows "32 \<le> utf8_length (RATE_LIMIT_KEY_SECRET s)"
  using assms unfolding check_redis_def by (simp add: first_error_None require_None)

lemma proxy_checks:
  assumes "check_proxies ce s = None" and "entry \<in> set (proxy_entries s)"
  shows "entry \<noteq> ''*''"
proof -
  have "check_proxy ce entry = None"
    using assms unfolding check_proxies_def by (auto simp: first_error_None list_all_iff)
  then show ?thesis by (auto simp: check_proxy_def)
qed

lemma outbox_checks:
  assumes "check_outbox ce s = None" and "EMAIL_DELIVERY_MODE s = Outbox_Delivery"
  shows "OUTBOX_BACKOFF_BASE_SECONDS s \<le> OUTBOX_BACKOFF_MAX_SECONDS s \<and>
    SMTP_TIMEOUT_SECONDS s < OUTBOX_LEASE_SECONDS s \<and>
    SMTP_TIMEOUT_SECONDS s \<le> OUTBOX_SHUTDOWN_GRACE_SECONDS s"
  using assms unfolding check_outbox_def by (simp add: first_error_None require_None)

section \<open>Properties\<close>

text \<open>
  C27: settings accepted in production keep the service closed: no debugging, no trusted
  wildcard proxy, secrets of at least 32 bytes, and when Redis is unreachable every request outside the
  exempt paths and every business write is answered 503; with Redis reachable the
  counters of the process are never used. Accepted settings of the outbox give a retry
  delay between the base and the maximum, and a lease that outlives one SMTP attempt.
\<close>

theorem accepted_settings_safe:
  assumes "validate_production_settings ce s = Inr s'" and "fields_ok s" and "reads_settings s e"
    and "path \<notin> set RATE_LIMIT_EXEMPT_PATHS"
  shows "s' = s \<and> ''*'' \<notin> set (proxy_entries s) \<and>
    (is_production s \<longrightarrow>
      \<not> DEBUG s \<and> 32 \<le> utf8_length (SECRET_KEY s) \<and> 32 \<le> utf8_length (RATE_LIMIT_KEY_SECRET s) \<and>
      (\<not> re_redis_ok e \<longrightarrow>
        fst (rate_limit_middleware e path client st) = Refuse 503 ''Rate limit service unavailable'' 1 \<and>
        fst (enforce_business_write_rate_limit e uid st) = Refuse 503 ''Rate limit service unavailable'' 1) \<and>
      rs_limiter (snd (rate_limit_middleware e path client st)) = rs_limiter st \<and>
      rs_business (snd (enforce_business_write_rate_limit e uid st)) = rs_business st) \<and>
    (EMAIL_DELIVERY_MODE s = Outbox_Delivery \<longrightarrow>
      OUTBOX_BACKOFF_BASE_SECONDS s \<le> retry_delay (outbox_settings_of s) dg sh c \<and>
      retry_delay (outbox_settings_of s) dg sh c \<le> OUTBOX_BACKOFF_MAX_SECONDS s \<and>
      SMTP_TIMEOUT_SECONDS s < OUTBOX_LEASE_SECONDS s)"
proof -
  have checks: "s' = s" "check_proxies ce s = None" "check_redis ce s = None" "check_outbox ce s = None"
      "check_production ce s = None"
    using assms(1) unfolding accepted_checks by blast+
  have production: "RATE_LIMIT_BACKEND s = RedisBackend" "re_redis e" "\<not> re_open e" "\<not> re_business_open e"
      "\<not> DEBUG s" "32 \<le> utf8_length (SECRET_KEY s)" if "is_production s"
    using production_checks [OF checks(5) that] assms(3) by (simp_all add: reads_settings_def)
  have "OUTBOX_BACKOFF_BASE_SECONDS s \<le> retry_delay (outbox_settings_of s) dg sh c \<and>
      retry_delay (outbox_settings_of s) dg sh c \<le> OUTBOX_BACKOFF_MAX_SECONDS s \<and>
      SMTP_TIMEOUT_SECONDS s < OUTBOX_LEASE_SECONDS s" if "EMAIL_DELIVERY_MODE s = Outbox_Delivery"
    using retry_delay_range [of "outbox_settings_of s" dg sh c] outbox_checks [OF checks(4) that] assms(2)
    by (simp add: outbox_settings_of_def fields_ok_def)
  moreover have "fst (rate_limit_middleware e path client st) = Refuse 503 ''Rate limit service unavailable'' 1"
      "fst (enforce_business_write_rate_limit e uid st) = Refuse 503 ''Rate limit service unavailable'' 1"
    if "is_production s" "\<not> re_redis_ok e"
    using production(2-4) [OF that(1)] that(2) assms(4)
    by (simp_all add: rate_limit_middleware_def enforce_business_write_rate_limit_def)
  moreover have "rs_limiter (snd (rate_limit_middleware e path client st)) = rs_limiter st"
      "rs_business (snd (enforce_business_write_rate_limit e uid st)) = rs_business st" if "is_production s"
    using production(2) [OF that]
    by (auto simp: rate_limit_middleware_def enforce_business_write_rate_limit_def count_decision_def
        count_error_def Let_def split: prod.splits)
  moreover have "32 \<le> utf8_length (RATE_LIMIT_KEY_SECRET s)" if "is_production s"
    using redis_checks [OF checks(3)] production(1) [OF that] .
  moreover have "''*'' \<notin> set (proxy_entries s)" using proxy_checks [OF checks(2)] by blast
  ultimately show ?thesis using checks(1) production(5,6) by blast
qed

definition sample_settings :: settings where
  "sample_settings = (default_settings ''postgresql://db'' ''0123456789abcdef0123456789abcdef'')
     \<lparr>ENVIRONMENT := ''Production'', FORWARDED_ALLOW_IPS := ''10.0.0.1, 10.0.0.2'',
      REDIS_URL := ''redis://cache:6379/0'', RATE_LIMIT_BACKEND := RedisBackend,
      RATE_LIMIT_KEY_SECRET := ''fedcba9876543210fedcba9876543210'',
      BUSINESS_WRITE_RATE_LIMIT_FAILURE_MODE := Closed\<rparr>"

definition sample_config_env :: config_env where
  "sample_config_env = \<lparr>ce_bracketed_ok = (\<lambda>_. False), ce_ip_address = (\<lambda>a. take 3 a = ''10.''),
     ce_ip_network = (\<lambda>_. False), ce_fernet_key = (\<lambda>_. False)\<rparr>"

definition sample_down :: rate_env where
  "sample_down = sample_rate_env\<lparr>re_redis := True, re_redis_ok := False,
     re_redis_limiter := sample_redis_limiter\<lparr>rr_limit := 100\<rparr>,
     re_business_redis := sample_redis_limiter\<lparr>rr_limit := 30\<rparr>\<rparr>"

theorem accepted_settings_safe_witness:
  "validate_production_settings sample_config_env sample_settings = Inr sample_settings \<and>
   fst (rate_limit_middleware sample_down ''/api/v1/jobs'' (Some ''10.0.0.9'') sample_rate_state) =
     Refuse 503 ''Rate limit service unavailable'' 1"
proof -
  have checks: "first_error [check_proxies sample_config_env sample_settings,
      check_redis sample_config_env sample_settings, check_outbox sample_config_env sample_settings,
      check_mfa sample_config_env sample_settings, check_oidc sample_config_env sample_settings,
      check_smtp sample_settings, check_tracing sample_config_env sample_settings,
      check_production sample_config_env sample_settings] = None"
    by code_simp
  have valid: "validate_production_settings sample_config_env sample_settings = Inr sample_settings"
    by (simp add: validate_production_settings_def checks)
  have fields: "fields_ok sample_settings" by code_simp
  have "is_production sample_settings" "\<not> re_redis_ok sample_down"
      "''/api/v1/jobs'' \<notin> set RATE_LIMIT_EXEMPT_PATHS"
    by code_simp+
  moreover have "reads_settings sample_settings sample_down" by code_simp
  ultimately show ?thesis
    using accepted_settings_safe [OF valid fields, of sample_down "''/api/v1/jobs''"] valid by blast
qed

end
