(* ===== verification/Worker.thy ===== *)
theory Worker
  imports Config
begin

text \<open>
  The worker process: \<^verbatim>\<open>src/app/workers/outbox.py\<close> and the stop request of
  \<^verbatim>\<open>src/app/services/outbox_worker.py\<close>. The polling loop runs until a signal stops it, so it
  is a function of the list of what its iterations meet; \<open>Running\<close> says that the list was used
  up before a stop. The lemmas follow one row through a batch and show that a message the
  worker keeps claiming is settled after a bounded number of rounds.
\<close>

section \<open>Stopping\<close>

definition request_stop :: "int \<Rightarrow> int option \<Rightarrow> int option" where
  "request_stop monotonic stop_requested_at =
     (case stop_requested_at of None \<Rightarrow> Some monotonic | Some t \<Rightarrow> Some t)"

definition grace_expired :: "settings \<Rightarrow> int \<Rightarrow> int option \<Rightarrow> bool" where
  "grace_expired s monotonic stop_requested_at =
     (case stop_requested_at of None \<Rightarrow> False
      | Some t \<Rightarrow> seconds (OUTBOX_SHUTDOWN_GRACE_SECONDS s) \<le> monotonic - t)"

section \<open>The loop\<close>

record iteration =
  it_stop :: bool               \<comment> \<open>\<open>stop_event.is_set()\<close> at the loop test\<close>
  it_stopping :: bool           \<comment> \<open>\<open>stop_requested_at\<close> is set when \<open>run_once\<close> starts\<close>
  it_locked :: "int list"
  it_now :: datetime
  it_fault :: bool
  it_events :: "claimed_message \<Rightarrow> delivery_event"

datatype worker_exit = NotOutbox | Exited int | Raised error | Running

type_synonym worker_state = "(tables \<times> worker_log) \<times> int"   \<comment> \<open>with the count of loop failures\<close>

definition run_iteration ::
    "worker \<Rightarrow> iteration \<Rightarrow> tables \<times> worker_log \<Rightarrow> int result \<times> tables \<times> worker_log" where
  "run_iteration wk i s = run_once wk (it_stopping i) (it_locked i) (it_now i) (it_fault i) (it_events i) s"

fun worker_loop :: "worker \<Rightarrow> iteration list \<Rightarrow> worker_state \<Rightarrow> worker_exit \<times> worker_state" where
  "worker_loop wk [] st = (Running, st)"
| "worker_loop wk (i # rest) (s, failures) =
     (if it_stop i then (Exited 0, (s, failures))
      else (case run_iteration wk i s of
          (Inl _, s') \<Rightarrow> worker_loop wk rest (s', failures + 1)
        | (Inr _, s') \<Rightarrow> worker_loop wk rest (s', failures)))"

definition run_worker ::
    "settings \<Rightarrow> worker \<Rightarrow> bool \<Rightarrow> iteration list \<Rightarrow> worker_state \<Rightarrow> worker_exit \<times> worker_state" where
  "run_worker s wk once its st =
     (if EMAIL_DELIVERY_MODE s \<noteq> Outbox_Delivery then (NotOutbox, st)
      else if once then
        (case its of
           [] \<Rightarrow> (Running, st)
         | i # _ \<Rightarrow> (case run_iteration wk i (fst st) of
              (Inl e, s') \<Rightarrow> (Raised e, (s', snd st))
            | (Inr n, s') \<Rightarrow> (Exited n, (s', snd st))))
      else worker_loop wk its st)"

section \<open>One row through a batch\<close>

definition row :: "tables \<Rightarrow> int \<Rightarrow> outbox_message option" where
  "row tb k = find (\<lambda>m. ob_id m = k) (outbox tb)"

lemma row_id: "row tb k = Some m \<Longrightarrow> ob_id m = k \<and> m \<in> set (outbox tb)"
  by (auto simp: row_def dest: find_Some)

lemma find_map_key:
  "(\<And>x. key (g x) = key x) \<Longrightarrow> find (\<lambda>x. key x = k) (map g xs) = map_option g (find (\<lambda>x. key x = k) xs)"
  by (induction xs) auto

lemma row_update:
  assumes "\<And>m. ob_id (f m) = ob_id m"
  shows "row (tb\<lparr>outbox := update_where P f (outbox tb)\<rparr>) k =
    map_option (\<lambda>m. if P m then f m else m) (row tb k)"
  unfolding row_def update_where_def by (simp add: find_map_key assms)

lemma row_unique: "outbox_ok tb \<Longrightarrow> m \<in> set (outbox tb) \<Longrightarrow> row tb (ob_id m) = Some m"
  unfolding row_def by (rule find_unique) (auto simp: outbox_ok_def pairwise_ok_def)

text \<open>A delivery that does not leave the batch, and how it may end.\<close>

definition good_event :: "delivery_event \<Rightarrow> bool" where
  "good_event ev = (\<not> de_grace_expired ev \<and> \<not> de_fault ev \<and> de_send ev \<noteq> SendOther)"

definition settles :: "worker \<Rightarrow> claimed_message \<Rightarrow> (outbox_message \<Rightarrow> outbox_message) \<Rightarrow> bool" where
  "settles wk c f =
     (\<forall>m. ob_id (f m) = ob_id m \<and> ob_attempt_count (f m) = ob_attempt_count m \<and>
        (terminal_status (ob_status (f m)) \<and> ob_payload_encrypted (f m) = None \<or>
         ob_status (f m) = Pending \<and> cm_attempt_count c < os_max_attempts (wk_settings wk)))"

definition delivers ::
    "worker \<Rightarrow> claimed_message \<Rightarrow> tables \<times> worker_log \<Rightarrow> unit result \<times> tables \<times> worker_log \<Rightarrow> bool" where
  "delivers wk c s r =
     (\<exists>f s'. r = (Inr (), s') \<and> settles wk c f \<and>
        fst s' = (fst s)\<lparr>outbox := update_where (owned c (wk_owner wk)) f (outbox (fst s))\<rparr>)"

lemma worker_fail_delivers:
  assumes "\<not> de_fault ev"
  shows "delivers wk c s (worker_fail wk ev c category retryable s)"
proof -
  let ?os = "wk_settings wk" and ?now = "de_mark_now ev"
  define f where "f = (if terminal_failure ?os c retryable ?now then dead_row ?now category
    else retry_row ?now (?now + seconds (retry_delay ?os (wk_digest16 wk) (wk_show_id wk) c)) category)"
  have "settles wk c f"
    by (auto simp: settles_def f_def terminal_failure_def dead_row_def retry_row_def)
  moreover obtain outcome where "mark_failed ?os (wk_digest16 wk) (wk_show_id wk) c (wk_owner wk) category
      retryable ?now (de_fault ev) (fst s) =
    (Inr outcome, (fst s)\<lparr>outbox := update_where (owned c (wk_owner wk)) f (outbox (fst s))\<rparr>)"
    using assms by (simp add: mark_failed_def owned_update_def Let_def flip: f_def)
  ultimately show ?thesis by (auto simp: worker_fail_def delivers_def)
qed

lemma process_message_delivers:
  assumes "good_event ev"
  shows "delivers wk c s (process_message wk ev c s)"
proof -
  have nf: "\<not> de_fault ev" using assms by (simp add: good_event_def)
  have failing: "delivers wk c s (worker_fail wk ev c category retryable (fst s, l))" for category retryable l
    using worker_fail_delivers [OF nf, of wk c "(fst s, l)"] by (simp add: delivers_def)
  have finished: "delivers wk c s (Inr (), (fst s)\<lparr>outbox :=
      update_where (owned c (wk_owner wk)) (succeed_row (de_mark_now ev)) (outbox (fst s))\<rparr>, l)" for l
    unfolding delivers_def
    by (intro exI [of _ "succeed_row (de_mark_now ev)"] exI) (auto simp: settles_def succeed_row_def)
  show ?thesis
  proof (cases "cm_payload_expires_at c \<le> de_check_now ev")
    case True
    then show ?thesis by (simp add: process_message_def Let_def failing)
  next
    case False
    show ?thesis
    proof (cases "decrypt_email_payload (wk_crypto wk) (cm_encryption_version c) (cm_payload_encrypted c)")
      case (Inl e)
      then show ?thesis using False by (simp add: process_message_def Let_def failing)
    next
      case (Inr payload)
      then show ?thesis using False assms nf failing finished
        by (cases "de_send ev")
          (simp_all add: process_message_def Let_def mark_succeeded_def owned_update_def good_event_def)
    qed
  qed
qed

lemma delivers_row:
  assumes "delivers wk c s (Inr (), s')" and "row (fst s) k = Some m"
  shows "(\<not> owned c (wk_owner wk) m \<longrightarrow> row (fst s') k = Some m) \<and>
    (owned c (wk_owner wk) m \<longrightarrow> (\<exists>f. settles wk c f \<and> row (fst s') k = Some (f m)))"
proof -
  obtain f where f: "settles wk c f"
      "fst s' = (fst s)\<lparr>outbox := update_where (owned c (wk_owner wk)) f (outbox (fst s))\<rparr>"
    using assms(1) by (auto simp: delivers_def)
  have "row (fst s') k = Some (if owned c (wk_owner wk) m then f m else m)"
    unfolding f(2) using f(1) assms(2) by (subst row_update) (auto simp: settles_def)
  then show ?thesis using f(1) by auto
qed

lemma process_batch_rows:
  assumes "list_all (\<lambda>(ev, c). good_event ev) ecs" and "distinct (map (\<lambda>(ev, c). cm_id c) ecs)"
    and "row (fst s) k = Some m"
  shows "\<exists>s'. process_batch wk ecs s = (Inr (), s') \<and>
    (k \<notin> cm_id ` snd ` set ecs \<longrightarrow> row (fst s') k = Some m) \<and>
    (\<forall>c\<in>snd ` set ecs. cm_id c = k \<longrightarrow> owned c (wk_owner wk) m \<longrightarrow>
       (\<exists>f. settles wk c f \<and> row (fst s') k = Some (f m)))"
  using assms
proof (induction ecs arbitrary: s m)
  case (Cons ec ecs)
  obtain ev c where ec: "ec = (ev, c)" by (cases ec)
  let ?s1 = "(fst s, snd s @ [(cm_message_type c, ''claimed'')])"
  have ev: "good_event ev" using Cons.prems(1) by (simp add: ec)
  obtain s2 where s2: "process_message wk ev c ?s1 = (Inr (), s2)" "delivers wk c ?s1 (Inr (), s2)"
    using process_message_delivers [OF ev, of wk c ?s1] by (metis delivers_def)
  have run: "process_batch wk (ec # ecs) s = process_batch wk ecs s2"
    using ev s2(1) by (simp add: ec Let_def good_event_def)
  note row2 = delivers_row [OF s2(2), unfolded fst_conv, OF Cons.prems(3)]
  note IH = Cons.IH [where s = s2]
  have rest: "list_all (\<lambda>(ev, c). good_event ev) ecs" "distinct (map (\<lambda>(ev, c). cm_id c) ecs)"
    using Cons.prems(1,2) by simp_all
  show ?case
  proof (cases "owned c (wk_owner wk) m")
    case False
    then have "row (fst s2) k = Some m" using row2 by simp
    from IH [OF rest this] obtain s' where s': "process_batch wk ecs s2 = (Inr (), s')"
        "k \<notin> cm_id ` snd ` set ecs \<longrightarrow> row (fst s') k = Some m"
        "\<forall>c\<in>snd ` set ecs. cm_id c = k \<longrightarrow> owned c (wk_owner wk) m \<longrightarrow>
           (\<exists>f. settles wk c f \<and> row (fst s') k = Some (f m))"
      by blast
    show ?thesis
      by (rule exI [of _ s']) (use s' False in \<open>simp add: run, simp add: ec\<close>)
  next
    case True
    then obtain f where f: "settles wk c f" "row (fst s2) k = Some (f m)" using row2 by blast
    have k: "k = cm_id c" using True row_id [OF Cons.prems(3)] by (simp add: owned_def)
    have other: "k \<notin> cm_id ` snd ` set ecs"
      using Cons.prems(2) by (force simp: ec k)
    from IH [OF rest f(2)] obtain s' where s': "process_batch wk ecs s2 = (Inr (), s')"
        "row (fst s') k = Some (f m)"
      using other by auto
    have "\<exists>f. settles wk d f \<and> row (fst s') k = Some (f m)" if "d \<in> snd ` set (ec # ecs)" "cm_id d = k" for d
      using that other f(1) s'(2) by (auto simp: ec)
    then show ?thesis using s'(1) k by (intro exI [of _ s']) (simp add: run, simp add: ec)
  qed
qed simp

section \<open>Rounds\<close>

text \<open>
  A round in which nothing fails and that claims the row \<open>k\<close>: the row is due, not locked by
  another worker and within the first rows of the batch.
\<close>

definition good_round :: "worker \<Rightarrow> int \<Rightarrow> iteration \<Rightarrow> tables \<Rightarrow> bool" where
  "good_round wk k i tb =
     (\<not> it_stop i \<and> \<not> it_stopping i \<and> \<not> it_fault i \<and>
      k \<in> ob_id ` set (claim_batch (wk_settings wk) (it_locked i) (it_now i) tb) \<and>
      list_all (\<lambda>m. good_event (it_events i (claimed_of (wk_settings wk) (wk_owner wk) (it_now i) m)))
        (claim_batch (wk_settings wk) (it_locked i) (it_now i) tb))"

text \<open>Every round before the row is settled is good.\<close>

fun claims_each :: "worker \<Rightarrow> int \<Rightarrow> iteration list \<Rightarrow> tables \<times> worker_log \<Rightarrow> bool" where
  "claims_each wk k [] s = True"
| "claims_each wk k (i # its) s =
     ((case row (fst s) k of Some m \<Rightarrow> terminal_status (ob_status m) | None \<Rightarrow> False) \<or>
      good_round wk k i (fst s) \<and> claims_each wk k its (snd (run_iteration wk i s)))"

definition rounds_left :: "worker \<Rightarrow> outbox_message \<Rightarrow> nat" where
  "rounds_left wk m =
     (if terminal_status (ob_status m) then 0
      else Suc (nat (os_max_attempts (wk_settings wk) - 1 - ob_attempt_count m)))"

lemma claim_batch_ids:
  assumes "outbox_ok tb"
  shows "distinct (map ob_id (claim_batch os locked now tb))"
proof -
  let ?xs = "filter (\<lambda>m. ob_id m \<notin> set locked) (sort_by claim_order (filter (claimable now) (outbox tb)))"
  have "distinct (map ob_id (outbox tb))" using assms pairwise_ok_distinct by (auto simp: outbox_ok_def)
  then have "distinct ?xs" "inj_on ob_id (set (outbox tb))" by (simp_all add: distinct_map)
  then have "distinct (map ob_id ?xs)" by (auto simp: distinct_map intro: inj_on_subset)
  then have "distinct (take (nat (os_batch_size os)) (map ob_id ?xs))" by (rule distinct_take)
  then show ?thesis by (simp add: claim_batch_def take_map)
qed

lemma good_round_settles:
  assumes ok: "outbox_ok (fst s)" and good: "good_round wk k i (fst s)" and m: "row (fst s) k = Some m"
  shows "\<exists>n s' m'. run_iteration wk i s = (Inr n, s') \<and> row (fst s') k = Some m' \<and>
    rounds_left wk m' < rounds_left wk m \<and>
    (terminal_status (ob_status m') \<longrightarrow> ob_payload_encrypted m' = None)"
proof -
  let ?os = "wk_settings wk" and ?owner = "wk_owner wk" and ?now = "it_now i"
  let ?batch = "claim_batch ?os (it_locked i) ?now (fst s)"
  let ?claim = "claimed_of ?os ?owner ?now"
  let ?tb = "(fst s)\<lparr>outbox := update_where (\<lambda>m. ob_id m \<in> ob_id ` set ?batch) (lease_row ?os ?owner ?now)
    (outbox (fst s))\<rparr>"
  let ?ecs = "map (\<lambda>c. (it_events i c, c)) (map ?claim ?batch)"
  have in_batch: "m \<in> set ?batch"
    using good row_id [OF m] claim_rows [OF ok, of m] by (auto simp: good_round_def)
  then have "claimable ?now m" by (rule claim_batch_claimable)
  then have live: "\<not> terminal_status (ob_status m)" by (auto simp: claimable_def)
  have leased: "row ?tb k = Some (lease_row ?os ?owner ?now m)"
    using m in_batch row_id [OF m] by (subst row_update) auto
  have claimed: "?claim m \<in> snd ` set ?ecs" using in_batch by force
  have "list_all (\<lambda>(ev, c). good_event ev) ?ecs" "distinct (map (\<lambda>(ev, c). cm_id c) ?ecs)"
      "row (fst (?tb, snd s)) k = Some (lease_row ?os ?owner ?now m)"
    using good claim_batch_ids [OF ok] leased by (simp_all add: good_round_def list_all_iff comp_def)
  from process_batch_rows [OF this, of wk] obtain s' where
    batch: "process_batch wk ?ecs (?tb, snd s) = (Inr (), s')" and
    settled: "\<forall>c\<in>snd ` set ?ecs. cm_id c = k \<longrightarrow> owned c ?owner (lease_row ?os ?owner ?now m) \<longrightarrow>
       (\<exists>f. settles wk c f \<and> row (fst s') k = Some (f (lease_row ?os ?owner ?now m)))"
    by (elim exE conjE)
  have "cm_id (?claim m) = k" "owned (?claim m) ?owner (lease_row ?os ?owner ?now m)"
    using row_id [OF m] by (simp_all add: owned_def)
  then obtain f where f: "settles wk (?claim m) f" "row (fst s') k = Some (f (lease_row ?os ?owner ?now m))"
    using bspec [OF settled claimed] by blast
  have "run_iteration wk i s = (Inr (int (length ?batch)), s')"
    using good batch by (simp add: run_iteration_def run_once_def claim_messages_def Let_def good_round_def)
  moreover have "rounds_left wk m' < rounds_left wk m \<and>
      (terminal_status (ob_status m') \<longrightarrow> ob_payload_encrypted m' = None)"
    if "m' = f (lease_row ?os ?owner ?now m)" for m'
  proof -
    have after: "ob_attempt_count m' = ob_attempt_count m + 1"
      "terminal_status (ob_status m') \<and> ob_payload_encrypted m' = None \<or>
       ob_status m' = Pending \<and> ob_attempt_count m + 1 < os_max_attempts (wk_settings wk)"
      using f(1) by (auto simp: settles_def that)
    then show ?thesis using live by (auto simp: rounds_left_def)
  qed
  ultimately show ?thesis using f(2) by blast
qed

text \<open>Whatever happens in a round, the outbox only takes steps of its life cycle.\<close>

lemma worker_fail_steps: "outbox_step\<^sup>*\<^sup>* (fst s) (fst (snd (worker_fail wk ev c category retryable s)))"
  by (auto simp: worker_fail_def split: prod.splits sum.splits intro!: r_into_rtranclp outbox_step.fail)

lemma process_message_steps: "outbox_step\<^sup>*\<^sup>* (fst s) (fst (snd (process_message wk ev c s)))"
proof -
  have fail: "outbox_step\<^sup>*\<^sup>* (fst s) (fst (snd (worker_fail wk ev c category retryable (fst s, l))))"
    for category retryable l
    using worker_fail_steps [of "(fst s, l)" wk ev c category retryable] by simp
  have succeed: "outbox_step\<^sup>*\<^sup>* (fst s) tb'"
    if "mark_succeeded c (wk_owner wk) (de_mark_now ev) (de_fault ev) (fst s) = (r, tb')" for r tb'
    by (rule r_into_rtranclp) (rule outbox_step.succeed [OF that])
  show ?thesis
    using fail succeed worker_fail_steps [of s wk ev c]
    by (auto simp: process_message_def Let_def split: sum.splits send_outcome.splits prod.splits)
qed

lemma process_batch_steps: "outbox_step\<^sup>*\<^sup>* (fst s) (fst (snd (process_batch wk ecs s)))"
proof (induction ecs arbitrary: s)
  case (Cons ec rest)
  obtain ev c where ec: "ec = (ev, c)" by (cases ec)
  let ?s1 = "(fst s, snd s @ [(cm_message_type c, ''claimed'')])"
  obtain r s2 where r: "process_message wk ev c ?s1 = (r, s2)" by (rule prod.exhaust)
  then have "outbox_step\<^sup>*\<^sup>* (fst s) (fst s2)"
    using process_message_steps [of ?s1 wk ev c] by simp
  from rtranclp_trans [OF this Cons.IH [of s2]] this show ?case
    using r by (cases r) (simp_all add: ec Let_def)
qed simp

lemma run_iteration_steps: "outbox_step\<^sup>*\<^sup>* (fst s) (fst (snd (run_iteration wk i s)))"
proof (cases "it_stopping i")
  case False
  obtain r tb where r: "claim_messages (wk_settings wk) (wk_owner wk) (it_locked i) (it_now i) (it_fault i)
      (fst s) = (r, tb)" by (rule prod.exhaust)
  then have claim: "outbox_step\<^sup>*\<^sup>* (fst s) tb" by (intro r_into_rtranclp) (rule outbox_step.claim)
  show ?thesis
  proof (cases r)
    case (Inl e)
    then show ?thesis using r False claim by (simp add: run_iteration_def run_once_def)
  next
    case (Inr messages)
    let ?b = "process_batch wk (map (\<lambda>c. (it_events i c, c)) messages) (tb, snd s)"
    have "outbox_step\<^sup>*\<^sup>* (fst s) (fst (snd ?b))"
      using process_batch_steps [of "(tb, snd s)" wk "map (\<lambda>c. (it_events i c, c)) messages"] claim by simp
    then show ?thesis using r False Inr
      by (cases ?b; cases "fst ?b") (simp_all add: run_iteration_def run_once_def)
  qed
qed (simp add: run_iteration_def run_once_def)

lemma worker_loop_steps:
  "outbox_step\<^sup>*\<^sup>* (fst s) (fst (fst (snd (worker_loop wk its (s, n)))))"
proof (induction its arbitrary: s n)
  case (Cons i rest)
  obtain r s' where r: "run_iteration wk i s = (r, s')" by (rule prod.exhaust)
  then have "outbox_step\<^sup>*\<^sup>* (fst s) (fst s')" using run_iteration_steps [of s wk i] by simp
  from rtranclp_trans [OF this Cons.IH [of s']] show ?case
    using r by (cases r) simp_all
qed simp

lemma loop_settles:
  assumes "outbox_ok (fst s)" and "row (fst s) k = Some m" and "claims_each wk k its s"
    and "rounds_left wk m \<le> length its"
  shows "\<exists>m'. row (fst (fst (snd (worker_loop wk its (s, n))))) k = Some m' \<and> terminal_status (ob_status m')"
  using assms
proof (induction its arbitrary: s m n)
  case Nil
  then show ?case by (auto simp: rounds_left_def split: if_splits)
next
  case (Cons i its)
  let ?fin = "fst (fst (snd (worker_loop wk (i # its) (s, n))))"
  show ?case
  proof (cases "terminal_status (ob_status m)")
    case True
    have steps: "outbox_step\<^sup>*\<^sup>* (fst s) ?fin" using worker_loop_steps [of s wk "i # its" n] by simp
    have "m \<in> set (outbox ?fin)"
      using terminal_row_stays_steps [OF steps Cons.prems(1)] row_id [OF Cons.prems(2)] True by blast
    then have "row ?fin k = Some m"
      using row_unique [OF outbox_system.steps_inv [OF steps Cons.prems(1)]] row_id [OF Cons.prems(2)] by blast
    then show ?thesis using True by blast
  next
    case False
    then have good: "good_round wk k i (fst s)" "claims_each wk k its (snd (run_iteration wk i s))"
      using Cons.prems(2,3) by auto
    obtain n' s' m' where round: "run_iteration wk i s = (Inr n', s')" "row (fst s') k = Some m'"
        "rounds_left wk m' < rounds_left wk m"
      using good_round_settles [OF Cons.prems(1) good(1) Cons.prems(2)] by blast
    have "outbox_step\<^sup>*\<^sup>* (fst s) (fst s')" using run_iteration_steps [of s wk i] round(1) by simp
    then have "outbox_ok (fst s')" by (rule outbox_system.steps_inv [OF _ Cons.prems(1)])
    moreover have "rounds_left wk m' \<le> length its" using round(3) Cons.prems(4) by simp
    ultimately have "\<exists>m'. row (fst (fst (snd (worker_loop wk its (s', n))))) k = Some m' \<and>
        terminal_status (ob_status m')"
      using Cons.IH [of s' m' n] round(1,2) good(2) by simp
    then show ?thesis using round(1) good(1) by (simp add: good_round_def)
  qed
qed

section \<open>Properties\<close>

text \<open>
  C26: the worker settles every message it keeps claiming: in a database that satisfies the
  outbox invariant, as long as the polling loop claims the row in each round without a
  fault before it is settled, the row is terminal, without its payload, after at most the number of
  attempts it has left (one if it has none left), and no later round or stop changes that.
\<close>

theorem worker_settles:
  assumes "EMAIL_DELIVERY_MODE st = Outbox_Delivery"
    and "outbox_ok (fst s)" and "row (fst s) k = Some m"
    and "claims_each wk k its s"
    and "int (length its) \<ge> max 1 (os_max_attempts (wk_settings wk) - ob_attempt_count m)"
  shows "\<exists>m'. row (fst (fst (snd (run_worker st wk False its (s, n))))) k = Some m' \<and>
    terminal_status (ob_status m') \<and> ob_payload_encrypted m' = None"
proof -
  let ?fin = "fst (fst (snd (worker_loop wk its (s, n))))"
  have "rounds_left wk m \<le> length its" using assms(5) by (auto simp: rounds_left_def)
  then obtain m' where m': "row ?fin k = Some m'" "terminal_status (ob_status m')"
    using loop_settles [OF assms(2-4)] by blast
  have "outbox_ok ?fin"
    using outbox_system.steps_inv [OF _ assms(2)] worker_loop_steps [of s wk its n] by simp
  then have "outbox_check m'" using outbox_ok_row row_id [OF m'(1)] by blast
  then have "ob_payload_encrypted m' = None" using m'(2) by (auto simp: outbox_check_def)
  then show ?thesis using m' assms(1) by (auto simp: run_worker_def)
qed

definition sample_worker :: worker where
  "sample_worker = \<lparr>wk_settings = sample_outbox_settings\<lparr>os_max_attempts := 2\<rparr>, wk_crypto = sample_crypto,
     wk_digest16 = (\<lambda>_. 9), wk_show_id = (\<lambda>_. ''1''), wk_owner = ''w1''\<rparr>"

definition smtp_down :: "datetime \<Rightarrow> iteration" where
  "smtp_down t = \<lparr>it_stop = False, it_stopping = False, it_locked = [], it_now = t, it_fault = False,
     it_events = (\<lambda>_. \<lparr>de_grace_expired = False, de_check_now = t, de_mark_now = t, de_send = SendSmtp,
       de_fault = False\<rparr>)\<rparr>"

theorem worker_settles_witness:
  "\<exists>m'. row (fst (fst (snd (run_worker (sample_settings\<lparr>EMAIL_DELIVERY_MODE := Outbox_Delivery\<rparr>) sample_worker
       False [smtp_down (seconds 1), smtp_down (seconds 100)] ((sample_outbox, []), 0))))) 1 = Some m' \<and>
     terminal_status (ob_status m') \<and> ob_payload_encrypted m' = None"
proof -
  have "row sample_outbox 1 = Some sample_message" by code_simp
  moreover have "claims_each sample_worker 1 [smtp_down (seconds 1), smtp_down (seconds 100)] (sample_outbox, [])"
    by code_simp
  moreover have "os_max_attempts (wk_settings sample_worker) = 2" "ob_attempt_count sample_message = 0"
    by (simp_all add: sample_worker_def sample_message_def outbox_row_def)
  ultimately show ?thesis
    using worker_settles [of "sample_settings\<lparr>EMAIL_DELIVERY_MODE := Outbox_Delivery\<rparr>" "(sample_outbox, [])" 1
        sample_message sample_worker "[smtp_down (seconds 1), smtp_down (seconds 100)]" 0] sample_outbox_ok
    by simp
qed

end
