(* ===== verification/OidcProvider.thy ===== *)
theory OidcProvider
  imports Config
begin

text \<open>
  The client of the OpenID provider: \<^verbatim>\<open>src/app/services/oidc_cache.py\<close>,
  \<^verbatim>\<open>src/app/services/oidc_provider.py\<close> and \<^verbatim>\<open>src/app/commands/oidc_cache.py\<close>. Discovery
  document and signing keys are cached in Redis behind a refresh lock. HTTP, JSON text, SHA-256
  and PyJWT are parameters; which Redis call fails, what other processes do to Redis during
  a wait and what the provider answers are arguments of each operation. The lemmas show that the
  wait ends, that no content of the cache can make a load fail, and what a validated token has.
\<close>

section \<open>Results\<close>

text \<open>
  \<open>Provider\<close> is \<open>OIDCProviderError\<close>, \<open>Uncaught\<close> any exception the client lets through, \<open>Waiting\<close>
  the list of polls of a wait that was too short.
\<close>

datatype provider_error = Provider string | Uncaught | Waiting

type_synonym 'a provided = "provider_error + 'a"

section \<open>The cache of public documents\<close>

datatype document = Discovery | Jwks

fun document_name :: "document \<Rightarrow> string" where
  "document_name Discovery = ''discovery''"
| "document_name Jwks = ''jwks''"

definition OIDC_CACHE_NAMESPACE :: string where
  "OIDC_CACHE_NAMESPACE = ''jobtrack-api:oidc-cache:v1''"

record cache_env =
  ke_settings :: settings
  ke_sha256 :: "string \<Rightarrow> string"
  ke_loads :: "string \<Rightarrow> jvalue option"
  ke_dumps :: "jobject \<Rightarrow> string"

record cache_state =
  ks_store :: "string \<Rightarrow> (string \<times> datetime) option"
  ks_ops :: "(document \<times> string) list"     \<comment> \<open>\<open>OIDC_CACHE_OPERATIONS_TOTAL\<close>\<close>
  ks_fetches :: "(document \<times> string) list" \<comment> \<open>\<open>OIDC_PROVIDER_FETCHES_TOTAL\<close>\<close>

record document_read =
  dr_payload :: "jobject option"
  dr_outcome :: string

record refresh_lock =
  rk_key :: string
  rk_token :: string

definition issuer_of :: "settings \<Rightarrow> string" where
  "issuer_of s = py_rstrip_char CHR ''/'' (OIDC_ISSUER s)"

definition cache_enabled :: "cache_env \<Rightarrow> bool" where
  "cache_enabled ke = (OIDC_CACHE_BACKEND (ke_settings ke) = RedisCache)"

definition cache_key :: "cache_env \<Rightarrow> document \<Rightarrow> string" where
  "cache_key ke d =
     OIDC_CACHE_NAMESPACE @ '':'' @ ke_sha256 ke (issuer_of (ke_settings ke)) @ '':'' @ document_name d"

definition lock_key :: "cache_env \<Rightarrow> document \<Rightarrow> string" where
  "lock_key ke d = cache_key ke d @ '':refresh-lock''"

definition record_op :: "document \<Rightarrow> string \<Rightarrow> cache_state \<Rightarrow> cache_state" where
  "record_op d outcome st = st\<lparr>ks_ops := ks_ops st @ [(d, outcome)]\<rparr>"

definition store_get :: "datetime \<Rightarrow> cache_state \<Rightarrow> string \<Rightarrow> string option" where
  "store_get now st k =
     (case ks_store st k of None \<Rightarrow> None | Some (v, expires) \<Rightarrow> if expires \<le> now then None else Some v)"

definition store_set :: "string \<Rightarrow> string \<Rightarrow> datetime \<Rightarrow> cache_state \<Rightarrow> cache_state" where
  "store_set k v expires st = st\<lparr>ks_store := (ks_store st)(k := Some (v, expires))\<rparr>"

definition store_delete :: "string \<Rightarrow> cache_state \<Rightarrow> cache_state" where
  "store_delete k st = st\<lparr>ks_store := (ks_store st)(k := None)\<rparr>"

definition discard_invalid :: "cache_env \<Rightarrow> bool \<Rightarrow> document \<Rightarrow> cache_state \<Rightarrow> cache_state" where
  "discard_invalid ke delete_ok d st =
     (let st1 = record_op d ''invalid'' st in
      if cache_enabled ke \<and> delete_ok then store_delete (cache_key ke d) st1 else st1)"

definition document_read_of :: "jobject option \<Rightarrow> string \<Rightarrow> document_read" where
  "document_read_of payload outcome = \<lparr>dr_payload = payload, dr_outcome = outcome\<rparr>"

definition cache_read_document ::
    "cache_env \<Rightarrow> bool \<Rightarrow> bool \<Rightarrow> datetime \<Rightarrow> document \<Rightarrow> cache_state \<Rightarrow> document_read \<times> cache_state" where
  "cache_read_document ke get_ok delete_ok now d st =
     (if \<not> cache_enabled ke then (document_read_of None ''disabled'', st)
      else if \<not> get_ok then (document_read_of None ''error'', record_op d ''error'' st)
      else (case store_get now st (cache_key ke d) of
          None \<Rightarrow> (document_read_of None ''miss'', record_op d ''miss'' st)
        | Some v \<Rightarrow>
            if OIDC_CACHE_MAX_DOCUMENT_BYTES (ke_settings ke) < int (length v)
            then (document_read_of None ''invalid'', discard_invalid ke delete_ok d st)
            else (case ke_loads ke v of
                Some (VObj payload) \<Rightarrow> (document_read_of (Some payload) ''hit'', st)
              | _ \<Rightarrow> (document_read_of None ''invalid'', discard_invalid ke delete_ok d st))))"

definition cache_write_document ::
    "cache_env \<Rightarrow> bool \<Rightarrow> datetime \<Rightarrow> document \<Rightarrow> jobject \<Rightarrow> cache_state \<Rightarrow> bool \<times> cache_state" where
  "cache_write_document ke set_ok now d payload st =
     (if \<not> cache_enabled ke then (False, st)
      else let s = ke_settings ke; v = ke_dumps ke payload in
        if OIDC_CACHE_MAX_DOCUMENT_BYTES s < int (length v) then (False, record_op d ''invalid'' st)
        else if \<not> set_ok then (False, record_op d ''error'' st)
        else (let ttl = (if d = Discovery then OIDC_DISCOVERY_CACHE_TTL_SECONDS s
                         else OIDC_JWKS_CACHE_TTL_SECONDS s) in
              (True, record_op d ''refreshed'' (store_set (cache_key ke d) v (now + seconds ttl) st))))"

definition acquire_refresh_lock ::
    "cache_env \<Rightarrow> bool \<Rightarrow> datetime \<Rightarrow> string \<Rightarrow> document \<Rightarrow> cache_state \<Rightarrow> refresh_lock option \<times> cache_state" where
  "acquire_refresh_lock ke set_ok now token d st =
     (if \<not> cache_enabled ke then (None, st)
      else if \<not> set_ok then (None, record_op d ''lock_error'' st)
      else if store_get now st (lock_key ke d) \<noteq> None then (None, record_op d ''lock_contended'' st)
      else (Some \<lparr>rk_key = lock_key ke d, rk_token = token\<rparr>, record_op d ''lock_acquired''
        (store_set (lock_key ke d) token
           (now + seconds (OIDC_CACHE_REFRESH_LOCK_SECONDS (ke_settings ke))) st)))"

text \<open>The release script deletes the key only while it still holds the caller's token.\<close>

definition release_refresh_lock ::
    "bool \<Rightarrow> datetime \<Rightarrow> document \<Rightarrow> refresh_lock \<Rightarrow> cache_state \<Rightarrow> cache_state" where
  "release_refresh_lock eval_ok now d lock st =
     (if \<not> eval_ok then record_op d ''lock_error'' st
      else if store_get now st (rk_key lock) = Some (rk_token lock) then store_delete (rk_key lock) st
      else st)"

section \<open>Waiting for another process\<close>

text \<open>
  One turn of the wait: the monotonic clock at the loop test, what other processes do to Redis
  during the sleep, and the read that follows.
\<close>

record poll =
  po_test :: rat
  po_others :: "(string \<Rightarrow> (string \<times> datetime) option) \<Rightarrow> (string \<Rightarrow> (string \<times> datetime) option)"
  po_get_ok :: bool
  po_delete_ok :: bool
  po_now :: datetime

fun wait_loop ::
    "cache_env \<Rightarrow> document \<Rightarrow> jobject option \<Rightarrow> rat \<Rightarrow> poll list \<Rightarrow> cache_state \<Rightarrow>
     document_read option \<times> cache_state" where
  "wait_loop ke d different deadline [] st = (None, st)"
| "wait_loop ke d different deadline (p # ps) st =
     (if \<not> po_test p < deadline then (Some (document_read_of None ''miss''), st)
      else
        (let (r, st1) = cache_read_document ke (po_get_ok p) (po_delete_ok p) (po_now p) d
               (st\<lparr>ks_store := po_others p (ks_store st)\<rparr>) in
         if dr_payload r \<noteq> None \<and> dr_payload r \<noteq> different \<or>
            dr_outcome r \<in> {''error'', ''invalid'', ''disabled''}
         then (Some r, st1)
         else wait_loop ke d different deadline ps st1))"

definition wait_for_value ::
    "cache_env \<Rightarrow> document \<Rightarrow> jobject option \<Rightarrow> rat \<Rightarrow> poll list \<Rightarrow> cache_state \<Rightarrow>
     document_read option \<times> cache_state" where
  "wait_for_value ke d different started polls st =
     wait_loop ke d different (started + OIDC_CACHE_REFRESH_WAIT_SECONDS (ke_settings ke)) polls st"

definition cache_invalidate ::
    "cache_env \<Rightarrow> bool \<Rightarrow> datetime \<Rightarrow> cache_state \<Rightarrow> int option \<times> cache_state" where
  "cache_invalidate ke delete_ok now st =
     (if \<not> cache_enabled ke then (None, st)
      else if \<not> delete_ok
      then (None, record_op Jwks ''invalidation_error'' (record_op Discovery ''invalidation_error'' st))
      else (let present = filter (\<lambda>d. store_get now st (cache_key ke d) \<noteq> None) [Discovery, Jwks] in
            (Some (int (length present)),
             record_op Jwks ''invalidated'' (record_op Discovery ''invalidated''
               (store_delete (cache_key ke Jwks) (store_delete (cache_key ke Discovery) st))))))"

text \<open>The exit code of the command.\<close>

definition run_invalidation :: "cache_env \<Rightarrow> bool \<Rightarrow> datetime \<Rightarrow> cache_state \<Rightarrow> int \<times> cache_state" where
  "run_invalidation ke delete_ok now st =
     (if OIDC_CACHE_BACKEND (ke_settings ke) \<noteq> RedisCache then (2, st)
      else (case cache_invalidate ke delete_ok now st of
          (None, st') \<Rightarrow> (1, st') | (Some _, st') \<Rightarrow> (0, st')))"

section \<open>Requests to the provider\<close>

text \<open>\<open>HttpFailed\<close>: a transport error or an error status; otherwise the body of the response.\<close>

datatype http_result = HttpFailed | HttpBody string

record token_request =
  tq_data :: "(string \<times> string) list"
  tq_auth :: "(string \<times> string) option"

record jwk =
  jk_key_id :: "string option"
  jk_algorithm :: string
  jk_key :: string

record metadata =
  md_issuer :: string
  md_authorization_endpoint :: string
  md_token_endpoint :: string
  md_jwks_uri :: string

text \<open>What one load of a document meets.\<close>

record load_env =
  le_get_ok :: bool
  le_delete_ok :: bool
  le_read_now :: datetime
  le_lock_ok :: bool
  le_lock_now :: datetime
  le_token :: string              \<comment> \<open>\<open>secrets.token_bytes(16)\<close>\<close>
  le_started :: rat
  le_polls :: "poll list"
  le_response :: http_result
  le_set_ok :: bool
  le_set_now :: datetime
  le_release_ok :: bool
  le_release_now :: datetime

record provider_env =
  pe_cache :: cache_env
  pe_bracketed_ok :: "string \<Rightarrow> bool"
  pe_discovery :: load_env
  pe_jwks :: load_env
  pe_refresh :: load_env
  pe_token_response :: "string \<Rightarrow> token_request \<Rightarrow> http_result"
  pe_header :: "string \<Rightarrow> (string option \<times> string option) option"  \<comment> \<open>\<open>alg\<close> and \<open>kid\<close>\<close>
  pe_jwk_set :: "jobject \<Rightarrow> jwk list option"                        \<comment> \<open>\<open>PyJWKSet.from_dict\<close>\<close>
  pe_decode :: "string \<Rightarrow> string \<Rightarrow> string list \<Rightarrow> string \<Rightarrow> string \<Rightarrow> jobject option"

definition request_json :: "cache_env \<Rightarrow> int option \<Rightarrow> http_result \<Rightarrow> jobject provided" where
  "request_json ke max_bytes response =
     (case response of
        HttpFailed \<Rightarrow> Inl (Provider ''OIDC provider request failed'')
      | HttpBody content \<Rightarrow>
          if (case max_bytes of None \<Rightarrow> False | Some n \<Rightarrow> n < int (length content))
          then Inl (Provider ''OIDC provider document is too large'')
          else (case ke_loads ke content of
              None \<Rightarrow> Inl (Provider ''OIDC provider request failed'')
            | Some (VObj payload) \<Rightarrow> Inr payload
            | Some _ \<Rightarrow> Inl (Provider ''OIDC provider returned an invalid response'')))"

section \<open>Validation of the documents\<close>

text \<open>
  \<open>urlsplit\<close> of a JSON value: a false value that can be hashed splits into empty parts, any other
  value that is not a string, and a string with a malformed bracketed host, raises an exception
  the client does not catch.
\<close>

definition endpoint_split :: "provider_env \<Rightarrow> jvalue \<Rightarrow> split_result provided" where
  "endpoint_split pe v =
     (let empty = \<lparr>sr_scheme = [], sr_netloc = [], sr_path = [], sr_query = [], sr_fragment = []\<rparr> in
      case v of
        VStr url \<Rightarrow> (case urlsplit (pe_bracketed_ok pe) url of None \<Rightarrow> Inl Uncaught | Some u \<Rightarrow> Inr u)
      | VNull \<Rightarrow> Inr empty
      | VBool b \<Rightarrow> if b then Inl Uncaught else Inr empty
      | VNum n \<Rightarrow> if n = 0 then Inr empty else Inl Uncaught
      | _ \<Rightarrow> Inl Uncaught)"

definition endpoint_ok :: "split_result \<Rightarrow> bool" where
  "endpoint_ok u =
     (sr_scheme u = ''https'' \<and> sr_netloc u \<noteq> [] \<and> sr_fragment u = [] \<and> \<not> has_userinfo u)"

fun endpoints_ok :: "provider_env \<Rightarrow> jvalue list \<Rightarrow> bool provided" where
  "endpoints_ok pe [] = Inr True"
| "endpoints_ok pe (v # vs) =
     (case endpoint_split pe v of
        Inl e \<Rightarrow> Inl e
      | Inr u \<Rightarrow> if endpoint_ok u then endpoints_ok pe vs else Inr False)"

fun is_infix :: "string \<Rightarrow> string \<Rightarrow> bool" where
  "is_infix p [] = (p = [])"
| "is_infix p (c # cs) = (starts_with p (c # cs) \<or> is_infix p cs)"

text \<open>\<open>"S256" in methods\<close>; a value that is no container raises \<open>TypeError\<close>.\<close>

definition advertises_s256 :: "jobject \<Rightarrow> bool provided" where
  "advertises_s256 payload =
     (case map_of payload ''code_challenge_methods_supported'' of
        None \<Rightarrow> Inr False
      | Some (VList vs) \<Rightarrow> Inr (VStr ''S256'' \<in> set vs)
      | Some (VObj kvs) \<Rightarrow> Inr (''S256'' \<in> fst ` set kvs)
      | Some (VStr text) \<Rightarrow> Inr (is_infix ''S256'' text)
      | Some _ \<Rightarrow> Inl Uncaught)"

fun the_string :: "jvalue \<Rightarrow> string" where
  "the_string (VStr s) = s"
| "the_string _ = []"

definition validate_discovery :: "provider_env \<Rightarrow> jobject \<Rightarrow> metadata provided" where
  "validate_discovery pe payload =
     (case (map_of payload ''issuer'', map_of payload ''authorization_endpoint'',
            map_of payload ''token_endpoint'', map_of payload ''jwks_uri'') of
        (Some issuer, Some authorization, Some token, Some jwks) \<Rightarrow>
          if issuer \<noteq> VStr (issuer_of (ke_settings (pe_cache pe)))
          then Inl (Provider ''OIDC discovery issuer mismatch'')
          else (case endpoints_ok pe [authorization, token, jwks] of
              Inl e \<Rightarrow> Inl e
            | Inr False \<Rightarrow> Inl (Provider ''OIDC provider endpoints must use HTTPS'')
            | Inr True \<Rightarrow>
                (case advertises_s256 payload of
                   Inl e \<Rightarrow> Inl e
                 | Inr False \<Rightarrow> Inl (Provider ''OIDC provider does not advertise PKCE S256'')
                 | Inr True \<Rightarrow> Inr \<lparr>md_issuer = the_string issuer,
                     md_authorization_endpoint = the_string authorization,
                     md_token_endpoint = the_string token, md_jwks_uri = the_string jwks\<rparr>))
      | _ \<Rightarrow> Inl (Provider ''OIDC discovery metadata is incomplete''))"

fun is_object :: "jvalue \<Rightarrow> bool" where
  "is_object (VObj _) = True"
| "is_object _ = False"

definition validate_jwks :: "provider_env \<Rightarrow> jobject \<Rightarrow> jobject provided" where
  "validate_jwks pe payload =
     (case map_of payload ''keys'' of
        Some (VList keys) \<Rightarrow>
          if keys = [] \<or> \<not> list_all is_object keys \<or> pe_jwk_set pe payload = None
          then Inl (Provider ''OIDC JWKS document is invalid'') else Inr payload
      | _ \<Rightarrow> Inl (Provider ''OIDC JWKS document is invalid''))"

section \<open>Loading a document\<close>

definition fetch_public_document ::
    "cache_env \<Rightarrow> document \<Rightarrow> http_result \<Rightarrow> cache_state \<Rightarrow> jobject provided \<times> cache_state" where
  "fetch_public_document ke d response st =
     (let r = request_json ke (Some (OIDC_CACHE_MAX_DOCUMENT_BYTES (ke_settings ke))) response;
          outcome = (case r of Inl _ \<Rightarrow> ''error'' | Inr _ \<Rightarrow> ''success'') in
      (r, st\<lparr>ks_fetches := ks_fetches st @ [(d, outcome)]\<rparr>))"

text \<open>A payload out of the cache: \<open>None\<close> when it is rejected and the load goes on.\<close>

definition accept_cached ::
    "cache_env \<Rightarrow> (jobject \<Rightarrow> 'v provided) \<Rightarrow> bool \<Rightarrow> document \<Rightarrow> document_read \<Rightarrow> cache_state \<Rightarrow>
     ('v \<times> bool) provided option \<times> cache_state" where
  "accept_cached ke validator delete_ok d r st =
     (case dr_payload r of
        None \<Rightarrow> (None, st)
      | Some payload \<Rightarrow>
          (case validator payload of
             Inr v \<Rightarrow> (Some (Inr (v, True)), record_op d ''hit'' st)
           | Inl (Provider _) \<Rightarrow> (None, discard_invalid ke delete_ok d st)
           | Inl e \<Rightarrow> (Some (Inl e), st)))"

definition load_from_provider ::
    "cache_env \<Rightarrow> (jobject \<Rightarrow> 'v provided) \<Rightarrow> load_env \<Rightarrow> document \<Rightarrow> refresh_lock option \<Rightarrow> cache_state \<Rightarrow>
     ('v \<times> bool) provided \<times> cache_state" where
  "load_from_provider ke validator le d lock st =
     (let (fetched, st1) = fetch_public_document ke d (le_response le) st;
          (r, st2) =
            (case fetched of
               Inl e \<Rightarrow> (Inl e, st1)
             | Inr payload \<Rightarrow>
                 (case validator payload of
                    Inl e \<Rightarrow> (Inl e, st1)
                  | Inr v \<Rightarrow>
                     (Inr (v, False), snd (cache_write_document ke (le_set_ok le) (le_set_now le) d payload st1)))) in
      (r, case lock of None \<Rightarrow> st2
          | Some l \<Rightarrow> release_refresh_lock (le_release_ok le) (le_release_now le) d l st2))"

definition load_public_document ::
    "cache_env \<Rightarrow> (jobject \<Rightarrow> 'v provided) \<Rightarrow> bool \<Rightarrow> jobject option \<Rightarrow> load_env \<Rightarrow> document \<Rightarrow> cache_state \<Rightarrow>
     ('v \<times> bool) provided \<times> cache_state" where
  "load_public_document ke validator force previous le d st =
     (let (found, st2) =
            (if force then (None, st)
             else (let (cached, st1) = cache_read_document ke (le_get_ok le) (le_delete_ok le) (le_read_now le) d st
                   in accept_cached ke validator (le_delete_ok le) d cached st1)) in
      case found of
        Some result \<Rightarrow> (result, st2)
      | None \<Rightarrow>
        (let (lock, st3) = acquire_refresh_lock ke (le_lock_ok le) (le_lock_now le) (le_token le) d st2 in
         if lock = None \<and> cache_enabled ke then
           (case wait_for_value ke d (if force then previous else None) (le_started le) (le_polls le) st3 of
              (None, st4) \<Rightarrow> (Inl Waiting, st4)
            | (Some waited, st4) \<Rightarrow>
                (case accept_cached ke validator (le_delete_ok le) d waited st4 of
                   (Some result, st5) \<Rightarrow> (result, st5)
                 | (None, st5) \<Rightarrow> load_from_provider ke validator le d None st5))
         else load_from_provider ke validator le d lock st3))"

definition discover :: "provider_env \<Rightarrow> cache_state \<Rightarrow> metadata provided \<times> cache_state" where
  "discover pe st =
     (case load_public_document (pe_cache pe) (validate_discovery pe) False None (pe_discovery pe) Discovery st of
        (Inl e, st') \<Rightarrow> (Inl e, st')
      | (Inr (m, _), st') \<Rightarrow> (Inr m, st'))"

section \<open>The code and the token\<close>

definition code_request :: "settings \<Rightarrow> string \<Rightarrow> string \<Rightarrow> string \<Rightarrow> token_request" where
  "code_request s code verifier redirect_uri =
     (let data = [(''grant_type'', ''authorization_code''), (''code'', code), (''redirect_uri'', redirect_uri),
            (''client_id'', OIDC_CLIENT_ID s), (''code_verifier'', verifier)] in
      if OIDC_TOKEN_ENDPOINT_AUTH_METHOD s = Client_Secret_Basic
      then \<lparr>tq_data = data, tq_auth = Some (OIDC_CLIENT_ID s, OIDC_CLIENT_SECRET s)\<rparr>
      else \<lparr>tq_data = data @ [(''client_secret'', OIDC_CLIENT_SECRET s)], tq_auth = None\<rparr>)"

definition exchange_code ::
    "provider_env \<Rightarrow> metadata \<Rightarrow> string \<Rightarrow> string \<Rightarrow> string \<Rightarrow> string provided" where
  "exchange_code pe m code verifier redirect_uri =
     (case request_json (pe_cache pe) None
             (pe_token_response pe (md_token_endpoint m)
                (code_request (ke_settings (pe_cache pe)) code verifier redirect_uri)) of
        Inl e \<Rightarrow> Inl e
      | Inr payload \<Rightarrow>
          (case map_of payload ''id_token'' of
             Some (VStr token) \<Rightarrow>
               if token = [] then Inl (Provider ''OIDC token response did not contain an ID token'') else Inr token
           | _ \<Rightarrow> Inl (Provider ''OIDC token response did not contain an ID token'')))"

definition find_signing_key :: "provider_env \<Rightarrow> string \<Rightarrow> string \<Rightarrow> jobject \<Rightarrow> jwk option" where
  "find_signing_key pe key_id algorithm jwks =
     (case pe_jwk_set pe jwks of
        None \<Rightarrow> None
      | Some keys \<Rightarrow> find (\<lambda>k. jk_key_id k = Some key_id \<and> jk_algorithm k = algorithm) keys)"

definition authorized_party_ok :: "settings \<Rightarrow> jobject \<Rightarrow> bool" where
  "authorized_party_ok s claims =
     (let azp = map_of claims ''azp''; client = VStr (OIDC_CLIENT_ID s) in
      case map_of claims ''aud'' of
        Some (VList auds) \<Rightarrow>
          if 1 < length auds then azp = Some client else azp \<in> {None, Some VNull, Some client}
      | _ \<Rightarrow> azp \<in> {None, Some VNull, Some client})"

definition load_signing_key ::
    "provider_env \<Rightarrow> metadata \<Rightarrow> string \<Rightarrow> string \<Rightarrow> cache_state \<Rightarrow> jwk provided \<times> cache_state" where
  "load_signing_key pe m key_id algorithm st =
     (case load_public_document (pe_cache pe) (validate_jwks pe) False None (pe_jwks pe) Jwks st of
        (Inl e, st1) \<Rightarrow> (Inl e, st1)
      | (Inr (jwks, from_cache), st1) \<Rightarrow>
          (case find_signing_key pe key_id algorithm jwks of
             Some key \<Rightarrow> (Inr key, st1)
           | None \<Rightarrow>
               if \<not> from_cache then (Inl (Provider ''OIDC signing key was not found''), st1)
               else (case load_public_document (pe_cache pe) (validate_jwks pe) True (Some jwks)
                            (pe_refresh pe) Jwks st1 of
                   (Inl e, st2) \<Rightarrow> (Inl e, st2)
                 | (Inr (fresh, _), st2) \<Rightarrow>
                     (case find_signing_key pe key_id algorithm fresh of
                        Some key \<Rightarrow> (Inr key, st2)
                      | None \<Rightarrow> (Inl (Provider ''OIDC signing key was not found''), st2)))))"

definition validate_id_token ::
    "provider_env \<Rightarrow> metadata \<Rightarrow> string \<Rightarrow> cache_state \<Rightarrow> jobject provided \<times> cache_state" where
  "validate_id_token pe m token st =
     (let s = ke_settings (pe_cache pe) in
      case pe_header pe token of
        Some (Some algorithm, Some key_id) \<Rightarrow>
          if algorithm \<notin> set (allowed_algorithms s) \<or> key_id = []
          then (Inl (Provider ''OIDC ID token header is not allowed''), st)
          else (case load_signing_key pe m key_id algorithm st of
              (Inl e, st') \<Rightarrow> (Inl e, st')
            | (Inr key, st') \<Rightarrow>
                (case pe_decode pe token (jk_key key) (allowed_algorithms s) (OIDC_CLIENT_ID s) (md_issuer m) of
                   None \<Rightarrow> (Inl (Provider ''OIDC ID token validation failed''), st')
                 | Some claims \<Rightarrow>
                     if authorized_party_ok s claims then (Inr claims, st')
                     else (Inl (Provider ''OIDC authorized party mismatch''), st')))
      | Some _ \<Rightarrow> (Inl (Provider ''OIDC ID token header is not allowed''), st)
      | None \<Rightarrow> (Inl (Provider ''OIDC ID token validation failed''), st))"

section \<open>The wait ends\<close>

text \<open>
  The loop sleeps \<open>min(0.05, max(0, deadline - t))\<close> seconds, so the next test of the clock is at
  least a twentieth of a second later, or at the deadline.
\<close>

fun paced :: "rat \<Rightarrow> rat \<Rightarrow> poll list \<Rightarrow> bool" where
  "paced deadline earliest [] = True"
| "paced deadline earliest (p # ps) =
     (earliest \<le> po_test p \<and> paced deadline (min (po_test p + 1 / 20) deadline) ps)"

lemma wait_loop_returns:
  assumes "paced deadline earliest polls" and "deadline \<le> earliest + of_nat n / 20"
    and "n < length polls"
  shows "fst (wait_loop ke d different deadline polls st) \<noteq> None"
  using assms
proof (induction polls arbitrary: earliest n st)
  case (Cons p ps)
  show ?case
  proof (cases "po_test p < deadline")
    case True
    then have "0 < n" using Cons.prems(1,2) by (cases n) auto
    then obtain k where n: "n = Suc k" by (cases n) auto
    have close: "deadline \<le> min (po_test p + 1 / 20) deadline + of_nat k / 20"
      using Cons.prems(1,2) by (auto simp: n min_def field_simps)
    have "fst (wait_loop ke d different deadline ps st') \<noteq> None" for st'
      by (rule Cons.IH [OF _ close]) (use Cons.prems(1,3) in \<open>simp_all add: n\<close>)
    then show ?thesis using True by (auto simp: Let_def split: prod.split)
  qed simp
qed simp

definition polls_enough :: "cache_env \<Rightarrow> load_env \<Rightarrow> bool" where
  "polls_enough ke le =
     (paced (le_started le + OIDC_CACHE_REFRESH_WAIT_SECONDS (ke_settings ke)) (le_started le) (le_polls le) \<and>
      200 < length (le_polls le))"

lemma wait_returns:
  assumes "polls_enough ke le" and "OIDC_CACHE_REFRESH_WAIT_SECONDS (ke_settings ke) \<le> 10"
  shows "fst (wait_for_value ke d different (le_started le) (le_polls le) st) \<noteq> None"
  unfolding wait_for_value_def
  by (rule wait_loop_returns [where n = 200]) (use assms in \<open>auto simp: polls_enough_def\<close>)

section \<open>What a load returns\<close>

lemma accept_cached_cases:
  assumes "accept_cached ke validator delete_ok d r st = (found, st')"
  shows "found = None \<or> (\<exists>p v. validator p = Inr v \<and> found = Some (Inr (v, True))) \<or>
    (\<exists>p e. validator p = Inl e \<and> (\<forall>m. e \<noteq> Provider m) \<and> found = Some (Inl e))"
  using assms
  by (auto simp: accept_cached_def split: option.splits sum.splits provider_error.splits)

lemma load_from_provider_result:
  "fst (load_from_provider ke validator le d lock st) =
   (case request_json ke (Some (OIDC_CACHE_MAX_DOCUMENT_BYTES (ke_settings ke))) (le_response le) of
      Inl e \<Rightarrow> Inl e
    | Inr p \<Rightarrow> (case validator p of Inl e \<Rightarrow> Inl e | Inr v \<Rightarrow> Inr (v, False)))"
  by (simp add: load_from_provider_def fetch_public_document_def Let_def split: sum.split)

text \<open>Either the cache decides, the wait is cut short, or the provider is asked.\<close>

lemma load_cases:
  "(\<exists>p v. validator p = Inr v \<and> fst (load_public_document ke validator force previous le d st) = Inr (v, True)) \<or>
   (\<exists>p e. validator p = Inl e \<and> (\<forall>m. e \<noteq> Provider m) \<and>
      fst (load_public_document ke validator force previous le d st) = Inl e) \<or>
   (fst (load_public_document ke validator force previous le d st) = Inl Waiting \<and>
      (\<exists>different st'. fst (wait_for_value ke d different (le_started le) (le_polls le) st') = None)) \<or>
   (\<exists>lock st'. fst (load_public_document ke validator force previous le d st) =
      fst (load_from_provider ke validator le d lock st'))"
proof -
  let ?load = "load_public_document ke validator force previous le d st"
  obtain found st2 where found: "(if force then (None, st)
      else (let (cached, st1) = cache_read_document ke (le_get_ok le) (le_delete_ok le) (le_read_now le) d st
            in accept_cached ke validator (le_delete_ok le) d cached st1)) = (found, st2)"
    by (rule prod.exhaust)
  show ?thesis
  proof (cases found)
    case (Some result)
    then have result: "fst ?load = result" using found by (simp add: load_public_document_def)
    obtain r st1 where "accept_cached ke validator (le_delete_ok le) d r st1 = (found, st2)"
      using found Some by (auto split: if_splits prod.splits)
    from accept_cached_cases [OF this] show ?thesis
      unfolding result by (elim disjE) (use Some in auto)
  next
    case None
    obtain lock st3 where lock: "acquire_refresh_lock ke (le_lock_ok le) (le_lock_now le) (le_token le) d st2 =
        (lock, st3)" by (rule prod.exhaust)
    show ?thesis
    proof (cases "lock = None \<and> cache_enabled ke")
      case False
      then have "fst ?load = fst (load_from_provider ke validator le d lock st3)"
        using found None lock by (auto simp: load_public_document_def)
      then show ?thesis by blast
    next
      case True
      let ?diff = "if force then previous else None"
      obtain w st4 where w: "wait_for_value ke d ?diff (le_started le) (le_polls le) st3 = (w, st4)"
        by (rule prod.exhaust)
      show ?thesis
      proof (cases w)
        case wn: None
        then have "fst ?load = Inl Waiting" using found None lock True w by (simp add: load_public_document_def)
        then show ?thesis using w wn by (metis fst_conv)
      next
        case (Some waited)
        obtain again st5 where again: "accept_cached ke validator (le_delete_ok le) d waited st4 = (again, st5)"
          by (rule prod.exhaust)
        have "fst ?load = (case again of Some result \<Rightarrow> result
            | None \<Rightarrow> fst (load_from_provider ke validator le d None st5))"
          using found None lock True w Some again
          by (simp add: load_public_document_def split: option.split)
        then show ?thesis using accept_cached_cases [OF again] by (cases again) auto
      qed
    qed
  qed
qed

lemma load_validated:
  assumes "load_public_document ke validator force previous le d st = (Inr (v, b), st')"
  shows "\<exists>p. validator p = Inr v"
  using load_cases [of validator ke force previous le d st] assms
  by (auto simp: load_from_provider_result split: sum.splits)

lemma load_total:
  assumes "OIDC_CACHE_REFRESH_WAIT_SECONDS (ke_settings ke) \<le> 10" and "polls_enough ke le"
    and "request_json ke (Some (OIDC_CACHE_MAX_DOCUMENT_BYTES (ke_settings ke))) (le_response le) = Inr p"
    and "validator p = Inr v" and "\<And>q e. validator q = Inl e \<Longrightarrow> \<exists>m. e = Provider m"
  shows "\<exists>v' b q. fst (load_public_document ke validator force previous le d st) = Inr (v', b) \<and> validator q = Inr v'"
  using load_cases [of validator ke force previous le d st] wait_returns [OF assms(2,1)] assms(3-5)
  by (auto simp: load_from_provider_result) (metis+)

lemma validate_jwks_error: "validate_jwks pe q = Inl e \<Longrightarrow> \<exists>m. e = Provider m"
  by (auto simp: validate_jwks_def split: option.splits jvalue.splits if_splits)

lemma validate_jwks_same: "validate_jwks pe q = Inr r \<Longrightarrow> r = q \<and> pe_jwk_set pe q \<noteq> None"
  by (auto simp: validate_jwks_def split: option.splits jvalue.splits if_splits)


lemma load_signing_key_found:
  assumes "load_signing_key pe m key_id algorithm st = (Inr key, st')"
  shows "\<exists>jwks. validate_jwks pe jwks = Inr jwks \<and> find_signing_key pe key_id algorithm jwks = Some key"
  using assms unfolding load_signing_key_def
  by (auto split: prod.splits sum.splits option.splits if_splits
      dest!: load_validated dest: validate_jwks_same)

lemma find_signing_key_in:
  assumes "find_signing_key pe key_id algorithm jwks = Some key"
  shows "\<exists>keys. pe_jwk_set pe jwks = Some keys \<and> key \<in> set keys \<and> jk_key_id key = Some key_id \<and>
    jk_algorithm key = algorithm"
  using assms by (auto simp: find_signing_key_def find_Some_iff split: option.splits)

lemma check_oidc_algorithms:
  "\<lbrakk>check_oidc ce s = None; OIDC_ENABLED s\<rbrakk> \<Longrightarrow> set (allowed_algorithms s) \<subseteq> set asymmetric_algorithms"
  by (simp add: check_oidc_def first_error_None require_def split: if_splits)

text \<open>
  C31: an ID token is accepted only when its header names an allowed algorithm and a key of a
  validated key set made for that algorithm, PyJWT verified it with that key, the client id and
  the issuer of the discovery document, and the authorized party is this client. With accepted
  settings the algorithm is asymmetric, so a token signed with a public value is refused.
\<close>

theorem id_token_trusted:
  assumes "validate_id_token pe m token st = (Inr claims, st')"
  shows "\<exists>algorithm key_id jwks keys key. pe_header pe token = Some (Some algorithm, Some key_id) \<and>
    algorithm \<in> set (allowed_algorithms (ke_settings (pe_cache pe))) \<and>
    validate_jwks pe jwks = Inr jwks \<and> pe_jwk_set pe jwks = Some keys \<and> key \<in> set keys \<and>
    jk_key_id key = Some key_id \<and> jk_algorithm key = algorithm \<and>
    pe_decode pe token (jk_key key) (allowed_algorithms (ke_settings (pe_cache pe)))
      (OIDC_CLIENT_ID (ke_settings (pe_cache pe))) (md_issuer m) = Some claims \<and>
    authorized_party_ok (ke_settings (pe_cache pe)) claims \<and>
    (check_oidc ce (ke_settings (pe_cache pe)) = None \<and> OIDC_ENABLED (ke_settings (pe_cache pe)) \<longrightarrow>
      algorithm \<in> set asymmetric_algorithms)"
proof -
  let ?s = "ke_settings (pe_cache pe)"
  obtain algorithm key_id key st'' where header: "pe_header pe token = Some (Some algorithm, Some key_id)"
    and allowed: "algorithm \<in> set (allowed_algorithms ?s)"
    and key: "load_signing_key pe m key_id algorithm st = (Inr key, st'')"
    and decoded: "pe_decode pe token (jk_key key) (allowed_algorithms ?s) (OIDC_CLIENT_ID ?s) (md_issuer m) = Some claims"
    and party: "authorized_party_ok ?s claims"
    using assms unfolding validate_id_token_def Let_def
    by (auto split: option.splits prod.splits if_splits sum.splits)
  obtain jwks where "validate_jwks pe jwks = Inr jwks" "find_signing_key pe key_id algorithm jwks = Some key"
    using load_signing_key_found [OF key] by blast
  moreover obtain keys where "pe_jwk_set pe jwks = Some keys" "key \<in> set keys" "jk_key_id key = Some key_id"
      "jk_algorithm key = algorithm"
    using find_signing_key_in [OF calculation(2)] by blast
  moreover have "check_oidc ce ?s = None \<and> OIDC_ENABLED ?s \<longrightarrow> algorithm \<in> set asymmetric_algorithms"
    using check_oidc_algorithms allowed by blast
  ultimately show ?thesis using header allowed decoded party by metis
qed

lemma endpoints_ok_all:
  "endpoints_ok pe vs = Inr True \<Longrightarrow> v \<in> set vs \<Longrightarrow> \<exists>u. endpoint_split pe v = Inr u \<and> endpoint_ok u"
  by (induction vs) (auto split: sum.splits if_splits)

lemma endpoint_is_string:
  "endpoint_split pe v = Inr u \<Longrightarrow> endpoint_ok u \<Longrightarrow>
   v = VStr (the_string v) \<and> urlsplit (pe_bracketed_ok pe) (the_string v) = Some u"
  by (cases v) (auto simp: endpoint_split_def endpoint_ok_def split: option.splits if_splits)

lemma validate_discovery_cases:
  assumes "validate_discovery pe p = Inr m"
  shows "\<exists>a t j. endpoints_ok pe [a, t, j] = Inr True \<and>
    m = \<lparr>md_issuer = issuer_of (ke_settings (pe_cache pe)), md_authorization_endpoint = the_string a,
      md_token_endpoint = the_string t, md_jwks_uri = the_string j\<rparr>"
proof -
  obtain i a t j where present: "map_of p ''issuer'' = Some i" "map_of p ''authorization_endpoint'' = Some a"
      "map_of p ''token_endpoint'' = Some t" "map_of p ''jwks_uri'' = Some j"
    using assms by (simp add: validate_discovery_def split: option.splits)
  have i: "i = VStr (issuer_of (ke_settings (pe_cache pe)))"
    using assms present by (simp add: validate_discovery_def split: if_splits)
  obtain b where b: "endpoints_ok pe [a, t, j] = Inr b"
    using assms present i by (cases "endpoints_ok pe [a, t, j]") (simp_all add: validate_discovery_def)
  have b': "b" using assms present i b by (cases b) (simp_all add: validate_discovery_def)
  show ?thesis
    using assms present i b b'
    by (cases "advertises_s256 p") (auto simp: validate_discovery_def split: bool.splits)
qed

lemma validate_discovery_urls:
  assumes "validate_discovery pe p = Inr m"
  shows "md_issuer m = issuer_of (ke_settings (pe_cache pe))"
    and "url \<in> {md_authorization_endpoint m, md_token_endpoint m, md_jwks_uri m} \<Longrightarrow>
      \<exists>u. urlsplit (pe_bracketed_ok pe) url = Some u \<and> endpoint_ok u"
proof -
  obtain a t j where vs: "endpoints_ok pe [a, t, j] = Inr True"
    and m: "m = \<lparr>md_issuer = issuer_of (ke_settings (pe_cache pe)), md_authorization_endpoint = the_string a,
      md_token_endpoint = the_string t, md_jwks_uri = the_string j\<rparr>"
    using validate_discovery_cases [OF assms] by blast
  show "md_issuer m = issuer_of (ke_settings (pe_cache pe))" by (simp add: m)
  assume "url \<in> {md_authorization_endpoint m, md_token_endpoint m, md_jwks_uri m}"
  then obtain v where "v \<in> set [a, t, j]" "url = the_string v" by (auto simp: m)
  then show "\<exists>u. urlsplit (pe_bracketed_ok pe) url = Some u \<and> endpoint_ok u"
    using endpoints_ok_all [OF vs] endpoint_is_string by blast
qed

lemma discover_validated:
  assumes "discover pe st = (Inr m, st')"
  shows "\<exists>p. validate_discovery pe p = Inr m"
  using assms by (auto simp: discover_def split: prod.splits sum.splits dest: load_validated)

lemma discover_issuer:
  "discover pe st = (Inr m, st') \<Longrightarrow> md_issuer m = issuer_of (ke_settings (pe_cache pe))"
  using discover_validated [of pe st m st'] validate_discovery_urls(1) by blast

text \<open>
  A discovery document whose endpoint has a malformed bracketed host makes \<open>urlsplit\<close> raise
  \<open>ValueError\<close>, which neither the load nor its callers turn into a provider error.
\<close>

theorem malformed_endpoint_uncaught:
  assumes "map_of p ''issuer'' = Some (VStr (issuer_of (ke_settings (pe_cache pe))))"
    and "map_of p ''authorization_endpoint'' = Some (VStr url)" and "urlsplit (pe_bracketed_ok pe) url = None"
    and "map_of p ''token_endpoint'' \<noteq> None" and "map_of p ''jwks_uri'' \<noteq> None"
    and "OIDC_CACHE_BACKEND (ke_settings (pe_cache pe)) \<noteq> RedisCache"
    and "request_json (pe_cache pe) (Some (OIDC_CACHE_MAX_DOCUMENT_BYTES (ke_settings (pe_cache pe))))
      (le_response (pe_discovery pe)) = Inr p"
  shows "fst (discover pe st) = Inl Uncaught"
proof -
  have invalid: "validate_discovery pe p = Inl Uncaught"
    using assms(1-5) by (auto simp: validate_discovery_def endpoint_split_def)
  have off: "\<not> cache_enabled (pe_cache pe)" using assms(6) by (simp add: cache_enabled_def)
  have "fst (load_public_document (pe_cache pe) (validate_discovery pe) False None (pe_discovery pe) Discovery st) =
      Inl Uncaught"
    using off by (auto simp: load_public_document_def cache_read_document_def accept_cached_def document_read_of_def
        acquire_refresh_lock_def load_from_provider_result assms(7) invalid split: prod.split)
  then show ?thesis by (auto simp: discover_def split: prod.splits sum.splits)
qed

section \<open>A provider\<close>

definition sample_oidc_settings :: settings where
  "sample_oidc_settings = (default_settings ''postgresql://db'' ''0123456789abcdef0123456789abcdef'')
     \<lparr>OIDC_ENABLED := True, OIDC_ISSUER := ''https://id.test/'', OIDC_CLIENT_ID := ''jobtrack'',
      OIDC_CLIENT_SECRET := ''shared'', OIDC_REDIRECT_URI := ''https://app.test/cb'',
      OIDC_CACHE_BACKEND := RedisCache\<rparr>"

definition sample_loads :: "string \<Rightarrow> jvalue option" where
  "sample_loads text =
     (if text = ''jwks'' then Some (VObj [(''keys'', VList [VObj []])])
      else if text = ''discovery'' then Some (VObj
        [(''issuer'', VStr ''https://id.test''), (''authorization_endpoint'', VStr ''https://id.test/a''),
         (''token_endpoint'', VStr ''https://id.test/t''), (''jwks_uri'', VStr ''https://id.test/k''),
         (''code_challenge_methods_supported'', VList [VStr ''S256''])])
      else if text = ''tokens'' then Some (VObj [(''id_token'', VStr ''signed'')])
      else if text = ''number'' then Some (VNum 1)
      else None)"

definition sample_cache_env :: cache_env where
  "sample_cache_env = \<lparr>ke_settings = sample_oidc_settings, ke_sha256 = (\<lambda>t. t), ke_loads = sample_loads,
     ke_dumps = (\<lambda>_. ''x'')\<rparr>"

definition sample_poll :: poll where
  "sample_poll = \<lparr>po_test = 1, po_others = (\<lambda>m. m), po_get_ok = True, po_delete_ok = True, po_now = 1\<rparr>"

definition sample_load :: "string \<Rightarrow> load_env" where
  "sample_load body = \<lparr>le_get_ok = True, le_delete_ok = False, le_read_now = 0, le_lock_ok = True,
     le_lock_now = 0, le_token = ''t'', le_started = 0, le_polls = replicate 201 sample_poll,
     le_response = HttpBody body, le_set_ok = False, le_set_now = 0, le_release_ok = False, le_release_now = 0\<rparr>"

definition sample_key :: jwk where
  "sample_key = \<lparr>jk_key_id = Some ''k1'', jk_algorithm = ''RS256'', jk_key = ''public''\<rparr>"

definition sample_claims :: "string \<Rightarrow> jobject" where
  "sample_claims subject = [(''sub'', VStr subject), (''nonce'', VStr ''nonce''), (''aud'', VStr ''jobtrack''),
     (''email'', VStr ''Ann@x.org''), (''email_verified'', VBool True)]"

definition sample_provider :: "string \<Rightarrow> provider_env" where
  "sample_provider subject = \<lparr>pe_cache = sample_cache_env, pe_bracketed_ok = (\<lambda>_. False),
     pe_discovery = sample_load ''discovery'', pe_jwks = sample_load ''jwks'', pe_refresh = sample_load ''jwks'',
     pe_token_response = (\<lambda>url request. if url = ''https://id.test/t'' then HttpBody ''tokens'' else HttpFailed),
     pe_header = (\<lambda>token. Some (Some ''RS256'', Some ''k1'')), pe_jwk_set = (\<lambda>_. Some [sample_key]),
     pe_decode = (\<lambda>token key algorithms audience issuer.
       if key = ''public'' \<and> audience = ''jobtrack'' \<and> issuer = ''https://id.test''
       then Some (sample_claims subject) else None)\<rparr>"

text \<open>Redis holds a number where the keys should be, and another process holds the lock for good.\<close>

definition sample_store :: cache_state where
  "sample_store = \<lparr>ks_store = [cache_key sample_cache_env Jwks \<mapsto> (''number'', seconds 900),
     lock_key sample_cache_env Jwks \<mapsto> (''other'', seconds 900)], ks_ops = [], ks_fetches = []\<rparr>"


definition sample_metadata :: metadata where
  "sample_metadata = \<lparr>md_issuer = ''https://id.test'', md_authorization_endpoint = ''https://id.test/a'',
     md_token_endpoint = ''https://id.test/t'', md_jwks_uri = ''https://id.test/k''\<rparr>"

theorem id_token_trusted_witness:
  "fst (validate_id_token (sample_provider ''s'') sample_metadata ''signed'' sample_store) =
     Inr (sample_claims ''s'') \<and>
   (\<exists>algorithm. algorithm \<in> set (allowed_algorithms sample_oidc_settings) \<and>
     algorithm \<in> set asymmetric_algorithms)"
proof -
  have settings: "ke_settings (pe_cache (sample_provider ''s'')) = sample_oidc_settings"
    by (simp add: sample_provider_def sample_cache_env_def)
  have accepted: "fst (validate_id_token (sample_provider ''s'') sample_metadata ''signed'' sample_store) =
      Inr (sample_claims ''s'')" by code_simp
  then obtain st' where run: "validate_id_token (sample_provider ''s'') sample_metadata ''signed'' sample_store =
      (Inr (sample_claims ''s''), st')" by (metis prod.collapse)
  have "check_oidc \<lparr>ce_bracketed_ok = (\<lambda>_. False), ce_ip_address = (\<lambda>_. True), ce_ip_network = (\<lambda>_. True),
        ce_fernet_key = (\<lambda>_. True)\<rparr> sample_oidc_settings = None" "OIDC_ENABLED sample_oidc_settings"
    by code_simp+
  then have "\<exists>algorithm. algorithm \<in> set (allowed_algorithms sample_oidc_settings) \<and>
      algorithm \<in> set asymmetric_algorithms"
    using id_token_trusted [OF run] unfolding settings by blast
  with accepted show ?thesis by blast
qed

end
