(* ===== verification/Delivery.thy ===== *)
theory Delivery
  imports Config
begin

text \<open>
  Sending a mail: \<^verbatim>\<open>src/app/services/email_delivery.py\<close>. The text of the mail, the link with
  its percent-encoded token, and the steps of the SMTP session in their order; whether the mail
  server accepts a step is a field of the environment. The result is the outcome the outbox
  worker distinguishes.
\<close>

section \<open>Links\<close>

text \<open>
  \<open>urlencode\<close> of one pair: \<open>quote_plus\<close> on the UTF-8 bytes (a character is one of the first 256
  code points and takes one or two bytes).
\<close>

definition utf8_bytes :: "char \<Rightarrow> nat list" where
  "utf8_bytes c = (let n = of_char c in if n < 128 then [n] else [192 + n div 64, 128 + n mod 64])"

definition unreserved :: "nat \<Rightarrow> bool" where
  "unreserved n = ((65 \<le> n \<and> n \<le> 90) \<or> (97 \<le> n \<and> n \<le> 122) \<or> (48 \<le> n \<and> n \<le> 57) \<or>
     n = 95 \<or> n = 46 \<or> n = 45 \<or> n = 126)"

definition hex_digit :: "nat \<Rightarrow> char" where
  "hex_digit n = (if n < 10 then char_of (48 + n) else char_of (55 + n))"

definition quote_byte :: "nat \<Rightarrow> string" where
  "quote_byte n =
     (if unreserved n then [char_of n]
      else if n = 32 then ''+''
      else [CHR ''%'', hex_digit (n div 16), hex_digit (n mod 16)])"

definition quote_plus :: "string \<Rightarrow> string" where
  "quote_plus s = concat (map quote_byte (concat (map utf8_bytes s)))"

definition token_query :: "string \<Rightarrow> string" where
  "token_query token = ''token='' @ quote_plus token"

definition action_link :: "string \<Rightarrow> string \<Rightarrow> string" where
  "action_link action_url token = action_url @ ''?'' @ token_query token"

section \<open>The mail and the SMTP session\<close>

record mail_message =
  mm_subject :: string
  mm_from :: string
  mm_to :: string
  mm_content :: string

definition newline :: string where
  "newline = [char_of (10::nat)]"

definition mail_content :: "string \<Rightarrow> string \<Rightarrow> string" where
  "mail_content instruction url =
     instruction @ '' by opening this link:'' @ newline @ newline @ url @ newline @ newline @
     ''If you did not request this, you can ignore this email.''"

text \<open>\<open>EmailMessage\<close> refuses header values with a line break by a \<open>ValueError\<close>.\<close>

definition header_ok :: "string \<Rightarrow> bool" where
  "header_ok s = list_all (\<lambda>c. of_char c \<notin> {10, 13::nat}) s"

datatype smtp_step =
    SmtpConnect string int int
  | SmtpStartTls
  | SmtpLogin string string
  | SmtpSend mail_message
  | SmtpQuit

record smtp_env =
  sm_connect_ok :: bool
  sm_starttls_ok :: bool
  sm_login_ok :: bool
  sm_send_ok :: bool

definition smtp_session ::
    "settings \<Rightarrow> smtp_env \<Rightarrow> mail_message \<Rightarrow> send_outcome \<times> smtp_step list" where
  "smtp_session s e message =
     (let connect = [SmtpConnect (SMTP_HOST s) (SMTP_PORT s) (SMTP_TIMEOUT_SECONDS s)];
          starttls = connect @ (if SMTP_STARTTLS s then [SmtpStartTls] else []);
          login = starttls @
            (if SMTP_USERNAME s \<noteq> [] then [SmtpLogin (SMTP_USERNAME s) (SMTP_PASSWORD s)] else []) in
      if \<not> sm_connect_ok e then (SendSmtp, connect)
      else if SMTP_STARTTLS s \<and> \<not> sm_starttls_ok e then (SendSmtp, starttls @ [SmtpQuit])
      else if SMTP_USERNAME s \<noteq> [] \<and> \<not> sm_login_ok e then (SendSmtp, login @ [SmtpQuit])
      else (if sm_send_ok e then SendOk else SendSmtp, login @ [SmtpSend message, SmtpQuit]))"

definition action_mail :: "settings \<Rightarrow> string \<Rightarrow> string \<Rightarrow> string \<Rightarrow> string \<Rightarrow> string \<Rightarrow> mail_message" where
  "action_mail s recipient token action_url subject instruction =
     \<lparr>mm_subject = subject, mm_from = SMTP_FROM s, mm_to = recipient,
      mm_content = mail_content instruction (action_link action_url token)\<rparr>"

definition send_action_email ::
    "settings \<Rightarrow> smtp_env \<Rightarrow> string \<Rightarrow> string \<Rightarrow> string \<Rightarrow> string \<Rightarrow> string
     \<Rightarrow> send_outcome \<times> smtp_step list" where
  "send_action_email s e recipient token action_url subject instruction =
     (if header_ok subject \<and> header_ok (SMTP_FROM s) \<and> header_ok recipient
      then smtp_session s e (action_mail s recipient token action_url subject instruction)
      else (SendOther, []))"

definition send_verification ::
    "settings \<Rightarrow> smtp_env \<Rightarrow> string \<Rightarrow> string \<Rightarrow> send_outcome \<times> smtp_step list" where
  "send_verification s e recipient token =
     send_action_email s e recipient token (EMAIL_VERIFICATION_URL s)
       ''Verify your email address'' ''Verify your email address''"

definition send_password_reset ::
    "settings \<Rightarrow> smtp_env \<Rightarrow> string \<Rightarrow> string \<Rightarrow> send_outcome \<times> smtp_step list" where
  "send_password_reset s e recipient token =
     send_action_email s e recipient token (PASSWORD_RESET_URL s)
       ''Reset your password'' ''Reset your password''"

definition outbox_templates :: "string \<rightharpoonup> string \<times> string" where
  "outbox_templates = map_of
     [(''email_verification.v1'', ''Verify your email address'', ''Verify your email address''),
      (''password_reset.v1'', ''Reset your password'', ''Reset your password'')]"

definition send_outbox ::
    "settings \<Rightarrow> smtp_env \<Rightarrow> string \<Rightarrow> string \<Rightarrow> string \<Rightarrow> string \<Rightarrow> send_outcome \<times> smtp_step list" where
  "send_outbox s e message_type recipient token action_url =
     (case outbox_templates message_type of
        None \<Rightarrow> (SendOther, [])
      | Some (subject, instruction) \<Rightarrow>
          send_action_email s e recipient token action_url subject instruction)"

section \<open>Reading a link\<close>

text \<open>\<open>parse_qs\<close> on the value of the query: percent sequences and plus signs, as bytes.\<close>

definition hex_value :: "char \<Rightarrow> nat" where
  "hex_value c = (if of_char c < (58::nat) then of_char c - 48 else of_char c - 55)"

fun unquote_plus :: "string \<Rightarrow> nat list" where
  "unquote_plus [] = []"
| "unquote_plus (c # cs) =
     (if c = CHR ''%'' then
        (case cs of a # b # ds \<Rightarrow> (16 * hex_value a + hex_value b) # unquote_plus ds
         | _ \<Rightarrow> of_char c # unquote_plus cs)
      else if c = CHR ''+'' then 32 # unquote_plus cs
      else of_char c # unquote_plus cs)"

lemma hex_value_digit [simp]: "n < 16 \<Longrightarrow> hex_value (hex_digit n) = n"
  by (auto simp: hex_value_def hex_digit_def)

lemma unquote_quote_byte:
  assumes "n < 256"
  shows "unquote_plus (quote_byte n @ cs) = n # unquote_plus cs"
proof -
  have "char_of n \<noteq> CHR ''%''" and "char_of n \<noteq> CHR ''+''" if "unreserved n"
    using that assms by (auto simp: unreserved_def dest: arg_cong [of _ _ "of_char :: char \<Rightarrow> nat"])
  moreover have "of_char (char_of n) = n" using assms by simp
  moreover have "n div 16 < 16" and "n mod 16 < 16" using assms by simp_all
  ultimately show ?thesis
    by (auto simp: quote_byte_def)
qed

lemma unquote_quote_bytes:
  "list_all (\<lambda>n. n < 256) ns \<Longrightarrow> unquote_plus (concat (map quote_byte ns)) = ns"
proof (induction ns)
  case (Cons n ns)
  then show ?case using unquote_quote_byte [of n "concat (map quote_byte ns)"] by simp
qed simp

lemma utf8_bytes_small: "list_all (\<lambda>n. n < 256) (concat (map utf8_bytes s))"
proof (induction s)
  case (Cons c s)
  have "(of_char c :: nat) < 256" by simp
  then have "192 + of_char c div 64 < (256::nat)" by linarith
  then show ?case using Cons by (auto simp: utf8_bytes_def Let_def)
qed simp

lemma unquote_quote: "unquote_plus (quote_plus s) = concat (map utf8_bytes s)"
  by (simp add: quote_plus_def unquote_quote_bytes utf8_bytes_small)

definition query_char :: "char \<Rightarrow> bool" where
  "query_char c = (unreserved (of_char c) \<or> c = CHR ''+'' \<or> c = CHR ''%'')"

lemma hex_digit_query: "k < 16 \<Longrightarrow> query_char (hex_digit k)"
  by (auto simp: query_char_def hex_digit_def unreserved_def)

lemma quote_byte_query: "n < 256 \<Longrightarrow> list_all query_char (quote_byte n)"
  by (auto simp: quote_byte_def hex_digit_query) (simp_all add: query_char_def)

lemma quote_plus_query: "list_all query_char (quote_plus s)"
proof -
  have "list_all query_char (concat (map quote_byte ns))" if "list_all (\<lambda>n. n < 256) ns" for ns
    using that by (induction ns) (simp_all add: quote_byte_query)
  then show ?thesis by (simp add: quote_plus_def utf8_bytes_small)
qed

lemma query_char_plain: "query_char c \<Longrightarrow> c \<notin> {CHR ''&'', CHR ''#'', CHR ''?'', CHR ''=''}"
  by (auto simp: query_char_def unreserved_def)

lemma hd_filter_before:
  "hd (filter P (pre @ x # post)) = t \<Longrightarrow> P x \<Longrightarrow> x \<noteq> t \<Longrightarrow> t \<in> set pre"
  by (induction pre) (auto split: if_splits)

section \<open>Properties\<close>

text \<open>
  The link carries the token: whatever characters it has, the query parameter decodes to its
  UTF-8 bytes, and the encoded value cannot end the parameter or the query.
\<close>

theorem link_carries_token:
  "\<exists>q. action_link action_url token = action_url @ ''?token='' @ q \<and>
     unquote_plus q = concat (map utf8_bytes token) \<and>
     set q \<inter> {CHR ''&'', CHR ''#'', CHR ''?'', CHR ''=''} = {}"
  by (intro exI [of _ "quote_plus token"])
    (use quote_plus_query [of token] query_char_plain in
      \<open>auto simp: action_link_def token_query_def unquote_quote list_all_iff\<close>)

text \<open>The generated tokens, URL-safe base64, appear unchanged.\<close>

theorem safe_token_unchanged:
  assumes "list_all (\<lambda>c. unreserved (of_char c)) token"
  shows "action_link action_url token = action_url @ ''?token='' @ token"
proof -
  have "quote_plus token = token"
    using assms by (induction token)
      (auto simp: quote_plus_def utf8_bytes_def quote_byte_def unreserved_def Let_def)
  then show ?thesis by (simp add: action_link_def token_query_def)
qed

theorem safe_token_unchanged_witness:
  "action_link ''https://a/v'' ''aB-9_'' = ''https://a/v?token=aB-9_''"
  using safe_token_unchanged [of "''aB-9_''" "''https://a/v''"] by (simp add: unreserved_def)

text \<open>
  A session that uses STARTTLS never sends credentials or a mail before it, a delivery is
  reported only when the server took exactly the mail with this recipient and link, and a
  supported type with addresses free of line breaks never raises anything but a mail error.
\<close>

definition secret_step :: "smtp_step \<Rightarrow> bool" where
  "secret_step x = (case x of SmtpLogin u p \<Rightarrow> True | SmtpSend m \<Rightarrow> True | _ \<Rightarrow> False)"

lemma session_steps:
  "smtp_session s e m = (r, steps) \<Longrightarrow> SMTP_STARTTLS s \<Longrightarrow>
     filter (\<lambda>x. secret_step x \<or> x = SmtpStartTls) steps = [] \<or>
     hd (filter (\<lambda>x. secret_step x \<or> x = SmtpStartTls) steps) = SmtpStartTls"
  by (auto simp: smtp_session_def secret_step_def Let_def split: if_splits)

lemma session_ok:
  "smtp_session s e m = (SendOk, steps) \<Longrightarrow> filter (\<lambda>x. case x of SmtpSend _ \<Rightarrow> True | _ \<Rightarrow> False) steps = [SmtpSend m]"
  by (auto simp: smtp_session_def Let_def split: if_splits)

lemma session_no_other: "fst (smtp_session s e m) \<noteq> SendOther"
  by (auto simp: smtp_session_def Let_def)

theorem delivery_session:
  assumes "send_outbox s e message_type recipient token action_url = (r, steps)"
  shows "(SMTP_STARTTLS s \<longrightarrow> (\<forall>pre x post. steps = pre @ x # post \<longrightarrow> secret_step x \<longrightarrow> SmtpStartTls \<in> set pre)) \<and>
    (r = SendOk \<longrightarrow> (\<exists>m. filter (\<lambda>x. case x of SmtpSend _ \<Rightarrow> True | _ \<Rightarrow> False) steps = [SmtpSend m] \<and>
       mm_to m = recipient \<and>
       (\<exists>instruction. mm_content m = mail_content instruction (action_link action_url token)))) \<and>
    (r = SendOther \<longleftrightarrow>
       \<not> (message_type \<in> set SUPPORTED_MESSAGE_TYPES \<and> header_ok (SMTP_FROM s) \<and> header_ok recipient))"
proof -
  have types: "outbox_templates message_type = None \<longleftrightarrow> message_type \<notin> set SUPPORTED_MESSAGE_TYPES"
    by (auto simp: outbox_templates_def SUPPORTED_MESSAGE_TYPES_def EMAIL_VERIFICATION_MESSAGE_def
        PASSWORD_RESET_MESSAGE_def)
  have subjects: "header_ok subject" if "outbox_templates message_type = Some (subject, instruction)"
    for subject instruction
    using that by (auto simp: outbox_templates_def header_ok_def split: if_splits)
  consider (refused) "r = SendOther" "steps = []"
      "\<not> (message_type \<in> set SUPPORTED_MESSAGE_TYPES \<and> header_ok (SMTP_FROM s) \<and> header_ok recipient)"
    | (session) subject instruction where
      "smtp_session s e (action_mail s recipient token action_url subject instruction) = (r, steps)"
      "message_type \<in> set SUPPORTED_MESSAGE_TYPES \<and> header_ok (SMTP_FROM s) \<and> header_ok recipient"
  proof (cases "outbox_templates message_type")
    case None
    then show ?thesis using refused assms types by (simp add: send_outbox_def)
  next
    case (Some t)
    obtain subject instruction where t: "t = (subject, instruction)" by fastforce
    with Some have "header_ok subject" by (intro subjects) simp
    with Some t show ?thesis
      using refused session [of subject instruction] assms types
      by (cases "header_ok (SMTP_FROM s) \<and> header_ok recipient")
        (simp_all add: send_outbox_def send_action_email_def)
  qed
  then show ?thesis
  proof cases
    case session
    note run = session(1)
    let ?tls = "\<lambda>x. secret_step x \<or> x = SmtpStartTls"
    have "SmtpStartTls \<in> set pre"
      if "SMTP_STARTTLS s" "steps = pre @ x # post" "secret_step x" for pre x post
    proof (rule hd_filter_before [where P = ?tls])
      show "hd (filter ?tls (pre @ x # post)) = SmtpStartTls"
        using session_steps [OF run that(1)] that(2,3) by auto
    qed (use that(3) in \<open>auto simp: secret_step_def\<close>)
    moreover have "r \<noteq> SendOther" using session_no_other run by (metis fst_conv)
    moreover have "\<exists>m. filter (\<lambda>x. case x of SmtpSend _ \<Rightarrow> True | _ \<Rightarrow> False) steps = [SmtpSend m] \<and>
        mm_to m = recipient \<and>
        (\<exists>instruction. mm_content m = mail_content instruction (action_link action_url token))"
      if "r = SendOk"
      using session_ok [OF run [unfolded that]]
      by (intro exI [of _ "action_mail s recipient token action_url subject instruction"])
        (auto simp: action_mail_def)
    ultimately show ?thesis using session(2) by blast
  qed simp
qed

end
