(* ===== verification/Oidc.thy ===== *)
theory Oidc
  imports AccountSecurity OidcProvider Delivery
begin

text \<open>
  Sign-in with an OpenID provider and linking of external identities:
  \<^verbatim>\<open>src/app/services/oidc.py\<close>, \<^verbatim>\<open>src/app/api/v1/oidc.py\<close>, \<^verbatim>\<open>src/app/models/external_identity.py\<close>
  and \<^verbatim>\<open>src/app/models/oidc_transaction.py\<close>. The state is the account tables, the two tables of
  this component and the cache of the provider client. Fernet, SHA-256 and the random values are
  fields of the environment. The lemmas give the sources of every row the requests write, and
  that the search for a user name ends with a free one.
\<close>

section \<open>State\<close>

record external_identity =
  ei_id :: int
  ei_user_id :: int
  ei_issuer :: string
  ei_subject :: string
  ei_email :: "string option"
  ei_created_at :: datetime
  ei_last_login_at :: "datetime option"

record oidc_transaction =
  ot_id :: int
  ot_state_hash :: string
  ot_browser_binding_hash :: string
  ot_nonce_hash :: string
  ot_code_verifier_encrypted :: string
  ot_intent :: string
  ot_user_id :: "int option"
  ot_issuer :: string
  ot_redirect_uri :: string
  ot_device_name :: string
  ot_expires_at :: datetime
  ot_consumed_at :: "datetime option"
  ot_created_at :: datetime

record oidc_state =
  os_tables :: tables
  os_identities :: "external_identity list"
  os_transactions :: "oidc_transaction list"
  os_cache :: cache_state

record oidc_env =
  oe_account :: account_env
  oe_provider :: provider_env
  oe_now :: datetime                \<comment> \<open>\<open>utc_now()\<close> of \<open>begin\<close> and \<open>complete\<close>\<close>
  oe_identity_now :: datetime       \<comment> \<open>\<open>utc_now()\<close> of \<open>_identity_for_login\<close>\<close>
  oe_revoke_now :: datetime         \<comment> \<open>\<open>utc_now()\<close> of \<open>_revoke_user_sessions\<close>\<close>
  oe_created_at :: datetime
  oe_new_user_id :: int
  oe_new_identity_id :: int
  oe_new_transaction_id :: int
  oe_state :: string                \<comment> \<open>\<open>secrets.token_urlsafe\<close>, one for each call\<close>
  oe_binding :: string
  oe_nonce :: string
  oe_verifier :: string
  oe_password :: string
  oe_key_ok :: "string \<Rightarrow> bool"                     \<comment> \<open>\<open>Fernet(key)\<close> does not raise\<close>
  oe_encrypt :: "string \<Rightarrow> string \<Rightarrow> string"
  oe_decrypt :: "string \<Rightarrow> string \<Rightarrow> string option"   \<comment> \<open>\<open>None\<close>: \<open>InvalidToken\<close>\<close>
  oe_sha256 :: "string \<Rightarrow> string"                    \<comment> \<open>the hex digest\<close>
  oe_sha256_base64 :: "string \<Rightarrow> string"             \<comment> \<open>URL-safe base64 of the digest\<close>

definition oidc_settings :: "oidc_env \<Rightarrow> settings" where
  "oidc_settings oe = ke_settings (pe_cache (oe_provider oe))"

definition oidc_fault :: "oidc_env \<Rightarrow> bool" where
  "oidc_fault oe = ae_fault (ac_auth (oe_account oe))"

text \<open>Unique constraints: \<open>(issuer, subject)\<close>, \<open>(user_id, issuer)\<close> and \<open>state_hash\<close>.\<close>

definition identity_agree :: "external_identity \<Rightarrow> external_identity \<Rightarrow> bool" where
  "identity_agree x y =
     (\<not> (ei_issuer x = ei_issuer y \<and> ei_subject x = ei_subject y) \<and>
      \<not> (ei_user_id x = ei_user_id y \<and> ei_issuer x = ei_issuer y))"

definition transaction_agree :: "oidc_transaction \<Rightarrow> oidc_transaction \<Rightarrow> bool" where
  "transaction_agree x y = (ot_state_hash x \<noteq> ot_state_hash y)"

interpretation identity_table: keyed_table ei_id identity_agree
  by unfold_locales (auto simp: identity_agree_def)

interpretation transaction_table: keyed_table ot_id transaction_agree
  by unfold_locales (auto simp: transaction_agree_def)

definition insert_identity :: "external_identity \<Rightarrow> oidc_state \<Rightarrow> oidc_state option" where
  "insert_identity i s =
     (if ei_id i \<notin> ei_id ` set (os_identities s) \<and>
         agrees_with ei_id identity_agree i (os_identities s) \<and> user_exists (os_tables s) (ei_user_id i)
      then Some (s\<lparr>os_identities := os_identities s @ [i]\<rparr>) else None)"

definition insert_transaction :: "oidc_transaction \<Rightarrow> oidc_state \<Rightarrow> oidc_state option" where
  "insert_transaction t s =
     (if ot_id t \<notin> ot_id ` set (os_transactions s) \<and>
         agrees_with ot_id transaction_agree t (os_transactions s) \<and>
         (case ot_user_id t of None \<Rightarrow> True | Some uid \<Rightarrow> user_exists (os_tables s) uid)
      then Some (s\<lparr>os_transactions := os_transactions s @ [t]\<rparr>) else None)"

definition put_identity :: "external_identity \<Rightarrow> oidc_state \<Rightarrow> oidc_state" where
  "put_identity i s = s\<lparr>os_identities := put_row ei_id i (os_identities s)\<rparr>"

definition put_transaction :: "oidc_transaction \<Rightarrow> oidc_state \<Rightarrow> oidc_state" where
  "put_transaction t s = s\<lparr>os_transactions := put_row ot_id t (os_transactions s)\<rparr>"

section \<open>Helpers of the service\<close>

definition INVALID_TRANSACTION :: error where
  "INVALID_TRANSACTION = HTTPException 400 ''Invalid or expired OIDC transaction''"

definition OIDC_UNAVAILABLE :: error where
  "OIDC_UNAVAILABLE = HTTPException 503 ''OIDC is not available''"

text \<open>The key of the transactions.\<close>

definition require_oidc :: "oidc_env \<Rightarrow> string result" where
  "require_oidc oe =
     (let key = OIDC_TRANSACTION_ENCRYPTION_KEY (oidc_settings oe) in
      if \<not> OIDC_ENABLED (oidc_settings oe) \<or> \<not> oe_key_ok oe key then Inl OIDC_UNAVAILABLE else Inr key)"

definition hash_secret :: "oidc_env \<Rightarrow> string \<Rightarrow> string" where
  "hash_secret oe value = oe_sha256 oe value"

definition code_challenge :: "oidc_env \<Rightarrow> string \<Rightarrow> string" where
  "code_challenge oe verifier = py_rstrip_char CHR ''='' (oe_sha256_base64 oe verifier)"

text \<open>
  A provider error becomes the reply of the caller; an exception the client lets through (and a
  wait cut short, which does not happen with enough polls) ends the request as it is.
\<close>

fun provider_failure :: "error \<Rightarrow> provider_error \<Rightarrow> error" where
  "provider_failure reply (Provider _) = reply"
| "provider_failure reply _ = ValueError ''unhandled''"

text \<open>\<open>urlencode\<close> of several pairs.\<close>

definition urlencode :: "(string \<times> string) list \<Rightarrow> string" where
  "urlencode kvs = join ''&'' (map (\<lambda>(k, v). quote_plus k @ ''='' @ quote_plus v) kvs)"

definition normalize_verified_email :: "oidc_env \<Rightarrow> jobject \<Rightarrow> string option" where
  "normalize_verified_email oe claims =
     (if map_of claims ''email_verified'' \<noteq> Some (VBool True) then None
      else (case map_of claims ''email'' of
          Some (VStr email) \<Rightarrow>
            (case ac_email (oe_account oe) email of
               None \<Rightarrow> None | Some validated \<Rightarrow> Some (py_casefold (py_strip validated)))
        | _ \<Rightarrow> None))"

section \<open>The name of a new user\<close>

definition username_char :: "char \<Rightarrow> char" where
  "username_char c = (let n = (of_char c :: nat) in
     if 97 \<le> n \<and> n \<le> 122 \<or> 48 \<le> n \<and> n \<le> 57 \<or> c \<in> set ''_.-'' then c else CHR ''-'')"

text \<open>\<open>s[:n]\<close>, with a negative end counted from the right.\<close>

definition py_prefix :: "int \<Rightarrow> string \<Rightarrow> string" where
  "py_prefix n s = take (nat (if n < 0 then int (length s) + n else n)) s"

definition username_base :: "oidc_env \<Rightarrow> string \<Rightarrow> string \<Rightarrow> string \<Rightarrow> string" where
  "username_base oe email issuer subject =
     (let raw = map username_char (py_casefold (hd (py_split_on CHR ''@'' email)));
          stripped = take 30 (strip_by (\<lambda>c. c \<in> set ''-._'') raw);
          local = (if stripped = [] then ''oidc-user'' else stripped);
          digest = take 12 (oe_sha256 oe (issuer @ [CHR 0x00] @ subject)) in
      take 50 (local @ ''-'' @ digest))"

definition numbered_username :: "string \<Rightarrow> int \<Rightarrow> string" where
  "numbered_username base suffix =
     (let suffix_text = ''-'' @ show_int suffix in
      py_prefix (50 - int (length suffix_text)) base @ suffix_text)"

fun username_loop :: "nat \<Rightarrow> tables \<Rightarrow> string \<Rightarrow> string \<Rightarrow> int \<Rightarrow> string option" where
  "username_loop 0 tb base candidate suffix = None"
| "username_loop (Suc fuel) tb base candidate suffix =
     (if find (\<lambda>u. u_username u = candidate) (users tb) \<noteq> None
      then username_loop fuel tb base (numbered_username base suffix) (suffix + 1)
      else Some candidate)"

definition new_username :: "oidc_env \<Rightarrow> string \<Rightarrow> string \<Rightarrow> string \<Rightarrow> tables \<Rightarrow> string option" where
  "new_username oe email issuer subject tb =
     (let base = username_base oe email issuer subject in
      username_loop (length (users tb) + 2) tb base base 1)"

section \<open>Starting\<close>

record authorization_start =
  as_url :: string
  as_browser_binding :: string
  as_expires_in :: int

definition transaction_row ::
    "oidc_env \<Rightarrow> string \<Rightarrow> metadata \<Rightarrow> string \<Rightarrow> int option \<Rightarrow> string \<Rightarrow> oidc_transaction" where
  "transaction_row oe key m intent user_id device =
     \<lparr>ot_id = oe_new_transaction_id oe, ot_state_hash = hash_secret oe (oe_state oe),
      ot_browser_binding_hash = hash_secret oe (oe_binding oe), ot_nonce_hash = hash_secret oe (oe_nonce oe),
      ot_code_verifier_encrypted = oe_encrypt oe key (oe_verifier oe), ot_intent = intent,
      ot_user_id = user_id, ot_issuer = md_issuer m,
      ot_redirect_uri = OIDC_REDIRECT_URI (oidc_settings oe), ot_device_name = device,
      ot_expires_at = oe_now oe + minutes (OIDC_TRANSACTION_EXPIRE_MINUTES (oidc_settings oe)),
      ot_consumed_at = None, ot_created_at = oe_created_at oe\<rparr>"

definition authorization_url :: "oidc_env \<Rightarrow> metadata \<Rightarrow> string" where
  "authorization_url oe m =
     (let s = oidc_settings oe; endpoint = md_authorization_endpoint m in
      endpoint @ (if CHR ''?'' \<in> set endpoint then ''&'' else ''?'') @ urlencode
       [(''response_type'', ''code''), (''client_id'', OIDC_CLIENT_ID s), (''redirect_uri'', OIDC_REDIRECT_URI s),
        (''scope'', OIDC_SCOPES s), (''state'', oe_state oe), (''nonce'', oe_nonce oe),
        (''code_challenge'', code_challenge oe (oe_verifier oe)), (''code_challenge_method'', ''S256'')])"

definition begin_oidc_authorization ::
    "oidc_env \<Rightarrow> string \<Rightarrow> string \<Rightarrow> int option \<Rightarrow> oidc_state \<Rightarrow> authorization_start result \<times> oidc_state" where
  "begin_oidc_authorization oe intent device user_id s =
     (case require_oidc oe of
        Inl err \<Rightarrow> (Inl err, s)
      | Inr key \<Rightarrow>
          if (intent = ''link'') \<noteq> (user_id \<noteq> None)
          then (Inl (ValueError ''OIDC link transactions must be bound to a user''), s)
          else (case discover (oe_provider oe) (os_cache s) of
              (Inl e, c) \<Rightarrow>
                (Inl (provider_failure (HTTPException 502 ''OIDC provider unavailable'') e), s\<lparr>os_cache := c\<rparr>)
            | (Inr m, c) \<Rightarrow>
                (case insert_transaction (transaction_row oe key m intent user_id device) (s\<lparr>os_cache := c\<rparr>) of
                   None \<Rightarrow> (Inl IntegrityError, s\<lparr>os_cache := c\<rparr>)
                 | Some s' \<Rightarrow>
                     if oidc_fault oe then (Inl DatabaseError, s\<lparr>os_cache := c\<rparr>)
                     else (Inr \<lparr>as_url = authorization_url oe m, as_browser_binding = oe_binding oe,
                             as_expires_in = OIDC_TRANSACTION_EXPIRE_MINUTES (oidc_settings oe) * 60\<rparr>, s'))))"

section \<open>Whose identity it is\<close>

definition find_identity :: "string \<Rightarrow> string \<Rightarrow> oidc_state \<Rightarrow> external_identity option" where
  "find_identity issuer subject s =
     find (\<lambda>i. ei_issuer i = issuer \<and> ei_subject i = subject) (os_identities s)"

definition oidc_user :: "oidc_env \<Rightarrow> string \<Rightarrow> string \<Rightarrow> user" where
  "oidc_user oe username email =
     \<lparr>u_id = oe_new_user_id oe, u_username = username,
      u_password = hash_password (oe_account oe) (oe_password oe), u_password_login_enabled = False,
      u_role = ''user'', u_email = Some email, u_email_verified_at = Some (oe_identity_now oe),
      u_mfa_secret_encrypted = None, u_mfa_enrollment_created_at = None, u_mfa_enabled_at = None,
      u_mfa_last_counter = None, u_is_active = True, u_created_at = ac_created_at (oe_account oe),
      u_updated_at = ac_updated_at (oe_account oe)\<rparr>"

definition identity_row ::
    "oidc_env \<Rightarrow> int \<Rightarrow> string \<Rightarrow> string \<Rightarrow> string option \<Rightarrow> datetime option \<Rightarrow> external_identity" where
  "identity_row oe user_id issuer subject email last_login =
     \<lparr>ei_id = oe_new_identity_id oe, ei_user_id = user_id, ei_issuer = issuer, ei_subject = subject,
      ei_email = email, ei_created_at = oe_created_at oe, ei_last_login_at = last_login\<rparr>"

definition identity_for_login ::
    "oidc_env \<Rightarrow> string \<Rightarrow> string \<Rightarrow> jobject \<Rightarrow> oidc_state \<Rightarrow>
     (external_identity \<times> user) result \<times> oidc_state" where
  "identity_for_login oe issuer subject claims s =
     (case find_identity issuer subject s of
        Some ident \<Rightarrow>
          (case find_user (ei_user_id ident) (os_tables s) of
             None \<Rightarrow> (Inl (unauthorized ''OIDC login is not available''), s)
           | Some user \<Rightarrow>
               if \<not> u_is_active user then (Inl (unauthorized ''OIDC login is not available''), s)
               else (Inr (ident, user), s))
      | None \<Rightarrow>
          (case normalize_verified_email oe claims of
             None \<Rightarrow> (Inl (HTTPException 403 ''Verified provider email is required for account creation''), s)
           | Some email \<Rightarrow>
               if find (\<lambda>u. map_option sql_lower_trim (u_email u) = Some email) (users (os_tables s)) \<noteq> None
               then (Inl (HTTPException 409 ''Sign in locally and link this external identity explicitly''), s)
               else (case new_username oe email issuer subject (os_tables s) of
                   None \<Rightarrow> (Inl (ValueError ''unhandled''), s)
                 | Some username \<Rightarrow>
                     (let user = oidc_user oe username email;
                          ident = identity_row oe (u_id user) issuer subject (Some email)
                            (Some (oe_identity_now oe)) in
                      case insert_user user (os_tables s) of
                        None \<Rightarrow> (Inl IntegrityError, s)
                      | Some tb \<Rightarrow>
                          (case insert_identity ident (s\<lparr>os_tables := tb\<rparr>) of
                             None \<Rightarrow> (Inl IntegrityError, s)
                           | Some s' \<Rightarrow> (Inr (ident, user), s'))))))"

text \<open>\<open>_revoke_user_sessions\<close> of this service.\<close>

definition oidc_revoke_sessions :: "oidc_env \<Rightarrow> int \<Rightarrow> string \<Rightarrow> oidc_state \<Rightarrow> oidc_state" where
  "oidc_revoke_sessions oe user_id reason s =
     s\<lparr>os_tables := revoke_where (\<lambda>t. rt_user_id t = user_id) reason (oe_revoke_now oe) (os_tables s)\<rparr>"

definition identity_for_link ::
    "oidc_env \<Rightarrow> int \<Rightarrow> string \<Rightarrow> string \<Rightarrow> jobject \<Rightarrow> oidc_state \<Rightarrow> external_identity result \<times> oidc_state" where
  "identity_for_link oe user_id issuer subject claims s =
     (case find_user user_id (os_tables s) of
        None \<Rightarrow> (Inl (unauthorized ''Invalid or expired OIDC transaction''), s)
      | Some user \<Rightarrow>
          if \<not> u_is_active user then (Inl (unauthorized ''Invalid or expired OIDC transaction''), s)
          else (case find_identity issuer subject s of
              Some existing \<Rightarrow>
                if ei_user_id existing \<noteq> user_id
                then (Inl (HTTPException 409 ''External identity is already linked to another account''), s)
                else (Inr existing, s)
            | None \<Rightarrow>
                if find (\<lambda>i. ei_user_id i = user_id \<and> ei_issuer i = issuer) (os_identities s) \<noteq> None
                then (Inl (HTTPException 409 ''This account already has an identity for the provider''), s)
                else
                  (let ident = identity_row oe user_id issuer subject (normalize_verified_email oe claims) None in
                   case insert_identity ident s of
                     None \<Rightarrow> (Inl IntegrityError, s)
                   | Some s' \<Rightarrow>
                       (Inr ident, oidc_revoke_sessions oe user_id ''external_identity_linked'' s'))))"

section \<open>The callback\<close>

datatype callback_result =
  TokensResult token_pair | MfaResult mfa_challenge | LinkedResult external_identity

definition transaction_open :: "oidc_env \<Rightarrow> oidc_transaction \<Rightarrow> string \<Rightarrow> bool" where
  "transaction_open oe t binding =
     (ot_consumed_at t = None \<and> \<not> as_utc (Naive (ot_expires_at t)) \<le> oe_now oe \<and>
      ot_issuer t = issuer_of (oidc_settings oe) \<and>
      ot_redirect_uri t = OIDC_REDIRECT_URI (oidc_settings oe) \<and>
      ot_browser_binding_hash t = hash_secret oe binding)"

definition verified_claims ::
    "oidc_env \<Rightarrow> oidc_transaction \<Rightarrow> string \<Rightarrow> string \<Rightarrow> cache_state \<Rightarrow>
     (metadata \<times> jobject) result \<times> cache_state" where
  "verified_claims oe t code key c =
     (let pe = oe_provider oe in
      case discover pe c of
        (Inl e, c1) \<Rightarrow> (Inl (provider_failure INVALID_TRANSACTION e), c1)
      | (Inr m, c1) \<Rightarrow>
          (case oe_decrypt oe key (ot_code_verifier_encrypted t) of
             None \<Rightarrow> (Inl OIDC_UNAVAILABLE, c1)
           | Some verifier \<Rightarrow>
               (case exchange_code pe m code verifier (ot_redirect_uri t) of
                  Inl e \<Rightarrow> (Inl (provider_failure INVALID_TRANSACTION e), c1)
                | Inr token \<Rightarrow>
                    (case validate_id_token pe m token c1 of
                       (Inl e, c2) \<Rightarrow> (Inl (provider_failure INVALID_TRANSACTION e), c2)
                     | (Inr claims, c2) \<Rightarrow> (Inr (m, claims), c2)))))"

definition touched_identity :: "oidc_env \<Rightarrow> jobject \<Rightarrow> external_identity \<Rightarrow> external_identity" where
  "touched_identity oe claims i = i
     \<lparr>ei_email := (case normalize_verified_email oe claims of
         None \<Rightarrow> ei_email i | Some e \<Rightarrow> if e = [] then ei_email i else Some e),
      ei_last_login_at := Some (oe_now oe)\<rparr>"

definition finish_login ::
    "oidc_env \<Rightarrow> oidc_transaction \<Rightarrow> user \<Rightarrow> oidc_state \<Rightarrow> callback_result result \<times> oidc_state" where
  "finish_login oe t user s =
     (let e = oe_account oe in
      if u_mfa_enabled_at user \<noteq> None then
        (case prepare_mfa_login_challenge e user (ot_device_name t) ''oidc'' (os_tables s) of
           (Inl err, _) \<Rightarrow> (Inl err, s)
         | (Inr challenge, tb) \<Rightarrow> (Inr (MfaResult challenge), s\<lparr>os_tables := tb\<rparr>))
      else
        (case prepare_session_tokens (ac_auth e) (u_id user) (ot_device_name t) [''oidc''] (os_tables s) of
           (Inl err, _) \<Rightarrow> (Inl err, s)
         | (Inr tokens, tb) \<Rightarrow> (Inr (TokensResult tokens), s\<lparr>os_tables := tb\<rparr>)))"

definition accept_claims ::
    "oidc_env \<Rightarrow> oidc_transaction \<Rightarrow> string \<Rightarrow> string \<Rightarrow> jobject \<Rightarrow> oidc_state \<Rightarrow>
     callback_result result \<times> oidc_state" where
  "accept_claims oe t issuer subject claims s =
     (if ot_intent t = ''link'' then
        (case ot_user_id t of
           None \<Rightarrow> (Inl INVALID_TRANSACTION, s)
         | Some user_id \<Rightarrow>
             (case identity_for_link oe user_id issuer subject claims s of
                (Inl err, s1) \<Rightarrow> (Inl err, s1)
              | (Inr ident, s1) \<Rightarrow> (Inr (LinkedResult ident), s1)))
      else if ot_intent t = ''login'' then
        (case identity_for_login oe issuer subject claims s of
           (Inl err, s1) \<Rightarrow> (Inl err, s1)
         | (Inr (ident, user), s1) \<Rightarrow>
             finish_login oe t user (put_identity (touched_identity oe claims ident) s1))
      else (Inl INVALID_TRANSACTION, s))"

text \<open>The commit, and the rollback of every failure.\<close>

definition finish_callback ::
    "oidc_env \<Rightarrow> oidc_state \<Rightarrow> callback_result result \<times> oidc_state \<Rightarrow> callback_result result \<times> oidc_state" where
  "finish_callback oe before r =
     (case r of
        (Inl IntegrityError, _) \<Rightarrow> (Inl (HTTPException 409 ''External identity could not be linked''), before)
      | (Inl err, _) \<Rightarrow> (Inl err, before)
      | (Inr result, s) \<Rightarrow> if oidc_fault oe then (Inl DatabaseError, before) else (Inr result, s))"

definition complete_oidc_authorization ::
    "oidc_env \<Rightarrow> string \<Rightarrow> string \<Rightarrow> string option \<Rightarrow> oidc_state \<Rightarrow> callback_result result \<times> oidc_state" where
  "complete_oidc_authorization oe state code browser_binding s =
     (case require_oidc oe of
        Inl err \<Rightarrow> (Inl err, s)
      | Inr key \<Rightarrow>
          if state = [] \<or> code = [] \<or> browser_binding = None \<or> browser_binding = Some []
          then (Inl INVALID_TRANSACTION, s)
          else (case find (\<lambda>t. ot_state_hash t = hash_secret oe state) (os_transactions s) of
              None \<Rightarrow> (Inl INVALID_TRANSACTION, s)
            | Some t \<Rightarrow>
                if \<not> transaction_open oe t (the browser_binding) then (Inl INVALID_TRANSACTION, s)
                else (case verified_claims oe t code key (os_cache s) of
                    (Inl err, c) \<Rightarrow> (Inl err, s\<lparr>os_cache := c\<rparr>)
                  | (Inr (m, claims), c) \<Rightarrow>
                      (let s1 = s\<lparr>os_cache := c\<rparr> in
                       case (map_of claims ''sub'', map_of claims ''nonce'') of
                         (Some (VStr subject), Some (VStr nonce)) \<Rightarrow>
                           if subject = [] \<or> 255 < length subject \<or> ot_nonce_hash t \<noteq> hash_secret oe nonce
                           then (Inl INVALID_TRANSACTION, s1)
                           else finish_callback oe s1
                             (accept_claims oe t (md_issuer m) subject claims
                                (put_transaction (t\<lparr>ot_consumed_at := Some (oe_now oe)\<rparr>) s1))
                       | _ \<Rightarrow> (Inl INVALID_TRANSACTION, s1)))))"

section \<open>The identities of a user\<close>

definition identity_before :: "external_identity \<Rightarrow> external_identity \<Rightarrow> bool" where
  "identity_before x y =
     (ei_created_at x < ei_created_at y \<or> ei_created_at x = ei_created_at y \<and> ei_id x \<le> ei_id y)"

definition list_external_identities :: "int \<Rightarrow> oidc_state \<Rightarrow> external_identity list" where
  "list_external_identities user_id s =
     sort_by identity_before (filter (\<lambda>i. ei_user_id i = user_id) (os_identities s))"

definition unlink_external_identity ::
    "oidc_env \<Rightarrow> int \<Rightarrow> int \<Rightarrow> oidc_state \<Rightarrow> unit result \<times> oidc_state" where
  "unlink_external_identity oe identity_id user_id s =
     (case find (\<lambda>i. ei_id i = identity_id \<and> ei_user_id i = user_id) (os_identities s) of
        None \<Rightarrow> (Inr (), s)
      | Some ident \<Rightarrow>
          (let identity_count = length (filter (\<lambda>i. ei_user_id i = user_id) (os_identities s));
               refused = (Inl (HTTPException 409 ''Cannot unlink the account's only sign-in method''), s) in
           case find_user user_id (os_tables s) of
             None \<Rightarrow> refused
           | Some user \<Rightarrow>
               if \<not> u_password_login_enabled user \<and> identity_count \<le> 1 then refused
               else if oidc_fault oe then (Inl DatabaseError, s)
               else (Inr (), oidc_revoke_sessions oe user_id ''external_identity_unlinked''
                      (s\<lparr>os_identities := del_row ei_id (ei_id ident) (os_identities s)\<rparr>))))"

section \<open>Endpoints\<close>

record redirect_response =
  rr_url :: string
  rr_binding :: string
  rr_max_age :: int
  rr_secure :: bool

definition redirect_with_binding :: "oidc_env \<Rightarrow> authorization_start \<Rightarrow> redirect_response" where
  "redirect_with_binding oe start =
     \<lparr>rr_url = as_url start, rr_binding = as_browser_binding start, rr_max_age = as_expires_in start,
      rr_secure = (py_casefold (ENVIRONMENT (oidc_settings oe)) = ''production'')\<rparr>"

datatype oidc_reply =
    RedirectReply redirect_response
  | CallbackReply callback_result
  | IdentitiesReply "external_identity list"
  | UnlinkedReply string

datatype oidc_request =
    AuthorizeLogin "string option" "string option"
  | AuthorizeLink string "string option" "string option"
  | Callback "string option" "string option" "string option" "string option"
  | Identities string
  | UnlinkIdentity string int

definition param_ok :: "nat \<Rightarrow> nat \<Rightarrow> string option \<Rightarrow> bool" where
  "param_ok low high v = (case v of None \<Rightarrow> True | Some text \<Rightarrow> low \<le> length text \<and> length text \<le> high)"

definition or_empty :: "string option \<Rightarrow> string" where
  "or_empty v = (case v of None \<Rightarrow> [] | Some text \<Rightarrow> text)"

definition oidc_reply_as :: "('a \<Rightarrow> oidc_reply) \<Rightarrow> 'a result \<times> oidc_state \<Rightarrow> oidc_reply result \<times> oidc_state" where
  "oidc_reply_as f r = (case r of (Inl err, s) \<Rightarrow> (Inl err, s) | (Inr v, s) \<Rightarrow> (Inr (f v), s))"

definition recent_user :: "account_env \<Rightarrow> string \<Rightarrow> tables \<Rightarrow> user result" where
  "recent_user e token tb =
     (case get_current_user e token tb of
        Inl err \<Rightarrow> Inl err
      | Inr user \<Rightarrow>
          (case require_recent_authentication e token of Inl err \<Rightarrow> Inl err | Inr _ \<Rightarrow> Inr user))"

fun run_oidc :: "oidc_env \<Rightarrow> oidc_request \<Rightarrow> oidc_state \<Rightarrow> oidc_reply result \<times> oidc_state" where
  "run_oidc oe (AuthorizeLogin device user_agent) s =
     oidc_reply_as (\<lambda>start. RedirectReply (redirect_with_binding oe start))
       (begin_oidc_authorization oe ''login'' (get_device_name (oe_account oe) device user_agent) None s)"
| "run_oidc oe (AuthorizeLink token device user_agent) s =
     (case recent_user (oe_account oe) token (os_tables s) of
        Inl err \<Rightarrow> (Inl err, s)
      | Inr user \<Rightarrow>
          oidc_reply_as (\<lambda>start. RedirectReply (redirect_with_binding oe start))
            (begin_oidc_authorization oe ''link'' (get_device_name (oe_account oe) device user_agent)
               (Some (u_id user)) s))"
| "run_oidc oe (Callback state code error_param browser_binding) s =
     (if param_ok 32 512 state \<and> param_ok 1 4096 code \<and> param_ok 0 255 error_param
      then oidc_reply_as CallbackReply
        (complete_oidc_authorization oe (or_empty state) (or_empty code) browser_binding s)
      else (Inl RequestValidationError, s))"
| "run_oidc oe (Identities token) s =
     (case get_current_user (oe_account oe) token (os_tables s) of
        Inl err \<Rightarrow> (Inl err, s)
      | Inr user \<Rightarrow> (Inr (IdentitiesReply (list_external_identities (u_id user) s)), s))"
| "run_oidc oe (UnlinkIdentity token identity_id) s =
     (case recent_user (oe_account oe) token (os_tables s) of
        Inl err \<Rightarrow> (Inl err, s)
      | Inr user \<Rightarrow>
          oidc_reply_as (\<lambda>_. UnlinkedReply ''External identity unlinked'')
            (unlink_external_identity oe identity_id (u_id user) s))"

end
