(* ===== verification/OidcSecurity.thy ===== *)
theory OidcSecurity
  imports Oidc
begin

text \<open>
  Properties of the OpenID sign-in together with the account requests: no request costs a user
  the last way to sign in, a completed transaction is never completed again, and an account is
  reached only through an identity its owner linked.
\<close>

section \<open>A free user name\<close>

lemma nat_digits_minus: "CHR ''-'' \<notin> set (nat_digits n)"
proof (induction n rule: nat_digits.induct)
  case (1 n)
  have digit: "char_of (48 + m) \<noteq> CHR ''-''" if "m < 10" for m :: nat
  proof
    assume "char_of (48 + m) = CHR ''-''"
    then have "(of_char (char_of (48 + m)) :: nat) = 45" by simp
    then show False using that by (simp add: of_char_of)
  qed
  show ?case using 1 digit [of n] digit [of "n mod 10"] by (subst nat_digits.simps) auto
qed

lemma minus_split:
  assumes "x @ CHR ''-'' # a = y @ CHR ''-'' # b" and "CHR ''-'' \<notin> set a" and "CHR ''-'' \<notin> set b"
  shows "a = b"
proof -
  have rest: "takeWhile (\<lambda>c. c \<noteq> CHR ''-'') (rev (z @ CHR ''-'' # d)) = rev d"
    if "CHR ''-'' \<notin> set d" for z d :: string
    using that by (simp add: takeWhile_append)
  show ?thesis using rest [OF assms(2), of x] rest [OF assms(3), of y] assms(1) by simp
qed

lemma numbered_inject:
  assumes "numbered_username base i = numbered_username base j" and "0 \<le> i" and "0 \<le> j"
  shows "i = j"
proof -
  have "nat_digits (nat i) = nat_digits (nat j)"
    using assms minus_split nat_digits_minus
    unfolding numbered_username_def show_int_def Let_def by fastforce
  then show ?thesis using nat_digits_inject assms(2,3) by fastforce
qed

lemma name_taken: "find (\<lambda>u. u_username u = c) (users tb) \<noteq> None \<longleftrightarrow> c \<in> u_username ` set (users tb)"
  by (auto simp: find_None_iff)

lemma username_loop_None:
  assumes "username_loop (Suc fuel) tb base candidate k = None"
  shows "candidate \<in> u_username ` set (users tb) \<and>
    (\<forall>i<fuel. numbered_username base (k + int i) \<in> u_username ` set (users tb))"
  using assms
proof (induction fuel arbitrary: candidate k)
  case 0
  then show ?case using name_taken [of candidate tb] by (simp split: if_splits)
next
  case (Suc fuel)
  have taken: "candidate \<in> u_username ` set (users tb)"
    and rest: "username_loop (Suc fuel) tb base (numbered_username base k) (k + 1) = None"
    using Suc.prems name_taken [of candidate tb] by (simp_all del: find_None_iff split: if_splits)
  note IH = Suc.IH [OF rest]
  have "numbered_username base (k + int i) \<in> u_username ` set (users tb)" if "i < Suc fuel" for i
    using IH that by (cases i) (auto simp: algebra_simps)
  then show ?case using taken by blast
qed

lemma username_loop_Some:
  "username_loop fuel tb base candidate k = Some name \<Longrightarrow>
     name \<notin> u_username ` set (users tb) \<and> (name = candidate \<or>
       (\<exists>i<fuel. name = numbered_username base (k + int i)))"
proof (induction fuel arbitrary: candidate k)
  case (Suc fuel)
  show ?case
  proof (cases "candidate \<in> u_username ` set (users tb)")
    case False
    then show ?thesis using Suc.prems name_taken [of candidate tb] by (simp split: if_splits)
  next
    case True
    then have "username_loop fuel tb base (numbered_username base k) (k + 1) = Some name"
      using Suc.prems name_taken [of candidate tb] by (simp split: if_splits)
    from Suc.IH [OF this] have free: "name \<notin> u_username ` set (users tb)"
      and "name = numbered_username base k \<or> (\<exists>i<fuel. name = numbered_username base (k + 1 + int i))" by auto
    then consider "name = numbered_username base (k + int 0)"
      | i where "i < fuel" "name = numbered_username base (k + int (Suc i))"
      by (auto simp: algebra_simps)
    then have "\<exists>i<Suc fuel. name = numbered_username base (k + int i)" by cases (blast, auto)
    then show ?thesis using free by blast
  qed
qed simp

lemma numbered_names_card: "card ((\<lambda>i. numbered_username base (1 + int i)) ` {..<n}) = n"
proof -
  have "inj_on (\<lambda>i. numbered_username base (1 + int i)) {..<n}"
    by (rule inj_onI) (auto dest: numbered_inject)
  then show ?thesis by (simp add: card_image)
qed

lemma new_username_Some: "\<exists>name. new_username oe email issuer subject tb = Some name"
proof (rule ccontr)
  let ?base = "username_base oe email issuer subject" and ?names = "u_username ` set (users tb)"
  assume "\<not> ?thesis"
  then have "username_loop (Suc (Suc (length (users tb)))) tb ?base ?base 1 = None"
    by (simp add: new_username_def Let_def)
  from username_loop_None [OF this]
  have "(\<lambda>i. numbered_username ?base (1 + int i)) ` {..<Suc (length (users tb))} \<subseteq> ?names" by blast
  then have "Suc (length (users tb)) \<le> card ?names"
    using card_mono [of ?names] numbered_names_card by (metis List.finite_set finite_imageI)
  moreover have "card ?names \<le> length (users tb)"
    using card_image_le card_length le_trans by (metis List.finite_set)
  ultimately show False by simp
qed

lemma new_username_free:
  "new_username oe email issuer subject tb = Some name \<Longrightarrow> name \<notin> u_username ` set (users tb)"
  unfolding new_username_def Let_def using username_loop_Some by blast

lemma nat_digits_length: "n < 10 ^ k \<Longrightarrow> 0 < k \<Longrightarrow> length (nat_digits n) \<le> k"
proof (induction k arbitrary: n)
  case (Suc k)
  show ?case
  proof (cases "n < 10")
    case True
    then show ?thesis by (subst nat_digits.simps) simp
  next
    case False
    then have "n div 10 < 10 ^ k" "0 < k" using Suc.prems by (auto intro: Suc_lessI) (cases k; simp)
    then have "length (nat_digits (n div 10)) \<le> k" using Suc.IH by blast
    then show ?thesis using False by (subst nat_digits.simps) simp
  qed
qed simp

lemma numbered_length:
  assumes "0 \<le> i" and "i < 10 ^ 49"
  shows "length (numbered_username base i) \<le> 50"
proof -
  have "nat i < 10 ^ 49" using assms by (simp add: nat_less_iff)
  then have "length (nat_digits (nat i)) \<le> 49" by (rule nat_digits_length) simp
  then show ?thesis
    using assms(1) by (simp add: numbered_username_def Let_def show_int_def py_prefix_def)
qed

section \<open>Account requests keep the password logins\<close>

text \<open>Whoever cannot sign in with a password afterwards could not before; nobody is lost.\<close>

definition login_from :: "tables \<Rightarrow> tables \<Rightarrow> bool" where
  "login_from tb tb' = (\<forall>u'\<in>set (users tb'). u_password_login_enabled u' \<or>
     (\<exists>u\<in>set (users tb). u_id u = u_id u' \<and> \<not> u_password_login_enabled u))"

definition login_kept :: "tables \<Rightarrow> tables \<Rightarrow> bool" where
  "login_kept tb tb' = (login_from tb tb' \<and> u_id ` set (users tb) \<subseteq> u_id ` set (users tb'))"

lemma login_kept_same: "users tb' = users tb \<Longrightarrow> login_kept tb tb'"
  by (auto simp: login_kept_def login_from_def)

lemma login_kept_refl [simp]: "login_kept tb tb"
  by (simp add: login_kept_same)

lemma login_kept_put:
  assumes "v \<in> set (users tb)" and "u_id u = u_id v"
    and "u_password_login_enabled v \<Longrightarrow> u_password_login_enabled u"
    and "users tb1 = users tb" and "users tb' = users (put_user u tb1)"
  shows "login_kept tb tb'"
proof -
  have "u_id ` set (users tb') = u_id ` set (users tb)"
    using assms(4,5) by (simp add: put_user_def flip: set_map)
  then show ?thesis using assms by (auto simp: login_kept_def login_from_def dest!: set_put_row)
qed

lemma login_kept_rows [simp]:
  "u_password_login_enabled (verified_user e u) = u_password_login_enabled u"
  "u_password_login_enabled (reset_user e p u) = True"
  "u_password_login_enabled (role_user e role u) = u_password_login_enabled u"
  "u_password_login_enabled (status_user e active u) = u_password_login_enabled u"
  "u_password_login_enabled (enrolling_user e x u) = u_password_login_enabled u"
  "u_password_login_enabled (enrolled_user e c u) = u_password_login_enabled u"
  "u_password_login_enabled (counted_user e c u) = u_password_login_enabled u"
  "u_password_login_enabled (plain_user e u) = u_password_login_enabled u"
  "u_id (role_user e role u) = u_id u" "u_id (status_user e active u) = u_id u"
  by (simp_all add: verified_user_def reset_user_def role_user_def status_user_def enrolling_user_def
      enrolled_user_def counted_user_def plain_user_def)

lemma kept_confirm_verification:
  "confirm_email_verification e token tb = (r, tb') \<Longrightarrow> login_kept tb tb'"
  unfolding confirm_email_verification_def
  by (auto dest!: committed_cases find_user_Some split: option.splits if_splits
      intro: login_kept_put [where u = "verified_user e _"])

lemma kept_confirm_reset:
  "confirm_password_reset e token password tb = (r, tb') \<Longrightarrow> login_kept tb tb'"
  unfolding confirm_password_reset_def
  by (auto dest!: committed_cases find_user_Some split: option.splits if_splits
      intro: login_kept_put [where u = "reset_user e password _"])

lemma kept_begin:
  "begin_totp_enrollment e uid password tb = (r, tb') \<Longrightarrow> login_kept tb tb'"
  unfolding begin_totp_enrollment_def
  by (auto dest!: committed_cases lock_user_Inr split: sum.splits if_splits
      intro: login_kept_put [where u = "enrolling_user e _ _"] simp: delete_recovery_codes_def)

lemma kept_confirm_totp:
  "confirm_totp_enrollment e uid code tb = (r, tb') \<Longrightarrow> login_kept tb tb'"
  unfolding confirm_totp_enrollment_def
  by (auto dest!: committed_cases lock_user_Inr replace_codes(2)
      split: sum.splits if_splits option.splits prod.splits
      intro: login_kept_put [where u = "enrolled_user e _ _"])

lemma kept_regenerate:
  "regenerate_recovery_codes e uid password code tb = (r, tb') \<Longrightarrow> login_kept tb tb'"
  unfolding regenerate_recovery_codes_def
  by (auto dest!: committed_cases lock_user_Inr replace_codes(2)
      split: sum.splits if_splits option.splits prod.splits simp: revoke_sessions_def
      intro: login_kept_put [where u = "counted_user e _ _"])

lemma kept_disable:
  "disable_mfa e uid password code tb = (r, tb') \<Longrightarrow> login_kept tb tb'"
  unfolding disable_mfa_def
  by (auto dest!: committed_cases lock_user_Inr consume_code(2)
      split: sum.splits if_splits option.splits prod.splits simp: revoke_sessions_def delete_recovery_codes_def
      intro: login_kept_put [where u = "plain_user e _"])

lemma kept_verify:
  assumes "verify_mfa_login_challenge e token code tb = (r, tb')"
  shows "login_kept tb tb'"
  using assms
proof (cases rule: verify_cases)
  case (passed challenge user m tb1 pair)
  have "login_kept tb tb1"
    using passed(5) lock_user_Inr [OF passed(3)] unfolding accept_factor_def
    by (auto dest!: consume_code(2) split: sum.splits option.splits prod.splits bool.splits
        simp: revoke_sessions_def intro: login_kept_same login_kept_put [where u = "counted_user e _ _"])
  then show ?thesis using issue_session_actions(2) [OF passed(6)] by (simp add: login_kept_def login_from_def)
qed simp

lemma kept_refresh: "refresh_access_token ae token tb = (r, tb') \<Longrightarrow> login_kept tb tb'"
  unfolding refresh_access_token_def revoke_all_user_sessions_def revoke_family_def
    revoke_user_sessions_def committing_def
  by (auto simp: Let_def insert_refresh_token_def intro!: login_kept_same split: option.splits if_splits)

lemma kept_revoke_user:
  "revoke_user_sessions ae uid family reason tb = (r, tb') \<Longrightarrow> login_kept tb tb'"
  "revoke_refresh_token ae token tb = (b, tb') \<Longrightarrow> login_kept tb tb'"
  using revoke_user_cases logout_cases by (metis revoke_where_fields(1) login_kept_same)+

lemma kept_link:
  assumes "issue_link e user p email m ty url tb = (r, tb')"
  shows "login_kept tb tb'"
  using assms unfolding issue_link_def Let_def
  by (intro login_kept_same) (auto dest!: committed_cases insert_action_same enqueue_same
      split: option.splits if_splits sum.splits)

lemma kept_requests:
  "without_mail (request_email_verification email e raw tb) = (r, tb') \<Longrightarrow> login_kept tb tb'"
  "without_mail (request_password_reset email e raw tb) = (r, tb') \<Longrightarrow> login_kept tb tb'"
proof -
  have issues: "issue_email_verification_token e email tb = (v, tb') \<Longrightarrow> login_kept tb tb'"
    "issue_password_reset_token e email tb = (v, tb') \<Longrightarrow> login_kept tb tb'" for v email
    unfolding issue_email_verification_token_def issue_password_reset_token_def
    by (auto dest: kept_link split: option.splits if_splits)
  have link: "without_mail (request_link e accepted url subject issue tb) = (r, tb')
    \<Longrightarrow> (\<And>v. issue tb = (v, tb') \<Longrightarrow> login_kept tb tb') \<Longrightarrow> login_kept tb tb'" for accepted url subject issue r
    using request_link_snd by (metis login_kept_refl)
  show "without_mail (request_email_verification email e raw tb) = (r, tb') \<Longrightarrow> login_kept tb tb'"
    "without_mail (request_password_reset email e raw tb) = (r, tb') \<Longrightarrow> login_kept tb tb'"
    unfolding request_email_verification_def request_password_reset_def
    by (auto elim!: link dest: issues split: sum.splits)
qed

lemma kept_register: "register e body tb = (r, tb') \<Longrightarrow> login_kept tb tb'"
  unfolding register_def Let_def
  by (auto simp: login_kept_def login_from_def insert_user_def registered_user_def dest!: committed_cases
      split: option.splits sum.splits if_splits)

lemma kept_role: "update_user_role e uid role tb = (r, tb') \<Longrightarrow> login_kept tb tb'"
  unfolding update_user_role_def
  by (auto dest!: committed_cases admin_get_user_Inr split: sum.splits
      intro: login_kept_put [where u = "role_user e role _"])

lemma kept_status:
  assumes "update_user_status e uid active tb = (r, tb')"
  shows "login_kept tb tb'"
proof -
  have "login_kept tb mid"
    if "admin_get_user uid tb = Inr u" and "revoke_all_user_sessions (ac_auth e) x reason
      (put_user (status_user e active u) tb) = (v, mid)" for u x reason v mid
  proof -
    have "users mid = users (put_user (status_user e active u) tb)"
      using that(2) revoke_user_cases unfolding revoke_all_user_sessions_def
      by (metis revoke_where_fields(1))
    then show ?thesis using admin_get_user_Inr [OF that(1)]
      by (intro login_kept_put [where u = "status_user e active u"]) auto
  qed
  then show ?thesis
    using assms unfolding update_user_status_def Let_def
    by (auto dest!: committed_cases split: sum.splits if_splits prod.splits dest: admin_get_user_Inr
        intro: login_kept_put [where u = "status_user e active _"])
qed

lemma from_delete: "delete_user e uid tb = (r, tb') \<Longrightarrow> login_from tb tb'"
  unfolding delete_user_def
  by (auto simp: login_from_def delete_user_row_def del_row_def dest!: committed_cases
      split: sum.splits option.splits if_splits)

lemma kept_public: "public_route e q tb = (r, tb') \<Longrightarrow> login_kept tb tb'"
  by (cases q) (auto dest!: reply_as_snd dest: kept_register kept_refresh kept_revoke_user kept_requests
      kept_confirm_verification kept_confirm_reset kept_verify login_kept_same [OF login_users]
      simp: confirm_verification_def confirm_reset_def checked_def split: sum.splits prod.splits if_splits)

lemma kept_member: "member_route e user q tb = (r, tb') \<Longrightarrow> login_kept tb tb'"
  by (cases q) (auto dest!: reply_as_snd dest: kept_revoke_user kept_begin kept_confirm_totp
      kept_regenerate kept_disable simp: checked_def revoke_session_family_def revoke_all_user_sessions_def
      split: if_splits)

lemma kept_admin: "admin_route e user q tb = (r, tb') \<Longrightarrow> \<not> deletes_user (Admin t q) \<Longrightarrow> login_kept tb tb'"
  by (cases q) (auto dest!: reply_as_snd dest: kept_role kept_status)

lemma run_account_login_kept:
  "run_account e q tb = (r, tb') \<Longrightarrow> \<not> deletes_user q \<Longrightarrow> login_kept tb tb'"
  by (cases q) (auto dest: kept_public kept_member kept_admin simp: require_admin_def
      split: sum.splits if_splits)

lemma run_account_login_from:
  assumes "run_account e q tb = (r, tb')"
  shows "login_from tb tb'"
proof (cases "deletes_user q")
  case True
  then obtain token uid where q: "q = Admin token (DeleteUser uid)"
    by (cases q rule: deletes_user.cases) auto
  then have "tb' = tb \<or> (\<exists>v. delete_user e uid tb = (v, tb'))"
    using assms by (auto dest!: reply_as_snd split: sum.splits)
  then show ?thesis using from_delete login_kept_refl login_kept_def by blast
next
  case False
  then show ?thesis using run_account_login_kept [OF assms] by (simp add: login_kept_def)
qed

section \<open>What each operation did\<close>

lemma insert_identity_Some:
  "insert_identity i s = Some s' \<longleftrightarrow> s' = s\<lparr>os_identities := os_identities s @ [i]\<rparr> \<and>
     ei_id i \<notin> ei_id ` set (os_identities s) \<and> agrees_with ei_id identity_agree i (os_identities s) \<and>
     user_exists (os_tables s) (ei_user_id i)"
  by (auto simp: insert_identity_def)

definition bound_ok :: "tables \<Rightarrow> oidc_transaction \<Rightarrow> bool" where
  "bound_ok tb t = (case ot_user_id t of None \<Rightarrow> True | Some uid \<Rightarrow> user_exists tb uid)"

lemma insert_transaction_Some:
  "insert_transaction t s = Some s' \<longleftrightarrow> s' = s\<lparr>os_transactions := os_transactions s @ [t]\<rparr> \<and>
     ot_id t \<notin> ot_id ` set (os_transactions s) \<and> agrees_with ot_id transaction_agree t (os_transactions s) \<and>
     bound_ok (os_tables s) t"
  by (auto simp: insert_transaction_def bound_ok_def)

lemma transaction_row_fields [simp]:
  "ot_user_id (transaction_row oe key m intent uid device) = uid"
  "ot_intent (transaction_row oe key m intent uid device) = intent"
  "ot_consumed_at (transaction_row oe key m intent uid device) = None"
  by (simp_all add: transaction_row_def)

lemma identity_row_fields [simp]:
  "ei_id (identity_row oe uid issuer subject email seen) = oe_new_identity_id oe"
  "ei_user_id (identity_row oe uid issuer subject email seen) = uid"
  "ei_issuer (identity_row oe uid issuer subject email seen) = issuer"
  "ei_subject (identity_row oe uid issuer subject email seen) = subject"
  by (simp_all add: identity_row_def)

lemma touched_identity_fields [simp]:
  "ei_id (touched_identity oe claims i) = ei_id i" "ei_user_id (touched_identity oe claims i) = ei_user_id i"
  "ei_issuer (touched_identity oe claims i) = ei_issuer i"
  "ei_subject (touched_identity oe claims i) = ei_subject i"
  by (simp_all add: touched_identity_def)

lemma oidc_user_fields [simp]:
  "u_id (oidc_user oe name email) = oe_new_user_id oe" "\<not> u_password_login_enabled (oidc_user oe name email)"
  "u_mfa_enabled_at (oidc_user oe name email) = None"
  by (simp_all add: oidc_user_def)

lemma find_identity_Some:
  "find_identity issuer subject s = Some i \<Longrightarrow>
     i \<in> set (os_identities s) \<and> ei_issuer i = issuer \<and> ei_subject i = subject"
  by (auto simp: find_identity_def find_Some_iff)

lemma begin_cases:
  assumes "begin_oidc_authorization oe intent device uid s = (r, s')"
  obtains (refused) c where "s' = s\<lparr>os_cache := c\<rparr>"
  | (begun) start key m c where "r = Inr start" and "discover (oe_provider oe) (os_cache s) = (Inr m, c)"
    and "(intent = ''link'') = (uid \<noteq> None)"
    and "insert_transaction (transaction_row oe key m intent uid device) (s\<lparr>os_cache := c\<rparr>) = Some s'"
proof -
  have "(\<exists>c. s' = s\<lparr>os_cache := c\<rparr>) \<or> (\<exists>start key m c. r = Inr start \<and>
      discover (oe_provider oe) (os_cache s) = (Inr m, c) \<and> (intent = ''link'') = (uid \<noteq> None) \<and>
      insert_transaction (transaction_row oe key m intent uid device) (s\<lparr>os_cache := c\<rparr>) = Some s')"
  proof (cases "\<exists>c. s' = s\<lparr>os_cache := c\<rparr>")
    case False
    then have "s' \<noteq> s" by (metis oidc_state.surjective oidc_state.update_convs(4))
    with False show ?thesis
      using assms unfolding begin_oidc_authorization_def
      by (auto split: sum.splits if_splits prod.splits option.splits)
  qed blast
  then show thesis using refused begun by blast
qed

lemma begin_failed:
  "begin_oidc_authorization oe intent device uid s = (Inl err, s') \<Longrightarrow> \<exists>c. s' = s\<lparr>os_cache := c\<rparr>"
  by (erule begin_cases) auto

lemma same_cache: "\<exists>c. s = s\<lparr>os_cache := c\<rparr>"
  by (metis oidc_state.surjective oidc_state.update_convs(4))

definition consumed_transaction :: "oidc_env \<Rightarrow> oidc_transaction \<Rightarrow> oidc_transaction" where
  "consumed_transaction oe t = t\<lparr>ot_consumed_at := Some (oe_now oe)\<rparr>"

lemma complete_cases:
  assumes "complete_oidc_authorization oe state code binding s = (r, s')"
  obtains (refused) err c where "r = Inl err" and "s' = s\<lparr>os_cache := c\<rparr>"
  | (accepted) key t m claims c subject result where "r = Inr result" and "require_oidc oe = Inr key"
    and "find (\<lambda>t. ot_state_hash t = hash_secret oe state) (os_transactions s) = Some t"
    and "transaction_open oe t (the binding)" and "binding \<noteq> None"
    and "verified_claims oe t code key (os_cache s) = (Inr (m, claims), c)"
    and "map_of claims ''sub'' = Some (VStr subject)"
    and "accept_claims oe t (md_issuer m) subject claims
      (put_transaction (consumed_transaction oe t) (s\<lparr>os_cache := c\<rparr>)) = (Inr result, s')"
proof (cases r)
  case (Inl err)
  have finish: "s' = before" if "finish_callback oe before x = (Inl err, s')" for before x
    using that by (auto simp: finish_callback_def split: prod.splits sum.splits error.splits if_splits)
  have "\<exists>c. s' = s\<lparr>os_cache := c\<rparr>"
    using assms same_cache [of s] unfolding Inl complete_oidc_authorization_def Let_def
    by (auto split: sum.splits if_splits prod.splits option.splits jvalue.splits dest: finish)
  then show thesis using refused Inl by blast
next
  case (Inr result)
  have finish: "x = (Inr result, s')" if "finish_callback oe before x = (Inr result, s')" for before x
    using that by (auto simp: finish_callback_def split: prod.splits sum.splits error.splits if_splits)
  show thesis
    using assms unfolding Inr complete_oidc_authorization_def Let_def consumed_transaction_def [symmetric]
    by (auto split: sum.splits if_splits prod.splits option.splits jvalue.splits
        dest!: finish intro: accepted [OF Inr])
qed

lemma unlink_cases:
  assumes "unlink_external_identity oe iid uid s = (r, s')"
  obtains (unchanged) "s' = s"
  | (removed) i user where "r = Inr ()" and "i \<in> set (os_identities s)" and "ei_id i = iid" and "ei_user_id i = uid"
    and "find_user uid (os_tables s) = Some user"
    and "u_password_login_enabled user \<or> 1 < length (filter (\<lambda>i. ei_user_id i = uid) (os_identities s))"
    and "s' = oidc_revoke_sessions oe uid ''external_identity_unlinked''
      (s\<lparr>os_identities := del_row ei_id iid (os_identities s)\<rparr>)"
proof (cases "find (\<lambda>i. ei_id i = iid \<and> ei_user_id i = uid) (os_identities s)")
  case None
  then show thesis using assms unchanged by (simp add: unlink_external_identity_def)
next
  case (Some i)
  then have i: "i \<in> set (os_identities s)" "ei_id i = iid" "ei_user_id i = uid"
    by (auto simp: find_Some_iff)
  show thesis
  proof (cases "find_user uid (os_tables s)")
    case None
    then show thesis using assms Some unchanged by (simp add: unlink_external_identity_def Let_def)
  next
    case user: (Some user)
    show thesis
    proof (cases "s' = s")
      case False
      then show thesis
        using assms Some user i(2)
        by (intro removed [OF _ i user]) (auto simp: unlink_external_identity_def Let_def split: if_splits)
    qed (rule unchanged)
  qed
qed

section \<open>The invariant\<close>

definition sign_in_ok :: "oidc_state \<Rightarrow> bool" where
  "sign_in_ok s = (\<forall>u\<in>set (users (os_tables s)). u_password_login_enabled u \<or>
     (\<exists>i\<in>set (os_identities s). ei_user_id i = u_id u))"

definition oidc_tables_ok :: "oidc_state \<Rightarrow> bool" where
  "oidc_tables_ok s =
     (pairwise_ok ei_id identity_agree (os_identities s) \<and>
      pairwise_ok ot_id transaction_agree (os_transactions s) \<and>
      (\<forall>i\<in>set (os_identities s). user_exists (os_tables s) (ei_user_id i)) \<and>
      (\<forall>t\<in>set (os_transactions s). bound_ok (os_tables s) t))"

lemma bound_ok_mono: "bound_ok tb t \<Longrightarrow> (\<And>uid. user_exists tb uid \<Longrightarrow> user_exists tb' uid) \<Longrightarrow> bound_ok tb' t"
  by (simp add: bound_ok_def split: option.splits)

definition oidc_ok :: "oidc_state \<Rightarrow> bool" where
  "oidc_ok s = (account_ok (os_tables s) \<and> oidc_tables_ok s \<and> sign_in_ok s)"

lemma oidc_okD:
  assumes "oidc_ok s"
  shows "account_ok (os_tables s)" and "oidc_tables_ok s" and "sign_in_ok s"
  using assms by (simp_all add: oidc_ok_def)

lemma oidc_ok_cache [simp]: "oidc_ok (s\<lparr>os_cache := c\<rparr>) = oidc_ok s"
  by (simp add: oidc_ok_def oidc_tables_ok_def sign_in_ok_def)

lemma oidc_ok_tables:
  assumes "oidc_ok s" and "account_ok tb" and "login_kept (os_tables s) tb"
  shows "oidc_ok (s\<lparr>os_tables := tb\<rparr>)"
proof -
  have "user_exists tb uid" if "user_exists (os_tables s) uid" for uid
    using that assms(3) by (auto simp: user_exists_iff login_kept_def)
  then have "oidc_tables_ok (s\<lparr>os_tables := tb\<rparr>)"
    using oidc_okD(2) [OF assms(1)] by (auto simp: oidc_tables_ok_def intro: bound_ok_mono)
  moreover have "sign_in_ok (s\<lparr>os_tables := tb\<rparr>)"
    using oidc_okD(3) [OF assms(1)] assms(3) unfolding sign_in_ok_def login_kept_def login_from_def
    by (metis oidc_state.select_convs(1,2) oidc_state.surjective oidc_state.update_convs(1))
  ultimately show ?thesis using assms(2) by (simp add: oidc_ok_def)
qed

lemma oidc_ok_same_users:
  "\<lbrakk>oidc_ok s; account_keeps (os_tables s) tb; users tb = users (os_tables s)\<rbrakk> \<Longrightarrow> oidc_ok (s\<lparr>os_tables := tb\<rparr>)"
  by (rule oidc_ok_tables) (simp_all add: keeps_D(1) [OF _ oidc_okD(1)] login_kept_same)

lemma oidc_ok_revoke: "oidc_ok s \<Longrightarrow> oidc_ok (oidc_revoke_sessions oe uid reason s)"
  unfolding oidc_revoke_sessions_def by (rule oidc_ok_same_users) (simp_all add: keeps_revoke_where)

lemma sign_in_ok_more:
  assumes "sign_in_ok s" and "os_tables s' = os_tables s"
    and "ei_user_id ` set (os_identities s) \<subseteq> ei_user_id ` set (os_identities s')"
  shows "sign_in_ok s'"
  unfolding sign_in_ok_def
proof
  fix u assume u: "u \<in> set (users (os_tables s'))"
  then consider "u_password_login_enabled u" | i where "i \<in> set (os_identities s)" "ei_user_id i = u_id u"
    using assms(1,2) unfolding sign_in_ok_def by auto
  then show "u_password_login_enabled u \<or> (\<exists>i\<in>set (os_identities s'). ei_user_id i = u_id u)"
  proof cases
    case 2
    then have "u_id u \<in> ei_user_id ` set (os_identities s')" using assms(3) by (metis imageI subsetD)
    then show ?thesis by force
  qed simp
qed

lemma oidc_ok_put_identity:
  assumes "oidc_ok s" and "i \<in> set (os_identities s)" and "ei_id i' = ei_id i" and "ei_user_id i' = ei_user_id i"
    and "ei_issuer i' = ei_issuer i" and "ei_subject i' = ei_subject i"
  shows "oidc_ok (put_identity i' s)"
proof -
  note tables = oidc_okD(2) [OF assms(1), unfolded oidc_tables_ok_def]
  have "agrees_with ei_id identity_agree i' (os_identities s)"
    using tables assms(2-6) by (auto simp: agrees_with_def identity_agree_def pairwise_ok_def)
  then have "oidc_tables_ok (put_identity i' s)"
    using tables assms(2-4) identity_table.put_ok [of "os_identities s" i']
    unfolding oidc_tables_ok_def put_identity_def by (auto dest!: set_put_row)
  moreover have "map ei_user_id (put_row ei_id i' (os_identities s)) = map ei_user_id (os_identities s)"
  proof -
    have "inj_on ei_id (set (os_identities s))" using tables by (simp add: pairwise_ok_def distinct_map)
    then have "ei_user_id (if ei_id y = ei_id i' then i' else y) = ei_user_id y"
      if "y \<in> set (os_identities s)" for y
      using that assms(2-4) by (auto dest: inj_onD)
    then show ?thesis by (simp add: put_row_def)
  qed
  then have "ei_user_id ` set (os_identities (put_identity i' s)) = ei_user_id ` set (os_identities s)"
    by (simp add: put_identity_def flip: set_map)
  then have "sign_in_ok (put_identity i' s)"
    by (intro sign_in_ok_more [OF oidc_okD(3) [OF assms(1)]]) (simp_all add: put_identity_def)
  ultimately show ?thesis using oidc_okD(1) [OF assms(1)] by (simp add: oidc_ok_def put_identity_def)
qed

lemma oidc_ok_insert_identity:
  assumes "oidc_ok s" and "insert_identity i s = Some s'"
  shows "oidc_ok s'"
proof -
  note ins = assms(2) [unfolded insert_identity_Some]
  have "oidc_tables_ok s'"
    using oidc_okD(2) [OF assms(1)] ins identity_table.insert_ok [of "os_identities s" i]
    by (auto simp: oidc_tables_ok_def)
  moreover have "sign_in_ok s'"
    by (rule sign_in_ok_more [OF oidc_okD(3) [OF assms(1)]]) (use ins in auto)
  ultimately show ?thesis using oidc_okD(1) [OF assms(1)] ins by (simp add: oidc_ok_def)
qed

lemma oidc_ok_put_transaction:
  assumes "oidc_ok s" and "t \<in> set (os_transactions s)"
  shows "oidc_ok (put_transaction (consumed_transaction oe t) s)"
proof -
  note tables = oidc_okD(2) [OF assms(1), unfolded oidc_tables_ok_def]
  have "agrees_with ot_id transaction_agree (consumed_transaction oe t) (os_transactions s)"
    using tables assms(2)
    by (auto simp: agrees_with_def transaction_agree_def pairwise_ok_def consumed_transaction_def)
  then have "oidc_tables_ok (put_transaction (consumed_transaction oe t) s)"
    using tables assms(2) transaction_table.put_ok [of "os_transactions s" "consumed_transaction oe t"]
    unfolding oidc_tables_ok_def put_transaction_def
    by (auto simp: consumed_transaction_def bound_ok_def dest!: set_put_row)
  then show ?thesis
    using oidc_okD(1,3) [OF assms(1)] by (simp add: oidc_ok_def put_transaction_def sign_in_ok_def)
qed

lemma oidc_ok_insert_transaction:
  assumes "oidc_ok s" and "insert_transaction t s = Some s'"
  shows "oidc_ok s'"
proof -
  note ins = assms(2) [unfolded insert_transaction_Some]
  have "oidc_tables_ok s'"
    using oidc_okD(2) [OF assms(1)] ins transaction_table.insert_ok [of "os_transactions s" t]
    by (auto simp: oidc_tables_ok_def)
  then show ?thesis using oidc_okD(1,3) [OF assms(1)] ins by (simp add: oidc_ok_def sign_in_ok_def)
qed

text \<open>A user without a password comes with an identity.\<close>

lemma oidc_ok_insert_user:
  assumes "oidc_ok s" and "insert_user u (os_tables s) = Some tb" and "user_mfa_ok u"
    and "insert_identity i (s\<lparr>os_tables := tb\<rparr>) = Some s'" and "ei_user_id i = u_id u"
  shows "oidc_ok s'"
proof -
  have tb: "users tb = users (os_tables s) @ [u]" using assms(2) by (auto simp: insert_user_def split: if_splits)
  note ins = assms(4) [unfolded insert_identity_Some]
  have "user_exists tb uid" if "user_exists (os_tables s) uid" for uid
    using that tb by (auto simp: user_exists_iff)
  then have "oidc_tables_ok s'"
    using oidc_okD(2) [OF assms(1)] ins identity_table.insert_ok [of "os_identities s" i]
    by (auto simp: oidc_tables_ok_def intro: bound_ok_mono)
  moreover have "sign_in_ok s'"
    using oidc_okD(3) [OF assms(1)] ins tb assms(5) by (auto simp: sign_in_ok_def)
  moreover have "account_ok (os_tables s')"
    using keeps_D(1) [OF keeps_insert_user [OF assms(2,3)] oidc_okD(1) [OF assms(1)]] ins by simp
  ultimately show ?thesis by (simp add: oidc_ok_def)
qed

section \<open>The callback\<close>

text \<open>Starting the session of a user, or the challenge for the second factor.\<close>

lemma finish_login_effect:
  assumes "finish_login oe t user s = (Inr result, s')"
  obtains tb where "s' = s\<lparr>os_tables := tb\<rparr>"
    and "family_fresh (oe_account oe) (os_tables s) \<Longrightarrow> account_keeps (os_tables s) tb"
    and "users tb = users (os_tables s)"
    and "\<And>x. x \<in> set (refresh_tokens tb) \<Longrightarrow> x \<in> set (refresh_tokens (os_tables s)) \<or> rt_user_id x = u_id user"
    and "\<And>x. x \<in> set (action_tokens tb) \<Longrightarrow> at_id x \<in> at_id ` set (action_tokens (os_tables s)) \<or>
      at_user_id x = u_id user"
proof (cases "u_mfa_enabled_at user")
  case None
  then obtain tokens tb where tb: "prepare_session_tokens (ac_auth (oe_account oe)) (u_id user) (ot_device_name t)
      [''oidc''] (os_tables s) = (Inr tokens, tb)" and s': "s' = s\<lparr>os_tables := tb\<rparr>"
    using assms(1) by (auto simp: finish_login_def Let_def split: prod.splits sum.splits)
  have rows: "x \<in> set (refresh_tokens (os_tables s)) \<or> rt_user_id x = u_id user"
    if "x \<in> set (refresh_tokens tb)" for x
    using tb that unfolding prepare_session_tokens_def
    by (auto simp: Let_def find_Some_iff dest!: insert_refresh_token_Some split: option.splits if_splits)
  show thesis
    by (rule that [OF s' issue_session_keeps [OF tb] issue_session_actions(2) [OF tb] rows])
      (auto simp: issue_session_actions(1) [OF tb])
next
  case (Some at)
  then obtain challenge tb where tb: "prepare_mfa_login_challenge (oe_account oe) user (ot_device_name t) ''oidc''
      (os_tables s) = (Inr challenge, tb)" and s': "s' = s\<lparr>os_tables := tb\<rparr>"
    using assms(1) by (auto simp: finish_login_def Let_def split: prod.splits sum.splits)
  have rows: "at_id x \<in> at_id ` set (action_tokens (os_tables s)) \<or> at_user_id x = u_id user"
    if "x \<in> set (action_tokens tb)" for x
    using tb that unfolding prepare_mfa_login_challenge_def
    by (auto simp: Let_def consume_where_rows dest!: insert_action_token_Some
        split: option.splits if_splits sum.splits)
  show thesis
    by (rule that [OF s' challenge_keeps [OF tb] _ _ rows]) (use challenge_same [OF tb] in auto)
qed

lemma accept_cases:
  assumes "accept_claims oe t issuer subject claims s = (Inr result, s')"
  obtains (linked_before) uid i where "ot_intent t = ''link''" and "ot_user_id t = Some uid"
      and "find_identity issuer subject s = Some i" and "ei_user_id i = uid" and "s' = s" and "result = LinkedResult i"
  | (linked) uid user s1 where "ot_intent t = ''link''" and "ot_user_id t = Some uid"
      and "find_user uid (os_tables s) = Some user" and "find_identity issuer subject s = None"
      and "insert_identity (identity_row oe uid issuer subject (normalize_verified_email oe claims) None) s = Some s1"
      and "s' = oidc_revoke_sessions oe uid ''external_identity_linked'' s1"
  | (known) i user where "ot_intent t = ''login''" and "find_identity issuer subject s = Some i"
      and "find_user (ei_user_id i) (os_tables s) = Some user" and "u_is_active user"
      and "finish_login oe t user (put_identity (touched_identity oe claims i) s) = (Inr result, s')"
  | (created) email name tb s1 where "ot_intent t = ''login''" and "find_identity issuer subject s = None"
      and "normalize_verified_email oe claims = Some email"
      and "new_username oe email issuer subject (os_tables s) = Some name"
      and "insert_user (oidc_user oe name email) (os_tables s) = Some tb"
      and "insert_identity (identity_row oe (oe_new_user_id oe) issuer subject (Some email)
        (Some (oe_identity_now oe))) (s\<lparr>os_tables := tb\<rparr>) = Some s1"
      and "finish_login oe t (oidc_user oe name email) (put_identity (touched_identity oe claims
        (identity_row oe (oe_new_user_id oe) issuer subject (Some email) (Some (oe_identity_now oe)))) s1) =
        (Inr result, s')"
proof (cases "ot_intent t = ''link''")
  case True
  then obtain uid i where uid: "ot_user_id t = Some uid" and res: "result = LinkedResult i"
    and link: "identity_for_link oe uid issuer subject claims s = (Inr i, s')"
    using assms by (auto simp: accept_claims_def split: option.splits prod.splits sum.splits)
  show thesis
  proof (cases "find_identity issuer subject s")
    case None
    then show thesis
      using linked [OF True uid] link
      by (auto simp: identity_for_link_def Let_def split: option.splits if_splits)
  next
    case (Some j)
    then show thesis
      using linked_before [OF True uid Some] link res
      by (auto simp: identity_for_link_def split: option.splits if_splits)
  qed
next
  case False
  then obtain i user s1 where intent: "ot_intent t = ''login''"
    and login: "identity_for_login oe issuer subject claims s = (Inr (i, user), s1)"
    and finish: "finish_login oe t user (put_identity (touched_identity oe claims i) s1) = (Inr result, s')"
    using assms by (auto simp: accept_claims_def split: if_splits prod.splits sum.splits)
  show thesis
  proof (cases "find_identity issuer subject s")
    case (Some j)
    then show thesis
      using known [OF intent Some] login finish
      by (auto simp: identity_for_login_def split: option.splits if_splits)
  next
    case None
    then show thesis
      using created [OF intent None] login finish
      by (auto simp: identity_for_login_def Let_def split: option.splits if_splits)
  qed
qed

lemma sign_up_ok:
  assumes "oidc_ok s" and "insert_user (oidc_user oe name email) (os_tables s) = Some tb"
    and "insert_identity i (s\<lparr>os_tables := tb\<rparr>) = Some s1" and "ei_user_id i = oe_new_user_id oe"
  shows "oidc_ok s1"
  by (rule oidc_ok_insert_user [OF assms(1,2) _ assms(3)]) (simp_all add: user_mfa_ok_def assms(4))

lemma accept_claims_ok:
  assumes "accept_claims oe t issuer subject claims s = (Inr result, s')" and "oidc_ok s"
    and "family_fresh (oe_account oe) (os_tables s)"
  shows "oidc_ok s'"
proof -
  have finish: "oidc_ok s'" if "finish_login oe t user s2 = (Inr result, s')" and "oidc_ok s2"
    and "refresh_tokens (os_tables s2) = refresh_tokens (os_tables s)" for user s2
  proof -
    have "family_fresh (oe_account oe) (os_tables s2)" using assms(3) that(3) by (simp add: family_fresh_def)
    then show ?thesis
      using that(1) by (auto elim!: finish_login_effect intro: oidc_ok_same_users [OF that(2)])
  qed
  show ?thesis
    using assms(1)
  proof (cases rule: accept_cases)
    case linked_before
    then show ?thesis using assms(2) by simp
  next
    case linked
    then show ?thesis using oidc_ok_revoke oidc_ok_insert_identity [OF assms(2)] by blast
  next
    case (known i user)
    show ?thesis
      by (rule finish [OF known(5) oidc_ok_put_identity [OF assms(2)]])
        (use find_identity_Some [OF known(2)] in \<open>auto simp: put_identity_def\<close>)
  next
    case (created email name tb s1)
    have "oidc_ok s1" by (rule sign_up_ok [OF assms(2) created(5,6)]) simp
    moreover have "refresh_tokens (os_tables s1) = refresh_tokens (os_tables s)"
      "identity_row oe (oe_new_user_id oe) issuer subject (Some email) (Some (oe_identity_now oe))
        \<in> set (os_identities s1)"
      using created(5,6) by (auto simp: insert_identity_Some insert_user_def split: if_splits)
    ultimately show ?thesis
      by (intro finish [OF created(7) oidc_ok_put_identity]) (auto simp: put_identity_def)
  qed
qed

section \<open>Requests\<close>

lemma oidc_reply_Inr: "oidc_reply_as f r = (Inr v, s) \<longleftrightarrow> (\<exists>w. r = (Inr w, s) \<and> v = f w)"
  by (auto simp: oidc_reply_as_def split: prod.splits sum.splits)

lemma oidc_reply_Inl: "oidc_reply_as f r = (Inl e, s) \<longleftrightarrow> r = (Inl e, s)"
  by (auto simp: oidc_reply_as_def split: prod.splits sum.splits)

lemma oidc_reply_snd: "oidc_reply_as f r = (q, s) \<Longrightarrow> \<exists>v. r = (v, s)"
  by (auto simp: oidc_reply_as_def split: prod.splits sum.splits)

lemma complete_ok:
  assumes "complete_oidc_authorization oe state code binding s = (r, s')" and "oidc_ok s"
    and "family_fresh (oe_account oe) (os_tables s)"
  shows "oidc_ok s'"
  using assms(1)
proof (cases rule: complete_cases)
  case refused
  then show ?thesis using assms(2) by simp
next
  case (accepted key t m claims c subject result)
  have "oidc_ok (put_transaction (consumed_transaction oe t) (s\<lparr>os_cache := c\<rparr>))"
    by (rule oidc_ok_put_transaction) (use assms(2) accepted(3) in \<open>auto simp: find_Some_iff\<close>)
  then show ?thesis
    by (rule accept_claims_ok [OF accepted(8)]) (use assms(3) in \<open>simp add: put_transaction_def\<close>)
qed

lemma begin_ok:
  assumes "begin_oidc_authorization oe intent device uid s = (r, s')" and "oidc_ok s"
  shows "oidc_ok s'"
  using assms(1)
proof (cases rule: begin_cases)
  case refused
  then show ?thesis using assms(2) by simp
next
  case (begun start key m c)
  show ?thesis by (rule oidc_ok_insert_transaction [OF _ begun(4)]) (simp add: assms(2))
qed

lemma other_identity:
  assumes "1 < length (filter P xs)" and "distinct (map ei_id xs)"
  shows "\<exists>j\<in>set xs. P j \<and> ei_id j \<noteq> iid"
proof (rule ccontr)
  let ?f = "filter P xs"
  assume "\<not> ?thesis"
  then have "ei_id ` set ?f \<subseteq> {iid}" by auto
  moreover have "distinct (map ei_id ?f)" using assms(2) by (simp add: distinct_map_filter)
  then have "card (ei_id ` set ?f) = length ?f" by (metis distinct_card length_map set_map)
  ultimately have "length ?f \<le> 1" using card_mono [of "{iid}" "ei_id ` set ?f"] by simp
  then show False using assms(1) by simp
qed

lemma unlink_ok:
  assumes "unlink_external_identity oe iid uid s = (r, s')" and "oidc_ok s"
  shows "oidc_ok s'"
  using assms(1)
proof (cases rule: unlink_cases)
  case unchanged
  then show ?thesis using assms(2) by simp
next
  case (removed i user)
  let ?s = "s\<lparr>os_identities := del_row ei_id iid (os_identities s)\<rparr>"
  note tables = oidc_okD(2) [OF assms(2), unfolded oidc_tables_ok_def]
  have "oidc_tables_ok ?s"
    using tables identity_table.delete_ok unfolding oidc_tables_ok_def by (auto simp: del_row_def)
  moreover have "sign_in_ok ?s"
    unfolding sign_in_ok_def
  proof
    fix u assume u: "u \<in> set (users (os_tables ?s))"
    then consider "u_password_login_enabled u" | j where "j \<in> set (os_identities s)" "ei_user_id j = u_id u"
      using oidc_okD(3) [OF assms(2)] unfolding sign_in_ok_def by auto
    then show "u_password_login_enabled u \<or> (\<exists>i\<in>set (os_identities ?s). ei_user_id i = u_id u)"
    proof cases
      case 2
      show ?thesis
      proof (cases "u_id u = uid")
        case True
        have "distinct (map u_id (users (os_tables s)))"
          using account_okD(1) [OF oidc_okD(1) [OF assms(2)]] by (simp add: db_ok_def keys_ok_def pairwise_ok_def)
        then have "user = u"
          using find_user_Some [OF removed(5)] u True by (auto simp: distinct_map dest: inj_onD)
        then consider "u_password_login_enabled u"
          | "1 < length (filter (\<lambda>i. ei_user_id i = uid) (os_identities s))"
          using removed(6) by blast
        then show ?thesis
        proof cases
          case 2
          have "\<exists>j\<in>set (os_identities s). ei_user_id j = uid \<and> ei_id j \<noteq> iid"
            by (rule other_identity [OF 2]) (use tables in \<open>simp add: pairwise_ok_def\<close>)
          then show ?thesis using True by (auto simp: del_row_def)
        qed simp
      next
        case False
        have "ei_id j \<noteq> iid"
        proof
          assume "ei_id j = iid"
          then have "j = i" using tables 2(1) removed(2,3) by (auto simp: pairwise_ok_def distinct_map dest: inj_onD)
          then show False using removed(4) 2(2) False by simp
        qed
        then show ?thesis using 2 by (auto simp: del_row_def)
      qed
    qed simp
  qed
  ultimately have "oidc_ok ?s" using oidc_okD(1) [OF assms(2)] by (simp add: oidc_ok_def)
  then show ?thesis unfolding removed(7) by (rule oidc_ok_revoke)
qed

lemma run_oidc_ok:
  assumes "run_oidc oe q s = (r, s')" and "oidc_ok s" and "family_fresh (oe_account oe) (os_tables s)"
  shows "oidc_ok s'"
  using assms by (cases q) (auto dest!: oidc_reply_snd dest: begin_ok complete_ok unlink_ok
      split: sum.splits if_splits)

text \<open>
  An account request works on the account tables; deleting a user deletes its identities and the
  transactions bound to it (\<open>ON DELETE CASCADE\<close>).
\<close>

definition cascade :: "tables \<Rightarrow> oidc_state \<Rightarrow> oidc_state" where
  "cascade tb s = s\<lparr>os_tables := tb,
     os_identities := filter (\<lambda>i. user_exists tb (ei_user_id i)) (os_identities s),
     os_transactions := filter (\<lambda>t. case ot_user_id t of None \<Rightarrow> True | Some uid \<Rightarrow> user_exists tb uid)
       (os_transactions s)\<rparr>"

lemma cascade_ok:
  assumes "oidc_ok s" and "account_ok tb" and "login_from (os_tables s) tb"
  shows "oidc_ok (cascade tb s)"
proof -
  have "oidc_tables_ok (cascade tb s)"
    using oidc_okD(2) [OF assms(1)]
    by (auto simp: oidc_tables_ok_def cascade_def bound_ok_def intro: pairwise_ok_filter)
  moreover have "sign_in_ok (cascade tb s)"
    unfolding sign_in_ok_def
  proof
    fix u assume "u \<in> set (users (os_tables (cascade tb s)))"
    then have u: "u \<in> set (users tb)" by (simp add: cascade_def)
    then have exists: "user_exists tb (u_id u)" by (auto simp: user_exists_def)
    consider "u_password_login_enabled u"
      | v where "v \<in> set (users (os_tables s))" "u_id v = u_id u" "\<not> u_password_login_enabled v"
      using assms(3) u unfolding login_from_def by blast
    then show "u_password_login_enabled u \<or> (\<exists>i\<in>set (os_identities (cascade tb s)). ei_user_id i = u_id u)"
    proof cases
      case 2
      then obtain i where "i \<in> set (os_identities s)" "ei_user_id i = u_id u"
        using oidc_okD(3) [OF assms(1)] unfolding sign_in_ok_def by metis
      then show ?thesis using exists by (auto simp: cascade_def)
    qed simp
  qed
  ultimately show ?thesis using assms(2) by (simp add: oidc_ok_def cascade_def)
qed

text \<open>The flag says whether users may be deleted along the run.\<close>

inductive oidc_step :: "bool \<Rightarrow> oidc_state \<Rightarrow> oidc_state \<Rightarrow> bool" for deleting where
  oidc: "run_oidc oe q s = (r, s') \<Longrightarrow> family_fresh (oe_account oe) (os_tables s) \<Longrightarrow> oidc_step deleting s s'"
| account: "run_account e q (os_tables s) = (r, tb) \<Longrightarrow> family_fresh e (os_tables s)
    \<Longrightarrow> deletes_user q \<longrightarrow> deleting \<Longrightarrow> oidc_step deleting s (cascade tb s)"

inductive_cases oidc_stepE: "oidc_step deleting s s'"

definition oidc_start :: "oidc_state \<Rightarrow> bool" where
  "oidc_start s = (account_start (os_tables s) \<and> os_identities s = [] \<and> os_transactions s = [] \<and>
     list_all u_password_login_enabled (users (os_tables s)))"

interpretation oidc_runs: invariant_system oidc_start "oidc_step deleting" oidc_ok for deleting
proof
  fix s s'
  show "oidc_start s \<Longrightarrow> oidc_ok s"
    using accounts.start_inv
    by (auto simp: oidc_start_def oidc_ok_def oidc_tables_ok_def sign_in_ok_def pairwise_ok_def list_all_iff)
  show "oidc_ok s \<Longrightarrow> oidc_step deleting s s' \<Longrightarrow> oidc_ok s'"
    by (erule oidc_stepE) (use run_oidc_ok run_account_ok run_account_login_from oidc_okD(1) cascade_ok in blast)+
qed

section \<open>Completed transactions stay completed\<close>

definition completed :: "string \<Rightarrow> oidc_state \<Rightarrow> bool" where
  "completed h s = (\<exists>t\<in>set (os_transactions s). ot_state_hash t = h \<and> ot_consumed_at t \<noteq> None)"

lemma finish_login_transactions:
  "finish_login oe t user s = (Inr result, s') \<Longrightarrow>
     os_transactions s' = os_transactions s \<and> os_identities s' = os_identities s"
  by (erule finish_login_effect) simp

lemma accept_transactions:
  assumes "accept_claims oe t issuer subject claims s = (Inr result, s')"
  shows "os_transactions s' = os_transactions s"
  using assms
  by (cases rule: accept_cases)
    (auto dest!: finish_login_transactions simp: put_identity_def insert_identity_Some oidc_revoke_sessions_def)

lemma complete_completes:
  assumes "complete_oidc_authorization oe state code binding s = (r, s')"
  shows "completed h s \<Longrightarrow> oidc_ok s \<Longrightarrow> completed h s'"
    and "r = Inr result \<Longrightarrow> completed (hash_secret oe state) s'"
proof -
  have "(completed h s \<longrightarrow> oidc_ok s \<longrightarrow> completed h s') \<and> (r = Inr result \<longrightarrow> completed (hash_secret oe state) s')"
    using assms
  proof (cases rule: complete_cases)
    case refused
    then show ?thesis by (simp add: completed_def)
  next
    case (accepted key t m claims c subject result')
    have t: "t \<in> set (os_transactions s)" "ot_state_hash t = hash_secret oe state"
      using accepted(3) by (auto simp: find_Some_iff)
    have rows: "os_transactions s' = put_row ot_id (consumed_transaction oe t) (os_transactions s)"
      using accept_transactions [OF accepted(8)] by (simp add: put_transaction_def)
    have ct: "ot_id (consumed_transaction oe t) = ot_id t" "ot_state_hash (consumed_transaction oe t) = ot_state_hash t"
      "ot_consumed_at (consumed_transaction oe t) \<noteq> None"
      by (simp_all add: consumed_transaction_def)
    have new: "consumed_transaction oe t \<in> set (os_transactions s')"
      unfolding rows put_row_def using t(1) ct(1) by force
    moreover have "completed h s'" if before: "completed h s" and "oidc_ok s"
    proof -
      obtain y where y: "y \<in> set (os_transactions s)" "ot_state_hash y = h" "ot_consumed_at y \<noteq> None"
        using before unfolding completed_def by blast
      show ?thesis
      proof (cases "ot_id y = ot_id t")
        case True
        then have "y = t" using oidc_okD(2) [OF that(2)] y(1) t(1)
          by (auto simp: oidc_tables_ok_def pairwise_ok_def distinct_map dest: inj_onD)
        then show ?thesis using new ct y(2) unfolding completed_def by metis
      next
        case False
        then have "y \<in> set (os_transactions s')" unfolding rows put_row_def using y(1) ct(1) by force
        then show ?thesis using y unfolding completed_def by blast
      qed
    qed
    ultimately show ?thesis using t(2) ct by (auto simp: completed_def)
  qed
  then show "completed h s \<Longrightarrow> oidc_ok s \<Longrightarrow> completed h s'"
    and "r = Inr result \<Longrightarrow> completed (hash_secret oe state) s'" by blast+
qed

lemma run_oidc_completed:
  assumes "run_oidc oe q s = (r, s')" and "oidc_ok s" and "completed h s"
  shows "completed h s'"
proof -
  have begun: "completed h s'" if "begin_oidc_authorization oe intent device uid s = (v, s')" for intent device uid v
    using that
    by (rule begin_cases) (use assms(3) in \<open>auto simp: completed_def insert_transaction_Some\<close>)
  have "completed h s'" if "unlink_external_identity oe iid uid s = (v, s')" for iid uid v
    using that
    by (rule unlink_cases) (use assms(3) in \<open>auto simp: completed_def oidc_revoke_sessions_def\<close>)
  then show ?thesis
    using assms begun complete_completes(1) [OF _ assms(3,2)]
    by (cases q) (auto dest!: oidc_reply_snd split: sum.splits if_splits)
qed

lemma cascade_completed:
  assumes "completed h s" and "oidc_ok s" and "login_kept (os_tables s) tb"
  shows "completed h (cascade tb s)"
proof -
  obtain t where t: "t \<in> set (os_transactions s)" "ot_state_hash t = h" "ot_consumed_at t \<noteq> None"
    using assms(1) unfolding completed_def by blast
  have "bound_ok (os_tables s) t" using oidc_okD(2) [OF assms(2)] t(1) by (simp add: oidc_tables_ok_def)
  then have "bound_ok tb t"
    by (rule bound_ok_mono) (use assms(3) in \<open>auto simp: login_kept_def user_exists_iff\<close>)
  then show ?thesis using t by (auto simp: completed_def cascade_def bound_ok_def)
qed

lemma completed_stays:
  assumes "(oidc_step False)\<^sup>*\<^sup>* s s'" and "oidc_ok s" and "completed h s"
  shows "completed h s'"
  using assms
proof (induction rule: rtranclp_induct)
  case (step y z)
  have ok: "oidc_ok y" using oidc_runs.steps_inv step(1) step.prems(1) by blast
  have "completed h y" using step.IH step.prems by blast
  with step(2) ok show ?case
    by (auto elim!: oidc_stepE intro: run_oidc_completed cascade_completed run_account_login_kept)
qed simp

lemma completed_refused:
  assumes "oidc_ok s" and "completed (hash_secret oe state) s"
  shows "complete_oidc_authorization oe state code binding s \<in>
    {(Inl INVALID_TRANSACTION, s), (Inl OIDC_UNAVAILABLE, s)}"
proof -
  obtain t where t: "t \<in> set (os_transactions s)" "ot_state_hash t = hash_secret oe state" "ot_consumed_at t \<noteq> None"
    using assms(2) unfolding completed_def by blast
  have "y = t" if "y \<in> set (os_transactions s)" "ot_state_hash y = hash_secret oe state" for y
  proof -
    have rows: "pairwise_ok ot_id transaction_agree (os_transactions s)"
      using oidc_okD(2) [OF assms(1)] by (simp add: oidc_tables_ok_def)
    then have "ot_id y = ot_id t" using that t(1,2) unfolding pairwise_ok_def transaction_agree_def by metis
    then show ?thesis using rows that(1) t(1) by (auto simp: pairwise_ok_def distinct_map dest: inj_onD)
  qed
  then have "find (\<lambda>t. ot_state_hash t = hash_secret oe state) (os_transactions s) = Some t"
    using find_unique_row [of t "os_transactions s" "\<lambda>t. ot_state_hash t = hash_secret oe state"] t(1,2) by blast
  then show ?thesis
    using t(3) by (auto simp: complete_oidc_authorization_def require_oidc_def transaction_open_def Let_def)
qed

section \<open>Who gets into an account\<close>

lemma revoke_ids: "rt_id ` set (refresh_tokens (revoke_where P reason now tb)) = rt_id ` set (refresh_tokens tb)"
proof -
  have "map rt_id (refresh_tokens (revoke_where P reason now tb)) = map rt_id (refresh_tokens tb)"
    unfolding revoke_where_rows by simp
  then show ?thesis by (metis set_map)
qed

text \<open>The provider signed the subject of an identity of the user, for a login begun here.\<close>

definition vouched :: "oidc_env \<Rightarrow> oidc_request \<Rightarrow> oidc_state \<Rightarrow> int \<Rightarrow> bool" where
  "vouched oe q s uid = (\<exists>state code err binding t key m claims c i.
     q = Callback state code err (Some binding) \<and> t \<in> set (os_transactions s) \<and> ot_intent t = ''login'' \<and>
     transaction_open oe t binding \<and>
     verified_claims oe t (or_empty code) key (os_cache s) = (Inr (m, claims), c) \<and>
     i \<in> set (os_identities s) \<and> ei_user_id i = uid \<and> ei_issuer i = md_issuer m \<and>
     map_of claims ''sub'' = Some (VStr (ei_subject i)))"

text \<open>The browser that began the link for the user completes it.\<close>

definition linking :: "oidc_env \<Rightarrow> oidc_request \<Rightarrow> oidc_state \<Rightarrow> int \<Rightarrow> bool" where
  "linking oe q s uid = (\<exists>state code err binding t.
     q = Callback state code err (Some binding) \<and> t \<in> set (os_transactions s) \<and> ot_intent t = ''link'' \<and>
     ot_user_id t = Some uid \<and> transaction_open oe t binding)"

text \<open>What is new for a user between two states.\<close>

definition new_session :: "oidc_state \<Rightarrow> oidc_state \<Rightarrow> int \<Rightarrow> bool" where
  "new_session s s' uid =
     ((\<exists>x\<in>set (refresh_tokens (os_tables s')). rt_user_id x = uid \<and>
        rt_id x \<notin> rt_id ` set (refresh_tokens (os_tables s))) \<or>
      (\<exists>x\<in>set (action_tokens (os_tables s')). at_user_id x = uid \<and>
        at_id x \<notin> at_id ` set (action_tokens (os_tables s))))"

definition new_identity :: "oidc_state \<Rightarrow> oidc_state \<Rightarrow> int \<Rightarrow> bool" where
  "new_identity s s' uid =
     (\<exists>i\<in>set (os_identities s'). ei_user_id i = uid \<and> ei_id i \<notin> ei_id ` set (os_identities s))"

definition new_transaction :: "oidc_state \<Rightarrow> oidc_state \<Rightarrow> int \<Rightarrow> bool" where
  "new_transaction s s' uid =
     (\<exists>t\<in>set (os_transactions s'). ot_user_id t = Some uid \<and> ot_id t \<notin> ot_id ` set (os_transactions s))"

lemmas new_defs = new_session_def new_identity_def new_transaction_def

lemma nothing_new [simp]:
  "\<not> new_session s (s\<lparr>os_cache := c\<rparr>) uid" "\<not> new_identity s (s\<lparr>os_cache := c\<rparr>) uid"
  "\<not> new_transaction s (s\<lparr>os_cache := c\<rparr>) uid" "\<not> new_session s s uid" "\<not> new_identity s s uid"
  "\<not> new_transaction s s uid"
  by (auto simp: new_defs)

lemma begin_new:
  assumes "begin_oidc_authorization oe intent device user_id s = (r, s')"
  shows "\<not> new_session s s' uid" and "\<not> new_identity s s' uid"
    and "new_transaction s s' uid \<Longrightarrow> user_id = Some uid"
proof -
  have "\<not> new_session s s' uid \<and> \<not> new_identity s s' uid \<and> (new_transaction s s' uid \<longrightarrow> user_id = Some uid)"
    using assms
  proof (cases rule: begin_cases)
    case (begun start key m c)
    then show ?thesis by (auto simp: new_defs insert_transaction_Some)
  qed simp
  then show "\<not> new_session s s' uid" and "\<not> new_identity s s' uid"
    and "new_transaction s s' uid \<Longrightarrow> user_id = Some uid" by blast+
qed

lemma unlink_new:
  assumes "unlink_external_identity oe iid user_id s = (r, s')"
  shows "\<not> new_session s s' uid \<and> \<not> new_identity s s' uid \<and> \<not> new_transaction s s' uid"
  using assms
proof (cases rule: unlink_cases)
  case (removed i user)
  have "rt_id x \<in> rt_id ` set (refresh_tokens (os_tables s))" if "x \<in> set (refresh_tokens (os_tables s'))" for x
    using that revoke_ids unfolding removed(7) oidc_revoke_sessions_def by fastforce
  then show ?thesis unfolding removed(7) new_defs
    by (auto simp: oidc_revoke_sessions_def revoke_where_def del_row_def)
qed simp

lemma finish_new:
  assumes "finish_login oe t user s1 = (Inr result, s')" and "new_session s s' uid"
    and "refresh_tokens (os_tables s1) = refresh_tokens (os_tables s)"
    and "action_tokens (os_tables s1) = action_tokens (os_tables s)"
  shows "uid = u_id user"
  using assms(1)
proof (cases rule: finish_login_effect)
  case (1 tb)
  show ?thesis using assms(2-4) 1(1,4,5) unfolding new_session_def by auto
qed

lemma accept_new:
  assumes "accept_claims oe t issuer subject claims s = (Inr result, s')" and "user_exists (os_tables s) uid"
  shows "new_session s s' uid \<Longrightarrow> ot_intent t = ''login'' \<and>
      (\<exists>i. find_identity issuer subject s = Some i \<and> ei_user_id i = uid)"
    and "new_identity s s' uid \<Longrightarrow> ot_intent t = ''link'' \<and> ot_user_id t = Some uid"
proof -
  have "(new_session s s' uid \<longrightarrow> ot_intent t = ''login'' \<and>
      (\<exists>i. find_identity issuer subject s = Some i \<and> ei_user_id i = uid)) \<and>
    (new_identity s s' uid \<longrightarrow> ot_intent t = ''link'' \<and> ot_user_id t = Some uid)"
    using assms(1)
  proof (cases rule: accept_cases)
    case linked_before
    then show ?thesis by simp
  next
    case (linked xid user s1)
    have "rt_id x \<in> rt_id ` set (refresh_tokens (os_tables s))" if "x \<in> set (refresh_tokens (os_tables s'))" for x
      using that revoke_ids linked(5) unfolding linked(6) oidc_revoke_sessions_def by (fastforce simp: insert_identity_Some)
    then have "\<not> new_session s s' uid"
      using linked(5) unfolding linked(6) new_session_def
      by (auto simp: oidc_revoke_sessions_def insert_identity_Some revoke_where_def)
    moreover have "uid = xid" if "new_identity s s' uid"
      using that linked(5) unfolding linked(6) new_identity_def
      by (auto simp: oidc_revoke_sessions_def insert_identity_Some)
    ultimately show ?thesis using linked(1,2) by blast
  next
    case (known i user)
    have ids: "\<not> new_identity s s' uid"
      using finish_login_transactions [OF known(5)] find_identity_Some [OF known(2)]
      by (auto simp: new_identity_def put_identity_def dest!: set_put_row)
    have "uid = ei_user_id i" if "new_session s s' uid"
      using finish_new [OF known(5) that] find_user_Some [OF known(3)] by (simp add: put_identity_def)
    then show ?thesis using ids known(1,2) by blast
  next
    case (created email name tb s1)
    have "oe_new_user_id oe \<notin> u_id ` set (users (os_tables s))"
      using created(5) by (simp add: insert_user_def split: if_splits)
    then have other: "uid \<noteq> oe_new_user_id oe" using assms(2) user_exists_iff by metis
    have s1: "refresh_tokens (os_tables s1) = refresh_tokens (os_tables s)"
      "action_tokens (os_tables s1) = action_tokens (os_tables s)"
      "os_identities s1 = os_identities s @ [identity_row oe (oe_new_user_id oe) issuer subject (Some email)
         (Some (oe_identity_now oe))]"
      using created(5,6) by (auto simp: insert_identity_Some insert_user_def split: if_splits)
    have "\<not> new_session s s' uid"
      using finish_new [OF created(7)] other s1 by (auto simp: put_identity_def)
    moreover have "\<not> new_identity s s' uid"
      using finish_login_transactions [OF created(7)] other s1(3)
      by (auto simp: new_identity_def put_identity_def dest!: set_put_row)
    ultimately show ?thesis by blast
  qed
  then show "new_session s s' uid \<Longrightarrow> ot_intent t = ''login'' \<and>
      (\<exists>i. find_identity issuer subject s = Some i \<and> ei_user_id i = uid)"
    and "new_identity s s' uid \<Longrightarrow> ot_intent t = ''link'' \<and> ot_user_id t = Some uid" by blast+
qed

lemma complete_new:
  assumes "complete_oidc_authorization oe (or_empty state) (or_empty code) binding s = (r, s')"
    and "user_exists (os_tables s) uid"
  shows "new_session s s' uid \<Longrightarrow> vouched oe (Callback state code e binding) s uid"
    and "new_identity s s' uid \<Longrightarrow> linking oe (Callback state code e binding) s uid"
    and "\<not> new_transaction s s' uid"
proof -
  have "(new_session s s' uid \<longrightarrow> vouched oe (Callback state code e binding) s uid) \<and>
    (new_identity s s' uid \<longrightarrow> linking oe (Callback state code e binding) s uid) \<and> \<not> new_transaction s s' uid"
    using assms(1)
  proof (cases rule: complete_cases)
    case refused
    then show ?thesis by simp
  next
    case (accepted key t m claims c subject result)
    let ?s1 = "put_transaction (consumed_transaction oe t) (s\<lparr>os_cache := c\<rparr>)"
    have t: "t \<in> set (os_transactions s)" using accepted(3) by (auto simp: find_Some_iff)
    obtain b where b: "binding = Some b" using accepted(5) by blast
    have same: "os_tables ?s1 = os_tables s" "os_identities ?s1 = os_identities s"
      by (simp_all add: put_transaction_def)
    have "new_session ?s1 s' uid = new_session s s' uid" "new_identity ?s1 s' uid = new_identity s s' uid"
      by (simp_all add: new_defs same)
    note new = accept_new [OF accepted(8), unfolded same, OF assms(2), unfolded this]
    have "vouched oe (Callback state code e binding) s uid" if session: "new_session s s' uid"
    proof -
      obtain i where "find_identity (md_issuer m) subject ?s1 = Some i" "ei_user_id i = uid" "ot_intent t = ''login''"
        using new(1) [OF session] by blast
      then show ?thesis
        using find_identity_Some [of "md_issuer m" subject ?s1 i] t accepted(4,6,7)
        unfolding vouched_def b same by fastforce
    qed
    moreover have "linking oe (Callback state code e binding) s uid" if "new_identity s s' uid"
      using new(2) [OF that] t accepted(4) unfolding linking_def b by fastforce
    moreover have "\<not> new_transaction s s' uid"
      using accept_transactions [OF accepted(8)] t
      by (auto simp: new_transaction_def put_transaction_def consumed_transaction_def dest!: set_put_row)
    ultimately show ?thesis by blast
  qed
  then show "new_session s s' uid \<Longrightarrow> vouched oe (Callback state code e binding) s uid"
    and "new_identity s s' uid \<Longrightarrow> linking oe (Callback state code e binding) s uid"
    and "\<not> new_transaction s s' uid" by blast+
qed

section \<open>A sample sign-in and a sample link\<close>

definition sample_oidc_account :: account_env where
  "sample_oidc_account = sample_account\<lparr>ac_decode := (\<lambda>s. Some \<lparr>jp_sub = Some s, jp_amr = [''pwd''],
     jp_auth_time = Some 1728000000\<rparr>)\<rparr>"

definition sample_oidc :: oidc_env where
  "sample_oidc = \<lparr>oe_account = sample_oidc_account, oe_provider = sample_provider ''s'', oe_now = days 20000,
     oe_identity_now = days 20000, oe_revoke_now = days 20000, oe_created_at = days 20000,
     oe_new_user_id = 2, oe_new_identity_id = 1, oe_new_transaction_id = 1,
     oe_state = ''0123456789abcdef0123456789abcdef'', oe_binding = ''browser'', oe_nonce = ''nonce'',
     oe_verifier = ''verifier'', oe_password = ''random'', oe_key_ok = (\<lambda>_. True),
     oe_encrypt = (\<lambda>key t. CHR ''!'' # t), oe_decrypt = (\<lambda>key t. Some (drop 1 t)),
     oe_sha256 = (\<lambda>t. CHR ''#'' # t), oe_sha256_base64 = (\<lambda>t. t @ ''='')\<rparr>"

definition sample_oidc_start :: oidc_state where
  "sample_oidc_start = \<lparr>os_tables = sample_accounts, os_identities = [], os_transactions = [],
     os_cache = \<lparr>ks_store = Map.empty, ks_ops = [], ks_fetches = []\<rparr>\<rparr>"

definition sample_callback :: oidc_request where
  "sample_callback = Callback (Some ''0123456789abcdef0123456789abcdef'') (Some ''c'') None (Some ''browser'')"

definition sample_begun :: oidc_state where
  "sample_begun = snd (run_oidc sample_oidc (AuthorizeLogin None None) sample_oidc_start)"

definition sample_signed_up :: oidc_state where
  "sample_signed_up = snd (run_oidc sample_oidc sample_callback sample_begun)"

definition sample_link_begun :: oidc_state where
  "sample_link_begun = snd (run_oidc sample_oidc (AuthorizeLink ''ann'' None None) sample_oidc_start)"

definition sample_oidc_linked :: oidc_state where
  "sample_oidc_linked = snd (run_oidc sample_oidc sample_callback sample_link_begun)"

lemma sample_oidc_start_ok: "oidc_start sample_oidc_start"
  by code_simp

lemma sample_oidc_fresh:
  "family_fresh (oe_account sample_oidc) (os_tables sample_oidc_start)"
  "family_fresh (oe_account sample_oidc) (os_tables sample_begun)"
  by code_simp+

lemma sample_oidc_steps:
  "oidc_step deleting sample_oidc_start sample_begun" "oidc_step deleting sample_begun sample_signed_up"
  using oidc_step.oidc [OF prod.collapse [symmetric] sample_oidc_fresh(1)]
    oidc_step.oidc [OF prod.collapse [symmetric] sample_oidc_fresh(2)]
  unfolding sample_begun_def sample_signed_up_def by blast+

lemma sample_begun_ok: "oidc_ok sample_begun"
  using oidc_runs.reachable_inv [OF sample_oidc_start_ok] sample_oidc_steps(1) by blast

section \<open>Properties\<close>

text \<open>
  The search for a user name ends: with as many candidates as there are users and two more it
  finds one that is not taken, and the name fits the column.
\<close>

theorem new_username_found:
  "\<exists>name. new_username oe email issuer subject tb = Some name \<and> name \<notin> u_username ` set (users tb) \<and>
     (length (users tb) < 10 ^ 48 \<longrightarrow> length name \<le> 50)"
proof -
  let ?base = "username_base oe email issuer subject"
  obtain name where name: "new_username oe email issuer subject tb = Some name"
    using new_username_Some by blast
  have "length name \<le> 50" if few: "length (users tb) < 10 ^ 48"
  proof -
    from name consider "name = ?base"
      | i where "i < length (users tb) + 2" "name = numbered_username ?base (1 + int i)"
      unfolding new_username_def Let_def by (blast dest: username_loop_Some)
    then show ?thesis
    proof cases
      case 1
      then show ?thesis by (simp add: username_base_def Let_def)
    next
      case 2
      have "int (length (users tb)) < 10 ^ 48" using few by (metis of_nat_less_iff of_nat_numeral of_nat_power)
      then have "1 + int i < 10 ^ 49" using 2(1) by simp
      then show ?thesis unfolding 2(2) by (intro numbered_length) simp_all
    qed
  qed
  then show ?thesis using name new_username_free [OF name] by blast
qed

theorem new_username_found_witness:
  "username_base sample_oidc ''ann@x.org'' ''i'' ''s'' = ''ann-#i'' @ [CHR 0x00] @ ''s'' \<and>
   (\<exists>name. new_username sample_oidc ''ann@x.org'' ''i'' ''s'' sample_accounts = Some name \<and> length name \<le> 50)"
proof -
  have "username_base sample_oidc ''ann@x.org'' ''i'' ''s'' = ''ann-#i'' @ [CHR 0x00] @ ''s''" by code_simp
  moreover have "length (users sample_accounts) < 10 ^ 48" by (simp add: sample_accounts_def)
  ultimately show ?thesis
    using new_username_found [of sample_oidc "''ann@x.org''" "''i''" "''s''" sample_accounts] by blast
qed

text \<open>
  An OIDC request that is refused or fails, at the provider, at a constraint or at the commit,
  leaves the accounts, the identities and the transactions as they were.
\<close>

theorem oidc_failure_atomic:
  assumes "run_oidc oe q s = (Inl err, s')"
  shows "\<exists>c. s' = s\<lparr>os_cache := c\<rparr>"
proof (cases q)
  case (Callback state code e binding)
  have "\<exists>c. s' = s\<lparr>os_cache := c\<rparr>"
    if "complete_oidc_authorization oe x y binding s = (Inl err, s')" for x y
    using that by (rule complete_cases) auto
  then show ?thesis
    using assms Callback same_cache [of s] by (auto simp: oidc_reply_Inl split: if_splits)
next
  case (UnlinkIdentity token iid)
  have "s' = s" if "unlink_external_identity oe iid uid s = (Inl err, s')" for uid
    using that by (rule unlink_cases) auto
  then show ?thesis
    using assms UnlinkIdentity same_cache [of s] by (auto simp: oidc_reply_Inl split: sum.splits)
qed (use assms begin_failed same_cache [of s] in \<open>auto simp: oidc_reply_Inl split: sum.splits\<close>)

theorem oidc_failure_atomic_witness:
  "\<exists>c. snd (run_oidc (sample_oidc\<lparr>oe_new_user_id := 1\<rparr>) sample_callback sample_begun) = sample_begun\<lparr>os_cache := c\<rparr>"
proof -
  have "fst (run_oidc (sample_oidc\<lparr>oe_new_user_id := 1\<rparr>) sample_callback sample_begun) =
      Inl (HTTPException 409 ''External identity could not be linked'')" by code_simp
  then show ?thesis using oidc_failure_atomic by (metis prod.collapse)
qed



text \<open>
  C29: after a callback completed a transaction, no callback with the same state completes it
  again, whatever the code, the binding, the provider, the clock or the settings, in any state
  reached by later OIDC and account requests (other than the deletion of users).
\<close>

theorem transaction_single_use:
  assumes "oidc_ok s" and "complete_oidc_authorization oe state code binding s = (Inr result, s1)"
    and "family_fresh (oe_account oe) (os_tables s)" and "(oidc_step False)\<^sup>*\<^sup>* s1 s2"
    and "oe_sha256 oe' = oe_sha256 oe"
  shows "complete_oidc_authorization oe' state code' binding' s2 \<in>
    {(Inl INVALID_TRANSACTION, s2), (Inl OIDC_UNAVAILABLE, s2)}"
proof -
  have ok: "oidc_ok s1" using complete_ok [OF assms(2,1,3)] .
  have "completed (hash_secret oe state) s1" using complete_completes(2) [OF assms(2)] by blast
  then have "completed (hash_secret oe' state) s2"
    using completed_stays [OF assms(4) ok] assms(5) by (simp add: hash_secret_def)
  moreover have "oidc_ok s2" using oidc_runs.steps_inv assms(4) ok by blast
  ultimately show ?thesis by (rule completed_refused [rotated])
qed

theorem transaction_single_use_witness:
  "\<exists>result. complete_oidc_authorization sample_oidc ''0123456789abcdef0123456789abcdef'' ''c'' (Some ''browser'')
     sample_begun = (Inr result, sample_signed_up) \<and>
   complete_oidc_authorization sample_oidc ''0123456789abcdef0123456789abcdef'' ''d'' (Some ''browser'')
     sample_signed_up \<in> {(Inl INVALID_TRANSACTION, sample_signed_up), (Inl OIDC_UNAVAILABLE, sample_signed_up)}"
proof -
  let ?complete = "complete_oidc_authorization sample_oidc ''0123456789abcdef0123456789abcdef'' ''c'' (Some ''browser'')
     sample_begun"
  have "is_ok (fst ?complete)" by code_simp
  moreover have "snd ?complete = sample_signed_up"
    unfolding sample_signed_up_def sample_callback_def
    by (simp add: param_ok_def or_empty_def oidc_reply_as_def split: prod.split sum.split)
  ultimately obtain result where run: "?complete = (Inr result, sample_signed_up)"
    by (cases "?complete"; cases "fst ?complete") auto
  then show ?thesis
    using transaction_single_use [OF sample_begun_ok run sample_oidc_fresh(2), of sample_signed_up sample_oidc] by blast
qed

text \<open>
  C28: for an account that exists before an OIDC request, the request adds a session or an MFA
  challenge only if the provider vouched for an identity already linked to the account; it adds an
  identity only by completing, in the browser that began it, a link transaction bound to the
  account; and such a transaction is begun only with a recent access token of the account. So
  nobody gets into an existing account by an external identity that its owner did not link,
  whatever e-mail address the provider reports.
\<close>

theorem no_account_takeover:
  assumes "run_oidc oe q s = (r, s')" and "u \<in> set (users (os_tables s))"
  shows "(new_session s s' (u_id u) \<longrightarrow> vouched oe q s (u_id u)) \<and>
    (new_identity s s' (u_id u) \<longrightarrow> linking oe q s (u_id u)) \<and>
    (new_transaction s s' (u_id u) \<longrightarrow> (\<exists>token device user_agent v. q = AuthorizeLink token device user_agent \<and>
       recent_user (oe_account oe) token (os_tables s) = Inr v \<and> u_id v = u_id u))"
proof -
  have exists: "user_exists (os_tables s) (u_id u)" using assms(2) by (auto simp: user_exists_def)
  show ?thesis
  proof (cases q)
    case (Callback state code e binding)
    then have "r = Inl RequestValidationError \<and> s' = s \<or> (\<exists>v. complete_oidc_authorization oe (or_empty state)
        (or_empty code) binding s = (v, s'))"
      using assms(1) by (auto dest!: oidc_reply_snd split: if_splits)
    then show ?thesis using complete_new [OF _ exists] unfolding Callback by fastforce
  next
    case (AuthorizeLogin device agent)
    then obtain v where "begin_oidc_authorization oe ''login'' (get_device_name (oe_account oe) device agent)
        None s = (v, s')" using assms(1) by (auto dest!: oidc_reply_snd)
    from begin_new [OF this, of "u_id u"] show ?thesis by blast
  next
    case (AuthorizeLink token device agent)
    show ?thesis
    proof (cases "recent_user (oe_account oe) token (os_tables s)")
      case (Inr v)
      then obtain w where "begin_oidc_authorization oe ''link'' (get_device_name (oe_account oe) device agent)
          (Some (u_id v)) s = (w, s')" using assms(1) AuthorizeLink by (auto dest!: oidc_reply_snd)
      from begin_new [OF this, of "u_id u"] show ?thesis using AuthorizeLink Inr by blast
    qed (use assms(1) AuthorizeLink in simp)
  next
    case (UnlinkIdentity token iid)
    show ?thesis
    proof (cases "recent_user (oe_account oe) token (os_tables s)")
      case (Inr v)
      then obtain w where "unlink_external_identity oe iid (u_id v) s = (w, s')"
        using assms(1) UnlinkIdentity by (auto dest!: oidc_reply_snd)
      from unlink_new [OF this, of "u_id u"] show ?thesis by blast
    qed (use assms(1) UnlinkIdentity in simp)
  qed (use assms(1) in \<open>auto split: sum.splits\<close>)
qed

theorem no_account_takeover_witness:
  "new_transaction sample_oidc_start sample_link_begun 1 \<and> new_identity sample_link_begun sample_oidc_linked 1 \<and>
   linking sample_oidc sample_callback sample_link_begun 1"
proof -
  have link: "run_oidc sample_oidc sample_callback sample_link_begun =
      (fst (run_oidc sample_oidc sample_callback sample_link_begun), sample_oidc_linked)"
    by (simp add: sample_oidc_linked_def)
  have "new_transaction sample_oidc_start sample_link_begun 1" "new_identity sample_link_begun sample_oidc_linked 1"
    by code_simp+
  moreover have "\<exists>u\<in>set (users (os_tables sample_link_begun)). u_id u = 1" by code_simp
  ultimately show ?thesis using no_account_takeover [OF link] by metis
qed

end
