(* ===== verification/Http.thy ===== *)
theory Http
  imports Config
begin

text \<open>
  The HTTP shell around the endpoints: request identifiers
  (\<^verbatim>\<open>src/app/core/request_context.py\<close>), the exception handlers
  (\<^verbatim>\<open>src/app/exceptions/handlers.py\<close>), the middlewares for security headers, rate limits and
  request logging (\<^verbatim>\<open>src/app/middlewares/\<close>), the order in which \<^verbatim>\<open>src/app/main.py\<close> installs
  them, the log record (\<^verbatim>\<open>src/app/core/logging.py\<close>) and the health endpoints
  (\<^verbatim>\<open>src/app/api/v1/health.py\<close>). The endpoints, CORS and Starlette's routing are parameters. The
  theorems say what every reply carries and what is counted for it.
\<close>

section \<open>Responses\<close>

text \<open>Starlette keeps header names in lower case; setting a header replaces every old one.\<close>

type_synonym headers = "(string \<times> string) list"

record http_response =
  hr_status :: int
  hr_content :: jvalue
  hr_headers :: headers

fun set_header :: "string \<Rightarrow> string \<Rightarrow> headers \<Rightarrow> headers" where
  "set_header k v [] = [(py_casefold k, v)]"
| "set_header k v ((k', v') # hs) =
     (if k' = py_casefold k then (py_casefold k, v) # filter (\<lambda>h. fst h \<noteq> py_casefold k) hs
      else (k', v') # set_header k v hs)"

definition header :: "string \<Rightarrow> http_response \<Rightarrow> string option" where
  "header k r = map_of (hr_headers r) (py_casefold k)"

definition with_header :: "string \<Rightarrow> string \<Rightarrow> http_response \<Rightarrow> http_response" where
  "with_header k v r = r\<lparr>hr_headers := set_header k v (hr_headers r)\<rparr>"

text \<open>\<open>JSONResponse\<close>; the content type and length it adds are left out.\<close>

definition json_response :: "int \<Rightarrow> jvalue \<Rightarrow> (string \<times> string) list \<Rightarrow> http_response" where
  "json_response status content hs =
     \<lparr>hr_status = status, hr_content = content, hr_headers = map (\<lambda>(k, v). (py_casefold k, v)) hs\<rparr>"

definition detail :: "string \<Rightarrow> jvalue" where
  "detail text = VObj [(''detail'', VStr text)]"

section \<open>Request identifiers\<close>

definition REQUEST_ID_HEADER :: string where
  "REQUEST_ID_HEADER = ''X-Request-ID''"

definition request_id_char :: "char \<Rightarrow> bool" where
  "request_id_char c = (let n = (of_char c :: nat) in
     65 \<le> n \<and> n \<le> 90 \<or> 97 \<le> n \<and> n \<le> 122 \<or> 48 \<le> n \<and> n \<le> 57 \<or> c \<in> set ''._:-'')"

definition request_id_pattern :: "string \<Rightarrow> bool" where
  "request_id_pattern s = (list_all request_id_char s \<and> 1 \<le> length s \<and> length s \<le> 128)"

text \<open>\<open>fresh\<close> is \<open>uuid4().hex\<close>.\<close>

definition resolve_request_id :: "string \<Rightarrow> string option \<Rightarrow> string" where
  "resolve_request_id fresh value =
     (case value of
        None \<Rightarrow> fresh
      | Some v \<Rightarrow> if v \<noteq> [] \<and> request_id_pattern (py_strip v) then py_strip v else fresh)"

section \<open>Exception handlers\<close>

text \<open>An exception with the headers it carries (\<open>HTTPException.headers\<close>).\<close>

type_synonym raised = "error \<times> (string \<times> string) list"

definition request_id_headers :: "string option \<Rightarrow> (string \<times> string) list" where
  "request_id_headers rid =
     (case rid of None \<Rightarrow> [] | Some v \<Rightarrow> if v = [] then [] else [(REQUEST_ID_HEADER, v)])"

definition dict_merge :: "(string \<times> string) list \<Rightarrow> (string \<times> string) list \<Rightarrow> (string \<times> string) list" where
  "dict_merge old new = filter (\<lambda>h. fst h \<notin> fst ` set new) old @ new"

text \<open>\<open>None\<close>: no handler of its own, so the exception reaches the global one.\<close>

fun handle_exception :: "string option \<Rightarrow> raised \<Rightarrow> http_response option" where
  "handle_exception rid (ResourceNotFoundError d, _) =
     Some (json_response 404 (detail d) (request_id_headers rid))"
| "handle_exception rid (ResourceConflictError d, _) =
     Some (json_response 409 (detail d) (request_id_headers rid))"
| "handle_exception rid (HTTPException status d, hs) =
     Some (json_response status (detail d) (dict_merge hs (request_id_headers rid)))"
| "handle_exception rid (RequestValidationError, _) =
     Some (json_response 422 (detail ''Validation error'') (request_id_headers rid))"
| "handle_exception rid _ = None"

definition global_exception_handler :: "string option \<Rightarrow> http_response" where
  "global_exception_handler rid =
     json_response 500 (detail ''Internal Server Error'') (request_id_headers rid)"

section \<open>Middlewares\<close>

text \<open>
  The state of the process as the shell sees it: the rate limiters, the metrics, the log, the
  context variable of the request identifier, the route of the request being served and the
  state of the endpoints.
\<close>

datatype level = Info | Warning | Error

record log_record =
  lg_level :: level
  lg_method :: string
  lg_client_ip :: string
  lg_path :: string
  lg_route :: string
  lg_status :: int
  lg_duration_ms :: rat
  lg_request_id :: string
  lg_failed :: bool                         \<comment> \<open>\<open>exc_info\<close> is set\<close>

record 'a shell =
  sh_rate :: rate_state
  sh_in_progress :: "string \<Rightarrow> int"
  sh_totals :: "(string \<times> string \<times> string) list"
  sh_durations :: "(string \<times> string \<times> rat) list"
  sh_log :: "log_record list"
  sh_request_id :: string
  sh_route :: "string option"
  sh_app :: 'a

record http_request =
  rq_method :: string
  rq_path :: string
  rq_client :: "string option"
  rq_request_id :: "string option"
  rq_uuid :: string
  rq_started :: rat
  rq_ended :: rat

type_synonym 'a inner = "'a shell \<Rightarrow> (raised + http_response) \<times> 'a shell"

text \<open>
  The router finds the route and runs the endpoint on its own state. The innermost layer turns
  the exceptions with a handler into responses.
\<close>

definition exception_middleware ::
    "string \<Rightarrow> string option \<Rightarrow> ('a \<Rightarrow> (raised + http_response) \<times> 'a) \<Rightarrow> 'a inner" where
  "exception_middleware rid route endpoint st =
     (let (r, app) = endpoint (sh_app st); st' = st\<lparr>sh_route := route, sh_app := app\<rparr> in
      case r of
        Inr response \<Rightarrow> (Inr response, st')
      | Inl exc \<Rightarrow>
          (case handle_exception (Some rid) exc of
             Some response \<Rightarrow> (Inr response, st') | None \<Rightarrow> (Inl exc, st')))"

text \<open>
  Starlette's CORS middleware: \<open>preflight\<close> answers an \<open>OPTIONS\<close> request of a browser itself,
  \<open>decorate\<close> adds its headers to any other response.
\<close>

record cors =
  co_preflight :: "http_request \<Rightarrow> http_response option"
  co_decorate :: "http_response \<Rightarrow> http_response"

definition cors_layer :: "cors \<Rightarrow> http_request \<Rightarrow> 'a inner \<Rightarrow> 'a inner" where
  "cors_layer cors q inner st =
     (case co_preflight cors q of
        Some response \<Rightarrow> (Inr response, st)
      | None \<Rightarrow> (case inner st of
            (Inl exc, st') \<Rightarrow> (Inl exc, st')
          | (Inr response, st') \<Rightarrow> (Inr (co_decorate cors response), st')))"

definition SECURITY_HEADERS :: "(string \<times> string) list" where
  "SECURITY_HEADERS =
     [(''X-Content-Type-Options'', ''nosniff''), (''X-Frame-Options'', ''DENY''),
      (''Referrer-Policy'', ''strict-origin-when-cross-origin''),
      (''Content-Security-Policy'', concat
        [''default-src 'self'; '', ''script-src 'self' 'unsafe-inline' https://cdn.jsdelivr.net; '',
         ''style-src 'self' 'unsafe-inline' https://cdn.jsdelivr.net; '',
         ''img-src 'self' data: https://fastapi.tiangolo.com; '', ''frame-ancestors 'none'; '',
         ''base-uri 'self'; '', ''form-action 'self'' @ [CHR 0x27]]),
      (''Permissions-Policy'', ''camera=(), microphone=(), geolocation=()'')]"

definition with_headers :: "(string \<times> string) list \<Rightarrow> http_response \<Rightarrow> http_response" where
  "with_headers hs r = fold (\<lambda>(k, v). with_header k v) hs r"

definition security_headers_middleware :: "'a inner \<Rightarrow> 'a inner" where
  "security_headers_middleware inner st =
     (case inner st of
        (Inl exc, st') \<Rightarrow> (Inl exc, st')
      | (Inr response, st') \<Rightarrow> (Inr (with_headers SECURITY_HEADERS response), st'))"

definition rate_limit_layer :: "rate_env \<Rightarrow> http_request \<Rightarrow> 'a inner \<Rightarrow> 'a inner" where
  "rate_limit_layer e q inner st =
     (case rate_limit_middleware e (rq_path q) (rq_client q) (sh_rate st) of
        (Pass, rate) \<Rightarrow> inner (st\<lparr>sh_rate := rate\<rparr>)
      | (Refuse status text retry_after, rate) \<Rightarrow>
          (Inr (json_response status (detail text) [(''Retry-After'', show_int retry_after)]),
           st\<lparr>sh_rate := rate\<rparr>))"

text \<open>\<open>round(x, 2)\<close>, the duration being the exact number its float stands for.\<close>

definition round_hundredths :: "rat \<Rightarrow> rat" where
  "round_hundredths x =
     (let n = \<lfloor>x * 100\<rfloor>; d = x * 100 - of_int n in
      of_int (if d < 1 / 2 \<or> (d = 1 / 2 \<and> even n) then n else n + 1) / 100)"

definition level_of :: "int \<Rightarrow> level" where
  "level_of status = (if 500 \<le> status then Error else if 400 \<le> status then Warning else Info)"

definition in_progress :: "string \<Rightarrow> int \<Rightarrow> 'a shell \<Rightarrow> 'a shell" where
  "in_progress m d st = st\<lparr>sh_in_progress := (sh_in_progress st)(m := sh_in_progress st m + d)\<rparr>"

definition request_logging_middleware :: "rate_env \<Rightarrow> http_request \<Rightarrow> string \<Rightarrow> 'a inner \<Rightarrow> 'a inner" where
  "request_logging_middleware e q request_id inner st =
     (let outer_id = sh_request_id st;
          (r, st1) = inner (in_progress (rq_method q) 1 (st\<lparr>sh_request_id := request_id, sh_route := None\<rparr>));
          status = (case r of Inl _ \<Rightarrow> 500 | Inr response \<Rightarrow> hr_status response);
          duration = rq_ended q - rq_started q;
          route = (case sh_route st1 of None \<Rightarrow> ''unmatched'' | Some path \<Rightarrow> path);
          line = \<lparr>lg_level = level_of status, lg_method = rq_method q,
            lg_client_ip = resolve_client_ip (re_parse e) (rq_client q), lg_path = rq_path q,
            lg_route = route, lg_status = status, lg_duration_ms = round_hundredths (duration * 1000),
            lg_request_id = sh_request_id st1, lg_failed = (case r of Inl _ \<Rightarrow> True | Inr _ \<Rightarrow> False)\<rparr>;
          st2 = in_progress (rq_method q) (- 1) st1 in
      ((case r of Inl exc \<Rightarrow> Inl exc | Inr response \<Rightarrow> Inr (with_header REQUEST_ID_HEADER request_id response)),
       st2\<lparr>sh_totals := sh_totals st2 @ [(rq_method q, route, show_int status)],
           sh_durations := sh_durations st2 @ [(rq_method q, route, duration)],
           sh_log := sh_log st2 @ [line], sh_request_id := outer_id\<rparr>))"

text \<open>
  The application: a middleware added later is further out, and the handler of \<open>Exception\<close> is
  outside all of them.
\<close>

definition serve_http ::
    "rate_env \<Rightarrow> cors \<Rightarrow> http_request \<Rightarrow> string option \<Rightarrow>
     ('a \<Rightarrow> (raised + http_response) \<times> 'a) \<Rightarrow> 'a shell \<Rightarrow> http_response \<times> 'a shell" where
  "serve_http e cors q route endpoint st =
     (let rid = resolve_request_id (rq_uuid q) (rq_request_id q) in
      case request_logging_middleware e q rid
             (rate_limit_layer e q (security_headers_middleware
                (cors_layer cors q (exception_middleware rid route endpoint)))) st of
        (Inr response, st') \<Rightarrow> (response, st')
      | (Inl _, st') \<Rightarrow> (global_exception_handler (Some rid), st'))"

definition cors_origins :: "settings \<Rightarrow> string list" where
  "cors_origins s = filter (\<lambda>v. v \<noteq> []) (map py_strip (py_split_on CHR '','' (CORS_ORIGINS s)))"

section \<open>Health\<close>

definition availability :: "bool \<Rightarrow> jvalue" where
  "availability ok = VStr (if ok then ''ok'' else ''unavailable'')"

definition liveness_check :: http_response where
  "liveness_check = json_response 200 (VObj [(''status'', VStr ''ok'')]) []"

text \<open>\<open>pong\<close> is the outcome of the ping; it is not asked when Redis is not used.\<close>

definition readiness_check :: "settings \<Rightarrow> bool \<Rightarrow> bool \<Rightarrow> http_response" where
  "readiness_check s database_ready pong =
     (if RATE_LIMIT_BACKEND s \<noteq> RedisBackend then
        (if database_ready
         then json_response 200 (VObj [(''status'', VStr ''ok''),
           (''checks'', VObj [(''database'', VStr ''ok'')])]) []
         else json_response 503 (VObj [(''status'', VStr ''error''),
           (''checks'', VObj [(''database'', VStr ''unavailable'')])]) [])
      else
        (let checks = VObj [(''database'', availability database_ready), (''redis'', availability pong)] in
         if database_ready \<and> pong
         then json_response 200 (VObj [(''status'', VStr ''ok''), (''checks'', checks)]) []
         else json_response 503 (VObj [(''status'', VStr ''error''), (''checks'', checks)]) []))"

definition database_health_check :: "bool \<Rightarrow> http_response" where
  "database_health_check ready =
     (if ready then json_response 200 (VObj [(''status'', VStr ''ok''), (''database'', VStr ''connected'')]) []
      else json_response 503 (VObj [(''status'', VStr ''error''), (''database'', VStr ''disconnected'')]) [])"

section \<open>The JSON log line\<close>

definition LOG_FIELDS :: "string list" where
  "LOG_FIELDS =
     [''method'', ''client_ip'', ''path'', ''route'', ''status_code'', ''duration_ms'', ''rate_limit_backend'',
      ''rate_limit_policy'', ''rate_limit_operation'', ''outbox_message_type'', ''outbox_attempt'',
      ''outbox_event'', ''outbox_failure_category'', ''oidc_cache_event'', ''oidc_cache_document'',
      ''dashboard_cache_event'', ''resource_type'', ''resource_operation'', ''resource_outcome'',
      ''tracing_service'', ''tracing_environment'']"

record py_log_record =
  pl_timestamp :: string
  pl_level :: string
  pl_logger :: string
  pl_message :: string
  pl_extra :: "string \<Rightarrow> jvalue option"        \<comment> \<open>attributes set by \<open>extra\<close>\<close>
  pl_exception :: "string option"

text \<open>\<open>trace\<close>: the identifiers of the current span when it is valid.\<close>

definition log_payload :: "(string \<times> string) option \<Rightarrow> string \<Rightarrow> py_log_record \<Rightarrow> jobject" where
  "log_payload trace request_id rec =
     [(''timestamp'', VStr (pl_timestamp rec)), (''level'', VStr (pl_level rec)),
      (''logger'', VStr (pl_logger rec)), (''message'', VStr (pl_message rec)),
      (''request_id'', (case pl_extra rec ''request_id'' of None \<Rightarrow> VStr request_id | Some v \<Rightarrow> v))] @
     (case trace of None \<Rightarrow> [] | Some (t, s) \<Rightarrow> [(''trace_id'', VStr t), (''span_id'', VStr s)]) @
     concat (map (\<lambda>field. case pl_extra rec field of
         None \<Rightarrow> [] | Some v \<Rightarrow> if v = VNull then [] else [(field, v)]) LOG_FIELDS) @
     (case pl_exception rec of None \<Rightarrow> [] | Some text \<Rightarrow> [(''exception'', VStr text)])"

section \<open>Headers\<close>

lemma map_of_filter_other: "k \<noteq> k' \<Longrightarrow> map_of (filter (\<lambda>h. fst h \<noteq> k') hs) k = map_of hs k"
  by (induction hs) auto

lemma map_of_set_header:
  "map_of (set_header k v hs) j = (if j = py_casefold k then Some v else map_of hs j)"
  by (induction k v hs rule: set_header.induct) (auto simp: map_of_filter_other)

lemma header_with_header [simp]:
  "header j (with_header k v r) = (if py_casefold j = py_casefold k then Some v else header j r)"
  by (simp add: header_def with_header_def map_of_set_header)

lemma with_header_status [simp]: "hr_status (with_header k v r) = hr_status r"
  "hr_content (with_header k v r) = hr_content r"
  by (simp_all add: with_header_def)

lemma with_headers_status [simp]: "hr_status (with_headers hs r) = hr_status r"
  "hr_content (with_headers hs r) = hr_content r"
  by (induction hs arbitrary: r) (auto simp: with_headers_def)

lemma with_headers_Cons: "with_headers ((k, v) # hs) r = with_headers hs (with_header k v r)"
  by (simp add: with_headers_def)

lemma header_with_headers:
  assumes "distinct (map (py_casefold \<circ> fst) hs)" and "(k, v) \<in> set hs"
  shows "header k (with_headers hs r) = Some v"
proof -
  have other: "header k (with_headers hs r) = header k r"
    if "\<forall>h\<in>set hs. py_casefold (fst h) \<noteq> py_casefold k" for hs r
    using that by (induction hs arbitrary: r) (auto simp: with_headers_def)
  show ?thesis
    using assms
  proof (induction hs arbitrary: r)
    case (Cons h hs)
    obtain j w where h: "h = (j, w)" by (cases h)
    show ?case
    proof (cases "(k, v) = h")
      case True
      then have "\<forall>x\<in>set hs. py_casefold (fst x) \<noteq> py_casefold k" using Cons.prems(1) by force
      then have "header k (with_headers hs (with_header j w r)) = header k (with_header j w r)" by (rule other)
      then show ?thesis using True h by (simp add: with_headers_Cons)
    next
      case False
      then show ?thesis using Cons by (auto simp: h with_headers_Cons)
    qed
  qed simp
qed

lemma security_headers_distinct: "distinct (map (py_casefold \<circ> fst) SECURITY_HEADERS)"
  by code_simp

lemma request_id_not_security: "\<forall>h\<in>set SECURITY_HEADERS. py_casefold (fst h) \<noteq> py_casefold REQUEST_ID_HEADER"
  by code_simp

section \<open>Request identifiers are valid\<close>

lemma request_id_char_no_space: "request_id_char c \<Longrightarrow> \<not> is_space c"
  by (auto simp: request_id_char_def is_space_def Let_def)

lemma strip_pattern: "request_id_pattern v \<Longrightarrow> py_strip v = v"
proof -
  assume "request_id_pattern v"
  then have none: "\<not> is_space c" if "c \<in> set v" for c
    using that request_id_char_no_space by (auto simp: request_id_pattern_def list_all_iff)
  have "dropWhile is_space xs = xs" if "set xs \<subseteq> set v" for xs
    using that none by (cases xs) auto
  then show ?thesis by (simp add: py_strip_def strip_by_def)
qed

lemma resolve_valid: "request_id_pattern fresh \<Longrightarrow> request_id_pattern (resolve_request_id fresh value)"
  by (simp add: resolve_request_id_def split: option.split)

lemma resolve_echo: "request_id_pattern v \<Longrightarrow> resolve_request_id fresh (Some v) = v"
  using strip_pattern [of v] by (auto simp: resolve_request_id_def request_id_pattern_def)

section \<open>One request through the layers\<close>

text \<open>What a layer inside request logging leaves alone.\<close>

definition sheltered :: "'a shell \<Rightarrow> 'a shell \<Rightarrow> bool" where
  "sheltered st st' = (sh_in_progress st' = sh_in_progress st \<and> sh_totals st' = sh_totals st \<and>
     sh_durations st' = sh_durations st \<and> sh_log st' = sh_log st \<and> sh_request_id st' = sh_request_id st)"

lemma exception_sheltered: "exception_middleware rid route endpoint st = (r, st') \<Longrightarrow> sheltered st st'"
  by (auto simp: exception_middleware_def Let_def sheltered_def split: prod.splits sum.splits option.splits)

definition inner_layers ::
    "rate_env \<Rightarrow> cors \<Rightarrow> http_request \<Rightarrow> string \<Rightarrow> string option \<Rightarrow>
     ('a \<Rightarrow> (raised + http_response) \<times> 'a) \<Rightarrow> 'a inner" where
  "inner_layers e cors q rid route endpoint = rate_limit_layer e q (security_headers_middleware
     (cors_layer cors q (exception_middleware rid route endpoint)))"

lemma inner_sheltered:
  assumes "inner_layers e cors q rid route endpoint st = (r, st')"
  shows "sheltered st st'"
proof -
  have "sheltered mid st'" if "security_headers_middleware
      (cors_layer cors q (exception_middleware rid route endpoint)) mid = (r, st')" for mid
    using that exception_sheltered [of rid route endpoint mid]
    by (auto simp: security_headers_middleware_def cors_layer_def sheltered_def split: prod.splits sum.splits option.splits)
  then show ?thesis
    using assms unfolding inner_layers_def rate_limit_layer_def
    by (auto simp: sheltered_def split: prod.splits gate.splits)
qed

lemma logged_request:
  assumes "request_logging_middleware e q rid inner st = (r, st')"
    and "\<And>x s s'. inner s = (x, s') \<Longrightarrow> sheltered s s'"
  shows "\<exists>x mid. inner (in_progress (rq_method q) 1 (st\<lparr>sh_request_id := rid, sh_route := None\<rparr>)) = (x, mid) \<and>
    r = map_sum id (with_header REQUEST_ID_HEADER rid) x \<and> sh_in_progress st' = sh_in_progress st \<and>
    sh_request_id st' = sh_request_id st \<and> sh_app st' = sh_app mid \<and> sh_rate st' = sh_rate mid \<and>
    (\<exists>where line. sh_totals st' = sh_totals st @
       [(rq_method q, where, show_int (case x of Inl _ \<Rightarrow> 500 | Inr response \<Rightarrow> hr_status response))] \<and>
     sh_log st' = sh_log st @ [line] \<and> lg_request_id line = rid \<and> lg_route line = where \<and>
     lg_status line = (case x of Inl _ \<Rightarrow> 500 | Inr response \<Rightarrow> hr_status response))"
proof -
  let ?before = "in_progress (rq_method q) 1 (st\<lparr>sh_request_id := rid, sh_route := None\<rparr>)"
  obtain x mid where run: "inner ?before = (x, mid)" by (rule prod.exhaust)
  have mid: "sh_in_progress mid = (sh_in_progress st)(rq_method q := sh_in_progress st (rq_method q) + 1)"
    "sh_totals mid = sh_totals st" "sh_log mid = sh_log st" "sh_request_id mid = rid"
    using assms(2) [OF run] by (simp_all add: sheltered_def in_progress_def)
  show ?thesis
    using assms(1) run mid unfolding request_logging_middleware_def
    by (auto simp: Let_def in_progress_def split: sum.splits)
qed

lemma serve_http_cases:
  assumes "serve_http e cors q route endpoint st = (r, st')"
  defines "rid \<equiv> resolve_request_id (rq_uuid q) (rq_request_id q)"
  obtains x mid where "inner_layers e cors q rid route endpoint
      (in_progress (rq_method q) 1 (st\<lparr>sh_request_id := rid, sh_route := None\<rparr>)) = (x, mid)"
    and "r = (case x of Inl _ \<Rightarrow> global_exception_handler (Some rid) | Inr p \<Rightarrow> with_header REQUEST_ID_HEADER rid p)"
    and "sh_in_progress st' = sh_in_progress st" and "sh_request_id st' = sh_request_id st"
    and "sh_app st' = sh_app mid" and "sh_rate st' = sh_rate mid"
    and "\<exists>where line. sh_totals st' = sh_totals st @ [(rq_method q, where, show_int (hr_status r))] \<and>
      sh_log st' = sh_log st @ [line] \<and> lg_request_id line = rid \<and> lg_status line = hr_status r \<and>
      lg_route line = where"
proof -
  obtain y where log: "request_logging_middleware e q rid (inner_layers e cors q rid route endpoint) st = (y, st')"
    and r: "r = (case y of Inl _ \<Rightarrow> global_exception_handler (Some rid) | Inr p \<Rightarrow> p)"
    using assms(1) unfolding serve_http_def Let_def rid_def [symmetric] inner_layers_def [symmetric]
    by (auto split: prod.splits sum.splits)
  obtain x mid where x: "inner_layers e cors q rid route endpoint
      (in_progress (rq_method q) 1 (st\<lparr>sh_request_id := rid, sh_route := None\<rparr>)) = (x, mid)"
    and y: "y = map_sum id (with_header REQUEST_ID_HEADER rid) x"
    and same: "sh_in_progress st' = sh_in_progress st" "sh_request_id st' = sh_request_id st"
      "sh_app st' = sh_app mid" "sh_rate st' = sh_rate mid"
    and lines: "\<exists>where line. sh_totals st' = sh_totals st @
       [(rq_method q, where, show_int (case x of Inl _ \<Rightarrow> 500 | Inr response \<Rightarrow> hr_status response))] \<and>
     sh_log st' = sh_log st @ [line] \<and> lg_request_id line = rid \<and> lg_route line = where \<and>
     lg_status line = (case x of Inl _ \<Rightarrow> 500 | Inr response \<Rightarrow> hr_status response)"
    using logged_request [OF log] inner_sheltered by metis
  have reply: "r = (case x of Inl _ \<Rightarrow> global_exception_handler (Some rid)
      | Inr p \<Rightarrow> with_header REQUEST_ID_HEADER rid p)"
    by (simp add: r y split: sum.split)
  have status: "(case x of Inl _ \<Rightarrow> 500 | Inr response \<Rightarrow> hr_status response) = hr_status r"
    by (simp add: reply global_exception_handler_def json_response_def split: sum.split)
  show thesis using that [OF x reply same] lines unfolding status by blast
qed

section \<open>The reply\<close>

lemma security_kept:
  assumes "(k, v) \<in> set SECURITY_HEADERS"
  shows "header k (with_header REQUEST_ID_HEADER rid (with_headers SECURITY_HEADERS p)) = Some v"
  using header_with_headers [OF security_headers_distinct assms] request_id_not_security assms by fastforce

lemma frame_header_names:
  "py_casefold ''X-Frame-Options'' \<noteq> py_casefold REQUEST_ID_HEADER"
  "py_casefold ''X-Frame-Options'' \<noteq> py_casefold ''Retry-After''"
  "py_casefold ''Retry-After'' \<noteq> py_casefold REQUEST_ID_HEADER"
  by code_simp+

lemma global_reply_plain: "header ''X-Frame-Options'' (global_exception_handler rid) = None"
  using frame_header_names(1)
  by (simp add: global_exception_handler_def json_response_def header_def request_id_headers_def split: option.split)

lemma inner_refused:
  assumes "inner_layers e cors q rid route endpoint st = (x, mid)"
    and "rate_limit_middleware e (rq_path q) (rq_client q) (sh_rate st) = (Refuse status reason retry_after, rate)"
  shows "x = Inr (json_response status (detail reason) [(''Retry-After'', show_int retry_after)])"
    "sh_app mid = sh_app st"
  using assms by (auto simp: inner_layers_def rate_limit_layer_def)

lemma inner_preflight:
  assumes "inner_layers e cors q rid route endpoint st = (x, mid)"
    and "rate_limit_middleware e (rq_path q) (rq_client q) (sh_rate st) = (Pass, rate)"
    and "co_preflight cors q = Some p"
  shows "x = Inr (with_headers SECURITY_HEADERS p)" "sh_app mid = sh_app st"
  using assms by (auto simp: inner_layers_def rate_limit_layer_def security_headers_middleware_def cors_layer_def)

lemma inner_served:
  assumes "inner_layers e cors q rid route endpoint st = (x, mid)"
    and "rate_limit_middleware e (rq_path q) (rq_client q) (sh_rate st) = (Pass, rate)"
    and "co_preflight cors q = None" and "endpoint (sh_app st) = (out, final)"
  shows "x = (case out of Inr p \<Rightarrow> Inr (with_headers SECURITY_HEADERS (co_decorate cors p))
      | Inl exc \<Rightarrow> (case handle_exception (Some rid) exc of
          Some p \<Rightarrow> Inr (with_headers SECURITY_HEADERS (co_decorate cors p)) | None \<Rightarrow> Inl exc))"
    and "sh_app mid = final"
  using assms by (auto simp: inner_layers_def rate_limit_layer_def security_headers_middleware_def
      cors_layer_def exception_middleware_def Let_def split: sum.splits option.splits)

section \<open>Sample requests\<close>

definition sample_request :: http_request where
  "sample_request = \<lparr>rq_method = ''GET'', rq_path = ''/jobs'', rq_client = Some ''10.0.0.9'',
     rq_request_id = Some ''deploy-20260809.1'', rq_uuid = replicate 32 (CHR ''a''), rq_started = 0,
     rq_ended = 1 / 4\<rparr>"

definition sample_shell :: "nat shell" where
  "sample_shell = \<lparr>sh_rate = sample_rate_state, sh_in_progress = (\<lambda>_. 0), sh_totals = [], sh_durations = [],
     sh_log = [], sh_request_id = ''-'', sh_route = None, sh_app = 0\<rparr>"

definition sample_cors :: cors where
  "sample_cors = \<lparr>co_preflight = (\<lambda>_. None), co_decorate = id\<rparr>"

text \<open>An endpoint that fails with an exception no handler knows.\<close>

definition sample_endpoint :: "nat \<Rightarrow> (raised + http_response) \<times> nat" where
  "sample_endpoint n = (Inl (IntegrityError, []), n + 1)"

section \<open>Properties\<close>

text \<open>
  C34: every reply of the service, refusals of the rate limiter and internal errors included, names
  the request it answers: a well-formed identifier, the one the client sent when that is well
  formed. The identifier of the enclosing context is restored, the gauge of requests in progress
  returns to its value, and exactly one count and one log line record the status of the reply.
\<close>

theorem every_reply_identified:
  assumes "serve_http e cors q route endpoint st = (r, st')" and "request_id_pattern (rq_uuid q)"
  shows "\<exists>rid where line. header REQUEST_ID_HEADER r = Some rid \<and> request_id_pattern rid \<and>
     (\<forall>v. rq_request_id q = Some v \<and> request_id_pattern v \<longrightarrow> rid = v) \<and>
     sh_in_progress st' = sh_in_progress st \<and> sh_request_id st' = sh_request_id st \<and>
     sh_totals st' = sh_totals st @ [(rq_method q, where, show_int (hr_status r))] \<and>
     sh_log st' = sh_log st @ [line] \<and> lg_request_id line = rid \<and> lg_status line = hr_status r"
proof -
  let ?rid = "resolve_request_id (rq_uuid q) (rq_request_id q)"
  obtain x :: "raised + http_response" where reply: "r = (case x of Inl _ \<Rightarrow> global_exception_handler (Some ?rid)
      | Inr p \<Rightarrow> with_header REQUEST_ID_HEADER ?rid p)"
    and same: "sh_in_progress st' = sh_in_progress st" "sh_request_id st' = sh_request_id st"
    and lines: "\<exists>where line. sh_totals st' = sh_totals st @ [(rq_method q, where, show_int (hr_status r))] \<and>
      sh_log st' = sh_log st @ [line] \<and> lg_request_id line = ?rid \<and> lg_status line = hr_status r \<and>
      lg_route line = where"
    using assms(1) by (rule serve_http_cases) (rule that, assumption+)
  have valid: "request_id_pattern ?rid" using resolve_valid [OF assms(2)] .
  then have "?rid \<noteq> []" by (auto simp: request_id_pattern_def)
  then have "header REQUEST_ID_HEADER r = Some ?rid"
    unfolding reply by (simp add: global_exception_handler_def json_response_def header_def request_id_headers_def
        split: sum.split) (simp add: header_def [symmetric])
  moreover have "\<forall>v. rq_request_id q = Some v \<and> request_id_pattern v \<longrightarrow> ?rid = v"
    using resolve_echo by metis
  ultimately show ?thesis using valid same lines by blast
qed

theorem every_reply_identified_witness:
  "header REQUEST_ID_HEADER (fst (serve_http sample_rate_env sample_cors sample_request (Some ''/jobs'') sample_endpoint
     sample_shell)) = Some ''deploy-20260809.1''"
proof -
  obtain r st' where run: "serve_http sample_rate_env sample_cors sample_request (Some ''/jobs'') sample_endpoint sample_shell =
      (r, st')" by (rule prod.exhaust)
  have "request_id_pattern (rq_uuid sample_request)" and sent: "request_id_pattern ''deploy-20260809.1''"
    by code_simp+
  then obtain rid where "header REQUEST_ID_HEADER r = Some rid"
    "\<forall>v. rq_request_id sample_request = Some v \<and> request_id_pattern v \<longrightarrow> rid = v"
    using every_reply_identified [OF run] by blast
  moreover have "rq_request_id sample_request = Some ''deploy-20260809.1''" by (simp add: sample_request_def)
  ultimately show ?thesis using sent run by simp
qed

text \<open>
  C35: which reply a request gets. A request the limiter refuses is answered without running the
  endpoint, with the limiter's status and \<open>Retry-After\<close>, and without the security headers, since
  the limiter is installed outside their middleware. A preflight request is answered by the CORS
  middleware, with the security headers. Otherwise the endpoint runs once: its
  response and the errors with a handler (404, 409, the status of an \<open>HTTPException\<close>, 422) are
  answered with every security header, and any other exception with a 500 that tells nothing of
  the exception and has no security header either.
\<close>

theorem reply_complete:
  assumes "serve_http e cors q route endpoint st = (r, st')" and "\<And>p. hr_status (co_decorate cors p) = hr_status p"
  defines "rid \<equiv> resolve_request_id (rq_uuid q) (rq_request_id q)"
  shows "case fst (rate_limit_middleware e (rq_path q) (rq_client q) (sh_rate st)) of
      Refuse status text retry_after \<Rightarrow>
        hr_status r = status \<and> hr_content r = detail text \<and> header ''Retry-After'' r = Some (show_int retry_after) \<and>
        header ''X-Frame-Options'' r = None \<and> sh_app st' = sh_app st
    | Pass \<Rightarrow>
        (case (co_preflight cors q, endpoint (sh_app st)) of
           (Some p, _) \<Rightarrow> sh_app st' = sh_app st \<and> hr_status r = hr_status p \<and>
             (\<forall>(k, v)\<in>set SECURITY_HEADERS. header k r = Some v)
         | (None, Inr p, app) \<Rightarrow> sh_app st' = app \<and> hr_status r = hr_status p \<and>
             (\<forall>(k, v)\<in>set SECURITY_HEADERS. header k r = Some v)
         | (None, Inl exc, app) \<Rightarrow> sh_app st' = app \<and>
             (case handle_exception (Some rid) exc of
                Some p \<Rightarrow> hr_status r = hr_status p \<and> (\<forall>(k, v)\<in>set SECURITY_HEADERS. header k r = Some v)
              | None \<Rightarrow> r = global_exception_handler (Some rid) \<and> hr_status r = 500 \<and>
                  header ''X-Frame-Options'' r = None))"
proof -
  let ?start = "in_progress (rq_method q) 1 (st\<lparr>sh_request_id := rid, sh_route := None\<rparr>)"
  obtain x mid where run: "inner_layers e cors q rid route endpoint ?start = (x, mid)"
    and reply: "r = (case x of Inl _ \<Rightarrow> global_exception_handler (Some rid) | Inr p \<Rightarrow> with_header REQUEST_ID_HEADER rid p)"
    and app: "sh_app st' = sh_app mid"
    by (rule serve_http_cases [OF assms(1), folded rid_def]) (rule that, assumption+)
  have start: "sh_rate ?start = sh_rate st" "sh_app ?start = sh_app st" by (simp_all add: in_progress_def)
  obtain g rate where g: "rate_limit_middleware e (rq_path q) (rq_client q) (sh_rate st) = (g, rate)"
    by (rule prod.exhaust)
  show ?thesis
  proof (cases g)
    case (Refuse status reason retry_after)
    then show ?thesis
      using frame_header_names inner_refused [OF run] start g
      by (simp add: reply app json_response_def header_def with_header_def map_of_set_header)
  next
    case Pass
    obtain out final where out: "endpoint (sh_app st) = (out, final)" by (rule prod.exhaust)
    show ?thesis
    proof (cases "co_preflight cors q")
      case (Some p)
      then show ?thesis
        using security_kept inner_preflight [OF run _ Some] start g by (auto simp: Pass app reply)
    next
      case None
      then show ?thesis
        using security_kept global_reply_plain inner_served [OF run _ None] start g out
        by (cases out; cases "case out of Inl exc \<Rightarrow> handle_exception (Some rid) exc | Inr p \<Rightarrow> None")
          (auto simp: Pass app reply assms(2) global_exception_handler_def json_response_def)
    qed
  qed
qed

theorem reply_complete_witness:
  "hr_status (fst (serve_http sample_rate_env sample_cors sample_request (Some ''/jobs'') sample_endpoint sample_shell)) = 500 \<and>
   hr_status (fst (serve_http sample_down sample_cors sample_request (Some ''/jobs'') sample_endpoint sample_shell)) = 503 \<and>
   sh_app (snd (serve_http sample_down sample_cors sample_request (Some ''/jobs'') sample_endpoint sample_shell)) = 0"
proof -
  have gates: "fst (rate_limit_middleware sample_rate_env (rq_path sample_request) (rq_client sample_request)
      (sh_rate sample_shell)) = Pass"
    "fst (rate_limit_middleware sample_down (rq_path sample_request) (rq_client sample_request)
      (sh_rate sample_shell)) = Refuse 503 ''Rate limit service unavailable'' 1"
    by code_simp+
  have app: "sh_app sample_shell = 0" by (simp add: sample_shell_def)
  note complete = reply_complete [where cors = sample_cors, OF prod.collapse [symmetric]]
  show ?thesis
    using complete [of sample_rate_env sample_request "Some ''/jobs''" sample_endpoint sample_shell]
      complete [of sample_down sample_request "Some ''/jobs''" sample_endpoint sample_shell]
    by (simp add: gates app sample_cors_def sample_endpoint_def global_exception_handler_def json_response_def)
qed

end
