(* ===== verification/Tracing.thy ===== *)
theory Tracing
  imports Config Outbox
begin

text \<open>
  Tracing: \<^verbatim>\<open>src/app/core/tracing.py\<close>. The module's globals and what the OpenTelemetry
  instrumentors have installed are the state of \<open>setup_tracing\<close> and \<open>shutdown_tracing\<close>; which
  call of the library raises is an argument of each operation. The theorems say that no query
  string, fragment or credential is exported, that a captured trace context fits the outbox and is
  read back, and what shutting down leaves behind.
\<close>

section \<open>URLs in spans\<close>

text \<open>\<open>None\<close> inside: no port; \<open>None\<close> outside: \<open>ValueError\<close>.\<close>

definition url_port :: "split_result \<Rightarrow> int option option" where
  "url_port u =
     (let hostinfo = rev (takeWhile (\<lambda>c. c \<noteq> CHR ''@'') (rev (sr_netloc u)));
          port = (case snd (py_partition CHR ''['' hostinfo) of
             Some bracketed \<Rightarrow>
               (case snd (py_partition CHR '']'' bracketed) of
                  None \<Rightarrow> None | Some rest \<Rightarrow> snd (py_partition CHR '':'' rest))
           | None \<Rightarrow> snd (py_partition CHR '':'' hostinfo)) in
      case port of
        None \<Rightarrow> Some None
      | Some text \<Rightarrow>
          if text = [] then Some None
          else if list_all (\<lambda>c. 48 \<le> (of_char c :: nat) \<and> (of_char c :: nat) \<le> 57) text \<and>
                  digits_value text \<le> 65535
          then Some (Some (int (digits_value text))) else None)"

definition USES_NETLOC :: "string list" where
  "USES_NETLOC =
     ['''', ''ftp'', ''http'', ''gopher'', ''nntp'', ''telnet'', ''imap'', ''wais'', ''file'', ''mms'',
      ''https'', ''shttp'', ''snews'', ''prospero'', ''rtsp'', ''rtsps'', ''rtspu'', ''rsync'', ''svn'',
      ''svn+ssh'', ''sftp'', ''nfs'', ''git'', ''git+ssh'', ''ws'', ''wss'', ''itms-services'']"

text \<open>\<open>urlunsplit\<close> without query and fragment.\<close>

definition urlunsplit :: "string \<Rightarrow> string \<Rightarrow> string \<Rightarrow> string" where
  "urlunsplit scheme netloc path =
     (let slash = ''/''; slashes = ''//'';
          rest = (if netloc \<noteq> []
                  then slashes @ netloc @ (if path \<noteq> [] \<and> hd path \<noteq> CHR ''/'' then slash @ path else path)
                  else if starts_with slashes path then slashes @ path
                  else if scheme \<noteq> [] \<and> scheme \<in> set USES_NETLOC \<and> (path = [] \<or> hd path = CHR ''/'')
                  then slashes @ path else path) in
      if scheme \<noteq> [] then scheme @ '':'' @ rest else rest)"

definition bracketed :: "string \<Rightarrow> string" where
  "bracketed host = (if CHR '':'' \<in> set host \<and> hd host \<noteq> CHR ''['' then ''['' @ host @ '']'' else host)"

definition sanitize_url :: "(string \<Rightarrow> bool) \<Rightarrow> string \<Rightarrow> string option" where
  "sanitize_url bracketed_ok value =
     (case urlsplit bracketed_ok value of
        None \<Rightarrow> None
      | Some parsed \<Rightarrow>
          (case url_port parsed of
             None \<Rightarrow> None
           | Some port \<Rightarrow>
               (let host = bracketed (case hostname parsed of None \<Rightarrow> [] | Some h \<Rightarrow> h);
                    netloc = host @ (case port of None \<Rightarrow> [] | Some n \<Rightarrow> '':'' @ show_int n) in
                Some (urlunsplit (sr_scheme parsed) netloc
                  (if sr_path parsed = [] then ''/'' else sr_path parsed)))))"

definition otlp_trace_endpoint :: "settings \<Rightarrow> string" where
  "otlp_trace_endpoint s =
     (let endpoint = py_rstrip_char CHR ''/'' (OTEL_EXPORTER_OTLP_ENDPOINT s); suffix = ''/v1/traces'' in
      if starts_with (rev suffix) (rev endpoint) then endpoint else endpoint @ suffix)"

text \<open>The attributes the hooks set on a recording span.\<close>

definition url_attributes :: "string \<Rightarrow> string \<Rightarrow> (string \<times> string) list" where
  "url_attributes safe_url path =
     [(''url.full'', safe_url), (''url.path'', path), (''url.query'', []), (''http.url'', safe_url),
      (''http.target'', path)]"

text \<open>The ASGI scope: only well-typed entries are given, \<open>None\<close> standing for anything else.\<close>

record asgi_scope =
  sc_path :: "string option"
  sc_scheme :: "string option"
  sc_server :: "(string \<times> int option) option"
  sc_query_string :: string

definition nonempty_or :: "string \<Rightarrow> string option \<Rightarrow> string" where
  "nonempty_or d v = (case v of None \<Rightarrow> d | Some text \<Rightarrow> if text = [] then d else text)"

definition server_request_hook :: "asgi_scope \<Rightarrow> (string \<times> string) list" where
  "server_request_hook scope =
     (let path = nonempty_or ''/'' (sc_path scope);
          scheme = nonempty_or ''http'' (sc_scheme scope);
          (host, port) = (case sc_server scope of None \<Rightarrow> (''localhost'', None) | Some server \<Rightarrow> server);
          default_port = (scheme = ''http'' \<and> port = Some 80 \<or> scheme = ''https'' \<and> port = Some 443);
          port_suffix = (case port of None \<Rightarrow> [] | Some n \<Rightarrow> if default_port then [] else '':'' @ show_int n) in
      url_attributes (scheme @ ''://'' @ bracketed host @ port_suffix @ path) path)"

text \<open>\<open>None\<close>: the hook raises \<open>ValueError\<close>.\<close>

definition httpx_request_hook :: "(string \<Rightarrow> bool) \<Rightarrow> string \<Rightarrow> (string \<times> string) list option" where
  "httpx_request_hook bracketed_ok url =
     (case sanitize_url bracketed_ok url of
        None \<Rightarrow> None
      | Some safe_url \<Rightarrow>
          (case urlsplit bracketed_ok safe_url of
             None \<Rightarrow> None
           | Some u \<Rightarrow> Some (url_attributes safe_url (if sr_path u = [] then ''/'' else sr_path u))))"

section \<open>The trace context of an outbox message\<close>

definition TRACEPARENT_MAX_LENGTH :: nat where
  "TRACEPARENT_MAX_LENGTH = 256"

definition TRACESTATE_MAX_LENGTH :: nat where
  "TRACESTATE_MAX_LENGTH = 512"

text \<open>The argument is what the propagator injected into the empty carrier.\<close>

definition capture_trace_context :: "string option \<times> string option \<Rightarrow> string option \<times> string option" where
  "capture_trace_context carrier =
     (let (traceparent, tracestate) = carrier;
          (traceparent, tracestate) =
            (case traceparent of
               Some t \<Rightarrow> if TRACEPARENT_MAX_LENGTH < length t then (None, None) else (traceparent, tracestate)
             | None \<Rightarrow> (traceparent, tracestate)) in
      (traceparent, (case tracestate of
         Some t \<Rightarrow> if TRACESTATE_MAX_LENGTH < length t then None else tracestate | None \<Rightarrow> None)))"

text \<open>\<open>extract\<close> is the propagator's; \<open>None\<close> means that it raises, and \<open>fallback\<close> is \<open>Context()\<close>.\<close>

definition kept_value :: "nat \<Rightarrow> string option \<Rightarrow> string option" where
  "kept_value limit v =
     (case v of None \<Rightarrow> None | Some text \<Rightarrow> if text \<noteq> [] \<and> length text \<le> limit then Some text else None)"

definition extract_trace_context ::
    "(string option \<times> string option \<Rightarrow> 'c option) \<Rightarrow> 'c \<Rightarrow> string option \<Rightarrow> string option \<Rightarrow> 'c" where
  "extract_trace_context extract fallback traceparent tracestate =
     (case extract (kept_value TRACEPARENT_MAX_LENGTH traceparent, kept_value TRACESTATE_MAX_LENGTH tracestate) of
        None \<Rightarrow> fallback | Some context \<Rightarrow> context)"

section \<open>Setup and shutdown\<close>

text \<open>
  The first five fields are the module's globals, the next four what the instrumentors have
  installed, the last the providers that were shut down.
\<close>

record trace_state =
  ts_provider :: "int option"
  ts_app :: "int option"
  ts_httpx :: bool
  ts_redis :: bool
  ts_sqlalchemy :: bool
  ti_apps :: "int list"
  ti_httpx :: bool
  ti_redis :: bool
  ti_sqlalchemy :: bool
  ti_closed :: "int list"

record trace_env =
  te_new_provider :: int
  te_build_ok :: bool               \<comment> \<open>resource, sampler, provider and exporter\<close>
  te_fastapi_ok :: bool
  te_httpx_ok :: bool
  te_redis_ok :: bool
  te_sqlalchemy_ok :: bool
  te_flush_ok :: bool
  te_close_ok :: bool

text \<open>A step of the setup; \<open>None\<close>: it raises. \<open>instrument_app\<close> marks an application only once.\<close>

definition instrument_fastapi :: "trace_env \<Rightarrow> int \<Rightarrow> trace_state \<Rightarrow> trace_state option" where
  "instrument_fastapi te app st =
     (if te_fastapi_ok te
      then Some (st\<lparr>ti_apps := (if app \<in> set (ti_apps st) then ti_apps st else app # ti_apps st)\<rparr>) else None)"

definition instrument_httpx :: "trace_env \<Rightarrow> trace_state \<Rightarrow> trace_state option" where
  "instrument_httpx te st =
     (if ts_httpx st then Some st
      else if te_httpx_ok te then Some (st\<lparr>ti_httpx := True, ts_httpx := True\<rparr>) else None)"

definition instrument_redis :: "trace_env \<Rightarrow> trace_state \<Rightarrow> trace_state option" where
  "instrument_redis te st =
     (if ts_redis st then Some st
      else if te_redis_ok te then Some (st\<lparr>ti_redis := True, ts_redis := True\<rparr>) else None)"

definition instrument_sqlalchemy :: "trace_env \<Rightarrow> trace_state \<Rightarrow> trace_state option" where
  "instrument_sqlalchemy te st =
     (if ts_sqlalchemy st then Some st
      else if te_sqlalchemy_ok te then Some (st\<lparr>ti_sqlalchemy := True, ts_sqlalchemy := True\<rparr>) else None)"

text \<open>Steps in order; the state where the first one raises is kept, as an exception leaves it.\<close>

fun run_steps :: "(trace_state \<Rightarrow> trace_state option) list \<Rightarrow> trace_state \<Rightarrow> bool \<times> trace_state" where
  "run_steps [] st = (True, st)"
| "run_steps (f # fs) st = (case f st of None \<Rightarrow> (False, st) | Some st' \<Rightarrow> run_steps fs st')"

text \<open>The result is the provider; \<open>Inl\<close>: the instrumentation of a second application raises.\<close>

definition setup_tracing :: "trace_env \<Rightarrow> settings \<Rightarrow> int \<Rightarrow> trace_state \<Rightarrow> int option result \<times> trace_state" where
  "setup_tracing te s app st =
     (if \<not> TRACING_ENABLED s then (Inr None, st)
      else (case ts_provider st of
          Some provider \<Rightarrow>
            if ts_app st = None then
              (case instrument_fastapi te app st of
                 None \<Rightarrow> (Inl (ValueError ''unhandled''), st)
               | Some st' \<Rightarrow> (Inr (Some provider), st'\<lparr>ts_app := Some app\<rparr>))
            else (Inr (Some provider), st)
        | None \<Rightarrow>
            if \<not> te_build_ok te then (Inr None, st)
            else (case run_steps [instrument_fastapi te app, instrument_httpx te, instrument_redis te,
                     instrument_sqlalchemy te] st of
                (False, st') \<Rightarrow> (Inr None, st')
              | (True, st') \<Rightarrow>
                  (Inr (Some (te_new_provider te)),
                   st'\<lparr>ts_provider := Some (te_new_provider te), ts_app := Some app\<rparr>))))"

text \<open>\<open>OTEL_EXPORT_TIMEOUT_SECONDS\<close> only bounds the flush; its result is the library's.\<close>

definition force_flush_tracing :: "trace_env \<Rightarrow> bool \<Rightarrow> trace_state \<Rightarrow> bool" where
  "force_flush_tracing te flushed st = (if ts_provider st = None then True else if te_flush_ok te then flushed else False)"

definition get_tracer :: "trace_state \<Rightarrow> int option" where
  "get_tracer st = ts_provider st"

definition shutdown_tracing :: "trace_env \<Rightarrow> trace_state \<Rightarrow> trace_state" where
  "shutdown_tracing te st =
     (let st1 = st\<lparr>ts_provider := None, ts_app := None\<rparr>;
          st2 = (case ts_app st of
              Some app \<Rightarrow> if te_fastapi_ok te then st1\<lparr>ti_apps := removeAll app (ti_apps st1)\<rparr> else st1
            | None \<Rightarrow> st1);
          st3 = (if ts_httpx st2 then st2\<lparr>ti_httpx := (ti_httpx st2 \<and> \<not> te_httpx_ok te), ts_httpx := False\<rparr> else st2);
          st4 = (if ts_redis st3 then st3\<lparr>ti_redis := (ti_redis st3 \<and> \<not> te_redis_ok te), ts_redis := False\<rparr> else st3);
          st5 = (if ts_sqlalchemy st4
                 then st4\<lparr>ti_sqlalchemy := (ti_sqlalchemy st4 \<and> \<not> te_sqlalchemy_ok te), ts_sqlalchemy := False\<rparr>
                 else st4) in
      case ts_provider st of
        None \<Rightarrow> st5
      | Some provider \<Rightarrow> if te_close_ok te then st5\<lparr>ti_closed := provider # ti_closed st5\<rparr> else st5)"

text \<open>
  A process sets up tracing for its applications and shuts it down, in any order; the library may
  fail at any call of a setup, while every instrumentor can be removed.
\<close>

definition trace_start :: "trace_state \<Rightarrow> bool" where
  "trace_start st = (st = \<lparr>ts_provider = None, ts_app = None, ts_httpx = False, ts_redis = False,
     ts_sqlalchemy = False, ti_apps = [], ti_httpx = False, ti_redis = False, ti_sqlalchemy = False,
     ti_closed = []\<rparr>)"

inductive trace_step :: "trace_state \<Rightarrow> trace_state \<Rightarrow> bool" where
  step_setup: "setup_tracing te s app st = (r, st') \<Longrightarrow> trace_step st st'"
| step_shutdown: "te_fastapi_ok te \<Longrightarrow> te_httpx_ok te \<Longrightarrow> te_redis_ok te \<Longrightarrow> te_sqlalchemy_ok te \<Longrightarrow>
    trace_step st (shutdown_tracing te st)"

inductive_cases trace_stepE: "trace_step st st'"

definition trace_ok :: "trace_state \<Rightarrow> bool" where
  "trace_ok st =
     (ti_httpx st = ts_httpx st \<and> ti_redis st = ts_redis st \<and> ti_sqlalchemy st = ts_sqlalchemy st \<and>
      (ts_provider st = None) = (ts_app st = None) \<and>
      (\<forall>app. ts_app st = Some app \<longrightarrow>
         app \<in> set (ti_apps st) \<and> ti_httpx st \<and> ti_redis st \<and> ti_sqlalchemy st))"

section \<open>Characters of an exported URL\<close>

lemma partition_first: "c \<notin> set (fst (py_partition c s))"
  by (auto simp: py_partition_def dest: set_takeWhileD)

lemma partition_subset:
  "set (fst (py_partition c s)) \<subseteq> set s"
  "snd (py_partition c s) = Some r \<Longrightarrow> set r \<subseteq> set s"
proof -
  show "set (fst (py_partition c s)) \<subseteq> set s" by (auto simp: py_partition_def dest: set_takeWhileD)
  assume "snd (py_partition c s) = Some r"
  then obtain x where "dropWhile (\<lambda>x. x \<noteq> c) s = x # r"
    by (auto simp: py_partition_def split: list.splits)
  then show "set r \<subseteq> set s" by (metis set_dropWhileD set_subset_Cons subsetD subsetI)
qed

lemma to_lower_mark: "to_lower c \<in> set ''?#@'' \<Longrightarrow> c = to_lower c"
proof -
  assume mark: "to_lower c \<in> set ''?#@''"
  have "(of_char (to_lower c) :: nat) \<in> {63, 35, 64}" using mark by auto
  moreover have "(of_char (to_lower c) :: nat) = of_char c + 32" if "to_lower c \<noteq> c"
    using that by (auto simp: to_lower_def Let_def of_char_of split: if_splits)
  moreover have "65 \<le> (of_char c :: nat)" if "to_lower c \<noteq> c"
    using that by (auto simp: to_lower_def Let_def split: if_splits)
  ultimately show "c = to_lower c" by fastforce
qed

lemma casefold_mark: "m \<in> set ''?#@'' \<Longrightarrow> m \<in> set (py_casefold s) \<Longrightarrow> m \<in> set s"
  using to_lower_mark by (auto simp: py_casefold_def) metis+

lemma show_nat_marks: "m \<in> set ''?#@'' \<Longrightarrow> m \<notin> set (nat_digits n)"
proof (induction n rule: nat_digits.induct)
  case (1 n)
  have digit: "char_of (48 + d) \<noteq> m" if "d < 10" for d :: nat
  proof
    assume "char_of (48 + d) = m"
    then have "(of_char m :: nat) = (48 + d) mod 256" by (metis of_char_of)
    then show False using that 1(2) by auto
  qed
  show ?case using 1 digit [of n] digit [of "n mod 10"] by (subst nat_digits.simps) auto
qed

lemma show_int_marks:
  assumes "m \<in> set ''?#@''"
  shows "m \<notin> set (show_int n)"
proof -
  have "m \<noteq> CHR ''-''" using assms by auto
  then show ?thesis using show_nat_marks [OF assms] by (simp add: show_int_def)
qed

lemma takeWhile_marks: "m \<in> set ''/?#'' \<Longrightarrow> m \<notin> set (takeWhile (\<lambda>c. c \<notin> set ''/?#'') s)"
  by (auto dest: set_takeWhileD)

lemma scheme_char_mark: "m \<in> set ''?#@'' \<Longrightarrow> \<not> scheme_char m"
  by (auto simp: scheme_char_def ascii_alpha_def to_lower_def Let_def)

lemma urlsplit_parts:
  assumes "urlsplit ok url = Some u"
  shows "m \<in> set ''?#'' \<Longrightarrow> m \<notin> set (sr_netloc u)"
    and "m \<in> set ''?#'' \<Longrightarrow> m \<notin> set (sr_path u)"
    and "m \<in> set ''?#@'' \<Longrightarrow> m \<notin> set (sr_scheme u)"
proof -
  define url1 where "url1 = clean_url url"
  define before where "before = fst (py_partition CHR '':'' url1)"
  define schemed where "schemed = (CHR '':'' \<in> set url1 \<and> before \<noteq> [] \<and> ascii_alpha (hd before) \<and>
    list_all scheme_char before)"
  define url2 where "url2 = (if schemed then drop (length before + 1) url1 else url1)"
  define netloc where "netloc = (if starts_with ''//'' url2 then takeWhile (\<lambda>c. c \<notin> set ''/?#'') (drop 2 url2) else [])"
  define url3 where "url3 = (if starts_with ''//'' url2 then dropWhile (\<lambda>c. c \<notin> set ''/?#'') (drop 2 url2) else url2)"
  define url4 where "url4 = fst (py_partition CHR ''#'' url3)"
  have u: "sr_netloc u = netloc" "sr_path u = fst (py_partition CHR ''?'' url4)"
    "sr_scheme u = (if schemed then py_casefold before else [])"
    using assms unfolding urlsplit_def Let_def url1_def before_def schemed_def url2_def netloc_def url3_def url4_def
    by (auto split: prod.splits if_splits)
  show "m \<in> set ''?#'' \<Longrightarrow> m \<notin> set (sr_netloc u)"
    using takeWhile_marks [of m] by (auto simp: u netloc_def)
  have "CHR ''#'' \<notin> set url4" unfolding url4_def by (rule partition_first)
  then show "m \<in> set ''?#'' \<Longrightarrow> m \<notin> set (sr_path u)"
    using partition_first [of "CHR ''?''" url4] partition_subset(1) [of "CHR ''?''" url4] by (auto simp: u(2))
  assume mark: "m \<in> set ''?#@''"
  show "m \<notin> set (sr_scheme u)"
    using casefold_mark [OF mark, of before] scheme_char_mark [OF mark]
    by (auto simp: u(3) schemed_def list_all_iff)
qed

lemma hostinfo_chars:
  "m \<in> set (rev (takeWhile (\<lambda>c. c \<noteq> CHR ''@'') (rev s))) \<Longrightarrow> m \<in> set s \<and> m \<noteq> CHR ''@''"
  by (auto dest: set_takeWhileD)

lemma hostname_chars:
  assumes "hostname u = Some h" and "m \<in> set h" and "m \<in> set ''?#@''"
  shows "m \<in> set (sr_netloc u) \<and> m \<noteq> CHR ''@''"
proof -
  let ?info = "rev (takeWhile (\<lambda>c. c \<noteq> CHR ''@'') (rev (sr_netloc u)))"
  define host where "host = (case snd (py_partition CHR ''['' ?info) of
     Some b \<Rightarrow> fst (py_partition CHR '']'' b) | None \<Rightarrow> fst (py_partition CHR '':'' ?info))"
  have host: "set host \<subseteq> set ?info"
  proof (cases "snd (py_partition CHR ''['' ?info)")
    case None
    then show ?thesis unfolding host_def using partition_subset(1) [of "CHR '':''" ?info] by simp
  next
    case (Some b)
    then have "set host \<subseteq> set b" unfolding host_def using partition_subset(1) [of "CHR '']''" b] by simp
    then show ?thesis using partition_subset(2) [OF Some] by blast
  qed
  have h: "h = (case py_partition CHR ''%'' host of (name, None) \<Rightarrow> py_casefold name
     | (name, Some zone) \<Rightarrow> py_casefold name @ CHR ''%'' # zone)"
    using assms(1) unfolding hostname_def Let_def host_def [symmetric]
    by (auto split: if_splits prod.splits option.splits)
  have "m \<in> set host"
  proof (cases "snd (py_partition CHR ''%'' host)")
    case None
    then have "m \<in> set (py_casefold (fst (py_partition CHR ''%'' host)))"
      using h assms(2) by (auto split: prod.splits)
    then show ?thesis using casefold_mark [OF assms(3)] partition_subset(1) by blast
  next
    case (Some zone)
    then have "m \<in> set (py_casefold (fst (py_partition CHR ''%'' host))) \<or> m = CHR ''%'' \<or> m \<in> set zone"
      using h assms(2) by (auto split: prod.splits)
    then show ?thesis
      using casefold_mark [OF assms(3)] partition_subset(1) partition_subset(2) [OF Some] assms(3) by auto
  qed
  then show ?thesis using host hostinfo_chars by blast
qed

lemma urlunsplit_char:
  assumes "m \<notin> set scheme" "m \<notin> set netloc" "m \<notin> set path" "m \<notin> set '':/''"
  shows "m \<notin> set (urlunsplit scheme netloc path)"
  using assms by (simp add: urlunsplit_def Let_def)

section \<open>Lemmas on the setup\<close>

lemmas instrument_defs = instrument_fastapi_def instrument_httpx_def instrument_redis_def instrument_sqlalchemy_def

lemma run_instruments:
  assumes "run_steps [instrument_fastapi te app, instrument_httpx te, instrument_redis te, instrument_sqlalchemy te] st =
    (b, st')"
    and "ti_httpx st = ts_httpx st" "ti_redis st = ts_redis st" "ti_sqlalchemy st = ts_sqlalchemy st"
  shows "ti_httpx st' = ts_httpx st'" "ti_redis st' = ts_redis st'" "ti_sqlalchemy st' = ts_sqlalchemy st'"
    "ts_provider st' = ts_provider st" "ts_app st' = ts_app st"
    "b \<Longrightarrow> app \<in> set (ti_apps st') \<and> ti_httpx st' \<and> ti_redis st' \<and> ti_sqlalchemy st'"
  using assms by (auto simp: instrument_defs split: if_splits option.splits)

lemma run_instruments_app:
  assumes "run_steps [instrument_fastapi te app, instrument_httpx te, instrument_redis te, instrument_sqlalchemy te] st =
    (b, st')" and "te_fastapi_ok te"
  shows "app \<in> set (ti_apps st') \<and> ts_app st' = ts_app st \<and> ts_provider st' = ts_provider st"
  using assms by (auto simp: instrument_defs split: if_splits option.splits)

lemma setup_tracing_ok:
  assumes "trace_ok st" and "setup_tracing te s app st = (r, st')"
  shows "trace_ok st'"
proof (cases "TRACING_ENABLED s \<and> ts_provider st = None \<and> te_build_ok te")
  case False
  then show ?thesis using assms by (auto simp: setup_tracing_def trace_ok_def split: if_splits option.splits)
next
  case True
  obtain b st1 where run: "run_steps [instrument_fastapi te app, instrument_httpx te, instrument_redis te,
      instrument_sqlalchemy te] st = (b, st1)" by (rule prod.exhaust)
  have st': "st' = (if b then st1\<lparr>ts_provider := Some (te_new_provider te), ts_app := Some app\<rparr> else st1)"
    using True assms(2) run by (auto simp: setup_tracing_def split: bool.splits)
  have "ts_app st = None" using assms(1) True by (simp add: trace_ok_def)
  then show ?thesis using run_instruments [OF run] assms(1) True st' by (simp add: trace_ok_def)
qed

lemma shutdown_tracing_ok:
  assumes "trace_ok st" and "te_fastapi_ok te" "te_httpx_ok te" "te_redis_ok te" "te_sqlalchemy_ok te"
  shows "trace_ok (shutdown_tracing te st)"
  using assms by (simp add: shutdown_tracing_def trace_ok_def Let_def split: option.split)

interpretation tracing: invariant_system trace_start trace_step trace_ok
proof
  show "trace_ok s" if "trace_start s" for s using that by (simp add: trace_start_def trace_ok_def)
  show "trace_ok t" if "trace_ok s" and "trace_step s t" for s t
    using that(2,1) by (cases rule: trace_step.cases) (auto intro: setup_tracing_ok shutdown_tracing_ok)
qed

lemma capture_limits:
  assumes "capture_trace_context carrier = (tp, ts)"
  shows "tp = Some v \<Longrightarrow> length v \<le> TRACEPARENT_MAX_LENGTH" "ts = Some v \<Longrightarrow> length v \<le> TRACESTATE_MAX_LENGTH"
    "tp = Some v \<Longrightarrow> fst carrier = tp" "ts = Some v \<Longrightarrow> snd carrier = ts"
  using assms by (auto simp: capture_trace_context_def Let_def split: prod.splits option.splits if_splits)

lemma kept_value_id:
  "v \<noteq> Some [] \<Longrightarrow> (\<And>t. v = Some t \<Longrightarrow> length t \<le> limit) \<Longrightarrow> kept_value limit v = v"
  by (cases v) (auto simp: kept_value_def)

section \<open>Properties\<close>

text \<open>
  A URL exported by the client hook has no query and no fragment, and its authority has no
  user information, whatever URL is requested.
\<close>

theorem sanitized_url_clean:
  assumes "sanitize_url ok url = Some safe"
  shows "CHR ''?'' \<notin> set safe \<and> CHR ''#'' \<notin> set safe \<and>
    (\<exists>scheme netloc path. safe = urlunsplit scheme netloc path \<and> CHR ''@'' \<notin> set netloc \<and> CHR ''@'' \<notin> set scheme)"
proof -
  obtain u port where u: "urlsplit ok url = Some u" and port: "url_port u = Some port"
    using assms by (auto simp: sanitize_url_def split: option.splits)
  define host where "host = (case hostname u of None \<Rightarrow> [] | Some h \<Rightarrow> h)"
  define netloc where "netloc = bracketed host @ (case port of None \<Rightarrow> [] | Some n \<Rightarrow> '':'' @ show_int n)"
  define path where "path = (if sr_path u = [] then ''/'' else sr_path u)"
  have safe: "safe = urlunsplit (sr_scheme u) netloc path"
    using assms u port unfolding host_def netloc_def path_def by (simp add: sanitize_url_def Let_def)
  have host: "m \<notin> set host" if "m \<in> set ''?#@''" for m
  proof (cases "hostname u")
    case (Some h)
    then show ?thesis using hostname_chars [OF Some _ that] urlsplit_parts(1) [OF u, of m] that
      by (auto simp: host_def)
  qed (simp add: host_def)
  have netloc: "m \<notin> set netloc" if "m \<in> set ''?#@''" for m
    using host [OF that] show_int_marks [OF that] that
    by (auto simp: netloc_def bracketed_def split: option.split)
  have "m \<notin> set safe" if m: "m \<in> set ''?#''" for m
  proof -
    have m3: "m \<in> set ''?#@''" using m by auto
    have "m \<notin> set path" using urlsplit_parts(2) [OF u m] m by (auto simp: path_def)
    moreover have "m \<notin> set '':/''" using m by auto
    ultimately show ?thesis unfolding safe
      by (intro urlunsplit_char urlsplit_parts(3) [OF u m3] netloc [OF m3])
  qed
  then have "CHR ''?'' \<notin> set safe" "CHR ''#'' \<notin> set safe" by simp_all
  moreover have "CHR ''@'' \<notin> set netloc" "CHR ''@'' \<notin> set (sr_scheme u)"
    using netloc urlsplit_parts(3) [OF u] by simp_all
  ultimately show ?thesis using safe by blast
qed

theorem sanitized_url_clean_witness:
  "sanitize_url (\<lambda>_. True) ''https://user:pw@[2001:DB8::1]?code=1#f'' = Some ''https://[2001:db8::1]/'' \<and>
   CHR ''?'' \<notin> set ''https://[2001:db8::1]/''"
proof -
  have run: "sanitize_url (\<lambda>_. True) ''https://user:pw@[2001:DB8::1]?code=1#f'' =
      Some ''https://[2001:db8::1]/''" by code_simp
  from sanitized_url_clean [OF run] have "CHR ''?'' \<notin> set ''https://[2001:db8::1]/''" by (rule conjunct1)
  then show ?thesis using run by (intro conjI)
qed

text \<open>
  Whatever context a request carries, what its outbox message stores fits the two columns, and
  the worker that claims the message continues exactly the stored context; a context within the
  limits is stored unchanged.
\<close>

theorem trace_context_travels:
  assumes "fst carrier \<noteq> Some []" and "snd carrier \<noteq> Some []"
    and "m = outbox_row cr i now (capture_trace_context carrier) mt p th e"
    and "c = claimed_of os owner later m"
  shows "(\<forall>v. ob_traceparent m = Some v \<longrightarrow> length v \<le> 256) \<and> (\<forall>v. ob_tracestate m = Some v \<longrightarrow> length v \<le> 512) \<and>
    extract_trace_context extractor fallback (cm_traceparent c) (cm_tracestate c) =
      (case extractor (ob_traceparent m, ob_tracestate m) of None \<Rightarrow> fallback | Some context \<Rightarrow> context) \<and>
    ((\<forall>v. fst carrier = Some v \<longrightarrow> length v \<le> 256) \<and> (\<forall>v. snd carrier = Some v \<longrightarrow> length v \<le> 512) \<longrightarrow>
      (ob_traceparent m, ob_tracestate m) = carrier)"
proof -
  obtain tp ts where cap: "capture_trace_context carrier = (tp, ts)" by (rule prod.exhaust)
  note limits = capture_limits [OF cap]
  have m: "ob_traceparent m = tp" "ob_tracestate m = ts" using assms(3) cap by (simp_all add: outbox_row_def)
  have c: "cm_traceparent c = tp" "cm_tracestate c = ts"
    using assms(4) m by (simp_all add: claimed_of_def lease_row_def Let_def)
  have "tp \<noteq> Some []" "ts \<noteq> Some []" using limits(3,4) [of "[]"] assms(1,2) by auto
  then have "kept_value TRACEPARENT_MAX_LENGTH tp = tp" "kept_value TRACESTATE_MAX_LENGTH ts = ts"
    using limits(1,2) by (auto intro: kept_value_id)
  then have "extract_trace_context extractor fallback (cm_traceparent c) (cm_tracestate c) =
      (case extractor (ob_traceparent m, ob_tracestate m) of None \<Rightarrow> fallback | Some context \<Rightarrow> context)"
    by (simp add: extract_trace_context_def c m)
  moreover have "(tp, ts) = carrier"
    if "\<forall>v. fst carrier = Some v \<longrightarrow> length v \<le> 256" "\<forall>v. snd carrier = Some v \<longrightarrow> length v \<le> 512"
    using that cap by (cases carrier)
      (auto simp: capture_trace_context_def TRACEPARENT_MAX_LENGTH_def TRACESTATE_MAX_LENGTH_def
        split: option.splits if_splits)
  ultimately show ?thesis
    using limits(1,2) by (simp add: m TRACEPARENT_MAX_LENGTH_def TRACESTATE_MAX_LENGTH_def)
qed

theorem trace_context_travels_witness:
  "extract_trace_context (\<lambda>c. Some c) (None, None)
     (cm_traceparent (claimed_of sample_outbox_settings ''w'' 5 (outbox_row sample_crypto 1 0 (capture_trace_context (Some ''00-1'', None)) ''account'' \<lparr>ep_action_url = [], ep_recipient = [], ep_token = []\<rparr> [] (Naive 9))))
     (cm_tracestate (claimed_of sample_outbox_settings ''w'' 5 (outbox_row sample_crypto 1 0 (capture_trace_context (Some ''00-1'', None)) ''account'' \<lparr>ep_action_url = [], ep_recipient = [], ep_token = []\<rparr> [] (Naive 9)))) =
   (Some ''00-1'', None)"
proof -
  let ?p = "\<lparr>ep_action_url = [], ep_recipient = [], ep_token = []\<rparr>"
  let ?m = "outbox_row sample_crypto 1 0 (capture_trace_context (Some ''00-1'', None)) ''account'' ?p [] (Naive 9)"
  note facts = trace_context_travels [where carrier = "(Some ''00-1'', None)" and extractor = Some and
      fallback = "(None, None)" and cr = sample_crypto and i = 1 and now = 0 and mt = "''account''" and
      p = ?p and th = "[]" and e = "Naive 9" and os = sample_outbox_settings and owner = "''w''" and later = 5,
      OF _ _ refl refl]
  have "ob_traceparent ?m = Some ''00-1''" "ob_tracestate ?m = None"
    by (simp_all add: outbox_row_def capture_trace_context_def TRACEPARENT_MAX_LENGTH_def)
  then show ?thesis using facts by simp
qed

text \<open>
  Whatever the order of setups and shutdowns, and wherever a setup failed, tracing is either
  on, with its application and its three clients instrumented, or off; a shutdown turns it off and
  leaves no client instrumented.
\<close>

theorem tracing_lifecycle:
  assumes "trace_start st0" and "trace_step\<^sup>*\<^sup>* st0 st"
    and "te_fastapi_ok te" "te_httpx_ok te" "te_redis_ok te" "te_sqlalchemy_ok te"
  shows "(get_tracer st \<noteq> None \<longrightarrow>
      (\<exists>app. ts_app st = Some app \<and> app \<in> set (ti_apps st)) \<and> ti_httpx st \<and> ti_redis st \<and> ti_sqlalchemy st) \<and>
    (let off = shutdown_tracing te st in
      get_tracer off = None \<and> \<not> ti_httpx off \<and> \<not> ti_redis off \<and> \<not> ti_sqlalchemy off \<and>
      (\<forall>app. ts_app st = Some app \<longrightarrow> app \<notin> set (ti_apps off)))"
proof -
  have "trace_ok st" using tracing.reachable_inv [OF assms(1,2)] .
  then show ?thesis using assms(3-6)
    by (cases "ts_app st"; cases "ts_provider st") (simp_all add: trace_ok_def get_tracer_def shutdown_tracing_def Let_def)
qed

definition trace_env_ex :: "bool \<Rightarrow> trace_env" where
  "trace_env_ex ok = \<lparr>te_new_provider = 1, te_build_ok = True, te_fastapi_ok = True, te_httpx_ok = True,
     te_redis_ok = True, te_sqlalchemy_ok = ok, te_flush_ok = True, te_close_ok = True\<rparr>"

definition trace_start_ex :: trace_state where
  "trace_start_ex = \<lparr>ts_provider = None, ts_app = None, ts_httpx = False, ts_redis = False,
     ts_sqlalchemy = False, ti_apps = [], ti_httpx = False, ti_redis = False, ti_sqlalchemy = False,
     ti_closed = []\<rparr>"

lemmas trace_ex_defs = trace_env_ex_def trace_start_ex_def setup_tracing_def instrument_defs

theorem tracing_lifecycle_witness:
  "get_tracer (snd (setup_tracing (trace_env_ex True) (sample_settings\<lparr>TRACING_ENABLED := True\<rparr>) 7 trace_start_ex)) = Some 1 \<and>
   get_tracer (shutdown_tracing (trace_env_ex True)
     (snd (setup_tracing (trace_env_ex True) (sample_settings\<lparr>TRACING_ENABLED := True\<rparr>) 7 trace_start_ex))) = None"
proof -
  let ?r = "setup_tracing (trace_env_ex True) (sample_settings\<lparr>TRACING_ENABLED := True\<rparr>) 7 trace_start_ex"
  have "trace_start trace_start_ex" by (simp add: trace_start_def trace_start_ex_def)
  moreover have "trace_step\<^sup>*\<^sup>* trace_start_ex (snd ?r)"
    using step_setup [of "trace_env_ex True" "sample_settings\<lparr>TRACING_ENABLED := True\<rparr>" 7 trace_start_ex]
    by (intro r_into_rtranclp) (metis prod.collapse)
  moreover have "te_fastapi_ok (trace_env_ex True)" "te_httpx_ok (trace_env_ex True)"
    "te_redis_ok (trace_env_ex True)" "te_sqlalchemy_ok (trace_env_ex True)"
    by (simp_all add: trace_env_ex_def)
  ultimately have "get_tracer (shutdown_tracing (trace_env_ex True) (snd ?r)) = None"
    using tracing_lifecycle by (simp add: Let_def)
  moreover have "get_tracer (snd ?r) = Some 1" by (simp add: get_tracer_def trace_ex_defs)
  ultimately show ?thesis by (intro conjI)
qed

text \<open>
  A setup that fails after the application was instrumented reports that tracing is off, and no
  later shutdown removes that instrumentation.
\<close>

theorem failed_setup_leaks:
  assumes "TRACING_ENABLED s" and "te_fastapi_ok te" and "te_build_ok te"
    and "ts_provider st = None" "ts_app st = None"
    and "setup_tracing te s app st = (Inr None, st')"
  shows "get_tracer st' = None \<and> app \<in> set (ti_apps st') \<and> app \<in> set (ti_apps (shutdown_tracing te' st'))"
proof -
  obtain b st1 where run: "run_steps [instrument_fastapi te app, instrument_httpx te, instrument_redis te,
      instrument_sqlalchemy te] st = (b, st1)" by (rule prod.exhaust)
  have st': "st' = st1" using assms run by (auto simp: setup_tracing_def split: bool.splits)
  show ?thesis using run_instruments_app [OF run assms(2)] assms(4,5) st'
    by (simp add: get_tracer_def shutdown_tracing_def Let_def)
qed

theorem failed_setup_leaks_witness:
  "7 \<in> set (ti_apps (shutdown_tracing (trace_env_ex True)
     (snd (setup_tracing (trace_env_ex False) (sample_settings\<lparr>TRACING_ENABLED := True\<rparr>) 7 trace_start_ex))))"
proof -
  let ?r = "setup_tracing (trace_env_ex False) (sample_settings\<lparr>TRACING_ENABLED := True\<rparr>) 7 trace_start_ex"
  have "?r = (Inr None, snd ?r)" by (simp add: trace_ex_defs)
  then show ?thesis
    using failed_setup_leaks [of "sample_settings\<lparr>TRACING_ENABLED := True\<rparr>" "trace_env_ex False" trace_start_ex 7 "snd ?r"]
    by (simp add: trace_env_ex_def trace_start_ex_def)
qed

section \<open>Deliveries under a span\<close>

text \<open>
  \<open>OutboxWorker._process\<close>: without a tracer the message is processed as it is, otherwise within a
  consumer span whose parent is the context captured when the message was enqueued.
\<close>

record 'c span =
  sp_name :: string
  sp_context :: 'c
  sp_kind :: string
  sp_destination :: string
  sp_attempt :: int
  sp_lease_recovered :: bool

definition delivery_span ::
    "(string option \<times> string option \<Rightarrow> 'c option) \<Rightarrow> 'c \<Rightarrow> claimed_message \<Rightarrow> 'c span" where
  "delivery_span extract fallback c =
     \<lparr>sp_name = ''outbox.process'',
      sp_context = extract_trace_context extract fallback (cm_traceparent c) (cm_tracestate c),
      sp_kind = ''CONSUMER'', sp_destination = cm_message_type c, sp_attempt = cm_attempt_count c,
      sp_lease_recovered = cm_lease_recovered c\<rparr>"

definition traced_process ::
    "(string option \<times> string option \<Rightarrow> 'c option) \<Rightarrow> 'c \<Rightarrow> trace_state \<Rightarrow> worker \<Rightarrow> delivery_event \<Rightarrow>
     claimed_message \<Rightarrow> tables \<times> worker_log \<Rightarrow>
     (unit result \<times> tables \<times> worker_log) \<times> 'c span list" where
  "traced_process extract fallback st wk ev c s =
     (case get_tracer st of
        None \<Rightarrow> (process_message wk ev c s, [])
      | Some tracer \<Rightarrow> (process_message wk ev c s, [delivery_span extract fallback c]))"

text \<open>Tracing never changes what a delivery does, and records one span exactly when it is on.\<close>

theorem tracing_transparent:
  "fst (traced_process extract fallback st wk ev c s) = process_message wk ev c s \<and>
   length (snd (traced_process extract fallback st wk ev c s)) = (if get_tracer st = None then 0 else 1)"
  by (simp add: traced_process_def split: option.split)

end
