(* ===== verification/Catalog.thy ===== *)
theory Catalog
  imports Prelude
begin

text \<open>
  The part of PostgreSQL that the migrations of \<^verbatim>\<open>alembic/versions\<close> and the table definitions of
  \<^verbatim>\<open>src/app/models\<close> use: tables with columns, constraints, indexes and rows, and the statements
  of Alembic's \<^verbatim>\<open>op\<close> on them. A statement PostgreSQL refuses is \<open>None\<close>: a name that is taken
  or missing, an object another one depends on, or rows that violate what is being added.
\<close>

section \<open>Tables\<close>

datatype sql_type =
  SInteger | SBigInteger | SString nat | SText | SBoolean | SDate | SUuid | SLargeBinary
| SDateTime | SDateTimeTz

datatype sql_value = NullV | BoolV bool | IntV int | TextV string | DateV int | TimeV int

datatype server_default = NoDefault | Constant sql_value | CurrentTime

record column =
  cl_name :: string
  cl_type :: sql_type
  cl_nullable :: bool
  cl_default :: server_default

definition required :: "string \<Rightarrow> sql_type \<Rightarrow> column" where
  "required c ty = \<lparr>cl_name = c, cl_type = ty, cl_nullable = False, cl_default = NoDefault\<rparr>"

definition optional :: "string \<Rightarrow> sql_type \<Rightarrow> column" where
  "optional c ty = \<lparr>cl_name = c, cl_type = ty, cl_nullable = True, cl_default = NoDefault\<rparr>"

definition defaulted :: "server_default \<Rightarrow> string \<Rightarrow> sql_type \<Rightarrow> column" where
  "defaulted v c ty = \<lparr>cl_name = c, cl_type = ty, cl_nullable = False, cl_default = v\<rparr>"

lemma column_names_simps [simp]:
  "cl_name (required c ty) = c" "cl_name (optional c ty) = c" "cl_name (defaulted v c ty) = c"
  by (simp_all add: required_def optional_def defaulted_def)

type_synonym row = "(string \<times> sql_value) list"

definition field :: "row \<Rightarrow> string \<Rightarrow> sql_value" where
  "field r c = (case map_of r c of None \<Rightarrow> NullV | Some v \<Rightarrow> v)"

text \<open>The conditions of the \<open>CHECK\<close> constraints, in SQL's three-valued logic.\<close>

datatype condition =
  OneOf string "string list"
| Missing string
| Present string
| Between string int int
| AtLeast string int
| AtMost string string
| Differ string string
| Currency string
| EndsAfter string string string          \<comment> \<open>\<open>a = b + c * INTERVAL '1 minute'\<close>\<close>
| Both condition condition
| Either condition condition
| Neg condition

fun and3 :: "bool option \<Rightarrow> bool option \<Rightarrow> bool option" where
  "and3 (Some False) _ = Some False"
| "and3 _ (Some False) = Some False"
| "and3 (Some True) b = b"
| "and3 a (Some True) = a"
| "and3 None None = None"

definition not3 :: "bool option \<Rightarrow> bool option" where
  "not3 a = map_option Not a"

definition or3 :: "bool option \<Rightarrow> bool option \<Rightarrow> bool option" where
  "or3 a b = not3 (and3 (not3 a) (not3 b))"

definition is_currency :: "string \<Rightarrow> bool" where
  "is_currency s = (length s = 3 \<and> list_all (\<lambda>c. 65 \<le> (of_char c :: nat) \<and> (of_char c :: nat) \<le> 90) s)"

fun holds :: "condition \<Rightarrow> row \<Rightarrow> bool option" where
  "holds (OneOf c vs) r = (case field r c of TextV s \<Rightarrow> Some (s \<in> set vs) | _ \<Rightarrow> None)"
| "holds (Missing c) r = Some (field r c = NullV)"
| "holds (Present c) r = Some (field r c \<noteq> NullV)"
| "holds (Between c lo hi) r = (case field r c of IntV n \<Rightarrow> Some (lo \<le> n \<and> n \<le> hi) | _ \<Rightarrow> None)"
| "holds (AtLeast c lo) r = (case field r c of IntV n \<Rightarrow> Some (lo \<le> n) | _ \<Rightarrow> None)"
| "holds (AtMost c d) r =
     (case (field r c, field r d) of (IntV m, IntV n) \<Rightarrow> Some (m \<le> n) | _ \<Rightarrow> None)"
| "holds (Differ c d) r =
     (case (field r c, field r d) of (TextV s, TextV t) \<Rightarrow> Some (s \<noteq> t) | _ \<Rightarrow> None)"
| "holds (Currency c) r = (case field r c of TextV s \<Rightarrow> Some (is_currency s) | _ \<Rightarrow> None)"
| "holds (EndsAfter a b c) r =
     (case (field r a, field r b, field r c) of
        (TimeV e, TimeV s, IntV n) \<Rightarrow> Some (e = s + minutes n) | _ \<Rightarrow> None)"
| "holds (Both p q) r = and3 (holds p r) (holds q r)"
| "holds (Either p q) r = or3 (holds p r) (holds q r)"
| "holds (Neg p) r = not3 (holds p r)"

datatype on_delete = NoAction | Cascade | Restrict

datatype tconstraint =
  PrimaryKey "string list"
| UniqueKey "string list"
| CheckThat condition
| ForeignKey "string list" string "string list" on_delete
| NoOverlap string string string string      \<comment> \<open>owner, start, end, status: \<open>EXCLUDE\<close> of the scheduled rows\<close>

datatype index_key = Plain string | LowerTrim string

record index_def =
  ix_name :: string
  ix_keys :: "index_key list"
  ix_unique :: bool

record table_def =
  tb_columns :: "column list"
  tb_constraints :: "(string \<times> tconstraint) list"
  tb_indexes :: "index_def list"
  tb_rows :: "row list"

type_synonym database = "(string \<times> table_def) list"

type_synonym statement = "database \<Rightarrow> database option"

section \<open>What the rows have to satisfy\<close>

definition key_value :: "row \<Rightarrow> index_key \<Rightarrow> sql_value" where
  "key_value r k =
     (case k of
        Plain c \<Rightarrow> field r c
      | LowerTrim c \<Rightarrow> (case field r c of TextV s \<Rightarrow> TextV (sql_lower_trim s) | v \<Rightarrow> v))"

text \<open>Rows with a \<open>NULL\<close> in the key are never equal.\<close>

definition unique_keys :: "index_key list \<Rightarrow> row list \<Rightarrow> bool" where
  "unique_keys ks rs = distinct (filter (\<lambda>vs. NullV \<notin> set vs) (map (\<lambda>r. map (key_value r) ks) rs))"

definition overlapping :: "string \<Rightarrow> string \<Rightarrow> string \<Rightarrow> string \<Rightarrow> row \<Rightarrow> row \<Rightarrow> bool" where
  "overlapping ow st en status a b =
     (field a status = TextV ''scheduled'' \<and> field b status = TextV ''scheduled'' \<and>
      field a ow = field b ow \<and> field a ow \<noteq> NullV \<and>
      (case (field a st, field a en, field b st, field b en) of
         (TimeV s1, TimeV e1, TimeV s2, TimeV e2) \<Rightarrow> s1 < e1 \<and> s2 < e2 \<and> s1 < e2 \<and> s2 < e1
       | _ \<Rightarrow> False))"

fun pairwise_apart :: "(row \<Rightarrow> row \<Rightarrow> bool) \<Rightarrow> row list \<Rightarrow> bool" where
  "pairwise_apart clash [] = True"
| "pairwise_apart clash (r # rs) = (list_all (\<lambda>s. \<not> clash r s) rs \<and> pairwise_apart clash rs)"

definition referenced :: "string list \<Rightarrow> string list \<Rightarrow> row list \<Rightarrow> row \<Rightarrow> bool" where
  "referenced cols ref_cols targets r =
     (NullV \<in> set (map (field r) cols) \<or>
      list_ex (\<lambda>t. map (field t) ref_cols = map (field r) cols) targets)"

definition rows_of :: "string \<Rightarrow> database \<Rightarrow> row list" where
  "rows_of t d = (case map_of d t of None \<Rightarrow> [] | Some td \<Rightarrow> tb_rows td)"

definition rows_satisfy :: "database \<Rightarrow> row list \<Rightarrow> tconstraint \<Rightarrow> bool" where
  "rows_satisfy d rs c =
     (case c of
        PrimaryKey cols \<Rightarrow> unique_keys (map Plain cols) rs \<and>
          list_all (\<lambda>r. NullV \<notin> set (map (field r) cols)) rs
      | UniqueKey cols \<Rightarrow> unique_keys (map Plain cols) rs
      | CheckThat p \<Rightarrow> list_all (\<lambda>r. holds p r \<noteq> Some False) rs
      | ForeignKey cols ref ref_cols _ \<Rightarrow> list_all (referenced cols ref_cols (rows_of ref d)) rs
      | NoOverlap ow st en status \<Rightarrow> pairwise_apart (overlapping ow st en status) rs)"

section \<open>Names and dependencies\<close>

fun needs_index :: "tconstraint \<Rightarrow> bool" where
  "needs_index (PrimaryKey _) = True"
| "needs_index (UniqueKey _) = True"
| "needs_index (NoOverlap _ _ _ _) = True"
| "needs_index _ = False"

text \<open>Tables and indexes share one name space; a key constraint has an index of its own name.\<close>

definition relation_names :: "database \<Rightarrow> string list" where
  "relation_names d = concat (map (\<lambda>(t, td).
     t # map ix_name (tb_indexes td) @ map fst (filter (\<lambda>c. needs_index (snd c)) (tb_constraints td))) d)"

definition column_names :: "table_def \<Rightarrow> string list" where
  "column_names td = map cl_name (tb_columns td)"

fun condition_columns :: "condition \<Rightarrow> string list" where
  "condition_columns (Both p q) = condition_columns p @ condition_columns q"
| "condition_columns (Either p q) = condition_columns p @ condition_columns q"
| "condition_columns (Neg p) = condition_columns p"
| "condition_columns (EndsAfter a b c) = [a, b, c]"
| "condition_columns (AtMost a b) = [a, b]"
| "condition_columns (Differ a b) = [a, b]"
| "condition_columns (OneOf a _) = [a]"
| "condition_columns (Missing a) = [a]"
| "condition_columns (Present a) = [a]"
| "condition_columns (Between a _ _) = [a]"
| "condition_columns (AtLeast a _) = [a]"
| "condition_columns (Currency a) = [a]"

fun constraint_columns :: "tconstraint \<Rightarrow> string list" where
  "constraint_columns (PrimaryKey cols) = cols"
| "constraint_columns (UniqueKey cols) = cols"
| "constraint_columns (CheckThat p) = condition_columns p"
| "constraint_columns (ForeignKey cols _ _ _) = cols"
| "constraint_columns (NoOverlap a b c s) = [a, b, c, s]"

definition index_columns :: "index_def \<Rightarrow> string list" where
  "index_columns ix = map (\<lambda>k. case k of Plain c \<Rightarrow> c | LowerTrim c \<Rightarrow> c) (ix_keys ix)"

text \<open>A foreign key may refer to the columns of a primary key or unique constraint only.\<close>

definition key_columns :: "table_def \<Rightarrow> string list \<Rightarrow> bool" where
  "key_columns td cols = list_ex (\<lambda>(_, c). case c of
     PrimaryKey ks \<Rightarrow> ks = cols | UniqueKey ks \<Rightarrow> ks = cols | _ \<Rightarrow> False) (tb_constraints td)"

definition well_formed :: "database \<Rightarrow> table_def \<Rightarrow> tconstraint \<Rightarrow> bool" where
  "well_formed d td c =
     (set (constraint_columns c) \<subseteq> set (column_names td) \<and>
      (case c of
         ForeignKey _ ref ref_cols _ \<Rightarrow>
           (case map_of d ref of None \<Rightarrow> False | Some target \<Rightarrow> key_columns target ref_cols)
       | _ \<Rightarrow> True))"

text \<open>Some foreign key refers to these columns of the table.\<close>

definition referred :: "string \<Rightarrow> (string list \<Rightarrow> bool) \<Rightarrow> database \<Rightarrow> bool" where
  "referred t these d = list_ex (\<lambda>(_, td). list_ex (\<lambda>(_, c). case c of
     ForeignKey _ ref ref_cols _ \<Rightarrow> ref = t \<and> these ref_cols | _ \<Rightarrow> False) (tb_constraints td)) d"

fun join_names :: "string list \<Rightarrow> string" where
  "join_names [] = []"
| "join_names [c] = c"
| "join_names (c # cs) = c @ ''_'' @ join_names cs"

text \<open>The name PostgreSQL gives a constraint that has none.\<close>

definition default_name :: "string \<Rightarrow> tconstraint \<Rightarrow> string" where
  "default_name t c =
     (case c of
        PrimaryKey _ \<Rightarrow> t @ ''_pkey''
      | UniqueKey cols \<Rightarrow> t @ ''_'' @ join_names cols @ ''_key''
      | ForeignKey cols _ _ _ \<Rightarrow> t @ ''_'' @ join_names cols @ ''_fkey''
      | CheckThat _ \<Rightarrow> t @ ''_check''
      | NoOverlap a b c s \<Rightarrow> t @ ''_'' @ join_names [a, b, c, s] @ ''_excl'')"

section \<open>Statements\<close>

definition put :: "string \<Rightarrow> table_def \<Rightarrow> database \<Rightarrow> database" where
  "put t td d = map (\<lambda>e. if fst e = t then (t, td) else e) d"

fun run_statements :: "statement list \<Rightarrow> statement" where
  "run_statements [] d = Some d"
| "run_statements (s # ss) d = (case s d of None \<Rightarrow> None | Some d' \<Rightarrow> run_statements ss d')"

text \<open>\<open>None\<close> as a name: the constraint is not named.\<close>

definition add_constraint :: "string \<Rightarrow> string option \<Rightarrow> tconstraint \<Rightarrow> statement" where
  "add_constraint t given c d =
     (case map_of d t of
        None \<Rightarrow> None
      | Some td \<Rightarrow>
          (let name = (case given of None \<Rightarrow> default_name t c | Some n \<Rightarrow> n) in
           if name \<in> fst ` set (tb_constraints td) \<or>
              (needs_index c \<and> name \<in> set (relation_names d)) \<or>
              \<not> well_formed d td c \<or> \<not> rows_satisfy d (tb_rows td) c
           then None
           else Some (put t (td\<lparr>tb_constraints := tb_constraints td @ [(name, c)]\<rparr>) d)))"

definition create_table :: "string \<Rightarrow> column list \<Rightarrow> (string option \<times> tconstraint) list \<Rightarrow> statement" where
  "create_table t cols cs d =
     (if t \<in> set (relation_names d) \<or> \<not> distinct (map cl_name cols) then None
      else run_statements (map (\<lambda>(n, c). add_constraint t n c) cs)
        (d @ [(t, \<lparr>tb_columns = cols, tb_constraints = [], tb_indexes = [], tb_rows = []\<rparr>)]))"

definition drop_table :: "string \<Rightarrow> statement" where
  "drop_table t d =
     (if map_of d t = None \<or> referred t (\<lambda>_. True) (filter (\<lambda>e. fst e \<noteq> t) d) then None
      else Some (filter (\<lambda>e. fst e \<noteq> t) d))"

definition drop_constraint :: "string \<Rightarrow> string \<Rightarrow> statement" where
  "drop_constraint name t d =
     (case map_of d t of
        None \<Rightarrow> None
      | Some td \<Rightarrow>
          (case map_of (tb_constraints td) name of
             None \<Rightarrow> None
           | Some c \<Rightarrow>
               if (case c of PrimaryKey ks \<Rightarrow> referred t ((=) ks) d | UniqueKey ks \<Rightarrow> referred t ((=) ks) d
                   | _ \<Rightarrow> False)
               then None
               else Some (put t (td\<lparr>tb_constraints := filter (\<lambda>e. fst e \<noteq> name) (tb_constraints td)\<rparr>) d)))"

definition create_index :: "string \<Rightarrow> string \<Rightarrow> index_key list \<Rightarrow> bool \<Rightarrow> statement" where
  "create_index name t keys unique d =
     (case map_of d t of
        None \<Rightarrow> None
      | Some td \<Rightarrow>
          (let ix = \<lparr>ix_name = name, ix_keys = keys, ix_unique = unique\<rparr> in
           if name \<in> set (relation_names d) \<or> \<not> set (index_columns ix) \<subseteq> set (column_names td) \<or>
              (unique \<and> \<not> unique_keys keys (tb_rows td))
           then None else Some (put t (td\<lparr>tb_indexes := tb_indexes td @ [ix]\<rparr>) d)))"

definition drop_index :: "string \<Rightarrow> string \<Rightarrow> statement" where
  "drop_index name t d =
     (case map_of d t of
        None \<Rightarrow> None
      | Some td \<Rightarrow>
          if name \<notin> ix_name ` set (tb_indexes td) then None
          else Some (put t (td\<lparr>tb_indexes := filter (\<lambda>ix. ix_name ix \<noteq> name) (tb_indexes td)\<rparr>) d))"

text \<open>\<open>now\<close> is the transaction's time.\<close>

definition default_value :: "int \<Rightarrow> server_default \<Rightarrow> sql_value" where
  "default_value now v = (case v of NoDefault \<Rightarrow> NullV | Constant c \<Rightarrow> c | CurrentTime \<Rightarrow> TimeV now)"

definition add_column :: "int \<Rightarrow> string \<Rightarrow> column \<Rightarrow> statement" where
  "add_column now t col d =
     (case map_of d t of
        None \<Rightarrow> None
      | Some td \<Rightarrow>
          (let v = default_value now (cl_default col) in
           if cl_name col \<in> set (column_names td) \<or> (\<not> cl_nullable col \<and> v = NullV \<and> tb_rows td \<noteq> []) then None
           else Some (put t (td\<lparr>tb_columns := tb_columns td @ [col],
                tb_rows := map (\<lambda>r. r @ [(cl_name col, v)]) (tb_rows td)\<rparr>) d)))"

text \<open>Indexes and constraints of the table that use the column go with it.\<close>

definition drop_column :: "string \<Rightarrow> string \<Rightarrow> statement" where
  "drop_column t c d =
     (case map_of d t of
        None \<Rightarrow> None
      | Some td \<Rightarrow>
          if c \<notin> set (column_names td) \<or> referred t (\<lambda>cols. c \<in> set cols) d then None
          else Some (put t \<lparr>tb_columns = filter (\<lambda>col. cl_name col \<noteq> c) (tb_columns td),
                 tb_constraints = filter (\<lambda>k. c \<notin> set (constraint_columns (snd k))) (tb_constraints td),
                 tb_indexes = filter (\<lambda>ix. c \<notin> set (index_columns ix)) (tb_indexes td),
                 tb_rows = map (filter (\<lambda>f. fst f \<noteq> c)) (tb_rows td)\<rparr> d))"

definition set_not_null :: "string \<Rightarrow> string \<Rightarrow> statement" where
  "set_not_null t c d =
     (case map_of d t of
        None \<Rightarrow> None
      | Some td \<Rightarrow>
          if c \<notin> set (column_names td) \<or> \<not> list_all (\<lambda>r. field r c \<noteq> NullV) (tb_rows td) then None
          else Some (put t (td\<lparr>tb_columns :=
                 map (\<lambda>col. if cl_name col = c then col\<lparr>cl_nullable := False\<rparr> else col) (tb_columns td)\<rparr>) d))"

text \<open>\<open>UPDATE\<close> of every row; \<open>f\<close> is given the position of the row.\<close>

definition set_field :: "string \<Rightarrow> sql_value \<Rightarrow> row \<Rightarrow> row" where
  "set_field c v r = map (\<lambda>(k, w). if k = c then (k, v) else (k, w)) r"

definition update_rows :: "string \<Rightarrow> (nat \<Rightarrow> row \<Rightarrow> row) \<Rightarrow> statement" where
  "update_rows t f d =
     (case map_of d t of
        None \<Rightarrow> None
      | Some td \<Rightarrow>
          (let rs = map (\<lambda>(i, r). f i r) (List.enumerate 0 (tb_rows td)) in
           if list_all (\<lambda>(_, c). rows_satisfy d rs c) (tb_constraints td) \<and>
              list_all (\<lambda>ix. ix_unique ix \<longrightarrow> unique_keys (ix_keys ix) rs) (tb_indexes td)
           then Some (put t (td\<lparr>tb_rows := rs\<rparr>) d) else None))"

section \<open>Alembic's operations\<close>

text \<open>The time of the transaction, and the \<open>uuid4\<close> drawn for each row of a data migration.\<close>

record migration_env =
  me_now :: int
  me_uuid :: "nat \<Rightarrow> string"

datatype migration_step =
  CreateTable string "column list" "(string option \<times> tconstraint) list"
| DropTable string
| CreateConstraint string string tconstraint
| DropConstraint string string
| CreateIndex string string "index_key list" bool
| DropIndex string string
| AddColumn string column
| DropColumn string string
| SetNotNull string string
| Update string "migration_env \<Rightarrow> nat \<Rightarrow> row \<Rightarrow> row"
| IfUniqueConstraint string string migration_step migration_step
| CreateExtension string

definition has_unique_constraint :: "string \<Rightarrow> string \<Rightarrow> database \<Rightarrow> bool" where
  "has_unique_constraint name t d = (case map_of d t of
     None \<Rightarrow> False
   | Some td \<Rightarrow> (case map_of (tb_constraints td) name of Some (UniqueKey _) \<Rightarrow> True | _ \<Rightarrow> False))"

fun execute :: "migration_env \<Rightarrow> migration_step \<Rightarrow> statement" where
  "execute e (CreateTable t cols cs) d = create_table t cols cs d"
| "execute e (DropTable t) d = drop_table t d"
| "execute e (CreateConstraint name t c) d = add_constraint t (Some name) c d"
| "execute e (DropConstraint name t) d = drop_constraint name t d"
| "execute e (CreateIndex name t keys unique) d = create_index name t keys unique d"
| "execute e (DropIndex name t) d = drop_index name t d"
| "execute e (AddColumn t col) d = add_column (me_now e) t col d"
| "execute e (DropColumn t c) d = drop_column t c d"
| "execute e (SetNotNull t c) d = set_not_null t c d"
| "execute e (Update t f) d = update_rows t (f e) d"
| "execute e (IfUniqueConstraint name t s s') d =
     (if has_unique_constraint name t d then execute e s d else execute e s' d)"
| "execute e (CreateExtension _) d = Some d"

definition run_steps_on :: "migration_env \<Rightarrow> migration_step list \<Rightarrow> statement" where
  "run_steps_on e steps = run_statements (map (execute e) steps)"

section \<open>Comparing catalogs\<close>

text \<open>
  Two databases with the same catalog: the same tables, each with the same columns in the same
  order, constraints and indexes.
\<close>

definition same_table :: "table_def \<Rightarrow> table_def \<Rightarrow> bool" where
  "same_table a b =
     (tb_columns a = tb_columns b \<and> set (tb_constraints a) = set (tb_constraints b) \<and>
      set (tb_indexes a) = set (tb_indexes b))"

definition same_catalog :: "database \<Rightarrow> database \<Rightarrow> bool" where
  "same_catalog a b =
     (map fst a = map fst b \<and> list_all (\<lambda>(x, y). same_table (snd x) (snd y)) (zip a b))"

section \<open>Well-formed catalogs\<close>

text \<open>
  Constraints have distinct names, constraints, indexes and rows use columns the table has, and a foreign key refers to the columns
  of a key that exists.
\<close>

definition table_ok :: "table_def \<Rightarrow> bool" where
  "table_ok td =
     (distinct (map fst (tb_constraints td)) \<and>
      (\<forall>k\<in>set (tb_constraints td). set (constraint_columns (snd k)) \<subseteq> set (column_names td)) \<and>
      (\<forall>ix\<in>set (tb_indexes td). set (index_columns ix) \<subseteq> set (column_names td)) \<and>
      (\<forall>r\<in>set (tb_rows td). fst ` set r \<subseteq> set (column_names td)))"

definition target_ok :: "database \<Rightarrow> tconstraint \<Rightarrow> bool" where
  "target_ok d c =
     (case c of
        ForeignKey _ ref ref_cols _ \<Rightarrow>
          (case map_of d ref of None \<Rightarrow> False | Some target \<Rightarrow> key_columns target ref_cols)
      | _ \<Rightarrow> True)"

definition catalog_ok :: "database \<Rightarrow> bool" where
  "catalog_ok d =
     (distinct (map fst d) \<and>
      (\<forall>t\<in>set d. table_ok (snd t) \<and> (\<forall>k\<in>set (tb_constraints (snd t)). target_ok d (snd k))))"

lemma catalog_ok_Nil [simp]: "catalog_ok []"
  by (simp add: catalog_ok_def)

lemma put_simps [simp]:
  "put t td [] = []"
  "put t td ((u, x) # d) = (if u = t then (t, td) else (u, x)) # put t td d"
  by (simp_all add: put_def)

lemma put_names [simp]: "map fst (put t td d) = map fst d"
  by (induction d) auto

lemma put_missing: "t \<notin> fst ` set d \<Longrightarrow> put t td d = d"
  by (induction d) auto

lemma put_other: "u \<noteq> t \<Longrightarrow> map_of (put t td d) u = map_of d u"
  by (induction d) auto

lemma put_found: "map_of d t = Some old \<Longrightarrow> map_of (put t td d) t = Some td"
  by (induction d) (auto split: if_splits)

lemma put_lookup: "map_of d t = Some old \<Longrightarrow> map_of (put t td d) u = (if u = t then Some td else map_of d u)"
  using put_found put_other by simp

lemma put_entry: "x \<in> set (put t td d) \<Longrightarrow> x = (t, td) \<or> (x \<in> set d \<and> fst x \<noteq> t)"
  by (induction d) (auto split: if_splits)

lemma put_same: "distinct (map fst d) \<Longrightarrow> map_of d t = Some td \<Longrightarrow> put t td (put t td' d) = d"
  by (induction d) (auto simp: put_missing split: if_splits)

lemma put_append: "put t td (d @ d') = put t td d @ put t td d'"
  by (simp add: put_def)

lemma relation_name_iff:
  "x \<in> set (relation_names d) \<longleftrightarrow> (\<exists>t td. (t, td) \<in> set d \<and>
     (x = t \<or> x \<in> ix_name ` set (tb_indexes td) \<or> (\<exists>c. (x, c) \<in> set (tb_constraints td) \<and> needs_index c)))"
proof -
  have "x \<in> set (relation_names d) \<longleftrightarrow> (\<exists>p\<in>set d. x = fst p \<or> x \<in> ix_name ` set (tb_indexes (snd p)) \<or>
      x \<in> fst ` {c \<in> set (tb_constraints (snd p)). needs_index (snd c)})"
    by (simp add: relation_names_def case_prod_unfold)
  also have "\<dots> \<longleftrightarrow> (\<exists>t td. (t, td) \<in> set d \<and> (x = t \<or> x \<in> ix_name ` set (tb_indexes td) \<or>
      (\<exists>c. (x, c) \<in> set (tb_constraints td) \<and> needs_index c)))"
    unfolding Bex_def split_paired_Ex image_iff by simp
  finally show ?thesis .
qed

lemma relation_names_table: "map_of d t = Some td \<Longrightarrow> t \<in> set (relation_names d)"
  unfolding relation_name_iff by (blast dest: map_of_SomeD)

lemma relation_names_index:
  "map_of d t = Some td \<Longrightarrow> ix \<in> set (tb_indexes td) \<Longrightarrow> ix_name ix \<in> set (relation_names d)"
  unfolding relation_name_iff by (blast dest: map_of_SomeD)

lemma foreign_key_iff:
  "(case c of ForeignKey _ ref ref_cols _ \<Rightarrow> ref = t \<and> these ref_cols | _ \<Rightarrow> False) \<longleftrightarrow>
   (\<exists>cols ref_cols od. c = ForeignKey cols t ref_cols od \<and> these ref_cols)"
  by (cases c) auto

lemma key_iff:
  "(case c of PrimaryKey ks \<Rightarrow> ks = cols | UniqueKey ks \<Rightarrow> ks = cols | _ \<Rightarrow> False) \<longleftrightarrow>
   c = PrimaryKey cols \<or> c = UniqueKey cols"
  by (cases c) auto

lemma referred_iff:
  "referred t these d = (\<exists>u td n cols ref_cols od. (u, td) \<in> set d \<and>
     (n, ForeignKey cols t ref_cols od) \<in> set (tb_constraints td) \<and> these ref_cols)"
  unfolding referred_def list_ex_iff case_prod_unfold foreign_key_iff Bex_def split_paired_Ex by simp blast

lemma key_columns_iff:
  "key_columns td ks = (\<exists>n. (n, PrimaryKey ks) \<in> set (tb_constraints td) \<or> (n, UniqueKey ks) \<in> set (tb_constraints td))"
  unfolding key_columns_def list_ex_iff case_prod_unfold key_iff Bex_def split_paired_Ex by simp blast

lemma target_ok_key:
  "target_ok d (ForeignKey cols t ref_cols od) = (\<exists>td. map_of d t = Some td \<and> key_columns td ref_cols)"
  by (simp add: target_ok_def split: option.split)

lemma referred_columns:
  assumes "catalog_ok d" and "map_of d t = Some td" and "referred t these d"
  obtains ref_cols where "these ref_cols" and "key_columns td ref_cols" and "set ref_cols \<subseteq> set (column_names td)"
proof -
  obtain u ud n cols ref_cols od where fk: "(u, ud) \<in> set d"
      "(n, ForeignKey cols t ref_cols od) \<in> set (tb_constraints ud)" "these ref_cols"
    using assms(3) by (auto simp: referred_iff)
  then have "target_ok d (ForeignKey cols t ref_cols od)" using assms(1) by (force simp: catalog_ok_def)
  then have key: "key_columns td ref_cols" using assms(2) by (simp add: target_ok_key)
  have "table_ok td" using assms(1) map_of_SomeD [OF assms(2)] by (force simp: catalog_ok_def)
  then have "set ref_cols \<subseteq> set (column_names td)"
    using key by (fastforce simp: table_ok_def key_columns_iff)
  with fk key show thesis using that by blast
qed

text \<open>Replacing one table keeps the catalog well formed while the keys others need stay.\<close>

lemma put_catalog_ok:
  assumes ok: "catalog_ok d" and t: "map_of d t = Some td" and "table_ok td'"
    and keys: "\<And>ks. key_columns td ks \<Longrightarrow> referred t ((=) ks) (put t td' d) \<Longrightarrow> key_columns td' ks"
    and new: "\<And>k. k \<in> set (tb_constraints td') \<Longrightarrow> k \<in> set (tb_constraints td) \<or> target_ok d (snd k)"
  shows "catalog_ok (put t td' d)"
proof -
  have old: "target_ok d (snd k)" if "x \<in> set d" "k \<in> set (tb_constraints (snd x))" for x k
    using ok that by (auto simp: catalog_ok_def)
  have "target_ok (put t td' d) (snd k)" if x: "x \<in> set (put t td' d)" and k: "k \<in> set (tb_constraints (snd x))" for x k
  proof -
    have was: "target_ok d (snd k)"
    proof (cases "x = (t, td')")
      case True
      then have "k \<in> set (tb_constraints td) \<or> target_ok d (snd k)" using k new by simp
      then show ?thesis using old [OF map_of_SomeD [OF t], of k] by auto
    next
      case False
      then show ?thesis using put_entry [OF x] k old by blast
    qed
    show ?thesis
    proof (cases "snd k")
      case (ForeignKey cols ref ref_cols od)
      then obtain target where target: "map_of d ref = Some target" "key_columns target ref_cols"
        using was by (auto simp: target_ok_key)
      show ?thesis
      proof (cases "ref = t")
        case True
        then have "referred t ((=) ref_cols) (put t td' d)"
          using x k ForeignKey unfolding referred_iff by (cases x; cases k) (simp, blast)
        then show ?thesis using keys target t True ForeignKey by (simp add: target_ok_key put_lookup [OF t])
      qed (use target ForeignKey in \<open>simp add: target_ok_key put_lookup [OF t]\<close>)
    qed (simp_all add: target_ok_def)
  qed
  moreover have "table_ok (snd x)" if "x \<in> set (put t td' d)" for x
    using put_entry [OF that] assms(3) ok by (auto simp: catalog_ok_def)
  ultimately show ?thesis using ok by (simp add: catalog_ok_def)
qed

lemma lookup_table_ok: "catalog_ok d \<Longrightarrow> map_of d t = Some td \<Longrightarrow> table_ok td"
  by (force simp: catalog_ok_def dest: map_of_SomeD)

section \<open>Every statement keeps the catalog well formed\<close>

lemma key_columns_mono:
  "set (tb_constraints td) \<subseteq> set (tb_constraints td') \<Longrightarrow> key_columns td ks \<Longrightarrow> key_columns td' ks"
  unfolding key_columns_iff by blast

lemma well_formed_target: "well_formed d td c \<Longrightarrow> target_ok d c"
  by (auto simp: well_formed_def target_ok_def split: tconstraint.splits)

lemma add_constraint_ok:
  assumes "catalog_ok d" and "add_constraint t given c d = Some d'"
  shows "catalog_ok d'"
proof -
  obtain td name where td: "map_of d t = Some td" and wf: "well_formed d td c"
    and fresh: "name \<notin> fst ` set (tb_constraints td)"
    and d': "d' = put t (td\<lparr>tb_constraints := tb_constraints td @ [(name, c)]\<rparr>) d"
    using assms(2) by (auto simp: add_constraint_def Let_def split: option.splits if_splits)
  let ?new = "td\<lparr>tb_constraints := tb_constraints td @ [(name, c)]\<rparr>"
  have ok: "table_ok ?new"
    using lookup_table_ok [OF assms(1) td] wf fresh by (auto simp: table_ok_def well_formed_def column_names_def)
  have keys: "key_columns td ks \<Longrightarrow> key_columns ?new ks" for ks
    by (rule key_columns_mono [of td]) auto
  show ?thesis unfolding d'
    by (rule put_catalog_ok [OF assms(1) td ok]) (use keys well_formed_target [OF wf] in \<open>auto\<close>)
qed

lemma run_statements_append:
  "run_statements (xs @ ys) d = (case run_statements xs d of None \<Rightarrow> None | Some d' \<Rightarrow> run_statements ys d')"
  by (induction xs arbitrary: d) (auto split: option.split)

lemma run_statements_inv:
  assumes "\<And>s d d'. s \<in> set ss \<Longrightarrow> P d \<Longrightarrow> s d = Some d' \<Longrightarrow> P d'" and "P d" and "run_statements ss d = Some d'"
  shows "P d'"
  using assms by (induction ss arbitrary: d) (auto split: option.splits)

lemma add_table_ok:
  assumes "catalog_ok d" and "t \<notin> set (relation_names d)"
  shows "catalog_ok (d @ [(t, \<lparr>tb_columns = cols, tb_constraints = [], tb_indexes = [], tb_rows = []\<rparr>)])"
proof -
  have fresh: "t \<notin> fst ` set d" using assms(2) unfolding relation_name_iff by force
  have "target_ok (d @ x) c" if "target_ok d c" for x c
    using that by (cases c) (auto simp: target_ok_def map_add_def split: option.splits)
  then show ?thesis using assms(1) fresh by (auto simp: catalog_ok_def table_ok_def)
qed

lemma create_table_ok:
  assumes "catalog_ok d" and "create_table t cols cs d = Some d'"
  shows "catalog_ok d'"
  using assms add_table_ok [OF assms(1), of t cols]
  by (auto simp: create_table_def split: if_splits
      elim!: run_statements_inv [where P = catalog_ok, rotated 2] intro: add_constraint_ok)

lemma drop_table_ok:
  assumes "catalog_ok d" and "drop_table t d = Some d'"
  shows "catalog_ok d'"
proof -
  have d': "d' = filter (\<lambda>e. fst e \<noteq> t) d" and free: "\<not> referred t (\<lambda>_. True) d'"
    using assms(2) by (auto simp: drop_table_def split: if_splits)
  have lookup: "map_of d' u = (if u = t then None else map_of d u)" for u
    unfolding d' by (induction d) auto
  have "target_ok d' (snd k)" if x: "x \<in> set d'" and k: "k \<in> set (tb_constraints (snd x))" for x k
  proof (cases "snd k")
    case (ForeignKey cols ref ref_cols od)
    have "ref \<noteq> t" using free x k ForeignKey unfolding referred_iff by (cases x; cases k) auto
    moreover have "target_ok d (snd k)" using assms(1) x k by (auto simp: catalog_ok_def d')
    ultimately show ?thesis using ForeignKey by (simp add: target_ok_key lookup)
  qed (simp_all add: target_ok_def)
  moreover have "distinct (map fst d')"
    using assms(1) unfolding d' catalog_ok_def by (simp add: distinct_map_filter)
  ultimately show ?thesis using assms(1) by (auto simp: catalog_ok_def d')
qed

lemma referred_put:
  assumes "referred t these (put u td' d)" and "map_of d u = Some td"
    and "set (tb_constraints td') \<subseteq> set (tb_constraints td)"
  shows "referred t these d"
proof -
  obtain w wd n cols ref_cols od where w: "(w, wd) \<in> set (put u td' d)"
      "(n, ForeignKey cols t ref_cols od) \<in> set (tb_constraints wd)" "these ref_cols"
    using assms(1) unfolding referred_iff by blast
  then have "\<exists>wd'. (w, wd') \<in> set d \<and> (n, ForeignKey cols t ref_cols od) \<in> set (tb_constraints wd')"
    using put_entry [OF w(1)] map_of_SomeD [OF assms(2)] assms(3) by auto
  then show ?thesis using w(3) unfolding referred_iff by blast
qed

lemma drop_constraint_ok:
  assumes "catalog_ok d" and "drop_constraint name t d = Some d'"
  shows "catalog_ok d'"
proof -
  obtain td c where td: "map_of d t = Some td" and c: "map_of (tb_constraints td) name = Some c"
    and free: "\<not> (case c of PrimaryKey ks \<Rightarrow> referred t ((=) ks) d | UniqueKey ks \<Rightarrow> referred t ((=) ks) d | _ \<Rightarrow> False)"
    and d': "d' = put t (td\<lparr>tb_constraints := filter (\<lambda>e. fst e \<noteq> name) (tb_constraints td)\<rparr>) d"
    using assms(2) by (auto simp: drop_constraint_def split: option.splits if_splits)
  let ?new = "td\<lparr>tb_constraints := filter (\<lambda>e. fst e \<noteq> name) (tb_constraints td)\<rparr>"
  have ok: "table_ok ?new"
    using lookup_table_ok [OF assms(1) td] by (auto simp: table_ok_def column_names_def distinct_map_filter)
  have "key_columns ?new ks" if key: "key_columns td ks" and ref: "referred t ((=) ks) d'" for ks
  proof -
    have referred: "referred t ((=) ks) d" using referred_put [OF ref [unfolded d'] td] by auto
    obtain n k where n: "(n, k) \<in> set (tb_constraints td)" "k = PrimaryKey ks \<or> k = UniqueKey ks"
      using key unfolding key_columns_iff by blast
    have "n \<noteq> name"
    proof
      assume "n = name"
      then have "c = k" using c n(1) lookup_table_ok [OF assms(1) td] by (simp add: table_ok_def)
      then show False using free n(2) referred by auto
    qed
    then show ?thesis using n unfolding key_columns_iff by auto
  qed
  then show ?thesis unfolding d' by (intro put_catalog_ok [OF assms(1) td ok]) auto
qed

lemma create_index_ok:
  assumes "catalog_ok d" and "create_index name t keys unique d = Some d'"
  shows "catalog_ok d'"
proof -
  obtain td ix where td: "map_of d t = Some td" and cols: "set (index_columns ix) \<subseteq> set (column_names td)"
    and d': "d' = put t (td\<lparr>tb_indexes := tb_indexes td @ [ix]\<rparr>) d"
    using assms(2) by (auto simp: create_index_def Let_def split: option.splits if_splits)
  show ?thesis unfolding d'
    by (rule put_catalog_ok [OF assms(1) td])
      (use lookup_table_ok [OF assms(1) td] cols in \<open>auto simp: table_ok_def column_names_def key_columns_def\<close>)
qed

lemma drop_index_ok:
  assumes "catalog_ok d" and "drop_index name t d = Some d'"
  shows "catalog_ok d'"
proof -
  obtain td where td: "map_of d t = Some td"
    and d': "d' = put t (td\<lparr>tb_indexes := filter (\<lambda>ix. ix_name ix \<noteq> name) (tb_indexes td)\<rparr>) d"
    using assms(2) by (auto simp: drop_index_def split: option.splits if_splits)
  show ?thesis unfolding d'
    by (rule put_catalog_ok [OF assms(1) td])
      (use lookup_table_ok [OF assms(1) td] in \<open>auto simp: table_ok_def column_names_def key_columns_def\<close>)
qed

lemma add_column_ok:
  assumes "catalog_ok d" and "add_column now t col d = Some d'"
  shows "catalog_ok d'"
proof -
  obtain td where td: "map_of d t = Some td"
    and d': "d' = put t (td\<lparr>tb_columns := tb_columns td @ [col],
      tb_rows := map (\<lambda>r. r @ [(cl_name col, default_value now (cl_default col))]) (tb_rows td)\<rparr>) d"
    using assms(2) by (auto simp: add_column_def Let_def split: option.splits if_splits)
  let ?new = "td\<lparr>tb_columns := tb_columns td @ [col],
      tb_rows := map (\<lambda>r. r @ [(cl_name col, default_value now (cl_default col))]) (tb_rows td)\<rparr>"
  have names: "column_names ?new = column_names td @ [cl_name col]" by (simp add: column_names_def)
  have "table_ok ?new"
    using lookup_table_ok [OF assms(1) td] unfolding table_ok_def names by (simp add: image_Un) blast
  then show ?thesis unfolding d'
    by (rule put_catalog_ok [OF assms(1) td]) (simp_all add: key_columns_def)
qed

lemma set_not_null_ok:
  assumes "catalog_ok d" and "set_not_null t c d = Some d'"
  shows "catalog_ok d'"
proof -
  obtain td where td: "map_of d t = Some td"
    and d': "d' = put t (td\<lparr>tb_columns :=
      map (\<lambda>col. if cl_name col = c then col\<lparr>cl_nullable := False\<rparr> else col) (tb_columns td)\<rparr>) d"
    using assms(2) by (auto simp: set_not_null_def split: option.splits if_splits)
  have "map (cl_name \<circ> (\<lambda>col. if cl_name col = c then col\<lparr>cl_nullable := False\<rparr> else col)) (tb_columns td) =
      map cl_name (tb_columns td)" by simp
  then show ?thesis unfolding d'
    by (intro put_catalog_ok [OF assms(1) td])
      (use lookup_table_ok [OF assms(1) td] in \<open>auto simp: table_ok_def column_names_def key_columns_def\<close>)
qed

lemma drop_column_ok:
  assumes "catalog_ok d" and "drop_column t c d = Some d'"
  shows "catalog_ok d'"
proof -
  obtain td where td: "map_of d t = Some td" and free: "\<not> referred t (\<lambda>cols. c \<in> set cols) d"
    and d': "d' = put t \<lparr>tb_columns = filter (\<lambda>col. cl_name col \<noteq> c) (tb_columns td),
      tb_constraints = filter (\<lambda>k. c \<notin> set (constraint_columns (snd k))) (tb_constraints td),
      tb_indexes = filter (\<lambda>ix. c \<notin> set (index_columns ix)) (tb_indexes td),
      tb_rows = map (filter (\<lambda>f. fst f \<noteq> c)) (tb_rows td)\<rparr> d"
    using assms(2) by (auto simp: drop_column_def split: option.splits if_splits)
  let ?new = "\<lparr>tb_columns = filter (\<lambda>col. cl_name col \<noteq> c) (tb_columns td),
      tb_constraints = filter (\<lambda>k. c \<notin> set (constraint_columns (snd k))) (tb_constraints td),
      tb_indexes = filter (\<lambda>ix. c \<notin> set (index_columns ix)) (tb_indexes td),
      tb_rows = map (filter (\<lambda>f. fst f \<noteq> c)) (tb_rows td)\<rparr>"
  have names: "set (column_names ?new) = set (column_names td) - {c}" by (auto simp: column_names_def)
  have ok: "table_ok ?new"
    using lookup_table_ok [OF assms(1) td] unfolding table_ok_def names
    by (simp add: distinct_map_filter) fastforce
  have "key_columns ?new ks" if "key_columns td ks" and "referred t ((=) ks) d'" for ks
  proof -
    have "referred t ((=) ks) d" using referred_put [OF that(2) [unfolded d'] td] by auto
    then have "c \<notin> set ks" using free unfolding referred_iff by blast
    then show ?thesis using that(1) by (auto simp: key_columns_iff)
  qed
  then show ?thesis unfolding d' by (intro put_catalog_ok [OF assms(1) td ok]) auto
qed

lemma update_rows_ok:
  assumes "catalog_ok d" and "update_rows t f d = Some d'" and "\<And>i r. map fst (f i r) = map fst r"
  shows "catalog_ok d'"
proof -
  obtain td where td: "map_of d t = Some td"
    and d': "d' = put t (td\<lparr>tb_rows := map (\<lambda>(i, r). f i r) (List.enumerate 0 (tb_rows td))\<rparr>) d"
    using assms(2) by (auto simp: update_rows_def Let_def split: option.splits if_splits)
  let ?rows = "map (\<lambda>(i, r). f i r) (List.enumerate 0 (tb_rows td))"
  have fields: "fst ` set r' \<subseteq> set (column_names td)" if rows: "r' \<in> set ?rows" for r'
  proof -
    obtain x where x: "x \<in> set (List.enumerate 0 (tb_rows td))" "r' = f (fst x) (snd x)"
      using rows unfolding set_map case_prod_unfold by blast
    then have "snd x \<in> set (tb_rows td)" by (simp add: in_set_enumerate_eq) (metis nth_mem)
    moreover have "fst ` set r' = fst ` set (snd x)" using assms(3) [of "fst x" "snd x"] x(2) by (metis list.set_map)
    ultimately show ?thesis using lookup_table_ok [OF assms(1) td] by (simp add: table_ok_def)
  qed
  have "column_names (td\<lparr>tb_rows := ?rows\<rparr>) = column_names td" by (simp add: column_names_def)
  then have "table_ok (td\<lparr>tb_rows := ?rows\<rparr>)"
    using lookup_table_ok [OF assms(1) td] fields by (simp add: table_ok_def)
  then show ?thesis unfolding d'
    by (rule put_catalog_ok [OF assms(1) td]) (simp_all add: key_columns_def)
qed

text \<open>An \<open>UPDATE\<close> gives values to fields of the rows; it does not add fields.\<close>

fun tame :: "migration_step \<Rightarrow> bool" where
  "tame (Update t f) = (\<forall>e i r. map fst (f e i r) = map fst r)"
| "tame (IfUniqueConstraint _ _ s s') = (tame s \<and> tame s')"
| "tame _ = True"

lemma set_field_names [simp]: "map fst (set_field c v r) = map fst r"
  by (induction r) (auto simp: set_field_def)

lemma execute_ok: "execute e s d = Some d' \<Longrightarrow> tame s \<Longrightarrow> catalog_ok d \<Longrightarrow> catalog_ok d'"
proof (induction s arbitrary: d d')
  case (Update t f)
  then show ?case by (auto intro: update_rows_ok)
qed (auto intro: create_table_ok drop_table_ok add_constraint_ok drop_constraint_ok create_index_ok
    drop_index_ok add_column_ok drop_column_ok set_not_null_ok split: if_splits)

lemma run_steps_ok:
  assumes "run_steps_on e steps d = Some d'" and "list_all tame steps" and "catalog_ok d"
  shows "catalog_ok d'"
  by (rule run_statements_inv [where P = catalog_ok, OF _ assms(3) assms(1) [unfolded run_steps_on_def]])
    (use assms(2) execute_ok in \<open>auto simp: list_all_iff\<close>)

lemma run_steps_on_simps [simp]:
  "run_steps_on e [] d = Some d"
  "run_steps_on e (s # ss) d = (case execute e s d of None \<Rightarrow> None | Some d' \<Rightarrow> run_steps_on e ss d')"
  "run_steps_on e (ss @ ss') d = (case run_steps_on e ss d of None \<Rightarrow> None | Some d' \<Rightarrow> run_steps_on e ss' d')"
  by (simp_all add: run_steps_on_def run_statements_append split: option.split)

section \<open>Undoing a step\<close>

text \<open>The step of a downgrade that undoes a step of an upgrade exactly, rows included.\<close>

fun undo :: "migration_step \<Rightarrow> migration_step option" where
  "undo (CreateTable t _ _) = Some (DropTable t)"
| "undo (CreateIndex name t _ _) = Some (DropIndex name t)"
| "undo (AddColumn t col) = Some (DropColumn t (cl_name col))"
| "undo _ = None"

lemma undo_create_index:
  assumes "catalog_ok d" and "create_index name t keys unique d = Some d'"
  shows "drop_index name t d' = Some d"
proof -
  let ?ix = "\<lparr>ix_name = name, ix_keys = keys, ix_unique = unique\<rparr>"
  obtain td where td: "map_of d t = Some td" and ix: "name \<notin> set (relation_names d)"
    and d': "d' = put t (td\<lparr>tb_indexes := tb_indexes td @ [?ix]\<rparr>) d"
    using assms(2) by (auto simp: create_index_def Let_def split: option.splits if_splits)
  have "ix_name i \<noteq> name" if "i \<in> set (tb_indexes td)" for i
    using relation_names_index [OF td that] ix by auto
  then have "filter (\<lambda>i. ix_name i \<noteq> name) (tb_indexes td) = tb_indexes td" by (simp add: filter_id_conv)
  then show ?thesis
    using assms(1) td by (simp add: drop_index_def d' put_found [OF td] put_same catalog_ok_def)
qed

lemma undo_add_column:
  assumes "catalog_ok d" and "add_column now t col d = Some d'"
  shows "drop_column t (cl_name col) d' = Some d"
proof -
  obtain td v where td: "map_of d t = Some td" and fresh: "cl_name col \<notin> set (column_names td)"
    and d': "d' = put t (td\<lparr>tb_columns := tb_columns td @ [col], tb_rows := map (\<lambda>r. r @ [(cl_name col, v)]) (tb_rows td)\<rparr>) d"
    using assms(2) by (auto simp: add_column_def Let_def split: option.splits if_splits)
  note ok = lookup_table_ok [OF assms(1) td]
  have "\<not> referred t (\<lambda>cols. cl_name col \<in> set cols) d"
    using referred_columns [OF assms(1) td] fresh by blast
  then have free: "\<not> referred t (\<lambda>cols. cl_name col \<in> set cols) d'"
    using referred_put [OF _ td] unfolding d' by auto
  have cols: "filter (\<lambda>c. cl_name c \<noteq> cl_name col) (tb_columns td) = tb_columns td"
    using fresh by (simp add: filter_id_conv column_names_def) (metis imageI)
  have rows: "filter (\<lambda>f. fst f \<noteq> cl_name col) r = r" if "r \<in> set (tb_rows td)" for r
    using ok that fresh by (fastforce simp: filter_id_conv table_ok_def)
  have cons: "filter (\<lambda>k. cl_name col \<notin> set (constraint_columns (snd k))) (tb_constraints td) = tb_constraints td"
    using ok fresh by (fastforce simp: filter_id_conv table_ok_def)
  have ixs: "filter (\<lambda>ix. cl_name col \<notin> set (index_columns ix)) (tb_indexes td) = tb_indexes td"
    using ok fresh by (fastforce simp: filter_id_conv table_ok_def)
  have "map (filter (\<lambda>f. fst f \<noteq> cl_name col) \<circ> (\<lambda>r. r @ [(cl_name col, v)])) (tb_rows td) = tb_rows td"
    using rows by (simp add: map_idI)
  then have "\<lparr>tb_columns = filter (\<lambda>c. cl_name c \<noteq> cl_name col) (tb_columns td @ [col]),
      tb_constraints = filter (\<lambda>k. cl_name col \<notin> set (constraint_columns (snd k))) (tb_constraints td),
      tb_indexes = filter (\<lambda>ix. cl_name col \<notin> set (index_columns ix)) (tb_indexes td),
      tb_rows = map (filter (\<lambda>f. fst f \<noteq> cl_name col) \<circ> (\<lambda>r. r @ [(cl_name col, v)])) (tb_rows td)\<rparr> = td"
    by (simp add: cols cons ixs)
  then show ?thesis
    using free assms(1) td by (simp add: drop_column_def d' put_found [OF td] put_same catalog_ok_def column_names_def)
qed

lemma undo_create_table:
  assumes "catalog_ok d" and "create_table t cols cs d = Some d'"
  shows "drop_table t d' = Some d"
proof -
  let ?start = "d @ [(t, \<lparr>tb_columns = cols, tb_constraints = [], tb_indexes = [], tb_rows = []\<rparr>)]"
  have "t \<notin> set (relation_names d)" and run: "run_statements (map (\<lambda>(n, c). add_constraint t n c) cs) ?start = Some d'"
    using assms(2) by (auto simp: create_table_def split: if_splits)
  then have fresh: "t \<notin> fst ` set d" unfolding relation_name_iff by force
  have "\<exists>td. d' = d @ [(t, td)]"
  proof (rule run_statements_inv [where P = "\<lambda>x. \<exists>td. x = d @ [(t, td)]", OF _ _ run])
    fix s x x' assume "s \<in> set (map (\<lambda>(n, c). add_constraint t n c) cs)" "\<exists>td. x = d @ [(t, td)]" "s x = Some x'"
    then obtain n c td where "add_constraint t n c (d @ [(t, td)]) = Some x'" by auto
    then show "\<exists>td. x' = d @ [(t, td)]"
      using fresh by (auto simp: add_constraint_def Let_def put_append put_missing split: option.splits if_splits)
  qed simp
  then obtain td where d': "d' = d @ [(t, td)]" by blast
  have keep: "filter (\<lambda>e. fst e \<noteq> t) d = d" using fresh by (auto simp: filter_id_conv)
  have "map_of d t = None" using fresh by (simp add: map_of_eq_None_iff)
  then have "\<not> referred t (\<lambda>_. True) d"
    using assms(1) unfolding referred_iff catalog_ok_def
    by (metis (no_types, lifting) option.distinct(1) snd_conv target_ok_key)
  then show ?thesis by (simp add: drop_table_def d' keep map_add_def split: option.split)
qed

lemma undo_step:
  "undo s = Some s' \<Longrightarrow> catalog_ok d \<Longrightarrow> execute e s d = Some d' \<Longrightarrow> execute e' s' d' = Some d"
  by (cases s) (auto intro: undo_create_index undo_add_column undo_create_table)

lemma undo_tame: "undo s \<noteq> None \<Longrightarrow> tame s"
  by (cases s) auto

text \<open>A downgrade that undoes the steps of an upgrade in reverse order gives back the database.\<close>

lemma undo_steps:
  assumes "map undo ups = map Some undos" and "catalog_ok d" and "run_steps_on e ups d = Some d'"
  shows "run_steps_on e' (rev undos) d' = Some d"
  using assms
proof (induction ups arbitrary: undos d)
  case (Cons s ss)
  obtain u us where undos: "undos = u # us" "undo s = Some u" "map undo ss = map Some us"
    using Cons.prems(1) by (cases undos) auto
  obtain mid where mid: "execute e s d = Some mid" "run_steps_on e ss mid = Some d'"
    using Cons.prems(3) by (auto split: option.splits)
  have "catalog_ok mid" using execute_ok [OF mid(1)] undo_tame [of s] undos(2) Cons.prems(2) by simp
  then have "run_steps_on e' (rev us) d' = Some mid" using Cons.IH undos(3) mid(2) by blast
  then show ?case using undo_step [OF undos(2) Cons.prems(2) mid(1)] undos(1) by simp
qed simp

section \<open>What a step leaves alone\<close>

definition constraints_of :: "string \<Rightarrow> database \<Rightarrow> (string \<times> tconstraint) list" where
  "constraints_of t d = (case map_of d t of None \<Rightarrow> [] | Some td \<Rightarrow> tb_constraints td)"

lemma put_constraints:
  "map_of d t = Some td \<Longrightarrow> tb_constraints td' = tb_constraints td \<Longrightarrow>
   constraints_of u (put t td' d) = constraints_of u d"
  by (simp add: constraints_of_def put_lookup)

lemma add_column_constraints: "add_column now t col d = Some d' \<Longrightarrow> constraints_of u d' = constraints_of u d"
  by (auto simp: add_column_def Let_def put_constraints split: option.splits if_splits)

lemma create_index_constraints: "create_index name t ks q d = Some d' \<Longrightarrow> constraints_of u d' = constraints_of u d"
  by (auto simp: create_index_def Let_def put_constraints split: option.splits if_splits)

section \<open>Steps that lose no data\<close>

text \<open>Every row and column is still there with its value, except in the columns of \<open>exempt\<close>.\<close>

definition kept :: "(string \<times> string) set \<Rightarrow> database \<Rightarrow> database \<Rightarrow> bool" where
  "kept exempt d d' = (\<forall>t td. map_of d t = Some td \<longrightarrow>
     (\<exists>td'. map_of d' t = Some td' \<and> set (column_names td) \<subseteq> set (column_names td') \<and>
        list_all2 (\<lambda>r r'. \<forall>c\<in>set (column_names td). (t, c) \<notin> exempt \<longrightarrow> field r' c = field r c)
          (tb_rows td) (tb_rows td')))"

lemma kept_refl [simp]: "kept x d d"
  by (simp add: kept_def list_all2_same)

lemma kept_mono: "kept x d d' \<Longrightarrow> x \<subseteq> y \<Longrightarrow> kept y d d'"
  unfolding kept_def by (fastforce elim: list_all2_mono)

lemma kept_trans:
  assumes "kept x d d'" and "kept y d' d''"
  shows "kept (x \<union> y) d d''"
  unfolding kept_def
proof (intro allI impI)
  fix t td assume "map_of d t = Some td"
  then obtain td1 where one: "map_of d' t = Some td1" "set (column_names td) \<subseteq> set (column_names td1)"
      "list_all2 (\<lambda>r r'. \<forall>c\<in>set (column_names td). (t, c) \<notin> x \<longrightarrow> field r' c = field r c) (tb_rows td) (tb_rows td1)"
    using assms(1) unfolding kept_def by blast
  then obtain td2 where two: "map_of d'' t = Some td2" "set (column_names td1) \<subseteq> set (column_names td2)"
      "list_all2 (\<lambda>r r'. \<forall>c\<in>set (column_names td1). (t, c) \<notin> y \<longrightarrow> field r' c = field r c) (tb_rows td1) (tb_rows td2)"
    using assms(2) unfolding kept_def by blast
  have "list_all2 (\<lambda>r r'. \<forall>c\<in>set (column_names td). (t, c) \<notin> x \<union> y \<longrightarrow> field r' c = field r c) (tb_rows td) (tb_rows td2)"
    by (rule list_all2_trans [OF _ one(3) two(3)]) (use one(2) in auto)
  then show "\<exists>td'. map_of d'' t = Some td' \<and> set (column_names td) \<subseteq> set (column_names td') \<and>
      list_all2 (\<lambda>r r'. \<forall>c\<in>set (column_names td). (t, c) \<notin> x \<union> y \<longrightarrow> field r' c = field r c) (tb_rows td) (tb_rows td')"
    using one(2) two(1,2) by blast
qed

lemma kept_around: "kept {} a b \<Longrightarrow> kept x b c \<Longrightarrow> kept {} c d \<Longrightarrow> kept x a d"
  using kept_trans [of "{}" a b x c] kept_trans [of x a c "{}" d] by simp

lemma kept_fresh:
  assumes "kept x d d'" and "\<And>t c td. (t, c) \<in> x \<Longrightarrow> map_of d t = Some td \<Longrightarrow> c \<notin> set (column_names td)"
  shows "kept {} d d'"
  unfolding kept_def
proof (intro allI impI)
  fix t td assume td: "map_of d t = Some td"
  then obtain td' where td': "map_of d' t = Some td'" "set (column_names td) \<subseteq> set (column_names td')"
      "list_all2 (\<lambda>r r'. \<forall>c\<in>set (column_names td). (t, c) \<notin> x \<longrightarrow> field r' c = field r c) (tb_rows td) (tb_rows td')"
    using assms(1) unfolding kept_def by blast
  moreover have "list_all2 (\<lambda>r r'. \<forall>c\<in>set (column_names td). (t, c) \<notin> {} \<longrightarrow> field r' c = field r c) (tb_rows td) (tb_rows td')"
    by (rule list_all2_mono [OF td'(3)]) (use assms(2) td in blast)
  ultimately show "\<exists>td'. map_of d' t = Some td' \<and> set (column_names td) \<subseteq> set (column_names td') \<and>
      list_all2 (\<lambda>r r'. \<forall>c\<in>set (column_names td). (t, c) \<notin> {} \<longrightarrow> field r' c = field r c) (tb_rows td) (tb_rows td')"
    by blast
qed

lemma put_keeps:
  assumes "map_of d t = Some td" and "set (column_names td) \<subseteq> set (column_names td')"
    and "list_all2 (\<lambda>r r'. \<forall>c\<in>set (column_names td). (t, c) \<notin> x \<longrightarrow> field r' c = field r c) (tb_rows td) (tb_rows td')"
  shows "kept x d (put t td' d)"
  using assms by (auto simp: kept_def put_lookup list_all2_same)

lemma put_same_rows:
  assumes "map_of d t = Some td" and "column_names td' = column_names td" and "tb_rows td' = tb_rows td"
  shows "kept x d (put t td' d)"
  by (rule put_keeps [OF assms(1)]) (simp_all add: assms list_all2_same)

lemma column_names_update [simp]:
  "column_names (td\<lparr>tb_constraints := cs\<rparr>) = column_names td"
  "column_names (td\<lparr>tb_indexes := ixs\<rparr>) = column_names td"
  "column_names (td\<lparr>tb_rows := rs\<rparr>) = column_names td"
  by (simp_all add: column_names_def)

lemma add_constraint_keeps: "add_constraint t given c d = Some d' \<Longrightarrow> kept x d d'"
  by (auto simp: add_constraint_def Let_def intro: put_same_rows split: option.splits if_splits)

lemma drop_constraint_keeps: "drop_constraint name t d = Some d' \<Longrightarrow> kept x d d'"
  by (auto simp: drop_constraint_def intro: put_same_rows split: option.splits if_splits)

lemma create_index_keeps: "create_index name t ks unique d = Some d' \<Longrightarrow> kept x d d'"
  by (auto simp: create_index_def Let_def intro: put_same_rows split: option.splits if_splits)

lemma drop_index_keeps: "drop_index name t d = Some d' \<Longrightarrow> kept x d d'"
  by (auto simp: drop_index_def intro: put_same_rows split: option.splits if_splits)

lemma set_not_null_keeps: "set_not_null t c d = Some d' \<Longrightarrow> kept x d d'"
  by (auto simp: set_not_null_def column_names_def intro!: put_same_rows split: option.splits if_splits)

lemma field_append: "c \<noteq> k \<Longrightarrow> field (r @ [(k, v)]) c = field r c"
  by (simp add: field_def map_add_def split: option.split)

lemma add_column_keeps:
  assumes "add_column now t col d = Some d'"
  shows "kept x d d'"
proof -
  obtain td v where td: "map_of d t = Some td" and fresh: "cl_name col \<notin> set (column_names td)"
    and d': "d' = put t (td\<lparr>tb_columns := tb_columns td @ [col], tb_rows := map (\<lambda>r. r @ [(cl_name col, v)]) (tb_rows td)\<rparr>) d"
    using assms by (auto simp: add_column_def Let_def split: option.splits if_splits)
  show ?thesis unfolding d'
  proof (rule put_keeps [OF td])
    have "field (r @ [(cl_name col, v)]) c = field r c" if "c \<in> set (column_names td)" for r c
      using that fresh by (intro field_append) blast
    then show "list_all2 (\<lambda>r r'. \<forall>c\<in>set (column_names td). (t, c) \<notin> x \<longrightarrow> field r' c = field r c) (tb_rows td)
        (tb_rows (td\<lparr>tb_columns := tb_columns td @ [col], tb_rows := map (\<lambda>r. r @ [(cl_name col, v)]) (tb_rows td)\<rparr>))"
      by (simp add: list_all2_map2 list_all2_same)
  qed (auto simp: column_names_def)
qed

lemma create_table_keeps:
  assumes "create_table t cols cs d = Some d'"
  shows "kept x d d'"
proof -
  let ?start = "d @ [(t, \<lparr>tb_columns = cols, tb_constraints = [], tb_indexes = [], tb_rows = []\<rparr>)]"
  have run: "run_statements (map (\<lambda>(n, c). add_constraint t n c) cs) ?start = Some d'"
    using assms by (auto simp: create_table_def split: if_splits)
  have start: "kept x d ?start" by (auto simp: kept_def map_add_def list_all2_same)
  show ?thesis
  proof (rule run_statements_inv [where P = "kept x d", OF _ start run])
    fix s a a' assume "s \<in> set (map (\<lambda>(n, c). add_constraint t n c) cs)" "kept x d a" "s a = Some a'"
    then show "kept x d a'" using kept_trans [of x d a x a'] add_constraint_keeps by auto
  qed
qed

lemma update_rows_keeps:
  assumes "update_rows t f d = Some d'" and "\<And>i r c. c \<notin> cs \<Longrightarrow> field (f i r) c = field r c"
  shows "kept ({t} \<times> cs) d d'"
proof -
  obtain td where td: "map_of d t = Some td"
    and d': "d' = put t (td\<lparr>tb_rows := map (\<lambda>(i, r). f i r) (List.enumerate 0 (tb_rows td))\<rparr>) d"
    using assms(1) by (auto simp: update_rows_def Let_def split: option.splits if_splits)
  have "list_all2 (\<lambda>r r'. \<forall>c\<in>set (column_names td). (t, c) \<notin> {t} \<times> cs \<longrightarrow> field r' c = field r c) rs
      (map (\<lambda>(i, r). f i r) (List.enumerate n rs))" for rs n
    by (induction rs arbitrary: n) (auto simp: assms(2))
  then show ?thesis unfolding d' by (intro put_keeps [OF td]) simp_all
qed

fun additive :: "migration_step \<Rightarrow> bool" where
  "additive (DropTable _) = False"
| "additive (DropColumn _ _) = False"
| "additive (Update _ _) = False"
| "additive (IfUniqueConstraint _ _ s s') = (additive s \<and> additive s')"
| "additive _ = True"

lemma additive_keeps: "execute e s d = Some d' \<Longrightarrow> additive s \<Longrightarrow> kept {} d d'"
  by (induction s arbitrary: d d')
    (auto intro: create_table_keeps add_constraint_keeps drop_constraint_keeps create_index_keeps drop_index_keeps
      add_column_keeps set_not_null_keeps split: if_splits)

lemma additive_steps_keep:
  "run_steps_on e steps d = Some d' \<Longrightarrow> list_all additive steps \<Longrightarrow> kept {} d d'"
proof (induction steps arbitrary: d)
  case (Cons s ss)
  then obtain mid where "execute e s d = Some mid" "run_steps_on e ss mid = Some d'"
    by (auto split: option.splits)
  then show ?case using Cons additive_keeps kept_trans [of "{}" d mid "{}" d'] by simp
qed simp

text \<open>A column that is added was not there before.\<close>

lemma added_columns_fresh:
  assumes "run_steps_on e steps d = Some d'" and "list_all additive steps" and "map_of d t = Some td"
    and "\<exists>col. AddColumn t col \<in> set steps \<and> cl_name col = c"
  shows "c \<notin> set (column_names td)"
proof -
  obtain col where col: "AddColumn t col \<in> set steps" "cl_name col = c" using assms(4) by blast
  obtain before rest where steps: "steps = before @ AddColumn t col # rest" using col(1) by (auto simp: in_set_conv_decomp)
  obtain mid where mid: "run_steps_on e before d = Some mid" "add_column (me_now e) t col mid \<noteq> None"
    using assms(1) unfolding steps by (auto split: option.splits)
  have "kept {} d mid" using additive_steps_keep [OF mid(1)] assms(2) by (simp add: steps)
  then obtain tm where "map_of mid t = Some tm" "set (column_names td) \<subseteq> set (column_names tm)"
    using assms(3) unfolding kept_def by blast
  then show ?thesis using mid(2) col(2) by (auto simp: add_column_def Let_def split: if_splits)
qed

end
