(* ===== verification/Migrations.thy ===== *)
theory Migrations
  imports Catalog
begin

text \<open>
  The migrations of \<^verbatim>\<open>alembic/versions\<close>, each with the steps of its \<open>upgrade\<close> and \<open>downgrade\<close>,
  the way \<^verbatim>\<open>alembic/env.py\<close> runs them in one transaction, and the tables the classes of
  \<^verbatim>\<open>src/app/models\<close> declare. The theorems say that the two agree, which downgrades undo their
  upgrade and what an upgrade does to the rows.
\<close>

section \<open>Revisions\<close>

record revision =
  rv_id :: string
  rv_down :: "string option"
  rv_upgrade :: "migration_step list"
  rv_downgrade :: "migration_step list"

text \<open>\<^verbatim>\<open>551ded2ecd7f_create_users_table.py\<close>.\<close>

definition upgrade_create_users :: "migration_step list" where
  "upgrade_create_users =
     [CreateTable ''users''
       [required ''id'' SInteger,
        required ''username'' (SString 50)]
       [(None, PrimaryKey [''id''])],
      CreateIndex ''ix_users_id'' ''users''
       [Plain ''id''] False,
      CreateIndex ''ix_users_username'' ''users''
       [Plain ''username''] True]"

definition downgrade_create_users :: "migration_step list" where
  "downgrade_create_users =
     [DropIndex ''ix_users_username'' ''users'',
      DropIndex ''ix_users_id'' ''users'',
      DropTable ''users'']"

definition revision_create_users :: revision where
  "revision_create_users = \<lparr>rv_id = ''551ded2ecd7f'', rv_down = None,
     rv_upgrade = upgrade_create_users, rv_downgrade = downgrade_create_users\<rparr>"

text \<open>\<^verbatim>\<open>2e6b8bef6ca6_add_password_to_users.py\<close>.\<close>

definition upgrade_add_password :: "migration_step list" where
  "upgrade_add_password =
     [AddColumn ''users'' (required ''password'' (SString 255))]"

definition downgrade_add_password :: "migration_step list" where
  "downgrade_add_password =
     [DropColumn ''users'' ''password'']"

definition revision_add_password :: revision where
  "revision_add_password = \<lparr>rv_id = ''2e6b8bef6ca6'', rv_down = Some ''551ded2ecd7f'',
     rv_upgrade = upgrade_add_password, rv_downgrade = downgrade_add_password\<rparr>"

text \<open>\<^verbatim>\<open>b8ec7bdd3f0b_add_user_role.py\<close>.\<close>

definition upgrade_add_role :: "migration_step list" where
  "upgrade_add_role =
     [AddColumn ''users'' (defaulted (Constant (TextV ''user'')) ''role'' (SString 20))]"

definition downgrade_add_role :: "migration_step list" where
  "downgrade_add_role =
     [DropColumn ''users'' ''role'']"

definition revision_add_role :: revision where
  "revision_add_role = \<lparr>rv_id = ''b8ec7bdd3f0b'', rv_down = Some ''2e6b8bef6ca6'',
     rv_upgrade = upgrade_add_role, rv_downgrade = downgrade_add_role\<rparr>"

text \<open>\<^verbatim>\<open>4c1b48a8c021_add_user_production_fields.py\<close>.\<close>

definition upgrade_add_production_fields :: "migration_step list" where
  "upgrade_add_production_fields =
     [AddColumn ''users'' (optional ''email'' (SString 255)),
      AddColumn ''users'' (defaulted (Constant (BoolV True)) ''is_active'' SBoolean),
      AddColumn ''users'' (defaulted CurrentTime ''created_at'' SDateTime),
      AddColumn ''users'' (defaulted CurrentTime ''updated_at'' SDateTime),
      CreateIndex ''uq_users_email'' ''users''
       [Plain ''email''] True]"

definition downgrade_add_production_fields :: "migration_step list" where
  "downgrade_add_production_fields =
     [DropConstraint ''uq_users_email'' ''users'',
      DropColumn ''users'' ''updated_at'',
      DropColumn ''users'' ''created_at'',
      DropColumn ''users'' ''is_active'',
      DropColumn ''users'' ''email'']"

definition revision_add_production_fields :: revision where
  "revision_add_production_fields = \<lparr>rv_id = ''4c1b48a8c021'', rv_down = Some ''b8ec7bdd3f0b'',
     rv_upgrade = upgrade_add_production_fields, rv_downgrade = downgrade_add_production_fields\<rparr>"

text \<open>\<^verbatim>\<open>906770b858da_add_refresh_tokens_table.py\<close>.\<close>

definition upgrade_add_refresh_tokens :: "migration_step list" where
  "upgrade_add_refresh_tokens =
     [CreateTable ''refresh_tokens''
       [required ''id'' SInteger,
        required ''user_id'' SInteger,
        required ''token'' (SString 255),
        required ''expires_at'' SDateTime,
        required ''created_at'' SDateTime,
        required ''revoked'' SBoolean]
       [(None, ForeignKey [''user_id''] ''users'' [''id''] NoAction),
        (None, PrimaryKey [''id''])],
      CreateIndex ''ix_refresh_tokens_id'' ''refresh_tokens''
       [Plain ''id''] False,
      CreateIndex ''ix_refresh_tokens_token'' ''refresh_tokens''
       [Plain ''token''] True]"

definition downgrade_add_refresh_tokens :: "migration_step list" where
  "downgrade_add_refresh_tokens =
     [DropIndex ''ix_refresh_tokens_token'' ''refresh_tokens'',
      DropIndex ''ix_refresh_tokens_id'' ''refresh_tokens'',
      DropTable ''refresh_tokens'']"

definition revision_add_refresh_tokens :: revision where
  "revision_add_refresh_tokens = \<lparr>rv_id = ''906770b858da'', rv_down = Some ''4c1b48a8c021'',
     rv_upgrade = upgrade_add_refresh_tokens, rv_downgrade = downgrade_add_refresh_tokens\<rparr>"

text \<open>\<^verbatim>\<open>c2f45f831a2d_add_email_verification_lifecycle.py\<close>.\<close>

definition normalize_email :: "row \<Rightarrow> row" where
  "normalize_email r = (case field r ''email'' of
     TextV s \<Rightarrow> set_field ''email'' (TextV (sql_lower_trim s)) r | _ \<Rightarrow> r)"

definition upgrade_add_email_verification :: "migration_step list" where
  "upgrade_add_email_verification =
     [Update ''users'' (\<lambda>e i. normalize_email),
      IfUniqueConstraint ''uq_users_email'' ''users''
       (DropConstraint ''uq_users_email'' ''users'')
       (DropIndex ''uq_users_email'' ''users''),
      CreateIndex ''uq_users_email_normalized'' ''users''
       [LowerTrim ''email''] True,
      AddColumn ''users'' (optional ''email_verified_at'' SDateTime),
      CreateTable ''account_action_tokens''
       [required ''id'' SInteger,
        required ''user_id'' SInteger,
        required ''purpose'' (SString 50),
        required ''token_hash'' (SString 64),
        required ''target'' (SString 255),
        required ''expires_at'' SDateTime,
        optional ''consumed_at'' SDateTime,
        required ''created_at'' SDateTime]
       [(None, ForeignKey [''user_id''] ''users'' [''id''] Cascade),
        (None, PrimaryKey [''id''])],
      CreateIndex ''ix_account_action_tokens_id'' ''account_action_tokens''
       [Plain ''id''] False,
      CreateIndex ''ix_account_action_tokens_purpose'' ''account_action_tokens''
       [Plain ''purpose''] False,
      CreateIndex ''ix_account_action_tokens_token_hash'' ''account_action_tokens''
       [Plain ''token_hash''] True,
      CreateIndex ''ix_account_action_tokens_user_id'' ''account_action_tokens''
       [Plain ''user_id''] False]"

definition downgrade_add_email_verification :: "migration_step list" where
  "downgrade_add_email_verification =
     [DropIndex ''ix_account_action_tokens_user_id'' ''account_action_tokens'',
      DropIndex ''ix_account_action_tokens_token_hash'' ''account_action_tokens'',
      DropIndex ''ix_account_action_tokens_purpose'' ''account_action_tokens'',
      DropIndex ''ix_account_action_tokens_id'' ''account_action_tokens'',
      DropTable ''account_action_tokens'',
      DropColumn ''users'' ''email_verified_at'',
      DropIndex ''uq_users_email_normalized'' ''users'',
      CreateIndex ''uq_users_email'' ''users''
       [Plain ''email''] True]"

definition revision_add_email_verification :: revision where
  "revision_add_email_verification = \<lparr>rv_id = ''c2f45f831a2d'', rv_down = Some ''906770b858da'',
     rv_upgrade = upgrade_add_email_verification, rv_downgrade = downgrade_add_email_verification\<rparr>"

text \<open>\<^verbatim>\<open>a71f0c4d9e32_add_refresh_token_families.py\<close>.\<close>

definition backfill_family :: "migration_env \<Rightarrow> nat \<Rightarrow> row \<Rightarrow> row" where
  "backfill_family e i r =
     (let revoked = (field r ''revoked'' = BoolV True) in
      set_field ''family_id'' (TextV (me_uuid e i))
       (set_field ''last_used_at'' (field r ''created_at'')
         (set_field ''device_name'' (TextV ''Legacy session'')
           (set_field ''revoked_at'' (if revoked then field r ''created_at'' else NullV)
             (set_field ''revocation_reason'' (if revoked then TextV ''legacy_revoked'' else NullV) r)))))"

definition upgrade_add_token_families :: "migration_step list" where
  "upgrade_add_token_families =
     [AddColumn ''refresh_tokens'' (optional ''family_id'' (SString 36)),
      AddColumn ''refresh_tokens'' (optional ''last_used_at'' SDateTime),
      AddColumn ''refresh_tokens'' (optional ''device_name'' (SString 100)),
      AddColumn ''refresh_tokens'' (optional ''revoked_at'' SDateTime),
      AddColumn ''refresh_tokens'' (optional ''revocation_reason'' (SString 32)),
      Update ''refresh_tokens'' backfill_family,
      SetNotNull ''refresh_tokens'' ''family_id'',
      SetNotNull ''refresh_tokens'' ''last_used_at'',
      SetNotNull ''refresh_tokens'' ''device_name'',
      CreateIndex ''ix_refresh_tokens_family_id'' ''refresh_tokens''
       [Plain ''family_id''] False,
      CreateIndex ''ix_refresh_tokens_user_id'' ''refresh_tokens''
       [Plain ''user_id''] False]"

definition downgrade_add_token_families :: "migration_step list" where
  "downgrade_add_token_families =
     [DropIndex ''ix_refresh_tokens_user_id'' ''refresh_tokens'',
      DropIndex ''ix_refresh_tokens_family_id'' ''refresh_tokens'',
      DropColumn ''refresh_tokens'' ''revocation_reason'',
      DropColumn ''refresh_tokens'' ''revoked_at'',
      DropColumn ''refresh_tokens'' ''device_name'',
      DropColumn ''refresh_tokens'' ''last_used_at'',
      DropColumn ''refresh_tokens'' ''family_id'']"

definition revision_add_token_families :: revision where
  "revision_add_token_families = \<lparr>rv_id = ''a71f0c4d9e32'', rv_down = Some ''c2f45f831a2d'',
     rv_upgrade = upgrade_add_token_families, rv_downgrade = downgrade_add_token_families\<rparr>"

text \<open>\<^verbatim>\<open>d82e194f6b7a_add_totp_mfa_foundation.py\<close>.\<close>

definition upgrade_add_mfa :: "migration_step list" where
  "upgrade_add_mfa =
     [AddColumn ''users'' (optional ''mfa_secret_encrypted'' SText),
      AddColumn ''users'' (optional ''mfa_enrollment_created_at'' SDateTime),
      AddColumn ''users'' (optional ''mfa_enabled_at'' SDateTime),
      AddColumn ''users'' (optional ''mfa_last_counter'' SBigInteger),
      CreateTable ''mfa_recovery_codes''
       [required ''id'' SInteger,
        required ''user_id'' SInteger,
        required ''code_hash'' (SString 64),
        required ''created_at'' SDateTime,
        optional ''used_at'' SDateTime]
       [(None, ForeignKey [''user_id''] ''users'' [''id''] Cascade),
        (None, PrimaryKey [''id''])],
      CreateIndex ''ix_mfa_recovery_codes_code_hash'' ''mfa_recovery_codes''
       [Plain ''code_hash''] True,
      CreateIndex ''ix_mfa_recovery_codes_id'' ''mfa_recovery_codes''
       [Plain ''id''] False,
      CreateIndex ''ix_mfa_recovery_codes_user_id'' ''mfa_recovery_codes''
       [Plain ''user_id''] False]"

definition downgrade_add_mfa :: "migration_step list" where
  "downgrade_add_mfa =
     [DropIndex ''ix_mfa_recovery_codes_user_id'' ''mfa_recovery_codes'',
      DropIndex ''ix_mfa_recovery_codes_id'' ''mfa_recovery_codes'',
      DropIndex ''ix_mfa_recovery_codes_code_hash'' ''mfa_recovery_codes'',
      DropTable ''mfa_recovery_codes'',
      DropColumn ''users'' ''mfa_last_counter'',
      DropColumn ''users'' ''mfa_enabled_at'',
      DropColumn ''users'' ''mfa_enrollment_created_at'',
      DropColumn ''users'' ''mfa_secret_encrypted'']"

definition revision_add_mfa :: revision where
  "revision_add_mfa = \<lparr>rv_id = ''d82e194f6b7a'', rv_down = Some ''a71f0c4d9e32'',
     rv_upgrade = upgrade_add_mfa, rv_downgrade = downgrade_add_mfa\<rparr>"

text \<open>\<^verbatim>\<open>e91a5c7d3b20_add_oidc_identity_lifecycle.py\<close>.\<close>

definition upgrade_add_oidc :: "migration_step list" where
  "upgrade_add_oidc =
     [AddColumn ''users'' (defaulted (Constant (BoolV True)) ''password_login_enabled'' SBoolean),
      CreateTable ''external_identities''
       [required ''id'' SInteger,
        required ''user_id'' SInteger,
        required ''issuer'' (SString 255),
        required ''subject'' (SString 255),
        optional ''email'' (SString 255),
        required ''created_at'' SDateTime,
        optional ''last_login_at'' SDateTime]
       [(None, ForeignKey [''user_id''] ''users'' [''id''] Cascade),
        (None, PrimaryKey [''id'']),
        (Some ''uq_external_identity_subject'', UniqueKey [''issuer'', ''subject'']),
        (Some ''uq_external_identity_user_issuer'', UniqueKey [''user_id'', ''issuer''])],
      CreateIndex ''ix_external_identities_id'' ''external_identities''
       [Plain ''id''] False,
      CreateIndex ''ix_external_identities_user_id'' ''external_identities''
       [Plain ''user_id''] False,
      CreateTable ''oidc_transactions''
       [required ''id'' SInteger,
        required ''state_hash'' (SString 64),
        required ''browser_binding_hash'' (SString 64),
        required ''nonce_hash'' (SString 64),
        required ''code_verifier_encrypted'' SText,
        required ''intent'' (SString 16),
        optional ''user_id'' SInteger,
        required ''issuer'' (SString 255),
        required ''redirect_uri'' (SString 500),
        required ''device_name'' (SString 100),
        required ''expires_at'' SDateTime,
        optional ''consumed_at'' SDateTime,
        required ''created_at'' SDateTime]
       [(None, ForeignKey [''user_id''] ''users'' [''id''] Cascade),
        (None, PrimaryKey [''id''])],
      CreateIndex ''ix_oidc_transactions_id'' ''oidc_transactions''
       [Plain ''id''] False,
      CreateIndex ''ix_oidc_transactions_state_hash'' ''oidc_transactions''
       [Plain ''state_hash''] True,
      CreateIndex ''ix_oidc_transactions_user_id'' ''oidc_transactions''
       [Plain ''user_id''] False]"

definition downgrade_add_oidc :: "migration_step list" where
  "downgrade_add_oidc =
     [DropIndex ''ix_oidc_transactions_user_id'' ''oidc_transactions'',
      DropIndex ''ix_oidc_transactions_state_hash'' ''oidc_transactions'',
      DropIndex ''ix_oidc_transactions_id'' ''oidc_transactions'',
      DropTable ''oidc_transactions'',
      DropIndex ''ix_external_identities_user_id'' ''external_identities'',
      DropIndex ''ix_external_identities_id'' ''external_identities'',
      DropTable ''external_identities'',
      DropColumn ''users'' ''password_login_enabled'']"

definition revision_add_oidc :: revision where
  "revision_add_oidc = \<lparr>rv_id = ''e91a5c7d3b20'', rv_down = Some ''d82e194f6b7a'',
     rv_upgrade = upgrade_add_oidc, rv_downgrade = downgrade_add_oidc\<rparr>"

text \<open>\<^verbatim>\<open>f3a6c8d91b42_add_transactional_outbox.py\<close>.\<close>

definition upgrade_add_outbox :: "migration_step list" where
  "upgrade_add_outbox =
     [CreateTable ''outbox_messages''
       [required ''id'' SUuid,
        required ''message_type'' (SString 50),
        required ''idempotency_key'' (SString 64),
        required ''encryption_version'' SInteger,
        optional ''payload_encrypted'' SLargeBinary,
        required ''status'' (SString 20),
        required ''attempt_count'' SInteger,
        required ''available_at'' SDateTimeTz,
        optional ''lease_owner'' (SString 64),
        optional ''lease_expires_at'' SDateTimeTz,
        required ''payload_expires_at'' SDateTimeTz,
        optional ''failure_category'' (SString 32),
        required ''created_at'' SDateTimeTz,
        required ''updated_at'' SDateTimeTz,
        optional ''terminal_at'' SDateTimeTz]
       [(Some ''ck_outbox_messages_attempt_count'', CheckThat (AtLeast ''attempt_count'' 0)),
        (Some ''ck_outbox_messages_lease_state'', CheckThat (Either
         (Both (Both (OneOf ''status'' [''processing'']) (Present ''lease_owner'')) (Present ''lease_expires_at''))
         (Both (Both (Neg (OneOf ''status'' [''processing''])) (Missing ''lease_owner'')) (Missing ''lease_expires_at'')))),
        (Some ''ck_outbox_messages_status'', CheckThat (OneOf ''status'' [''pending'', ''processing'', ''succeeded'', ''dead_letter''])),
        (Some ''ck_outbox_messages_terminal_state'', CheckThat (Either
         (Both (Both (OneOf ''status'' [''succeeded'', ''dead_letter'']) (Present ''terminal_at'')) (Missing ''payload_encrypted''))
         (Both (Both (OneOf ''status'' [''pending'', ''processing'']) (Missing ''terminal_at'')) (Present ''payload_encrypted'')))),
        (None, PrimaryKey [''id'']),
        (None, UniqueKey [''idempotency_key''])],
      CreateIndex ''ix_outbox_messages_claim'' ''outbox_messages''
       [Plain ''status'', Plain ''available_at'', Plain ''lease_expires_at'', Plain ''created_at''] False]"

definition downgrade_add_outbox :: "migration_step list" where
  "downgrade_add_outbox =
     [DropIndex ''ix_outbox_messages_claim'' ''outbox_messages'',
      DropTable ''outbox_messages'']"

definition revision_add_outbox :: revision where
  "revision_add_outbox = \<lparr>rv_id = ''f3a6c8d91b42'', rv_down = Some ''e91a5c7d3b20'',
     rv_upgrade = upgrade_add_outbox, rv_downgrade = downgrade_add_outbox\<rparr>"

text \<open>\<^verbatim>\<open>65bcb8a12535_add_outbox_trace_context.py\<close>.\<close>

definition upgrade_add_trace_context :: "migration_step list" where
  "upgrade_add_trace_context =
     [AddColumn ''outbox_messages'' (optional ''traceparent'' (SString 256)),
      AddColumn ''outbox_messages'' (optional ''tracestate'' (SString 512))]"

definition downgrade_add_trace_context :: "migration_step list" where
  "downgrade_add_trace_context =
     [DropColumn ''outbox_messages'' ''tracestate'',
      DropColumn ''outbox_messages'' ''traceparent'']"

definition revision_add_trace_context :: revision where
  "revision_add_trace_context = \<lparr>rv_id = ''65bcb8a12535'', rv_down = Some ''f3a6c8d91b42'',
     rv_upgrade = upgrade_add_trace_context, rv_downgrade = downgrade_add_trace_context\<rparr>"

text \<open>\<^verbatim>\<open>7d9e2a4b1c30_create_companies.py\<close>.\<close>

definition upgrade_create_companies :: "migration_step list" where
  "upgrade_create_companies =
     [CreateTable ''companies''
       [required ''id'' SInteger,
        required ''owner_id'' SInteger,
        required ''name'' (SString 120),
        optional ''website'' (SString 2048),
        optional ''industry'' (SString 100),
        optional ''location'' (SString 255),
        optional ''notes'' SText,
        defaulted CurrentTime ''created_at'' SDateTimeTz,
        defaulted CurrentTime ''updated_at'' SDateTimeTz]
       [(None, ForeignKey [''owner_id''] ''users'' [''id''] Cascade),
        (None, PrimaryKey [''id''])],
      CreateIndex ''ix_companies_owner_created_at'' ''companies''
       [Plain ''owner_id'', Plain ''created_at''] False,
      CreateIndex ''uq_companies_owner_name_normalized'' ''companies''
       [Plain ''owner_id'', LowerTrim ''name''] True]"

definition downgrade_create_companies :: "migration_step list" where
  "downgrade_create_companies =
     [DropIndex ''uq_companies_owner_name_normalized'' ''companies'',
      DropIndex ''ix_companies_owner_created_at'' ''companies'',
      DropTable ''companies'']"

definition revision_create_companies :: revision where
  "revision_create_companies = \<lparr>rv_id = ''7d9e2a4b1c30'', rv_down = Some ''65bcb8a12535'',
     rv_upgrade = upgrade_create_companies, rv_downgrade = downgrade_create_companies\<rparr>"

text \<open>\<^verbatim>\<open>a4e8c1d2f390_create_jobs.py\<close>.\<close>

definition upgrade_create_jobs :: "migration_step list" where
  "upgrade_create_jobs =
     [CreateTable ''jobs''
       [required ''id'' SInteger,
        required ''owner_id'' SInteger,
        required ''company_id'' SInteger,
        required ''title'' (SString 200),
        defaulted (Constant (TextV ''full_time'')) ''employment_type'' (SString 20),
        defaulted (Constant (TextV ''onsite'')) ''work_mode'' (SString 20),
        optional ''location'' (SString 255),
        optional ''source'' (SString 100),
        optional ''url'' (SString 2048),
        optional ''salary_min'' SBigInteger,
        optional ''salary_max'' SBigInteger,
        defaulted (Constant (TextV ''CNY'')) ''salary_currency'' (SString 3),
        optional ''description'' SText,
        defaulted (Constant (TextV ''open'')) ''status'' (SString 20),
        defaulted CurrentTime ''created_at'' SDateTimeTz,
        defaulted CurrentTime ''updated_at'' SDateTimeTz]
       [(Some ''ck_jobs_employment_type'', CheckThat (OneOf ''employment_type'' [''full_time'', ''part_time'', ''contract'', ''internship'', ''temporary''])),
        (Some ''ck_jobs_work_mode'', CheckThat (OneOf ''work_mode'' [''onsite'', ''hybrid'', ''remote''])),
        (Some ''ck_jobs_status'', CheckThat (OneOf ''status'' [''open'', ''paused'', ''closed''])),
        (Some ''ck_jobs_salary_min_nonnegative'', CheckThat (Either (Missing ''salary_min'') (AtLeast ''salary_min'' 0))),
        (Some ''ck_jobs_salary_max_nonnegative'', CheckThat (Either (Missing ''salary_max'') (AtLeast ''salary_max'' 0))),
        (Some ''ck_jobs_salary_range'', CheckThat (Either (Either (Missing ''salary_min'') (Missing ''salary_max'')) (AtMost ''salary_min'' ''salary_max''))),
        (Some ''ck_jobs_salary_currency'', CheckThat (Currency ''salary_currency'')),
        (None, ForeignKey [''company_id''] ''companies'' [''id''] Restrict),
        (None, ForeignKey [''owner_id''] ''users'' [''id''] Cascade),
        (None, PrimaryKey [''id''])],
      CreateIndex ''ix_jobs_owner_company'' ''jobs''
       [Plain ''owner_id'', Plain ''company_id''] False,
      CreateIndex ''ix_jobs_owner_created_at'' ''jobs''
       [Plain ''owner_id'', Plain ''created_at''] False,
      CreateIndex ''ix_jobs_owner_status_updated_at'' ''jobs''
       [Plain ''owner_id'', Plain ''status'', Plain ''updated_at''] False]"

definition downgrade_create_jobs :: "migration_step list" where
  "downgrade_create_jobs =
     [DropIndex ''ix_jobs_owner_status_updated_at'' ''jobs'',
      DropIndex ''ix_jobs_owner_created_at'' ''jobs'',
      DropIndex ''ix_jobs_owner_company'' ''jobs'',
      DropTable ''jobs'']"

definition revision_create_jobs :: revision where
  "revision_create_jobs = \<lparr>rv_id = ''a4e8c1d2f390'', rv_down = Some ''7d9e2a4b1c30'',
     rv_upgrade = upgrade_create_jobs, rv_downgrade = downgrade_create_jobs\<rparr>"

text \<open>\<^verbatim>\<open>b5f7d3e4a210_create_applications.py\<close>.\<close>

definition upgrade_create_applications :: "migration_step list" where
  "upgrade_create_applications =
     [CreateTable ''applications''
       [required ''id'' SInteger,
        required ''owner_id'' SInteger,
        required ''job_id'' SInteger,
        defaulted (Constant (TextV ''saved'')) ''status'' (SString 20),
        defaulted (Constant (IntV 3)) ''priority'' SInteger,
        optional ''applied_at'' SDate,
        optional ''deadline'' SDate,
        optional ''next_action_at'' SDateTimeTz,
        optional ''notes'' SText,
        defaulted CurrentTime ''created_at'' SDateTimeTz,
        defaulted CurrentTime ''updated_at'' SDateTimeTz]
       [(Some ''ck_applications_status'', CheckThat (OneOf ''status'' [''saved'', ''applied'', ''screening'', ''interview'', ''offer'', ''rejected'', ''withdrawn'', ''archived''])),
        (Some ''ck_applications_priority'', CheckThat (Between ''priority'' 1 5)),
        (None, ForeignKey [''job_id''] ''jobs'' [''id''] Restrict),
        (None, ForeignKey [''owner_id''] ''users'' [''id''] Cascade),
        (None, PrimaryKey [''id'']),
        (Some ''uq_applications_owner_job'', UniqueKey [''owner_id'', ''job_id''])],
      CreateIndex ''ix_applications_owner_created_at'' ''applications''
       [Plain ''owner_id'', Plain ''created_at''] False,
      CreateIndex ''ix_applications_owner_next_action_at'' ''applications''
       [Plain ''owner_id'', Plain ''next_action_at''] False,
      CreateIndex ''ix_applications_owner_status_updated_at'' ''applications''
       [Plain ''owner_id'', Plain ''status'', Plain ''updated_at''] False,
      CreateTable ''application_status_history''
       [required ''id'' SInteger,
        required ''application_id'' SInteger,
        required ''from_status'' (SString 20),
        required ''to_status'' (SString 20),
        defaulted CurrentTime ''changed_at'' SDateTimeTz]
       [(Some ''ck_application_status_history_from_status'', CheckThat (OneOf ''from_status'' [''saved'', ''applied'', ''screening'', ''interview'', ''offer'', ''rejected'', ''withdrawn'', ''archived''])),
        (Some ''ck_application_status_history_to_status'', CheckThat (OneOf ''to_status'' [''saved'', ''applied'', ''screening'', ''interview'', ''offer'', ''rejected'', ''withdrawn'', ''archived''])),
        (Some ''ck_application_status_history_changed'', CheckThat (Differ ''from_status'' ''to_status'')),
        (None, ForeignKey [''application_id''] ''applications'' [''id''] Cascade),
        (None, PrimaryKey [''id''])],
      CreateIndex ''ix_application_status_history_application_changed_at'' ''application_status_history''
       [Plain ''application_id'', Plain ''changed_at''] False]"

definition downgrade_create_applications :: "migration_step list" where
  "downgrade_create_applications =
     [DropIndex ''ix_application_status_history_application_changed_at'' ''application_status_history'',
      DropTable ''application_status_history'',
      DropIndex ''ix_applications_owner_status_updated_at'' ''applications'',
      DropIndex ''ix_applications_owner_next_action_at'' ''applications'',
      DropIndex ''ix_applications_owner_created_at'' ''applications'',
      DropTable ''applications'']"

definition revision_create_applications :: revision where
  "revision_create_applications = \<lparr>rv_id = ''b5f7d3e4a210'', rv_down = Some ''a4e8c1d2f390'',
     rv_upgrade = upgrade_create_applications, rv_downgrade = downgrade_create_applications\<rparr>"

text \<open>\<^verbatim>\<open>c6a8e4f5b321_create_interviews.py\<close>.\<close>

definition upgrade_create_interviews :: "migration_step list" where
  "upgrade_create_interviews =
     [CreateTable ''interviews''
       [required ''id'' SInteger,
        required ''owner_id'' SInteger,
        required ''application_id'' SInteger,
        required ''interview_type'' (SString 30),
        defaulted (Constant (TextV ''scheduled'')) ''status'' (SString 20),
        required ''scheduled_at'' SDateTimeTz,
        defaulted (Constant (IntV 60)) ''duration_minutes'' SInteger,
        optional ''location'' (SString 255),
        optional ''meeting_url'' (SString 2048),
        optional ''notes'' SText,
        optional ''feedback'' SText,
        defaulted CurrentTime ''created_at'' SDateTimeTz,
        defaulted CurrentTime ''updated_at'' SDateTimeTz]
       [(Some ''ck_interviews_type'', CheckThat (OneOf ''interview_type'' [''phone_screen'', ''technical'', ''behavioral'', ''system_design'', ''hiring_manager'', ''onsite'', ''other''])),
        (Some ''ck_interviews_status'', CheckThat (OneOf ''status'' [''scheduled'', ''completed'', ''cancelled''])),
        (Some ''ck_interviews_duration'', CheckThat (Between ''duration_minutes'' 15 480)),
        (None, ForeignKey [''application_id''] ''applications'' [''id''] Restrict),
        (None, ForeignKey [''owner_id''] ''users'' [''id''] Cascade),
        (None, PrimaryKey [''id''])],
      CreateIndex ''ix_interviews_owner_application'' ''interviews''
       [Plain ''owner_id'', Plain ''application_id''] False,
      CreateIndex ''ix_interviews_owner_scheduled_at'' ''interviews''
       [Plain ''owner_id'', Plain ''scheduled_at''] False,
      CreateIndex ''ix_interviews_owner_status_scheduled'' ''interviews''
       [Plain ''owner_id'', Plain ''status'', Plain ''scheduled_at''] False]"

definition downgrade_create_interviews :: "migration_step list" where
  "downgrade_create_interviews =
     [DropIndex ''ix_interviews_owner_status_scheduled'' ''interviews'',
      DropIndex ''ix_interviews_owner_scheduled_at'' ''interviews'',
      DropIndex ''ix_interviews_owner_application'' ''interviews'',
      DropTable ''interviews'']"

definition revision_create_interviews :: revision where
  "revision_create_interviews = \<lparr>rv_id = ''c6a8e4f5b321'', rv_down = Some ''b5f7d3e4a210'',
     rv_upgrade = upgrade_create_interviews, rv_downgrade = downgrade_create_interviews\<rparr>"

text \<open>\<^verbatim>\<open>d7b9f6a2c410_prevent_interview_overlaps.py\<close>.\<close>

definition backfill_end :: "row \<Rightarrow> row" where
  "backfill_end r =
     set_field ''scheduled_end_at''
       (case (field r ''scheduled_at'', field r ''duration_minutes'') of
          (TimeV s, IntV n) \<Rightarrow> TimeV (s + minutes n) | _ \<Rightarrow> NullV) r"

definition upgrade_prevent_overlaps :: "migration_step list" where
  "upgrade_prevent_overlaps =
     [CreateExtension ''btree_gist'',
      AddColumn ''interviews'' (optional ''scheduled_end_at'' SDateTimeTz),
      Update ''interviews'' (\<lambda>e i. backfill_end),
      SetNotNull ''interviews'' ''scheduled_end_at'',
      CreateConstraint ''ck_interviews_scheduled_window'' ''interviews''
       (CheckThat (EndsAfter ''scheduled_end_at'' ''scheduled_at'' ''duration_minutes'')),
      CreateConstraint ''ex_interviews_owner_scheduled_window'' ''interviews''
       (NoOverlap ''owner_id'' ''scheduled_at'' ''scheduled_end_at'' ''status'')]"

definition downgrade_prevent_overlaps :: "migration_step list" where
  "downgrade_prevent_overlaps =
     [DropConstraint ''ex_interviews_owner_scheduled_window'' ''interviews'',
      DropConstraint ''ck_interviews_scheduled_window'' ''interviews'',
      DropColumn ''interviews'' ''scheduled_end_at'']"

definition revision_prevent_overlaps :: revision where
  "revision_prevent_overlaps = \<lparr>rv_id = ''d7b9f6a2c410'', rv_down = Some ''c6a8e4f5b321'',
     rv_upgrade = upgrade_prevent_overlaps, rv_downgrade = downgrade_prevent_overlaps\<rparr>"

text \<open>\<^verbatim>\<open>f8c1d4e7a920_enforce_parent_ownership.py\<close>.\<close>

definition upgrade_enforce_ownership :: "migration_step list" where
  "upgrade_enforce_ownership =
     [CreateConstraint ''uq_companies_owner_id'' ''companies'' (UniqueKey [''owner_id'', ''id'']),
      CreateConstraint ''uq_jobs_owner_id'' ''jobs'' (UniqueKey [''owner_id'', ''id'']),
      CreateConstraint ''uq_applications_owner_id'' ''applications'' (UniqueKey [''owner_id'', ''id'']),
      CreateConstraint ''fk_jobs_owner_company'' ''jobs''
       (ForeignKey [''owner_id'', ''company_id''] ''companies'' [''owner_id'', ''id''] Restrict),
      CreateConstraint ''fk_applications_owner_job'' ''applications''
       (ForeignKey [''owner_id'', ''job_id''] ''jobs'' [''owner_id'', ''id''] Restrict),
      CreateConstraint ''fk_interviews_owner_application'' ''interviews''
       (ForeignKey [''owner_id'', ''application_id''] ''applications'' [''owner_id'', ''id''] Restrict),
      DropConstraint ''jobs_company_id_fkey'' ''jobs'',
      DropConstraint ''applications_job_id_fkey'' ''applications'',
      DropConstraint ''interviews_application_id_fkey'' ''interviews'']"

definition downgrade_enforce_ownership :: "migration_step list" where
  "downgrade_enforce_ownership =
     [CreateConstraint ''jobs_company_id_fkey'' ''jobs''
       (ForeignKey [''company_id''] ''companies'' [''id''] Restrict),
      CreateConstraint ''applications_job_id_fkey'' ''applications''
       (ForeignKey [''job_id''] ''jobs'' [''id''] Restrict),
      CreateConstraint ''interviews_application_id_fkey'' ''interviews''
       (ForeignKey [''application_id''] ''applications'' [''id''] Restrict),
      DropConstraint ''fk_interviews_owner_application'' ''interviews'',
      DropConstraint ''fk_applications_owner_job'' ''applications'',
      DropConstraint ''fk_jobs_owner_company'' ''jobs'',
      DropConstraint ''uq_applications_owner_id'' ''applications'',
      DropConstraint ''uq_jobs_owner_id'' ''jobs'',
      DropConstraint ''uq_companies_owner_id'' ''companies'']"

definition revision_enforce_ownership :: revision where
  "revision_enforce_ownership = \<lparr>rv_id = ''f8c1d4e7a920'', rv_down = Some ''d7b9f6a2c410'',
     rv_upgrade = upgrade_enforce_ownership, rv_downgrade = downgrade_enforce_ownership\<rparr>"

section \<open>Running them\<close>

text \<open>The files of the directory, and the chain their \<open>down_revision\<close>s form.\<close>

definition versions :: "revision list" where
  "versions =
     [revision_add_password,
      revision_add_production_fields,
      revision_create_users,
      revision_add_trace_context,
      revision_create_companies,
      revision_add_refresh_tokens,
      revision_create_jobs,
      revision_add_token_families,
      revision_create_applications,
      revision_add_role,
      revision_add_email_verification,
      revision_create_interviews,
      revision_prevent_overlaps,
      revision_add_mfa,
      revision_add_oidc,
      revision_add_outbox,
      revision_enforce_ownership]"

fun history_from :: "nat \<Rightarrow> string option \<Rightarrow> revision list \<Rightarrow> revision list" where
  "history_from 0 _ vs = []"
| "history_from (Suc fuel) cur vs =
     (case find (\<lambda>v. rv_down v = cur) vs of
        None \<Rightarrow> [] | Some v \<Rightarrow> v # history_from fuel (Some (rv_id v)) vs)"

definition history :: "revision list" where
  "history = history_from (length versions) None versions"

definition upgrade_one :: "migration_env \<Rightarrow> revision \<Rightarrow> statement" where
  "upgrade_one e v = run_steps_on e (rv_upgrade v)"

definition downgrade_one :: "migration_env \<Rightarrow> revision \<Rightarrow> statement" where
  "downgrade_one e v = run_steps_on e (rv_downgrade v)"

text \<open>The version the database is at, and its tables.\<close>

type_synonym versioned = "string option \<times> database"

definition pending :: "string option \<Rightarrow> revision list" where
  "pending current =
     (case current of None \<Rightarrow> history | Some v \<Rightarrow> tl (dropWhile (\<lambda>r. rv_id r \<noteq> v) history))"

text \<open>\<open>alembic upgrade head\<close>: one transaction, rolled back when a step fails.\<close>

definition upgrade_head :: "migration_env \<Rightarrow> versioned \<Rightarrow> versioned" where
  "upgrade_head e s =
     (case run_statements (map (upgrade_one e) (pending (fst s))) (snd s) of
        None \<Rightarrow> s
      | Some d \<Rightarrow> (if pending (fst s) = [] then fst s else Some (rv_id (last (pending (fst s)))), d))"

text \<open>\<open>alembic downgrade -1\<close>.\<close>

definition downgrade_last :: "migration_env \<Rightarrow> versioned \<Rightarrow> versioned" where
  "downgrade_last e s =
     (case find (\<lambda>v. Some (rv_id v) = fst s) versions of
        None \<Rightarrow> s
      | Some v \<Rightarrow> (case downgrade_one e v (snd s) of None \<Rightarrow> s | Some d \<Rightarrow> (rv_down v, d)))"

section \<open>The tables of the ORM classes\<close>

definition orm_table ::
    "string \<Rightarrow> column list \<Rightarrow> (string option \<times> tconstraint) list \<Rightarrow> index_def list \<Rightarrow> string \<times> table_def" where
  "orm_table t cols cs ixs =
     (t, \<lparr>tb_columns = cols,
        tb_constraints = map (\<lambda>(n, c). (case n of None \<Rightarrow> default_name t c | Some n \<Rightarrow> n, c)) cs,
        tb_indexes = ixs, tb_rows = []\<rparr>)"

definition orm_index :: "string \<Rightarrow> index_key list \<Rightarrow> bool \<Rightarrow> index_def" where
  "orm_index name keys unique = \<lparr>ix_name = name, ix_keys = keys, ix_unique = unique\<rparr>"

definition orm_users :: "string \<times> table_def" where
  "orm_users = orm_table ''users''
     [required ''id'' SInteger,
      required ''username'' (SString 50),
      required ''password'' (SString 255),
      required ''password_login_enabled'' SBoolean,
      required ''role'' (SString 20),
      optional ''email'' (SString 255),
      optional ''email_verified_at'' SDateTime,
      optional ''mfa_secret_encrypted'' SText,
      optional ''mfa_enrollment_created_at'' SDateTime,
      optional ''mfa_enabled_at'' SDateTime,
      optional ''mfa_last_counter'' SBigInteger,
      required ''is_active'' SBoolean,
      required ''created_at'' SDateTime,
      required ''updated_at'' SDateTime]
     [(None, PrimaryKey [''id''])]
     [orm_index ''ix_users_id'' [Plain ''id''] False,
      orm_index ''ix_users_username'' [Plain ''username''] True,
      orm_index ''uq_users_email_normalized'' [LowerTrim ''email''] True]"

definition orm_refresh_tokens :: "string \<times> table_def" where
  "orm_refresh_tokens = orm_table ''refresh_tokens''
     [required ''id'' SInteger,
      required ''user_id'' SInteger,
      required ''family_id'' (SString 36),
      required ''token'' (SString 255),
      required ''expires_at'' SDateTime,
      required ''created_at'' SDateTime,
      required ''last_used_at'' SDateTime,
      required ''device_name'' (SString 100),
      required ''revoked'' SBoolean,
      optional ''revoked_at'' SDateTime,
      optional ''revocation_reason'' (SString 32)]
     [(None, PrimaryKey [''id'']),
      (None, ForeignKey [''user_id''] ''users'' [''id''] NoAction)]
     [orm_index ''ix_refresh_tokens_id'' [Plain ''id''] False,
      orm_index ''ix_refresh_tokens_user_id'' [Plain ''user_id''] False,
      orm_index ''ix_refresh_tokens_family_id'' [Plain ''family_id''] False,
      orm_index ''ix_refresh_tokens_token'' [Plain ''token''] True]"

definition orm_account_action_tokens :: "string \<times> table_def" where
  "orm_account_action_tokens = orm_table ''account_action_tokens''
     [required ''id'' SInteger,
      required ''user_id'' SInteger,
      required ''purpose'' (SString 50),
      required ''token_hash'' (SString 64),
      required ''target'' (SString 255),
      required ''expires_at'' SDateTime,
      optional ''consumed_at'' SDateTime,
      required ''created_at'' SDateTime]
     [(None, PrimaryKey [''id'']),
      (None, ForeignKey [''user_id''] ''users'' [''id''] Cascade)]
     [orm_index ''ix_account_action_tokens_id'' [Plain ''id''] False,
      orm_index ''ix_account_action_tokens_user_id'' [Plain ''user_id''] False,
      orm_index ''ix_account_action_tokens_purpose'' [Plain ''purpose''] False,
      orm_index ''ix_account_action_tokens_token_hash'' [Plain ''token_hash''] True]"

definition orm_mfa_recovery_codes :: "string \<times> table_def" where
  "orm_mfa_recovery_codes = orm_table ''mfa_recovery_codes''
     [required ''id'' SInteger,
      required ''user_id'' SInteger,
      required ''code_hash'' (SString 64),
      required ''created_at'' SDateTime,
      optional ''used_at'' SDateTime]
     [(None, PrimaryKey [''id'']),
      (None, ForeignKey [''user_id''] ''users'' [''id''] Cascade)]
     [orm_index ''ix_mfa_recovery_codes_id'' [Plain ''id''] False,
      orm_index ''ix_mfa_recovery_codes_user_id'' [Plain ''user_id''] False,
      orm_index ''ix_mfa_recovery_codes_code_hash'' [Plain ''code_hash''] True]"

definition orm_external_identities :: "string \<times> table_def" where
  "orm_external_identities = orm_table ''external_identities''
     [required ''id'' SInteger,
      required ''user_id'' SInteger,
      required ''issuer'' (SString 255),
      required ''subject'' (SString 255),
      optional ''email'' (SString 255),
      required ''created_at'' SDateTime,
      optional ''last_login_at'' SDateTime]
     [(None, PrimaryKey [''id'']),
      (None, ForeignKey [''user_id''] ''users'' [''id''] Cascade),
      (Some ''uq_external_identity_subject'', UniqueKey [''issuer'', ''subject'']),
      (Some ''uq_external_identity_user_issuer'', UniqueKey [''user_id'', ''issuer''])]
     [orm_index ''ix_external_identities_id'' [Plain ''id''] False,
      orm_index ''ix_external_identities_user_id'' [Plain ''user_id''] False]"

definition orm_oidc_transactions :: "string \<times> table_def" where
  "orm_oidc_transactions = orm_table ''oidc_transactions''
     [required ''id'' SInteger,
      required ''state_hash'' (SString 64),
      required ''browser_binding_hash'' (SString 64),
      required ''nonce_hash'' (SString 64),
      required ''code_verifier_encrypted'' SText,
      required ''intent'' (SString 16),
      optional ''user_id'' SInteger,
      required ''issuer'' (SString 255),
      required ''redirect_uri'' (SString 500),
      required ''device_name'' (SString 100),
      required ''expires_at'' SDateTime,
      optional ''consumed_at'' SDateTime,
      required ''created_at'' SDateTime]
     [(None, PrimaryKey [''id'']),
      (None, ForeignKey [''user_id''] ''users'' [''id''] Cascade)]
     [orm_index ''ix_oidc_transactions_id'' [Plain ''id''] False,
      orm_index ''ix_oidc_transactions_state_hash'' [Plain ''state_hash''] True,
      orm_index ''ix_oidc_transactions_user_id'' [Plain ''user_id''] False]"

definition orm_outbox_messages :: "string \<times> table_def" where
  "orm_outbox_messages = orm_table ''outbox_messages''
     [required ''id'' SUuid,
      required ''message_type'' (SString 50),
      required ''idempotency_key'' (SString 64),
      required ''encryption_version'' SInteger,
      optional ''payload_encrypted'' SLargeBinary,
      required ''status'' (SString 20),
      required ''attempt_count'' SInteger,
      required ''available_at'' SDateTimeTz,
      optional ''lease_owner'' (SString 64),
      optional ''lease_expires_at'' SDateTimeTz,
      required ''payload_expires_at'' SDateTimeTz,
      optional ''failure_category'' (SString 32),
      optional ''traceparent'' (SString 256),
      optional ''tracestate'' (SString 512),
      required ''created_at'' SDateTimeTz,
      required ''updated_at'' SDateTimeTz,
      optional ''terminal_at'' SDateTimeTz]
     [(None, PrimaryKey [''id'']),
      (None, UniqueKey [''idempotency_key'']),
      (Some ''ck_outbox_messages_status'', CheckThat (OneOf ''status'' [''pending'', ''processing'', ''succeeded'', ''dead_letter''])),
      (Some ''ck_outbox_messages_attempt_count'', CheckThat (AtLeast ''attempt_count'' 0)),
      (Some ''ck_outbox_messages_lease_state'', CheckThat (Either
         (Both (Both (OneOf ''status'' [''processing'']) (Present ''lease_owner'')) (Present ''lease_expires_at''))
         (Both (Both (Neg (OneOf ''status'' [''processing''])) (Missing ''lease_owner'')) (Missing ''lease_expires_at'')))),
      (Some ''ck_outbox_messages_terminal_state'', CheckThat (Either
         (Both (Both (OneOf ''status'' [''succeeded'', ''dead_letter'']) (Present ''terminal_at'')) (Missing ''payload_encrypted''))
         (Both (Both (OneOf ''status'' [''pending'', ''processing'']) (Missing ''terminal_at'')) (Present ''payload_encrypted''))))]
     [orm_index ''ix_outbox_messages_claim'' [Plain ''status'', Plain ''available_at'', Plain ''lease_expires_at'', Plain ''created_at''] False]"

definition orm_companies :: "string \<times> table_def" where
  "orm_companies = orm_table ''companies''
     [required ''id'' SInteger,
      required ''owner_id'' SInteger,
      required ''name'' (SString 120),
      optional ''website'' (SString 2048),
      optional ''industry'' (SString 100),
      optional ''location'' (SString 255),
      optional ''notes'' SText,
      required ''created_at'' SDateTimeTz,
      required ''updated_at'' SDateTimeTz]
     [(None, PrimaryKey [''id'']),
      (None, ForeignKey [''owner_id''] ''users'' [''id''] Cascade),
      (Some ''uq_companies_owner_id'', UniqueKey [''owner_id'', ''id''])]
     [orm_index ''uq_companies_owner_name_normalized'' [Plain ''owner_id'', LowerTrim ''name''] True,
      orm_index ''ix_companies_owner_created_at'' [Plain ''owner_id'', Plain ''created_at''] False]"

definition orm_jobs :: "string \<times> table_def" where
  "orm_jobs = orm_table ''jobs''
     [required ''id'' SInteger,
      required ''owner_id'' SInteger,
      required ''company_id'' SInteger,
      required ''title'' (SString 200),
      required ''employment_type'' (SString 20),
      required ''work_mode'' (SString 20),
      optional ''location'' (SString 255),
      optional ''source'' (SString 100),
      optional ''url'' (SString 2048),
      optional ''salary_min'' SBigInteger,
      optional ''salary_max'' SBigInteger,
      required ''salary_currency'' (SString 3),
      optional ''description'' SText,
      required ''status'' (SString 20),
      required ''created_at'' SDateTimeTz,
      required ''updated_at'' SDateTimeTz]
     [(None, PrimaryKey [''id'']),
      (None, ForeignKey [''owner_id''] ''users'' [''id''] Cascade),
      (Some ''uq_jobs_owner_id'', UniqueKey [''owner_id'', ''id'']),
      (Some ''fk_jobs_owner_company'', ForeignKey [''owner_id'', ''company_id''] ''companies'' [''owner_id'', ''id''] Restrict),
      (Some ''ck_jobs_employment_type'', CheckThat (OneOf ''employment_type'' [''full_time'', ''part_time'', ''contract'', ''internship'', ''temporary''])),
      (Some ''ck_jobs_work_mode'', CheckThat (OneOf ''work_mode'' [''onsite'', ''hybrid'', ''remote''])),
      (Some ''ck_jobs_status'', CheckThat (OneOf ''status'' [''open'', ''paused'', ''closed''])),
      (Some ''ck_jobs_salary_min_nonnegative'', CheckThat (Either (Missing ''salary_min'') (AtLeast ''salary_min'' 0))),
      (Some ''ck_jobs_salary_max_nonnegative'', CheckThat (Either (Missing ''salary_max'') (AtLeast ''salary_max'' 0))),
      (Some ''ck_jobs_salary_range'', CheckThat (Either (Either (Missing ''salary_min'') (Missing ''salary_max'')) (AtMost ''salary_min'' ''salary_max''))),
      (Some ''ck_jobs_salary_currency'', CheckThat (Currency ''salary_currency''))]
     [orm_index ''ix_jobs_owner_created_at'' [Plain ''owner_id'', Plain ''created_at''] False,
      orm_index ''ix_jobs_owner_status_updated_at'' [Plain ''owner_id'', Plain ''status'', Plain ''updated_at''] False,
      orm_index ''ix_jobs_owner_company'' [Plain ''owner_id'', Plain ''company_id''] False]"

definition orm_applications :: "string \<times> table_def" where
  "orm_applications = orm_table ''applications''
     [required ''id'' SInteger,
      required ''owner_id'' SInteger,
      required ''job_id'' SInteger,
      required ''status'' (SString 20),
      required ''priority'' SInteger,
      optional ''applied_at'' SDate,
      optional ''deadline'' SDate,
      optional ''next_action_at'' SDateTimeTz,
      optional ''notes'' SText,
      required ''created_at'' SDateTimeTz,
      required ''updated_at'' SDateTimeTz]
     [(None, PrimaryKey [''id'']),
      (None, ForeignKey [''owner_id''] ''users'' [''id''] Cascade),
      (Some ''uq_applications_owner_id'', UniqueKey [''owner_id'', ''id'']),
      (Some ''fk_applications_owner_job'', ForeignKey [''owner_id'', ''job_id''] ''jobs'' [''owner_id'', ''id''] Restrict),
      (Some ''uq_applications_owner_job'', UniqueKey [''owner_id'', ''job_id'']),
      (Some ''ck_applications_status'', CheckThat (OneOf ''status'' [''saved'', ''applied'', ''screening'', ''interview'', ''offer'', ''rejected'', ''withdrawn'', ''archived''])),
      (Some ''ck_applications_priority'', CheckThat (Between ''priority'' 1 5))]
     [orm_index ''ix_applications_owner_created_at'' [Plain ''owner_id'', Plain ''created_at''] False,
      orm_index ''ix_applications_owner_status_updated_at'' [Plain ''owner_id'', Plain ''status'', Plain ''updated_at''] False,
      orm_index ''ix_applications_owner_next_action_at'' [Plain ''owner_id'', Plain ''next_action_at''] False]"

definition orm_application_status_history :: "string \<times> table_def" where
  "orm_application_status_history = orm_table ''application_status_history''
     [required ''id'' SInteger,
      required ''application_id'' SInteger,
      required ''from_status'' (SString 20),
      required ''to_status'' (SString 20),
      required ''changed_at'' SDateTimeTz]
     [(None, PrimaryKey [''id'']),
      (None, ForeignKey [''application_id''] ''applications'' [''id''] Cascade),
      (Some ''ck_application_status_history_from_status'', CheckThat (OneOf ''from_status'' [''saved'', ''applied'', ''screening'', ''interview'', ''offer'', ''rejected'', ''withdrawn'', ''archived''])),
      (Some ''ck_application_status_history_to_status'', CheckThat (OneOf ''to_status'' [''saved'', ''applied'', ''screening'', ''interview'', ''offer'', ''rejected'', ''withdrawn'', ''archived''])),
      (Some ''ck_application_status_history_changed'', CheckThat (Differ ''from_status'' ''to_status''))]
     [orm_index ''ix_application_status_history_application_changed_at'' [Plain ''application_id'', Plain ''changed_at''] False]"

definition orm_interviews :: "string \<times> table_def" where
  "orm_interviews = orm_table ''interviews''
     [required ''id'' SInteger,
      required ''owner_id'' SInteger,
      required ''application_id'' SInteger,
      required ''interview_type'' (SString 30),
      required ''status'' (SString 20),
      required ''scheduled_at'' SDateTimeTz,
      required ''duration_minutes'' SInteger,
      required ''scheduled_end_at'' SDateTimeTz,
      optional ''location'' (SString 255),
      optional ''meeting_url'' (SString 2048),
      optional ''notes'' SText,
      optional ''feedback'' SText,
      required ''created_at'' SDateTimeTz,
      required ''updated_at'' SDateTimeTz]
     [(None, PrimaryKey [''id'']),
      (None, ForeignKey [''owner_id''] ''users'' [''id''] Cascade),
      (Some ''fk_interviews_owner_application'', ForeignKey [''owner_id'', ''application_id''] ''applications'' [''owner_id'', ''id''] Restrict),
      (Some ''ck_interviews_type'', CheckThat (OneOf ''interview_type'' [''phone_screen'', ''technical'', ''behavioral'', ''system_design'', ''hiring_manager'', ''onsite'', ''other''])),
      (Some ''ck_interviews_status'', CheckThat (OneOf ''status'' [''scheduled'', ''completed'', ''cancelled''])),
      (Some ''ck_interviews_duration'', CheckThat (Between ''duration_minutes'' 15 480)),
      (Some ''ck_interviews_scheduled_window'', CheckThat (EndsAfter ''scheduled_end_at'' ''scheduled_at'' ''duration_minutes'')),
      (Some ''ex_interviews_owner_scheduled_window'',
       NoOverlap ''owner_id'' ''scheduled_at'' ''scheduled_end_at'' ''status'')]
     [orm_index ''ix_interviews_owner_scheduled_at'' [Plain ''owner_id'', Plain ''scheduled_at''] False,
      orm_index ''ix_interviews_owner_application'' [Plain ''owner_id'', Plain ''application_id''] False,
      orm_index ''ix_interviews_owner_status_scheduled'' [Plain ''owner_id'', Plain ''status'', Plain ''scheduled_at''] False]"

definition orm_metadata :: database where
  "orm_metadata =
     [orm_users,
      orm_refresh_tokens,
      orm_account_action_tokens,
      orm_mfa_recovery_codes,
      orm_external_identities,
      orm_oidc_transactions,
      orm_outbox_messages,
      orm_companies,
      orm_jobs,
      orm_applications,
      orm_application_status_history,
      orm_interviews]"

text \<open>
  A database has the tables of the classes: the same columns up to their order and to defaults in
  the database (the classes give defaults in Python), the same constraints and indexes.
\<close>

definition without_default :: "column \<Rightarrow> column" where
  "without_default c = c\<lparr>cl_default := NoDefault\<rparr>"

definition matches_table :: "table_def \<Rightarrow> table_def \<Rightarrow> bool" where
  "matches_table a b =
     (set (map without_default (tb_columns a)) = set (map without_default (tb_columns b)) \<and>
      length (tb_columns a) = length (tb_columns b) \<and>
      set (tb_constraints a) = set (tb_constraints b) \<and> set (tb_indexes a) = set (tb_indexes b))"

definition matches_orm :: "database \<Rightarrow> bool" where
  "matches_orm d =
     (set (map fst d) = set (map fst orm_metadata) \<and>
      list_all (\<lambda>(t, b). case map_of d t of None \<Rightarrow> False | Some a \<Rightarrow> matches_table a b) orm_metadata)"

end
