(* ===== verification/MigrationSafety.thy ===== *)
theory MigrationSafety
  imports Migrations
begin

text \<open>
  Properties of the migrations: running all of them on an empty database gives the tables of the
  ORM classes, an upgrade keeps the data of every table, and a downgrade undoes its upgrade, with
  the exceptions the theorems name.
\<close>

section \<open>The chain of revisions\<close>

lemmas revision_defs =
  revision_create_users_def revision_add_password_def revision_add_role_def
  revision_add_production_fields_def revision_add_refresh_tokens_def
  revision_add_email_verification_def revision_add_token_families_def revision_add_mfa_def
  revision_add_oidc_def revision_add_outbox_def revision_add_trace_context_def
  revision_create_companies_def revision_create_jobs_def revision_create_applications_def
  revision_create_interviews_def revision_prevent_overlaps_def revision_enforce_ownership_def

lemmas upgrade_defs =
  upgrade_create_users_def upgrade_add_password_def upgrade_add_role_def
  upgrade_add_production_fields_def upgrade_add_refresh_tokens_def
  upgrade_add_email_verification_def upgrade_add_token_families_def upgrade_add_mfa_def
  upgrade_add_oidc_def upgrade_add_outbox_def upgrade_add_trace_context_def
  upgrade_create_companies_def upgrade_create_jobs_def upgrade_create_applications_def
  upgrade_create_interviews_def upgrade_prevent_overlaps_def upgrade_enforce_ownership_def

lemmas downgrade_defs =
  downgrade_create_users_def downgrade_add_password_def downgrade_add_role_def
  downgrade_add_production_fields_def downgrade_add_refresh_tokens_def
  downgrade_add_email_verification_def downgrade_add_token_families_def downgrade_add_mfa_def
  downgrade_add_oidc_def downgrade_add_outbox_def downgrade_add_trace_context_def
  downgrade_create_companies_def downgrade_create_jobs_def downgrade_create_applications_def
  downgrade_create_interviews_def downgrade_prevent_overlaps_def downgrade_enforce_ownership_def

lemma revision_ids [simp]:
  "rv_id revision_create_users = ''551ded2ecd7f''"
  "rv_id revision_add_password = ''2e6b8bef6ca6''"
  "rv_id revision_add_role = ''b8ec7bdd3f0b''"
  "rv_id revision_add_production_fields = ''4c1b48a8c021''"
  "rv_id revision_add_refresh_tokens = ''906770b858da''"
  "rv_id revision_add_email_verification = ''c2f45f831a2d''"
  "rv_id revision_add_token_families = ''a71f0c4d9e32''"
  "rv_id revision_add_mfa = ''d82e194f6b7a''"
  "rv_id revision_add_oidc = ''e91a5c7d3b20''"
  "rv_id revision_add_outbox = ''f3a6c8d91b42''"
  "rv_id revision_add_trace_context = ''65bcb8a12535''"
  "rv_id revision_create_companies = ''7d9e2a4b1c30''"
  "rv_id revision_create_jobs = ''a4e8c1d2f390''"
  "rv_id revision_create_applications = ''b5f7d3e4a210''"
  "rv_id revision_create_interviews = ''c6a8e4f5b321''"
  "rv_id revision_prevent_overlaps = ''d7b9f6a2c410''"
  "rv_id revision_enforce_ownership = ''f8c1d4e7a920''"
  by (simp_all add: revision_defs)

lemma revision_parents [simp]:
  "rv_down revision_create_users = None"
  "rv_down revision_add_password = Some ''551ded2ecd7f''"
  "rv_down revision_add_role = Some ''2e6b8bef6ca6''"
  "rv_down revision_add_production_fields = Some ''b8ec7bdd3f0b''"
  "rv_down revision_add_refresh_tokens = Some ''4c1b48a8c021''"
  "rv_down revision_add_email_verification = Some ''906770b858da''"
  "rv_down revision_add_token_families = Some ''c2f45f831a2d''"
  "rv_down revision_add_mfa = Some ''a71f0c4d9e32''"
  "rv_down revision_add_oidc = Some ''d82e194f6b7a''"
  "rv_down revision_add_outbox = Some ''e91a5c7d3b20''"
  "rv_down revision_add_trace_context = Some ''f3a6c8d91b42''"
  "rv_down revision_create_companies = Some ''65bcb8a12535''"
  "rv_down revision_create_jobs = Some ''7d9e2a4b1c30''"
  "rv_down revision_create_applications = Some ''a4e8c1d2f390''"
  "rv_down revision_create_interviews = Some ''b5f7d3e4a210''"
  "rv_down revision_prevent_overlaps = Some ''c6a8e4f5b321''"
  "rv_down revision_enforce_ownership = Some ''d7b9f6a2c410''"
  by (simp_all add: revision_defs)

lemma revision_upgrades [simp]:
  "rv_upgrade revision_create_users = upgrade_create_users"
  "rv_upgrade revision_add_password = upgrade_add_password"
  "rv_upgrade revision_add_role = upgrade_add_role"
  "rv_upgrade revision_add_production_fields = upgrade_add_production_fields"
  "rv_upgrade revision_add_refresh_tokens = upgrade_add_refresh_tokens"
  "rv_upgrade revision_add_email_verification = upgrade_add_email_verification"
  "rv_upgrade revision_add_token_families = upgrade_add_token_families"
  "rv_upgrade revision_add_mfa = upgrade_add_mfa"
  "rv_upgrade revision_add_oidc = upgrade_add_oidc"
  "rv_upgrade revision_add_outbox = upgrade_add_outbox"
  "rv_upgrade revision_add_trace_context = upgrade_add_trace_context"
  "rv_upgrade revision_create_companies = upgrade_create_companies"
  "rv_upgrade revision_create_jobs = upgrade_create_jobs"
  "rv_upgrade revision_create_applications = upgrade_create_applications"
  "rv_upgrade revision_create_interviews = upgrade_create_interviews"
  "rv_upgrade revision_prevent_overlaps = upgrade_prevent_overlaps"
  "rv_upgrade revision_enforce_ownership = upgrade_enforce_ownership"
  by (simp_all add: revision_defs)

lemma revision_downgrades [simp]:
  "rv_downgrade revision_create_users = downgrade_create_users"
  "rv_downgrade revision_add_password = downgrade_add_password"
  "rv_downgrade revision_add_role = downgrade_add_role"
  "rv_downgrade revision_add_production_fields = downgrade_add_production_fields"
  "rv_downgrade revision_add_refresh_tokens = downgrade_add_refresh_tokens"
  "rv_downgrade revision_add_email_verification = downgrade_add_email_verification"
  "rv_downgrade revision_add_token_families = downgrade_add_token_families"
  "rv_downgrade revision_add_mfa = downgrade_add_mfa"
  "rv_downgrade revision_add_oidc = downgrade_add_oidc"
  "rv_downgrade revision_add_outbox = downgrade_add_outbox"
  "rv_downgrade revision_add_trace_context = downgrade_add_trace_context"
  "rv_downgrade revision_create_companies = downgrade_create_companies"
  "rv_downgrade revision_create_jobs = downgrade_create_jobs"
  "rv_downgrade revision_create_applications = downgrade_create_applications"
  "rv_downgrade revision_create_interviews = downgrade_create_interviews"
  "rv_downgrade revision_prevent_overlaps = downgrade_prevent_overlaps"
  "rv_downgrade revision_enforce_ownership = downgrade_enforce_ownership"
  by (simp_all add: revision_defs)

lemma history_list:
  "history =
     [revision_create_users,
      revision_add_password,
      revision_add_role,
      revision_add_production_fields,
      revision_add_refresh_tokens,
      revision_add_email_verification,
      revision_add_token_families,
      revision_add_mfa,
      revision_add_oidc,
      revision_add_outbox,
      revision_add_trace_context,
      revision_create_companies,
      revision_create_jobs,
      revision_create_applications,
      revision_create_interviews,
      revision_prevent_overlaps,
      revision_enforce_ownership]"
  by (simp add: history_def versions_def numeral_eq_Suc)

lemma normalize_email_tame: "map fst (normalize_email r) = map fst r"
  by (simp add: normalize_email_def split: sql_value.split)

lemma backfill_family_tame: "map fst (backfill_family e i r) = map fst r"
  by (simp add: backfill_family_def Let_def)

lemma backfill_end_tame: "map fst (backfill_end r) = map fst r"
  by (simp add: backfill_end_def)

lemmas data_migrations_tame = normalize_email_tame backfill_family_tame backfill_end_tame

lemma upgrade_tame: "v \<in> set history \<Longrightarrow> list_all tame (rv_upgrade v)"
  by (auto simp: history_list upgrade_defs data_migrations_tame)

lemma downgrade_tame: "v \<in> set history \<Longrightarrow> list_all tame (rv_downgrade v)"
  by (auto simp: history_list downgrade_defs)

lemma upgrade_one_ok: "upgrade_one e v d = Some d' \<Longrightarrow> v \<in> set history \<Longrightarrow> catalog_ok d \<Longrightarrow> catalog_ok d'"
  using run_steps_ok upgrade_tame by (auto simp: upgrade_one_def)

lemma downgrade_one_ok: "downgrade_one e v d = Some d' \<Longrightarrow> v \<in> set history \<Longrightarrow> catalog_ok d \<Longrightarrow> catalog_ok d'"
  using run_steps_ok downgrade_tame by (auto simp: downgrade_one_def)

lemma pending_history: "set (pending v) \<subseteq> set history"
proof -
  have "set (tl xs) \<subseteq> set xs" for xs :: "revision list" by (cases xs) auto
  then show ?thesis by (auto simp: pending_def dest: set_dropWhileD split: option.splits)
qed

lemma versions_history: "set versions = set history"
  by (auto simp: versions_def history_list)

section \<open>Reached databases are well formed\<close>

inductive migrate :: "versioned \<Rightarrow> versioned \<Rightarrow> bool" where
  migrate_up: "migrate s (upgrade_head e s)"
| migrate_down: "migrate s (downgrade_last e s)"

inductive_cases migrateE: "migrate s s'"

lemma upgrade_head_ok: "catalog_ok (snd s) \<Longrightarrow> catalog_ok (snd (upgrade_head e s))"
proof -
  assume ok: "catalog_ok (snd s)"
  have "catalog_ok d" if run: "run_statements (map (upgrade_one e) (pending (fst s))) (snd s) = Some d" for d
    by (rule run_statements_inv [where P = catalog_ok, OF _ ok run])
      (use upgrade_one_ok pending_history [of "fst s"] in \<open>fastforce\<close>)
  then show ?thesis using ok by (auto simp: upgrade_head_def split: option.split)
qed

lemma downgrade_last_ok: "catalog_ok (snd s) \<Longrightarrow> catalog_ok (snd (downgrade_last e s))"
  using downgrade_one_ok versions_history
  by (auto simp: downgrade_last_def find_Some_iff split: option.split) (metis nth_mem)

interpretation migrations: invariant_system "\<lambda>s. s = (None, [])" migrate "\<lambda>s. catalog_ok (snd s)"
proof
  show "catalog_ok (snd s)" if "s = (None, [])" for s :: versioned using that by simp
  show "catalog_ok (snd t)" if "catalog_ok (snd s)" and "migrate s t" for s t
    using that(2,1) by (cases rule: migrate.cases) (simp_all add: upgrade_head_ok downgrade_last_ok)
qed

section \<open>Data migrations\<close>

lemma field_set_field: "c' \<noteq> c \<Longrightarrow> field (set_field c v r) c' = field r c'"
  by (induction r) (auto simp: set_field_def field_def)

lemma normalize_email_field: "c \<noteq> ''email'' \<Longrightarrow> field (normalize_email r) c = field r c"
  by (simp add: normalize_email_def field_set_field split: sql_value.split)

lemma backfill_family_field:
  "c \<notin> {''family_id'', ''last_used_at'', ''device_name'', ''revoked_at'', ''revocation_reason''} \<Longrightarrow>
   field (backfill_family e i r) c = field r c"
  by (simp add: backfill_family_def Let_def field_set_field)

lemma backfill_end_field: "c \<noteq> ''scheduled_end_at'' \<Longrightarrow> field (backfill_end r) c = field r c"
  by (simp add: backfill_end_def field_set_field)

lemma upgrade_email_verification_keeps:
  assumes "upgrade_one e revision_add_email_verification d = Some d'"
  shows "kept {(''users'', ''email'')} d d'"
proof -
  obtain mid where mid: "update_rows ''users'' (\<lambda>i. normalize_email) d = Some mid"
    and rest: "run_steps_on e (tl upgrade_add_email_verification) mid = Some d'"
    using assms by (auto simp: upgrade_one_def upgrade_add_email_verification_def split: option.splits)
  have "kept ({''users''} \<times> {''email''}) d mid"
    by (rule update_rows_keeps [OF mid]) (simp add: normalize_email_field)
  moreover have "kept {} mid d'"
    by (rule additive_steps_keep [OF rest]) (simp add: upgrade_add_email_verification_def)
  ultimately show ?thesis using kept_trans [of "{''users''} \<times> {''email''}" d mid "{}" d'] by simp
qed

lemma upgrade_token_families_keeps:
  assumes "upgrade_one e revision_add_token_families d = Some d'"
  shows "kept {} d d'"
proof -
  let ?new = "{''family_id'', ''last_used_at'', ''device_name'', ''revoked_at'', ''revocation_reason''}"
  obtain d1 d2 where run: "run_steps_on e (take 5 upgrade_add_token_families) d = Some d1"
    "update_rows ''refresh_tokens'' (backfill_family e) d1 = Some d2"
    "run_steps_on e (drop 6 upgrade_add_token_families) d2 = Some d'"
    using assms by (auto simp: upgrade_one_def upgrade_add_token_families_def split: option.splits)
  have "kept {} d d1"
    by (rule additive_steps_keep [OF run(1)]) (simp add: upgrade_add_token_families_def)
  moreover have "kept ({''refresh_tokens''} \<times> ?new) d1 d2"
    by (rule update_rows_keeps [OF run(2)]) (simp add: backfill_family_field)
  moreover have "kept {} d2 d'"
    by (rule additive_steps_keep [OF run(3)]) (simp add: upgrade_add_token_families_def)
  ultimately have "kept ({''refresh_tokens''} \<times> ?new) d d'" by (rule kept_around)
  moreover have "c \<notin> set (column_names td)"
    if "(t, c) \<in> {''refresh_tokens''} \<times> ?new" "map_of d t = Some td" for t c td
    by (rule added_columns_fresh [OF run(1)])
      (use that in \<open>auto simp: upgrade_add_token_families_def conj_disj_distribR ex_disj_distrib\<close>)
  ultimately show ?thesis by (rule kept_fresh)
qed

lemma upgrade_overlaps_keeps:
  assumes "upgrade_one e revision_prevent_overlaps d = Some d'"
  shows "kept {} d d'"
proof -
  obtain d1 d2 where run: "run_steps_on e (take 2 upgrade_prevent_overlaps) d = Some d1"
    "update_rows ''interviews'' (\<lambda>i. backfill_end) d1 = Some d2"
    "run_steps_on e (drop 3 upgrade_prevent_overlaps) d2 = Some d'"
    using assms by (auto simp: upgrade_one_def upgrade_prevent_overlaps_def split: option.splits)
  have "kept {} d d1"
    by (rule additive_steps_keep [OF run(1)]) (simp add: upgrade_prevent_overlaps_def)
  moreover have "kept ({''interviews''} \<times> {''scheduled_end_at''}) d1 d2"
    by (rule update_rows_keeps [OF run(2)]) (simp add: backfill_end_field)
  moreover have "kept {} d2 d'"
    by (rule additive_steps_keep [OF run(3)]) (simp add: upgrade_prevent_overlaps_def)
  ultimately have "kept ({''interviews''} \<times> {''scheduled_end_at''}) d d'" by (rule kept_around)
  moreover have "c \<notin> set (column_names td)"
    if "(t, c) \<in> {''interviews''} \<times> {''scheduled_end_at''}" "map_of d t = Some td" for t c td
    by (rule added_columns_fresh [OF run(1)]) (use that in \<open>auto simp: upgrade_prevent_overlaps_def\<close>)
  ultimately show ?thesis by (rule kept_fresh)
qed

lemma upgrade_one_keeps:
  assumes "upgrade_one e v d = Some d'" and "v \<in> set history"
  shows "kept {(''users'', ''email'')} d d'"
proof -
  consider "v = revision_add_email_verification" | "v = revision_add_token_families" | "v = revision_prevent_overlaps"
    | "list_all additive (rv_upgrade v)"
    using assms(2) by (auto simp: history_list upgrade_defs)
  then show ?thesis
  proof cases
    case 4
    then have "kept {} d d'" using additive_steps_keep assms(1) by (simp add: upgrade_one_def)
    then show ?thesis by (rule kept_mono) simp
  qed (use assms upgrade_email_verification_keeps upgrade_token_families_keeps upgrade_overlaps_keeps kept_mono
      in blast)+
qed

lemma upgrade_head_keeps: "kept {(''users'', ''email'')} (snd s) (snd (upgrade_head e s))"
proof -
  have "kept {(''users'', ''email'')} (snd s) d"
    if run: "run_statements (map (upgrade_one e) (pending (fst s))) (snd s) = Some d" for d
    by (rule run_statements_inv [where P = "kept {(''users'', ''email'')} (snd s)", OF _ kept_refl run])
      (use upgrade_one_keeps pending_history [of "fst s"] kept_trans in fastforce)
  then show ?thesis by (auto simp: upgrade_head_def kept_refl split: option.split)
qed

section \<open>From an empty database to the newest version\<close>

text \<open>The chain is run in pieces, each evaluated on the database the one before it leaves.\<close>

lemma run_piece:
  "run_statements xs d = Some d' \<Longrightarrow> \<exists>r. run_statements ys d' = Some r \<and> P r \<Longrightarrow>
   \<exists>r. run_statements (xs @ ys) d = Some r \<and> P r"
  by (simp add: run_statements_append)

lemma history_pieces:
  "map (upgrade_one e) history =
   map (upgrade_one e) [revision_create_users,
       revision_add_password,
       revision_add_role,
       revision_add_production_fields,
       revision_add_refresh_tokens] @
   map (upgrade_one e) [revision_add_email_verification,
       revision_add_token_families] @
   map (upgrade_one e) [revision_add_mfa] @
   map (upgrade_one e) [revision_add_oidc] @
   map (upgrade_one e) [revision_add_outbox,
       revision_add_trace_context] @
   map (upgrade_one e) [revision_create_companies,
       revision_create_jobs] @
   map (upgrade_one e) [revision_create_applications] @
   map (upgrade_one e) [revision_create_interviews] @
   map (upgrade_one e) [revision_prevent_overlaps,
       revision_enforce_ownership]"
  by (simp only: history_list list.map append.simps)

lemma run_history: "\<exists>d. run_statements (map (upgrade_one e) history) [] = Some d \<and> matches_orm d"
  unfolding history_pieces
  apply (rule run_piece)
   apply code_simp
  apply (rule refl)?
  apply (rule run_piece)
   apply code_simp
  apply (rule refl)?
  apply (rule run_piece)
   apply code_simp
  apply (rule refl)?
  apply (rule run_piece)
   apply code_simp
  apply (rule refl)?
  apply (rule run_piece)
   apply code_simp
  apply (rule refl)?
  apply (rule run_piece)
   apply code_simp
  apply (rule refl)?
  apply (rule run_piece)
   apply code_simp
  apply (rule refl)?
  apply (rule run_piece)
   apply code_simp
  apply (rule refl)?
  apply (rule exI, rule conjI)
   apply code_simp
  apply (rule refl)?
  apply code_simp
  done

section \<open>Properties\<close>

text \<open>
  C36: the migrations build the tables the ORM classes declare: upgrading an empty database runs all
  17 revisions without a failure and ends with exactly the declared tables, columns, types,
  constraints and indexes, defaults in the database apart.
\<close>

theorem migrations_build_orm:
  "fst (upgrade_head e (None, [])) = Some ''f8c1d4e7a920'' \<and> matches_orm (snd (upgrade_head e (None, [])))"
proof -
  obtain d where d: "run_statements (map (upgrade_one e) history) [] = Some d" "matches_orm d"
    using run_history by blast
  have "upgrade_head e (None, []) = (Some (rv_id (last history)), d)"
    using d(1) by (simp add: upgrade_head_def pending_def history_list)
  then show ?thesis using d(2) by (simp add: history_list)
qed


text \<open>A database before the last revision, with one company.\<close>

definition owned_table :: "string \<Rightarrow> string \<Rightarrow> string \<Rightarrow> row list \<Rightarrow> string \<times> table_def" where
  "owned_table t parent ref rs =
     (t, \<lparr>tb_columns = [required ''id'' SInteger, required ''owner_id'' SInteger, required parent SInteger],
        tb_constraints = [(t @ ''_pkey'', PrimaryKey [''id'']),
          (t @ ''_'' @ parent @ ''_fkey'', ForeignKey [parent] ref [''id''] Restrict)],
        tb_indexes = [], tb_rows = rs\<rparr>)"

definition sample_owned :: database where
  "sample_owned =
     [owned_table ''companies'' ''parent'' ''companies'' [[(''id'', IntV 1), (''owner_id'', IntV 7), (''parent'', NullV)]],
      owned_table ''jobs'' ''company_id'' ''companies'' [[(''id'', IntV 1), (''owner_id'', IntV 7), (''company_id'', IntV 1)]],
      owned_table ''applications'' ''job_id'' ''jobs'' [],
      owned_table ''interviews'' ''application_id'' ''applications'' []]"

definition sample_migration_env :: migration_env where
  "sample_migration_env = \<lparr>me_now = 0, me_uuid = (\<lambda>i. ''uuid'')\<rparr>"


text \<open>
  C38: each of the twelve revisions that only create tables, indexes and columns can be taken back:
  its downgrade gives exactly the database from before the upgrade, rows included, whatever the
  tables hold.
\<close>

theorem downgrade_undoes_upgrade:
  assumes "v \<in> set history" and "catalog_ok d" and "upgrade_one e v d = Some d'"
    and "rv_id v \<notin> {''4c1b48a8c021'', ''c2f45f831a2d'', ''a71f0c4d9e32'', ''d7b9f6a2c410'', ''f8c1d4e7a920''}"
  shows "downgrade_one e' v d' = Some d"
proof -
  have "map undo (rv_upgrade v) = map Some (rev (rv_downgrade v))"
    using assms(1,4) by (auto simp: history_list upgrade_defs downgrade_defs)
  then show ?thesis
    using undo_steps [of "rv_upgrade v" "rev (rv_downgrade v)" d e d' e'] assms(2,3)
    by (simp add: upgrade_one_def downgrade_one_def)
qed

theorem downgrade_undoes_upgrade_witness:
  "run_statements [upgrade_one sample_migration_env revision_create_users,
     downgrade_one sample_migration_env revision_create_users] [] = Some []"
proof -
  have "upgrade_one sample_migration_env revision_create_users [] \<noteq> None" by code_simp
  then obtain d' where up: "upgrade_one sample_migration_env revision_create_users [] = Some d'" by blast
  have "downgrade_one sample_migration_env revision_create_users d' = Some []"
    by (rule downgrade_undoes_upgrade [OF _ _ up]) (simp_all add: history_list)
  then show ?thesis using up by simp
qed

text \<open>
  C39: the upgrade to revision 4c1b48a8c021 makes the e-mail addresses unique by an index, its
  downgrade drops a constraint of that name: it fails on every database, and the version stays.
\<close>

theorem production_fields_not_downgradable:
  assumes "upgrade_one e revision_add_production_fields d = Some d'"
    and "''uq_users_email'' \<notin> fst ` set (constraints_of ''users'' d)"
  shows "downgrade_one e' revision_add_production_fields d' = None \<and>
    downgrade_last e' (Some ''4c1b48a8c021'', d') = (Some ''4c1b48a8c021'', d')"
proof -
  have "constraints_of ''users'' d' = constraints_of ''users'' d"
    using assms(1) unfolding upgrade_one_def revision_upgrades upgrade_add_production_fields_def
    by (auto dest!: add_column_constraints [where u = "''users''"]
        create_index_constraints [where u = "''users''"] split: option.splits)
  then have "map_of (constraints_of ''users'' d') ''uq_users_email'' = None"
    using assms(2) by (simp add: map_of_eq_None_iff)
  then have "drop_constraint ''uq_users_email'' ''users'' d' = None"
    by (cases "map_of d' ''users''") (simp_all add: constraints_of_def drop_constraint_def)
  then have fails: "downgrade_one e' revision_add_production_fields d' = None"
    by (simp add: downgrade_one_def downgrade_add_production_fields_def)
  have "find (\<lambda>v. Some (rv_id v) = Some ''4c1b48a8c021'') versions = Some revision_add_production_fields"
    by (simp add: versions_def)
  then show ?thesis using fails by (simp add: downgrade_last_def)
qed

definition sample_accounts :: database where
  "sample_accounts = [(''users'', \<lparr>tb_columns = [required ''id'' SInteger], tb_constraints = [(''users_pkey'', PrimaryKey [''id''])],
     tb_indexes = [], tb_rows = [[(''id'', IntV 1)]]\<rparr>)]"

theorem production_fields_not_downgradable_witness:
  "run_statements [upgrade_one sample_migration_env revision_add_production_fields] sample_accounts \<noteq> None \<and>
   run_statements [upgrade_one sample_migration_env revision_add_production_fields,
     downgrade_one sample_migration_env revision_add_production_fields] sample_accounts = None"
proof -
  have "upgrade_one sample_migration_env revision_add_production_fields sample_accounts \<noteq> None" by code_simp
  then obtain d' where up: "upgrade_one sample_migration_env revision_add_production_fields sample_accounts = Some d'"
    by blast
  have "''uq_users_email'' \<notin> fst ` set (constraints_of ''users'' sample_accounts)"
    by (simp add: constraints_of_def sample_accounts_def)
  then have "downgrade_one sample_migration_env revision_add_production_fields d' = None"
    using production_fields_not_downgradable [OF up] by blast
  then show ?thesis using up by simp
qed

end
