(* ===== verification/Storage.thy ===== *)
theory Storage
  imports Models Migrations
begin

text \<open>
  How the ORM classes of \<^verbatim>\<open>src/app/models\<close> store the rows of the model in the columns of their
  tables, enum members as the strings of \<^verbatim>\<open>src/app/schemas\<close>, and the proof that the constraints
  the migrations create are the constraints the rest of the development works with.
\<close>

section \<open>Enum values\<close>

fun employment_value :: "employment_type \<Rightarrow> string" where
  "employment_value FULL_TIME = ''full_time''"
| "employment_value PART_TIME = ''part_time''"
| "employment_value CONTRACT = ''contract''"
| "employment_value INTERNSHIP = ''internship''"
| "employment_value TEMPORARY = ''temporary''"

fun work_mode_value :: "work_mode \<Rightarrow> string" where
  "work_mode_value ONSITE = ''onsite''"
| "work_mode_value HYBRID = ''hybrid''"
| "work_mode_value REMOTE = ''remote''"

fun job_status_value :: "job_status \<Rightarrow> string" where
  "job_status_value OPEN = ''open''"
| "job_status_value PAUSED = ''paused''"
| "job_status_value CLOSED = ''closed''"

fun application_status_value :: "application_status \<Rightarrow> string" where
  "application_status_value SAVED = ''saved''"
| "application_status_value APPLIED = ''applied''"
| "application_status_value SCREENING = ''screening''"
| "application_status_value INTERVIEW = ''interview''"
| "application_status_value OFFER = ''offer''"
| "application_status_value REJECTED = ''rejected''"
| "application_status_value WITHDRAWN = ''withdrawn''"
| "application_status_value ARCHIVED = ''archived''"

fun interview_type_value :: "interview_type \<Rightarrow> string" where
  "interview_type_value PHONE_SCREEN = ''phone_screen''"
| "interview_type_value TECHNICAL = ''technical''"
| "interview_type_value BEHAVIORAL = ''behavioral''"
| "interview_type_value SYSTEM_DESIGN = ''system_design''"
| "interview_type_value HIRING_MANAGER = ''hiring_manager''"
| "interview_type_value ONSITE_INTERVIEW = ''onsite''"
| "interview_type_value OTHER = ''other''"

fun interview_status_value :: "interview_status \<Rightarrow> string" where
  "interview_status_value SCHEDULED = ''scheduled''"
| "interview_status_value COMPLETED = ''completed''"
| "interview_status_value CANCELLED = ''cancelled''"

fun outbox_status_value :: "outbox_status \<Rightarrow> string" where
  "outbox_status_value Pending = ''pending''"
| "outbox_status_value Processing = ''processing''"
| "outbox_status_value Succeeded = ''succeeded''"
| "outbox_status_value DeadLetter = ''dead_letter''"

section \<open>Rows\<close>

definition nullable :: "('a \<Rightarrow> sql_value) \<Rightarrow> 'a option \<Rightarrow> sql_value" where
  "nullable f v = (case v of None \<Rightarrow> NullV | Some x \<Rightarrow> f x)"

definition company_row :: "company \<Rightarrow> row" where
  "company_row c =
     [(''id'', IntV (c_id c)),
      (''owner_id'', IntV (c_owner_id c)),
      (''name'', TextV (c_name c)),
      (''website'', nullable TextV (c_website c)),
      (''industry'', nullable TextV (c_industry c)),
      (''location'', nullable TextV (c_location c)),
      (''notes'', nullable TextV (c_notes c)),
      (''created_at'', TimeV (c_created_at c)),
      (''updated_at'', TimeV (c_updated_at c))]"

definition job_row :: "job \<Rightarrow> row" where
  "job_row j =
     [(''id'', IntV (j_id j)),
      (''owner_id'', IntV (j_owner_id j)),
      (''company_id'', IntV (j_company_id j)),
      (''title'', TextV (j_title j)),
      (''employment_type'', TextV (employment_value (j_employment_type j))),
      (''work_mode'', TextV (work_mode_value (j_work_mode j))),
      (''location'', nullable TextV (j_location j)),
      (''source'', nullable TextV (j_source j)),
      (''url'', nullable TextV (j_url j)),
      (''salary_min'', nullable IntV (j_salary_min j)),
      (''salary_max'', nullable IntV (j_salary_max j)),
      (''salary_currency'', TextV (j_salary_currency j)),
      (''description'', nullable TextV (j_description j)),
      (''status'', TextV (job_status_value (j_status j))),
      (''created_at'', TimeV (j_created_at j)),
      (''updated_at'', TimeV (j_updated_at j))]"

definition application_row :: "application \<Rightarrow> row" where
  "application_row a =
     [(''id'', IntV (a_id a)),
      (''owner_id'', IntV (a_owner_id a)),
      (''job_id'', IntV (a_job_id a)),
      (''status'', TextV (application_status_value (a_status a))),
      (''priority'', IntV (a_priority a)),
      (''applied_at'', nullable DateV (a_applied_at a)),
      (''deadline'', nullable DateV (a_deadline a)),
      (''next_action_at'', nullable TimeV (a_next_action_at a)),
      (''notes'', nullable TextV (a_notes a)),
      (''created_at'', TimeV (a_created_at a)),
      (''updated_at'', TimeV (a_updated_at a))]"

definition history_entry_row :: "history_row \<Rightarrow> row" where
  "history_entry_row h =
     [(''id'', IntV (h_id h)),
      (''application_id'', IntV (h_application_id h)),
      (''from_status'', TextV (application_status_value (h_from h))),
      (''to_status'', TextV (application_status_value (h_to h))),
      (''changed_at'', TimeV (h_changed_at h))]"

definition interview_row_of :: "interview \<Rightarrow> row" where
  "interview_row_of i =
     [(''id'', IntV (i_id i)),
      (''owner_id'', IntV (i_owner_id i)),
      (''application_id'', IntV (i_application_id i)),
      (''interview_type'', TextV (interview_type_value (i_type i))),
      (''status'', TextV (interview_status_value (i_status i))),
      (''scheduled_at'', TimeV (i_scheduled_at i)),
      (''duration_minutes'', IntV (i_duration_minutes i)),
      (''scheduled_end_at'', TimeV (i_scheduled_end_at i)),
      (''location'', nullable TextV (i_location i)),
      (''meeting_url'', nullable TextV (i_meeting_url i)),
      (''notes'', nullable TextV (i_notes i)),
      (''feedback'', nullable TextV (i_feedback i)),
      (''created_at'', TimeV (i_created_at i)),
      (''updated_at'', TimeV (i_updated_at i))]"

definition outbox_message_row :: "outbox_message \<Rightarrow> row" where
  "outbox_message_row m =
     [(''id'', IntV (ob_id m)),
      (''message_type'', TextV (ob_message_type m)),
      (''idempotency_key'', TextV (ob_idempotency_key m)),
      (''encryption_version'', IntV (ob_encryption_version m)),
      (''payload_encrypted'', nullable TextV (ob_payload_encrypted m)),
      (''status'', TextV (outbox_status_value (ob_status m))),
      (''attempt_count'', IntV (ob_attempt_count m)),
      (''available_at'', TimeV (ob_available_at m)),
      (''lease_owner'', nullable TextV (ob_lease_owner m)),
      (''lease_expires_at'', nullable TimeV (ob_lease_expires_at m)),
      (''payload_expires_at'', TimeV (ob_payload_expires_at m)),
      (''failure_category'', nullable TextV (ob_failure_category m)),
      (''traceparent'', nullable TextV (ob_traceparent m)),
      (''tracestate'', nullable TextV (ob_tracestate m)),
      (''created_at'', TimeV (ob_created_at m)),
      (''updated_at'', TimeV (ob_updated_at m)),
      (''terminal_at'', nullable TimeV (ob_terminal_at m))]"

definition user_row :: "user \<Rightarrow> row" where
  "user_row u =
     [(''id'', IntV (u_id u)),
      (''username'', TextV (u_username u)),
      (''password'', TextV (u_password u)),
      (''password_login_enabled'', BoolV (u_password_login_enabled u)),
      (''role'', TextV (u_role u)),
      (''email'', nullable TextV (u_email u)),
      (''email_verified_at'', nullable TimeV (u_email_verified_at u)),
      (''mfa_secret_encrypted'', nullable TextV (u_mfa_secret_encrypted u)),
      (''mfa_enrollment_created_at'', nullable TimeV (u_mfa_enrollment_created_at u)),
      (''mfa_enabled_at'', nullable TimeV (u_mfa_enabled_at u)),
      (''mfa_last_counter'', nullable IntV (u_mfa_last_counter u)),
      (''is_active'', BoolV (u_is_active u)),
      (''created_at'', TimeV (u_created_at u)),
      (''updated_at'', TimeV (u_updated_at u))]"

definition refresh_token_row :: "refresh_token \<Rightarrow> row" where
  "refresh_token_row t =
     [(''id'', IntV (rt_id t)),
      (''user_id'', IntV (rt_user_id t)),
      (''family_id'', TextV (rt_family_id t)),
      (''token'', TextV (rt_token t)),
      (''expires_at'', TimeV (rt_expires_at t)),
      (''created_at'', TimeV (rt_created_at t)),
      (''last_used_at'', TimeV (rt_last_used_at t)),
      (''device_name'', TextV (rt_device_name t)),
      (''revoked'', BoolV (rt_revoked t)),
      (''revoked_at'', nullable TimeV (rt_revoked_at t)),
      (''revocation_reason'', nullable TextV (rt_revocation_reason t))]"

definition action_token_row :: "action_token \<Rightarrow> row" where
  "action_token_row t =
     [(''id'', IntV (at_id t)),
      (''user_id'', IntV (at_user_id t)),
      (''purpose'', TextV (at_purpose t)),
      (''token_hash'', TextV (at_token_hash t)),
      (''target'', TextV (at_target t)),
      (''expires_at'', TimeV (at_expires_at t)),
      (''consumed_at'', nullable TimeV (at_consumed_at t)),
      (''created_at'', TimeV (at_created_at t))]"

definition recovery_code_row :: "recovery_code \<Rightarrow> row" where
  "recovery_code_row k =
     [(''id'', IntV (rc_id k)),
      (''user_id'', IntV (rc_user_id k)),
      (''code_hash'', TextV (rc_code_hash k)),
      (''created_at'', TimeV (rc_created_at k)),
      (''used_at'', nullable TimeV (rc_used_at k))]"

section \<open>Constraints on stored rows\<close>

text \<open>The \<open>CHECK\<close> constraints of one row, and what a table's keys say about two rows.\<close>

definition checks_hold :: "string \<times> table_def \<Rightarrow> row \<Rightarrow> bool" where
  "checks_hold tbl r =
     list_all (\<lambda>(_, c). case c of CheckThat p \<Rightarrow> holds p r \<noteq> Some False | _ \<Rightarrow> True) (tb_constraints (snd tbl))"

definition rows_agree :: "string \<times> table_def \<Rightarrow> row \<Rightarrow> row \<Rightarrow> bool" where
  "rows_agree tbl r s =
     (list_all (\<lambda>(_, c). case c of
          PrimaryKey ks \<Rightarrow> unique_keys (map Plain ks) [r, s]
        | UniqueKey ks \<Rightarrow> unique_keys (map Plain ks) [r, s]
        | NoOverlap ow st en status \<Rightarrow> \<not> overlapping ow st en status r s
        | _ \<Rightarrow> True) (tb_constraints (snd tbl)) \<and>
      list_all (\<lambda>ix. ix_unique ix \<longrightarrow> unique_keys (ix_keys ix) [r, s]) (tb_indexes (snd tbl)))"

lemma field_simps [simp]:
  "field [] c = NullV"
  "field ((k, v) # r) c = (if k = c then v else field r c)"
  by (simp_all add: field_def)

lemma nullable_simps [simp]:
  "nullable f None = NullV" "nullable f (Some x) = f x"
  by (simp_all add: nullable_def)

lemma unique_keys_pair:
  "unique_keys ks [r, s] \<longleftrightarrow> NullV \<in> set (map (key_value r) ks) \<or> map (key_value r) ks \<noteq> map (key_value s) ks"
  by (auto simp: unique_keys_def) (metis imageI)

lemma key_value_simps [simp]:
  "key_value r (Plain c) = field r c"
  "key_value r (LowerTrim c) = (case field r c of TextV s \<Rightarrow> TextV (sql_lower_trim s) | v \<Rightarrow> v)"
  by (simp_all add: key_value_def)

lemma application_status_value_mem:
  "application_status_value s \<in> {''saved'', ''applied'', ''screening'', ''interview'', ''offer'', ''rejected'', ''withdrawn'', ''archived''}"
  by (cases s) simp_all

lemma application_status_value_inj [simp]: "(application_status_value s = application_status_value t) = (s = t)"
  by (cases s; cases t) simp_all

lemma currency_letters: "is_currency s = (length s = 3 \<and> list_all upper_letter s)"
  by (simp add: is_currency_def upper_letter_def [abs_def])

lemmas check_defs = checks_hold_def orm_table_def

text \<open>Three-valued connectives never fail on conditions that are known.\<close>

lemma known_simps [simp]:
  "and3 (Some a) (Some b) = Some (a \<and> b)" "or3 (Some a) (Some b) = Some (a \<or> b)"
  "not3 (Some a) = Some (\<not> a)" "or3 (Some True) q = Some True"
  by (cases a; cases b; simp add: or3_def not3_def)+

lemma job_value_mem:
  "employment_value t \<in> {''full_time'', ''part_time'', ''contract'', ''internship'', ''temporary''}"
  "work_mode_value w \<in> {''onsite'', ''hybrid'', ''remote''}"
  "job_status_value s \<in> {''open'', ''paused'', ''closed''}"
proof -
  show "employment_value t \<in> {''full_time'', ''part_time'', ''contract'', ''internship'', ''temporary''}"
    by (cases t) simp_all
  show "work_mode_value w \<in> {''onsite'', ''hybrid'', ''remote''}" by (cases w) simp_all
  show "job_status_value s \<in> {''open'', ''paused'', ''closed''}" by (cases s) simp_all
qed

lemma nullable_null [simp]:
  "nullable TextV v = NullV \<longleftrightarrow> v = None" "nullable TimeV w = NullV \<longleftrightarrow> w = None"
proof -
  show "nullable TextV v = NullV \<longleftrightarrow> v = None" by (cases v) simp_all
  show "nullable TimeV w = NullV \<longleftrightarrow> w = None" by (cases w) simp_all
qed

lemma stored_job_checks: "checks_hold orm_jobs (job_row j) = job_check j"
  using job_value_mem(1) [of "j_employment_type j"] job_value_mem(2) [of "j_work_mode j"]
    job_value_mem(3) [of "j_status j"]
  by (cases "j_salary_min j"; cases "j_salary_max j")
    (simp_all add: check_defs orm_jobs_def job_row_def job_check_def currency_letters)

lemma stored_application_checks: "checks_hold orm_applications (application_row a) = application_check a"
  using application_status_value_mem [of "a_status a"]
  by (simp add: check_defs orm_applications_def application_row_def application_check_def)

lemma stored_history_checks: "checks_hold orm_application_status_history (history_entry_row h) = history_check h"
  using application_status_value_mem [of "h_from h"] application_status_value_mem [of "h_to h"]
  by (simp add: check_defs orm_application_status_history_def history_entry_row_def history_check_def)

lemma stored_interview_checks: "checks_hold orm_interviews (interview_row_of i) = interview_check i"
  by (cases "i_type i"; cases "i_status i")
    (simp_all add: check_defs orm_interviews_def interview_row_of_def interview_check_def)

lemma stored_outbox_checks: "checks_hold orm_outbox_messages (outbox_message_row m) = outbox_check m"
  by (cases "ob_status m")
    (auto simp: check_defs orm_outbox_messages_def outbox_message_row_def outbox_check_def)

lemma rows_agree_orm:
  "rows_agree (orm_table t cols cs ixs) r s =
     (list_all (\<lambda>(_, c). case c of
          PrimaryKey ks \<Rightarrow> unique_keys (map Plain ks) [r, s]
        | UniqueKey ks \<Rightarrow> unique_keys (map Plain ks) [r, s]
        | NoOverlap ow st en status \<Rightarrow> \<not> overlapping ow st en status r s
        | _ \<Rightarrow> True) cs \<and>
      list_all (\<lambda>ix. ix_unique ix \<longrightarrow> unique_keys (ix_keys ix) [r, s]) ixs)"
  by (simp add: rows_agree_def orm_table_def list.pred_map comp_def case_prod_unfold)

lemmas agree_defs = rows_agree_orm orm_index_def unique_keys_pair

lemma user_fields:
  "field (user_row u) ''id'' = IntV (u_id u)" "field (user_row u) ''username'' = TextV (u_username u)"
  "field (user_row u) ''email'' = nullable TextV (u_email u)"
  by (simp_all add: user_row_def)

lemma users_agree: "u_id u \<noteq> u_id v \<Longrightarrow> rows_agree orm_users (user_row u) (user_row v) = user_agree u v"
  by (cases "u_email u"; cases "u_email v") (simp_all add: agree_defs orm_users_def user_fields user_agree_def)

lemma companies_agree:
  "c_id c \<noteq> c_id d \<Longrightarrow> rows_agree orm_companies (company_row c) (company_row d) = company_agree c d"
  by (auto simp: agree_defs orm_companies_def company_row_def company_agree_def)

lemma job_keys:
  "field (job_row j) ''id'' = IntV (j_id j)"
  "field (job_row j) ''owner_id'' = IntV (j_owner_id j)"
  by (simp_all add: job_row_def)

lemma jobs_agree: "j_id j \<noteq> j_id k \<Longrightarrow> rows_agree orm_jobs (job_row j) (job_row k)"
  by (simp add: agree_defs orm_jobs_def job_keys)

lemma application_keys:
  "field (application_row a) ''id'' = IntV (a_id a)"
  "field (application_row a) ''owner_id'' = IntV (a_owner_id a)"
  "field (application_row a) ''job_id'' = IntV (a_job_id a)"
  by (simp_all add: application_row_def)

lemma applications_agree:
  "a_id a \<noteq> a_id b \<Longrightarrow> rows_agree orm_applications (application_row a) (application_row b) = application_agree a b"
  by (simp add: agree_defs orm_applications_def application_keys application_agree_def)

lemma interview_status_scheduled [simp]: "interview_status_value s = ''scheduled'' \<longleftrightarrow> s = SCHEDULED"
  by (cases s) simp_all

lemma interview_fields:
  "field (interview_row_of i) ''id'' = IntV (i_id i)" "field (interview_row_of i) ''owner_id'' = IntV (i_owner_id i)"
  "field (interview_row_of i) ''status'' = TextV (interview_status_value (i_status i))"
  "field (interview_row_of i) ''scheduled_at'' = TimeV (i_scheduled_at i)"
  "field (interview_row_of i) ''scheduled_end_at'' = TimeV (i_scheduled_end_at i)"
  by (simp_all add: interview_row_of_def)

lemma interviews_overlapping:
  "overlapping ''owner_id'' ''scheduled_at'' ''scheduled_end_at'' ''status'' (interview_row_of i) (interview_row_of k) \<longleftrightarrow>
   \<not> interview_agree i k"
  by (simp add: overlapping_def interview_fields interview_agree_def ranges_overlap_def) blast

lemma interviews_agree:
  "i_id i \<noteq> i_id k \<Longrightarrow> rows_agree orm_interviews (interview_row_of i) (interview_row_of k) = interview_agree i k"
  by (simp add: agree_defs orm_interviews_def interview_fields interviews_overlapping)

lemma refresh_tokens_agree:
  "rt_id s \<noteq> rt_id t \<Longrightarrow>
   rows_agree orm_refresh_tokens (refresh_token_row s) (refresh_token_row t) = refresh_token_agree s t"
  by (auto simp: agree_defs orm_refresh_tokens_def refresh_token_row_def refresh_token_agree_def)

lemma action_tokens_agree:
  "at_id s \<noteq> at_id t \<Longrightarrow>
   rows_agree orm_account_action_tokens (action_token_row s) (action_token_row t) = action_token_agree s t"
  by (auto simp: agree_defs orm_account_action_tokens_def action_token_row_def action_token_agree_def)

lemma recovery_codes_agree:
  "rc_id s \<noteq> rc_id t \<Longrightarrow>
   rows_agree orm_mfa_recovery_codes (recovery_code_row s) (recovery_code_row t) = recovery_code_agree s t"
  by (auto simp: agree_defs orm_mfa_recovery_codes_def recovery_code_row_def recovery_code_agree_def)

lemma outbox_keys:
  "field (outbox_message_row m) ''id'' = IntV (ob_id m)"
  "field (outbox_message_row m) ''idempotency_key'' = TextV (ob_idempotency_key m)"
  by (simp_all add: outbox_message_row_def)

lemma outbox_messages_agree:
  "ob_id s \<noteq> ob_id t \<Longrightarrow>
   rows_agree orm_outbox_messages (outbox_message_row s) (outbox_message_row t) = outbox_agree s t"
  by (simp add: agree_defs orm_outbox_messages_def outbox_keys outbox_agree_def)

section \<open>Properties\<close>


definition stored_company :: "int \<Rightarrow> string \<Rightarrow> company" where
  "stored_company i name = \<lparr>c_id = i, c_owner_id = 1, c_name = name, c_website = None, c_industry = None,
     c_location = None, c_notes = None, c_created_at = 0, c_updated_at = 0\<rparr>"


end
