(* ===== verification/Responses.thy ===== *)
theory Responses
  imports Dashboard
begin

text \<open>
  The bodies of the replies: the response models of \<^verbatim>\<open>src/app/schemas\<close> built from the rows by
  \<open>from_attributes\<close>, with the summaries of the parent rows that the view-only relationships of
  \<^verbatim>\<open>src/app/models\<close> load. A reply shows rows of the requesting user only, a read does not depend
  on anybody else's rows, and on the rows the services store no response fails.
\<close>

section \<open>Response models\<close>

record company_response =
  cr_id :: int
  cr_name :: string
  cr_website :: "string option"
  cr_industry :: "string option"
  cr_location :: "string option"
  cr_notes :: "string option"
  cr_created_at :: datetime
  cr_updated_at :: datetime

record job_response =
  jr_id :: int
  jr_company_id :: int
  jr_title :: string
  jr_employment_type :: employment_type
  jr_work_mode :: work_mode
  jr_location :: "string option"
  jr_source :: "string option"
  jr_url :: "string option"
  jr_salary_min :: "int option"
  jr_salary_max :: "int option"
  jr_salary_currency :: string
  jr_description :: "string option"
  jr_status :: job_status
  jr_company_summary :: company_summary
  jr_created_at :: datetime
  jr_updated_at :: datetime

record application_response =
  ar_id :: int
  ar_job_id :: int
  ar_status :: application_status
  ar_priority :: int
  ar_applied_at :: "date option"
  ar_deadline :: "date option"
  ar_next_action_at :: "datetime option"
  ar_notes :: "string option"
  ar_created_at :: datetime
  ar_updated_at :: datetime
  ar_job_summary :: job_summary

record history_response =
  hr_id :: int
  hr_application_id :: int
  hr_from_status :: application_status
  hr_to_status :: application_status
  hr_changed_at :: datetime

record interview_response =
  ir_id :: int
  ir_application_id :: int
  ir_interview_type :: interview_type
  ir_status :: interview_status
  ir_scheduled_at :: datetime
  ir_duration_minutes :: int
  ir_location :: "string option"
  ir_meeting_url :: "string option"
  ir_notes :: "string option"
  ir_feedback :: "string option"
  ir_created_at :: datetime
  ir_updated_at :: datetime
  ir_application_summary :: application_summary

record 'item page_response =
  pr_items :: "'item list"
  pr_total :: int
  pr_page :: int
  pr_page_size :: int

datatype response =
    EmptyBody
  | CompanyBody company_response
  | CompanyListBody "company_response page_response"
  | JobBody job_response
  | JobListBody "job_response page_response"
  | ApplicationBody application_response
  | ApplicationListBody "application_response page_response"
  | HistoryBody "history_response list"
  | InterviewBody interview_response
  | InterviewListBody "interview_response page_response"
  | UpcomingBody "interview_response list"

section \<open>From rows to responses\<close>

text \<open>
  The summaries of parent rows are those of the Dashboard. \<open>None\<close> is a validation error of the
  response: a missing parent, or a stored URL that Pydantic
  does not accept. \<open>url\<close> is the parser of \<open>AnyHttpUrl\<close>.
\<close>

definition url_field :: "(string \<Rightarrow> string option) \<Rightarrow> string option \<Rightarrow> string option option" where
  "url_field url v = (case v of None \<Rightarrow> Some None | Some s \<Rightarrow> map_option Some (url s))"

definition company_response :: "(string \<Rightarrow> string option) \<Rightarrow> company \<Rightarrow> company_response option" where
  "company_response url c =
     map_option (\<lambda>website.
       \<lparr>cr_id = c_id c, cr_name = c_name c, cr_website = website, cr_industry = c_industry c,
        cr_location = c_location c, cr_notes = c_notes c, cr_created_at = c_created_at c,
        cr_updated_at = c_updated_at c\<rparr>) (url_field url (c_website c))"

definition job_response ::
    "(string \<Rightarrow> string option) \<Rightarrow> tables \<Rightarrow> job \<Rightarrow> job_response option" where
  "job_response url tb j =
     Option.bind (url_field url (j_url j)) (\<lambda>u.
     map_option (\<lambda>c.
       \<lparr>jr_id = j_id j, jr_company_id = j_company_id j, jr_title = j_title j,
        jr_employment_type = j_employment_type j, jr_work_mode = j_work_mode j,
        jr_location = j_location j, jr_source = j_source j, jr_url = u,
        jr_salary_min = j_salary_min j, jr_salary_max = j_salary_max j,
        jr_salary_currency = j_salary_currency j, jr_description = j_description j,
        jr_status = j_status j, jr_company_summary = \<lparr>cs_id = c_id c, cs_name = c_name c\<rparr>,
        jr_created_at = j_created_at j, jr_updated_at = j_updated_at j\<rparr>) (job_company tb j))"

definition application_response :: "tables \<Rightarrow> application \<Rightarrow> application_response option" where
  "application_response tb a =
     map_option (\<lambda>j.
       \<lparr>ar_id = a_id a, ar_job_id = a_job_id a, ar_status = a_status a,
        ar_priority = a_priority a, ar_applied_at = a_applied_at a, ar_deadline = a_deadline a,
        ar_next_action_at = a_next_action_at a, ar_notes = a_notes a,
        ar_created_at = a_created_at a, ar_updated_at = a_updated_at a, ar_job_summary = j\<rparr>)
      (Option.bind (application_job tb a) (job_summary_of tb))"

definition history_response :: "history_row \<Rightarrow> history_response" where
  "history_response h =
     \<lparr>hr_id = h_id h, hr_application_id = h_application_id h, hr_from_status = h_from h,
      hr_to_status = h_to h, hr_changed_at = h_changed_at h\<rparr>"

definition interview_response ::
    "(string \<Rightarrow> string option) \<Rightarrow> tables \<Rightarrow> interview \<Rightarrow> interview_response option" where
  "interview_response url tb i =
     Option.bind (url_field url (i_meeting_url i)) (\<lambda>u.
     map_option (\<lambda>a.
       \<lparr>ir_id = i_id i, ir_application_id = i_application_id i, ir_interview_type = i_type i,
        ir_status = i_status i, ir_scheduled_at = i_scheduled_at i,
        ir_duration_minutes = i_duration_minutes i, ir_location = i_location i,
        ir_meeting_url = u, ir_notes = i_notes i, ir_feedback = i_feedback i,
        ir_created_at = i_created_at i, ir_updated_at = i_updated_at i,
        ir_application_summary = a\<rparr>)
      (Option.bind (interview_application tb i) (application_summary_of tb)))"

text \<open>All items, or none when one of them does not validate.\<close>

primrec collect :: "('a \<Rightarrow> 'b option) \<Rightarrow> 'a list \<Rightarrow> 'b list option" where
  "collect f [] = Some []"
| "collect f (x # xs) = Option.bind (f x) (\<lambda>y. map_option ((#) y) (collect f xs))"

text \<open>The totals and page numbers of a list response.\<close>

definition paged :: "int \<Rightarrow> int \<Rightarrow> int \<Rightarrow> 'item list \<Rightarrow> 'item page_response" where
  "paged page page_size count items =
     \<lparr>pr_items = items, pr_total = count, pr_page = page, pr_page_size = page_size\<rparr>"

definition company_list_response ::
    "(string \<Rightarrow> string option) \<Rightarrow> int \<times> int \<Rightarrow> int \<Rightarrow> company list
     \<Rightarrow> company_response page_response option" where
  "company_list_response url pg count items =
     map_option (paged (fst pg) (snd pg) count) (collect (company_response url) items)"

definition job_list_response ::
    "(string \<Rightarrow> string option) \<Rightarrow> tables \<Rightarrow> int \<times> int \<Rightarrow> int \<Rightarrow> job list
     \<Rightarrow> job_response page_response option" where
  "job_list_response url tb pg count items =
     map_option (paged (fst pg) (snd pg) count) (collect (job_response url tb) items)"

definition application_list_response ::
    "tables \<Rightarrow> int \<times> int \<Rightarrow> int \<Rightarrow> application list
     \<Rightarrow> application_response page_response option" where
  "application_list_response tb pg count items =
     map_option (paged (fst pg) (snd pg) count) (collect (application_response tb) items)"

definition interview_list_response ::
    "(string \<Rightarrow> string option) \<Rightarrow> tables \<Rightarrow> int \<times> int \<Rightarrow> int \<Rightarrow> interview list
     \<Rightarrow> interview_response page_response option" where
  "interview_list_response url tb pg count items =
     map_option (paged (fst pg) (snd pg) count) (collect (interview_response url tb) items)"

lemmas list_response_defs = company_list_response_def job_list_response_def
  application_list_response_def interview_list_response_def

fun requested_page :: "business_request \<Rightarrow> int \<times> int" where
  "requested_page (CompanyRequest (ListCompanies q page page_size)) = (page, page_size)"
| "requested_page (JobRequest (ListJobs q page page_size)) = (page, page_size)"
| "requested_page (ApplicationRequest (ListApplications q before page page_size)) = (page, page_size)"
| "requested_page (InterviewRequest (ListInterviews aid st from until page page_size)) = (page, page_size)"
| "requested_page _ = (1, 1)"

fun render ::
    "(string \<Rightarrow> string option) \<Rightarrow> int \<times> int \<Rightarrow> tables \<Rightarrow> reply \<Rightarrow> response option" where
  "render url pg tb NoContent = Some EmptyBody"
| "render url pg tb (CompanyReply c) = map_option CompanyBody (company_response url c)"
| "render url pg tb (CompanyPage items count) =
     map_option CompanyListBody (company_list_response url pg count items)"
| "render url pg tb (JobReply j) = map_option JobBody (job_response url tb j)"
| "render url pg tb (JobPage items count) =
     map_option JobListBody (job_list_response url tb pg count items)"
| "render url pg tb (ApplicationReply a) = map_option ApplicationBody (application_response tb a)"
| "render url pg tb (ApplicationPage items count) =
     map_option ApplicationListBody (application_list_response tb pg count items)"
| "render url pg tb (HistoryReply items) = Some (HistoryBody (map history_response items))"
| "render url pg tb (InterviewReply i) = map_option InterviewBody (interview_response url tb i)"
| "render url pg tb (InterviewPage items count) =
     map_option InterviewListBody (interview_list_response url tb pg count items)"
| "render url pg tb (UpcomingReply items) =
     map_option UpcomingBody (collect (interview_response url tb) items)"

text \<open>What the client of a business endpoint receives.\<close>

datatype outcome = Refused error | InvalidResponse | Body response

definition respond ::
    "externals \<Rightarrow> (string \<Rightarrow> string option) \<Rightarrow> int \<Rightarrow> business_request \<Rightarrow> env \<Rightarrow> world \<Rightarrow> outcome" where
  "respond x url owner q env w =
     (case run_business x owner q env w of
        (Inl e, w') \<Rightarrow> Refused e
      | (Inr reply, w') \<Rightarrow>
          (case render url (requested_page q) (db w') reply of
             None \<Rightarrow> InvalidResponse | Some body \<Rightarrow> Body body))"

section \<open>A read sees the rows of its user only\<close>

lemma find_restrict:
  assumes "\<And>x. x \<in> set xs \<Longrightarrow> P x \<Longrightarrow> Q x"
  shows "find P (filter Q xs) = find P xs"
  using assms by (induction xs) auto

lemma find_owned [simp]:
  "find (\<lambda>x. P x \<and> f x = k) (filter (\<lambda>x. f x = k) xs) = find (\<lambda>x. P x \<and> f x = k) xs"
  "find (\<lambda>x. f x = k \<and> P x) (filter (\<lambda>x. f x = k) xs) = find (\<lambda>x. f x = k \<and> P x) xs"
  by (rule find_restrict, simp)+

lemma filter_restrict:
  assumes "\<And>x. x \<in> set xs \<Longrightarrow> P x \<Longrightarrow> Q x"
  shows "filter P (filter Q xs) = filter P xs"
  using assms by (induction xs) auto

lemma company_reads_own:
  "company_get owner k (own owner tb) = company_get owner k tb"
  "company_list_owned ilike owner cq page psize (own owner tb) =
     company_list_owned ilike owner cq page psize tb"
  by (simp_all add: company_get_def company_get_owned_def company_list_owned_def
      company_matches_def [abs_def])

lemma job_reads_own:
  "job_get owner k (own owner tb) = job_get owner k tb"
  "job_list_owned ilike coll owner jq page psize (own owner tb) =
     job_list_owned ilike coll owner jq page psize tb"
  by (simp_all add: job_get_def job_get_owned_def job_list_owned_def
      job_matches_def [abs_def])

lemma application_matches_own:
  assumes "db_ok tb" and "a \<in> set (applications tb)"
  shows "application_matches owner aq (own owner tb) a = application_matches owner aq tb a"
proof -
  have "j_owner_id j = a_owner_id a" if j: "j \<in> set (jobs tb)" "j_id j = a_job_id a" for j
  proof -
    obtain k where k: "k \<in> set (jobs tb)" "j_id k = a_job_id a" "j_owner_id k = a_owner_id a"
      using assms by (auto simp: db_ok_def refs_ok_def job_exists_def)
    with j db_ok_distinct(3) [OF assms(1)] have "k = j" by (auto simp: distinct_map inj_on_def)
    with k show ?thesis by simp
  qed
  then show ?thesis by (auto simp: application_matches_def)
qed

lemma application_reads_own:
  assumes "db_ok tb"
  shows "application_get owner k (own owner tb) = application_get owner k tb"
    and "application_list_owned owner aq page psize (own owner tb) =
      application_list_owned owner aq page psize tb"
    and "application_history owner k (own owner tb) = application_history owner k tb"
proof -
  show get: "application_get owner k (own owner tb) = application_get owner k tb"
    by (simp add: application_get_def application_get_owned_def)
  have "filter (application_matches owner aq (own owner tb)) (applications (own owner tb)) =
      filter (application_matches owner aq tb) (filter (\<lambda>a. a_owner_id a = owner) (applications tb))"
    using application_matches_own [OF assms] by (intro filter_cong) simp_all
  also have "\<dots> = filter (application_matches owner aq tb) (applications tb)"
    by (rule filter_restrict) (simp add: application_matches_def)
  finally show "application_list_owned owner aq page psize (own owner tb) =
      application_list_owned owner aq page psize tb"
    by (simp add: application_list_owned_def)
  have "list_history (a_id a) (own owner tb) = list_history (a_id a) tb"
    if "application_get owner k tb = Inr a" for a
  proof -
    have "a \<in> set (applications tb)" "a_owner_id a = owner"
      using application_get_Inr [OF that] by auto
    then have "application_exists tb owner (h_application_id h)" if "h_application_id h = a_id a" for h
      using that by (auto simp: application_exists_def)
    then have "filter (\<lambda>h. h_application_id h = a_id a) (filter (\<lambda>h. application_exists tb owner (h_application_id h)) (histories tb)) =
        filter (\<lambda>h. h_application_id h = a_id a) (histories tb)"
      by (intro filter_restrict)
    then show ?thesis by (simp only: list_history_def own_sel)
  qed
  then show "application_history owner k (own owner tb) = application_history owner k tb"
    by (auto simp: application_history_def get split: sum.splits)
qed

lemma interview_reads_own:
  "interview_get owner k (own owner tb) = interview_get owner k tb"
  "interview_list owner iq page psize (own owner tb) = interview_list owner iq page psize tb"
  "interview_upcoming owner until limit env (own owner tb) = interview_upcoming owner until limit env tb"
proof -
  have "interview_list_owned owner iq page psize (own owner tb) =
      interview_list_owned owner iq page psize tb"
    by (simp add: interview_list_owned_def interview_matches_def [abs_def])
  then show "interview_list owner iq page psize (own owner tb) = interview_list owner iq page psize tb"
    by (simp add: interview_list_def split: option.split)
  have "list_upcoming owner now until limit (own owner tb) = list_upcoming owner now until limit tb" for now
    by (simp add: list_upcoming_def)
  then show "interview_upcoming owner until limit env (own owner tb) =
      interview_upcoming owner until limit env tb"
    by (simp add: interview_upcoming_def Let_def)
qed (simp add: interview_get_def interview_get_owned_def)

text \<open>The request seen from the database of its user alone.\<close>

definition alone :: "int \<Rightarrow> world \<Rightarrow> world" where
  "alone owner w = w\<lparr>db := own owner (db w)\<rparr>"

lemma read_alone:
  assumes "db_ok (db w)" and "\<not> is_write q"
  shows "fst (run_business x owner q env (alone owner w)) = fst (run_business x owner q env w)"
    and "snd (run_business x owner q env w) = w"
proof -
  show "snd (run_business x owner q env w) = w" by (rule business_read [OF assms(2)])
  show "fst (run_business x owner q env (alone owner w)) = fst (run_business x owner q env w)"
    using assms by (cases q rule: is_write.cases)
      (simp_all add: alone_def company_reads_own job_reads_own application_reads_own
        interview_reads_own)
qed

text \<open>Every row of a reply belongs to the user.\<close>

fun reply_owned :: "int \<Rightarrow> tables \<Rightarrow> reply \<Rightarrow> bool" where
  "reply_owned owner tb NoContent = True"
| "reply_owned owner tb (CompanyReply c) = (c \<in> set (companies tb) \<and> c_owner_id c = owner)"
| "reply_owned owner tb (CompanyPage items count) =
     (\<forall>c\<in>set items. c \<in> set (companies tb) \<and> c_owner_id c = owner)"
| "reply_owned owner tb (JobReply j) = (j \<in> set (jobs tb) \<and> j_owner_id j = owner)"
| "reply_owned owner tb (JobPage items count) =
     (\<forall>j\<in>set items. j \<in> set (jobs tb) \<and> j_owner_id j = owner)"
| "reply_owned owner tb (ApplicationReply a) = (a \<in> set (applications tb) \<and> a_owner_id a = owner)"
| "reply_owned owner tb (ApplicationPage items count) =
     (\<forall>a\<in>set items. a \<in> set (applications tb) \<and> a_owner_id a = owner)"
| "reply_owned owner tb (HistoryReply items) =
     (\<forall>h\<in>set items. h \<in> set (histories tb) \<and> history_owned tb owner h)"
| "reply_owned owner tb (InterviewReply i) = (i \<in> set (interviews tb) \<and> i_owner_id i = owner)"
| "reply_owned owner tb (InterviewPage items count) =
     (\<forall>i\<in>set items. i \<in> set (interviews tb) \<and> i_owner_id i = owner)"
| "reply_owned owner tb (UpcomingReply items) =
     (\<forall>i\<in>set items. i \<in> set (interviews tb) \<and> i_owner_id i = owner)"

lemma read_same_db:
  assumes "\<not> is_write q" and "db w = db v"
  shows "fst (run_business x owner q env w) = fst (run_business x owner q env v)"
  using assms by (cases q rule: is_write.cases) simp_all

lemma page_of_member: "y \<in> set (page_of page psize xs) \<Longrightarrow> y \<in> set xs"
  by (auto simp: page_of_def dest: in_set_takeD in_set_dropD)

lemma listed_owned:
  "c \<in> set (fst (company_list_owned ilike owner cq page psize tb)) \<Longrightarrow>
     c \<in> set (companies tb) \<and> c_owner_id c = owner"
  "j \<in> set (fst (job_list_owned ilike coll owner jq page psize tb)) \<Longrightarrow>
     j \<in> set (jobs tb) \<and> j_owner_id j = owner"
  "a \<in> set (fst (application_list_owned owner aq page psize tb)) \<Longrightarrow>
     a \<in> set (applications tb) \<and> a_owner_id a = owner"
  "i \<in> set (fst (interview_list_owned owner iq page psize tb)) \<Longrightarrow>
     i \<in> set (interviews tb) \<and> i_owner_id i = owner"
  "i \<in> set (list_upcoming owner now until limit tb) \<Longrightarrow>
     i \<in> set (interviews tb) \<and> i_owner_id i = owner"
  by (auto simp: company_list_owned_def job_list_owned_def application_list_owned_def
      interview_list_owned_def list_upcoming_def Let_def company_matches_def job_matches_def
      application_matches_def interview_matches_def dest!: page_of_member in_set_takeD)

lemma history_listed:
  assumes "application_history owner k tb = Inr hs" and "h \<in> set hs"
  shows "h \<in> set (histories tb) \<and> history_owned tb owner h"
proof -
  obtain a where a: "application_get owner k tb = Inr a" and hs: "hs = list_history (a_id a) tb"
    using assms(1) by (auto simp: application_history_def split: sum.splits)
  with assms(2) application_get_Inr [OF a] show ?thesis
    by (auto simp: list_history_def history_owned_def application_exists_def)
qed

lemma interview_listed:
  "interview_list owner iq page psize tb = Inr p \<Longrightarrow> p = interview_list_owned owner iq page psize tb"
  "interview_upcoming owner until limit env tb = Inr is' \<Longrightarrow>
     is' = list_upcoming owner (e_now env) until limit tb"
  by (auto simp: interview_list_def interview_upcoming_def Let_def split: option.splits if_splits)

lemma interview_get_Inr':
  "interview_get owner k tb = Inr i \<Longrightarrow> i \<in> set (interviews tb) \<and> i_owner_id i = owner"
  using interview_get_Inr by blast

lemma read_owned:
  assumes "\<not> is_write q" and "fst (run_business x owner q env w) = Inr reply"
  shows "reply_owned owner (db w) reply"
  using assms
proof (cases q rule: is_write.cases)
  case (1 cq page psize)
  obtain items count where l: "company_list_owned (x_ilike x) owner cq page psize (db w) = (items, count)"
    by fastforce
  with 1 assms show ?thesis
    using listed_owned(1) [of _ "x_ilike x" owner cq page psize "db w"]
    by (auto simp: checked_def split: if_splits)
next
  case (2 k)
  with assms show ?thesis
    by (cases "company_get owner k (db w)") (auto dest: company_get_Inr)
next
  case (3 jq page psize)
  obtain items count where "job_list_owned (x_ilike x) (x_coll x) owner jq page psize (db w) = (items, count)"
    by fastforce
  with 3 assms show ?thesis
    using listed_owned(2) [of _ "x_ilike x" "x_coll x" owner jq page psize "db w"]
    by (auto simp: checked_def split: if_splits)
next
  case (4 k)
  with assms show ?thesis
    by (cases "job_get owner k (db w)") (auto dest: job_get_Inr)
next
  case (5 aq before page psize)
  let ?aq = "aq\<lparr>aq_next_action_before := map_option as_utc before\<rparr>"
  obtain items count where "application_list_owned owner ?aq page psize (db w) = (items, count)"
    by fastforce
  with 5 assms show ?thesis
    using listed_owned(3) [of _ owner ?aq page psize "db w"]
    by (auto simp: checked_def split: if_splits)
next
  case (6 k)
  with assms show ?thesis
    by (cases "application_get owner k (db w)") (auto dest: application_get_Inr)
next
  case (7 k)
  with assms show ?thesis
    by (cases "application_history owner k (db w)") (auto dest: history_listed)
next
  case (8 aid st t0 t1 page psize)
  let ?iq = "\<lparr>iq_application_id = aid, iq_status = st, iq_scheduled_from = map_option as_utc t0,
    iq_scheduled_to = map_option as_utc t1\<rparr>"
  obtain items count where "interview_list_owned owner ?iq page psize (db w) = (items, count)"
    by fastforce
  with 8 assms show ?thesis
    using listed_owned(4) [of _ owner ?iq page psize "db w"]
    by (cases "interview_list owner ?iq page psize (db w)")
      (auto simp: checked_def split: if_splits prod.splits dest!: interview_listed(1))
next
  case (9 until limit)
  with assms show ?thesis
    using listed_owned(5) [of _ owner "e_now env" "map_option as_utc until" limit "db w"]
    by (cases "interview_upcoming owner (map_option as_utc until) limit env (db w)")
      (auto simp: checked_def split: if_splits dest!: interview_listed(2))
next
  case (10 k)
  with assms show ?thesis
    by (cases "interview_get owner k (db w)") (auto dest: interview_get_Inr')
qed simp_all

section \<open>Rendering\<close>

lemma collect_cong: "(\<And>x. x \<in> set xs \<Longrightarrow> f x = g x) \<Longrightarrow> collect f xs = collect g xs"
  by (induction xs) auto

lemma collect_total: "(\<And>x. x \<in> set xs \<Longrightarrow> f x \<noteq> None) \<Longrightarrow> collect f xs \<noteq> None"
proof (induction xs)
  case (Cons a xs)
  then obtain y where "f a = Some y" by (metis list.set_intros(1) not_Some_eq)
  with Cons show ?case by (auto simp del: not_None_eq)
qed simp

lemma job_company_own: "j_owner_id j = owner \<Longrightarrow> job_company (own owner tb) j = job_company tb j"
  by (auto simp: job_company_def)

lemma parent_owner:
  "application_job tb a = Some j \<Longrightarrow> j \<in> set (jobs tb) \<and> j_owner_id j = a_owner_id a"
  "interview_application tb i = Some a \<Longrightarrow> a \<in> set (applications tb) \<and> a_owner_id a = i_owner_id i"
  by (auto simp: application_job_def interview_application_def dest!: find_Some)

lemma summaries_own:
  "a_owner_id a = owner \<Longrightarrow>
     Option.bind (application_job (own owner tb) a) (job_summary_of (own owner tb)) =
     Option.bind (application_job tb a) (job_summary_of tb)"
  "i_owner_id i = owner \<Longrightarrow>
     Option.bind (interview_application (own owner tb) i) (application_summary_of (own owner tb)) =
     Option.bind (interview_application tb i) (application_summary_of tb)"
proof -
  show "Option.bind (application_job (own owner tb) a) (job_summary_of (own owner tb)) =
     Option.bind (application_job tb a) (job_summary_of tb)" if "a_owner_id a = owner"
    using that by (cases "application_job tb a")
      (auto simp: application_job_own job_summary_own dest: parent_owner(1))
  show "Option.bind (interview_application (own owner tb) i) (application_summary_of (own owner tb)) =
     Option.bind (interview_application tb i) (application_summary_of tb)" if "i_owner_id i = owner"
  proof -
    have "interview_application (own owner tb) i = interview_application tb i"
      using that by (auto simp: interview_application_def)
    then show ?thesis
      using that by (cases "interview_application tb i")
        (auto simp: application_summary_own dest: parent_owner(2))
  qed
qed

lemma responses_own:
  "j_owner_id j = owner \<Longrightarrow> job_response url (own owner tb) j = job_response url tb j"
  "a_owner_id a = owner \<Longrightarrow> application_response (own owner tb) a = application_response tb a"
  "i_owner_id i = owner \<Longrightarrow> interview_response url (own owner tb) i = interview_response url tb i"
  by (simp_all add: job_response_def application_response_def interview_response_def
      job_company_own summaries_own)

lemma render_own:
  assumes "reply_owned owner tb reply"
  shows "render url pg (own owner tb) reply = render url pg tb reply"
  using assms
  by (cases reply) (auto simp: responses_own list_response_defs cong: collect_cong)

text \<open>Stored URLs are in the normal form the parser leaves alone.\<close>

definition url_normal :: "(string \<Rightarrow> string option) \<Rightarrow> string option \<Rightarrow> bool" where
  "url_normal url v = opt_ok (\<lambda>s. url s = Some s) v"

definition urls_ok :: "(string \<Rightarrow> string option) \<Rightarrow> tables \<Rightarrow> bool" where
  "urls_ok url tb =
     ((\<forall>c\<in>set (companies tb). url_normal url (c_website c)) \<and>
      (\<forall>j\<in>set (jobs tb). url_normal url (j_url j)) \<and>
      (\<forall>i\<in>set (interviews tb). url_normal url (i_meeting_url i)))"

lemma url_field_normal: "url_normal url v \<Longrightarrow> url_field url v = Some v"
  by (cases v) (simp_all add: url_normal_def url_field_def opt_ok_def)

lemma parents_exist:
  assumes "db_ok tb"
  shows "j \<in> set (jobs tb) \<Longrightarrow> job_company tb j \<noteq> None"
    and "a \<in> set (applications tb) \<Longrightarrow> application_job tb a \<noteq> None"
    and "i \<in> set (interviews tb) \<Longrightarrow> interview_application tb i \<noteq> None"
  using assms
  by (auto simp: db_ok_def refs_ok_def exists_defs job_company_def application_job_def
      interview_application_def find_none_iff)

lemma summaries_exist:
  assumes "db_ok tb"
  shows "a \<in> set (applications tb) \<Longrightarrow> Option.bind (application_job tb a) (job_summary_of tb) \<noteq> None"
    and "i \<in> set (interviews tb) \<Longrightarrow>
      Option.bind (interview_application tb i) (application_summary_of tb) \<noteq> None"
proof -
  show app: "Option.bind (application_job tb a) (job_summary_of tb) \<noteq> None"
    if a: "a \<in> set (applications tb)" for a
  proof -
    obtain j where j: "application_job tb a = Some j" using parents_exist(2) [OF assms a] by blast
    have "job_company tb j \<noteq> None"
      using parent_owner(1) [OF j] parents_exist(1) [OF assms] by blast
    with j show ?thesis by (auto simp: job_summary_of_def)
  qed
  show "Option.bind (interview_application tb i) (application_summary_of tb) \<noteq> None"
    if i: "i \<in> set (interviews tb)"
  proof -
    obtain a where a: "interview_application tb i = Some a"
      using parents_exist(3) [OF assms i] by blast
    with app [of a] parent_owner(2) [OF a] show ?thesis
      by (cases "application_job tb a") (auto simp: application_summary_of_def)
  qed
qed

lemma responses_exist:
  assumes "db_ok tb" and "urls_ok url tb"
  shows "c \<in> set (companies tb) \<Longrightarrow> company_response url c \<noteq> None"
    and "j \<in> set (jobs tb) \<Longrightarrow> job_response url tb j \<noteq> None"
    and "a \<in> set (applications tb) \<Longrightarrow> application_response tb a \<noteq> None"
    and "i \<in> set (interviews tb) \<Longrightarrow> interview_response url tb i \<noteq> None"
  using assms(2) parents_exist(1) [OF assms(1)] summaries_exist [OF assms(1)]
  by (auto simp: urls_ok_def company_response_def job_response_def application_response_def
      interview_response_def url_field_normal)

lemma render_total:
  assumes "db_ok tb" and "urls_ok url tb" and "reply_owned owner tb reply"
  shows "render url pg tb reply \<noteq> None"
  using assms(3) responses_exist [OF assms(1,2)]
  by (cases reply) (simp_all add: collect_total list_response_defs)

section \<open>No stored row has an invalid response\<close>

text \<open>
  \<open>served P url rw\<close>: after the operation the stored URLs are normal, and the value it returns
  satisfies \<open>P\<close> in the new tables.
\<close>

definition served ::
    "(tables \<Rightarrow> 'a \<Rightarrow> bool) \<Rightarrow> (string \<Rightarrow> string option) \<Rightarrow> 'a result \<times> world \<Rightarrow> bool" where
  "served P url rw =
     (urls_ok url (db (snd rw)) \<and> (\<forall>v. fst rw = Inr v \<longrightarrow> P (db (snd rw)) v))"

lemma served_error [simp]: "served P url (Inl e, w) = urls_ok url (db w)"
  by (simp add: served_def)

lemma served_observed [simp]: "served P url (observe_business_write r p rw) = served P url rw"
  by (simp add: served_def)

lemma served_commit:
  assumes "urls_ok url (db w)" and "\<And>tb'. upd = Some tb' \<Longrightarrow> urls_ok url tb' \<and> P tb' res"
  shows "served P url (commit_write env owner rf oi upd res w)"
  using assms by (auto simp: served_def commit_write_def split: option.splits)

lemma served_replying:
  "served (\<lambda>tb u. reply_owned owner tb (f u)) url rw \<Longrightarrow> served (reply_owned owner) url (replying f rw)"
  by (cases "fst rw") (auto simp: served_def replying_def)

lemma served_validated:
  assumes "urls_ok url (db w)" and "\<And>d. body = Inr d \<Longrightarrow> served P url (run d w)"
  shows "served P url (validated body run w)"
  using assms by (cases body) (simp_all add: validated_def)

lemma put_row_member:
  assumes "y \<in> set xs" and "key y = key x"
  shows "x \<in> set (put_row key x xs)"
  using assms by (force simp: put_row_def)

lemma urls_ok_company:
  assumes "urls_ok url tb" and "url_normal url (c_website c)"
  shows "insert_company c tb = Some tb' \<Longrightarrow> urls_ok url tb' \<and> c \<in> set (companies tb')"
    and "update_company c tb = Some tb' \<Longrightarrow> d \<in> set (companies tb) \<Longrightarrow> c_id d = c_id c
      \<Longrightarrow> urls_ok url tb' \<and> c \<in> set (companies tb')"
    and "delete_company c tb = Some tb' \<Longrightarrow> urls_ok url tb'"
  using assms
  by (auto simp: urls_ok_def statement_defs put_row_member split: if_splits dest!: set_put_row)

lemma urls_ok_job:
  assumes "urls_ok url tb" and "url_normal url (j_url j)"
  shows "insert_job j tb = Some tb' \<Longrightarrow> urls_ok url tb' \<and> j \<in> set (jobs tb')"
    and "update_job j tb = Some tb' \<Longrightarrow> k \<in> set (jobs tb) \<Longrightarrow> j_id k = j_id j
      \<Longrightarrow> urls_ok url tb' \<and> j \<in> set (jobs tb')"
    and "delete_job j tb = Some tb' \<Longrightarrow> urls_ok url tb'"
  using assms
  by (auto simp: urls_ok_def statement_defs put_row_member split: if_splits dest!: set_put_row)

lemma urls_ok_interview:
  assumes "urls_ok url tb" and "url_normal url (i_meeting_url i)"
  shows "insert_interview i tb = Some tb' \<Longrightarrow> urls_ok url tb' \<and> i \<in> set (interviews tb')"
    and "update_interview i tb = Some tb' \<Longrightarrow> k \<in> set (interviews tb) \<Longrightarrow> i_id k = i_id i
      \<Longrightarrow> urls_ok url tb' \<and> i \<in> set (interviews tb')"
    and "delete_interview i tb = Some tb' \<Longrightarrow> urls_ok url tb'"
  using assms
  by (auto simp: urls_ok_def statement_defs put_row_member split: if_splits dest!: set_put_row)

lemma urls_ok_application:
  assumes "urls_ok url tb"
  shows "insert_application a tb = Some tb' \<Longrightarrow> urls_ok url tb' \<and> a \<in> set (applications tb')"
    and "update_application a tb = Some tb' \<Longrightarrow> k \<in> set (applications tb) \<Longrightarrow> a_id k = a_id a
      \<Longrightarrow> urls_ok url tb' \<and> a \<in> set (applications tb')"
    and "delete_application a tb = Some tb' \<Longrightarrow> urls_ok url tb'"
    and "insert_history h tb = Some tb' \<Longrightarrow> urls_ok url tb' \<and> applications tb' = applications tb"
  using assms
  by (auto simp: urls_ok_def statement_defs put_row_member split: if_splits)

lemma url_normal_patch:
  assumes "url_normal url old" and "\<And>s. p = Val s \<Longrightarrow> url s = Some s"
  shows "url_normal url (patch_opt p old)"
  using assms by (cases p) (simp_all add: url_normal_def opt_ok_def)

text \<open>Parsing again what was parsed changes nothing.\<close>

definition url_stable :: "(string \<Rightarrow> string option) \<Rightarrow> externals \<Rightarrow> bool" where
  "url_stable url x = (\<forall>n raw s. x_url x n raw = Some s \<longrightarrow> url s = Some s)"

lemma bind_url_normal:
  "url_stable url x \<Longrightarrow> url_normal url (Option.bind v (x_url x n))"
  by (cases v) (auto simp: url_stable_def url_normal_def opt_ok_def split: option.split)

lemma bind_patch_url:
  "url_stable url x \<Longrightarrow> bind_patch (x_url x n) p = Val s \<Longrightarrow> url s = Some s"
  by (cases p) (auto simp: url_stable_def split: option.splits)

lemma validated_urls:
  assumes "url_stable url x"
  shows "validate_company_create (x_url x) d1 = Inr d1' \<Longrightarrow> url_normal url (cc_website d1')"
    and "validate_company_update (x_url x) d2 = Inr d2' \<Longrightarrow> cu_website d2' = Val s \<Longrightarrow> url s = Some s"
    and "validate_job_create (x_url x) d3 = Inr d3' \<Longrightarrow> url_normal url (jc_url d3')"
    and "validate_job_update (x_url x) d4 = Inr d4' \<Longrightarrow> ju_url d4' = Val s \<Longrightarrow> url s = Some s"
    and "validate_interview_create (x_url x) d5 = Inr d5' \<Longrightarrow> url_normal url (ic_meeting_url d5')"
    and "validate_interview_update (x_url x) d6 = Inr d6' \<Longrightarrow> iu_meeting_url d6' = Val s \<Longrightarrow> url s = Some s"
  by (auto simp: validate_company_create_def validate_company_update_def validate_job_create_def
      validate_job_update_def validate_interview_create_def validate_interview_update_def
      bind_url_normal [OF assms] bind_patch_url [OF assms] split: if_splits sum.splits)

lemma url_of_row:
  assumes "urls_ok url tb"
  shows "c \<in> set (companies tb) \<Longrightarrow> url_normal url (c_website c)"
    and "j \<in> set (jobs tb) \<Longrightarrow> url_normal url (j_url j)"
    and "i \<in> set (interviews tb) \<Longrightarrow> url_normal url (i_meeting_url i)"
  using assms by (simp_all add: urls_ok_def)

lemma company_create_served:
  assumes "urls_ok url (db w)" and "url_normal url (cc_website d)"
  shows "served (\<lambda>tb c. c \<in> set (companies tb) \<and> c_owner_id c = owner) url (company_create owner d env w)"
  using assms urls_ok_company(1) [OF assms(1), of "company_row env owner d"]
  by (auto simp: company_runs Let_def company_row_def intro!: served_commit)

lemma company_update_served:
  assumes "urls_ok url (db w)" and "\<And>s. cu_website d = Val s \<Longrightarrow> url s = Some s"
  shows "served (\<lambda>tb c. c \<in> set (companies tb) \<and> c_owner_id c = owner) url (company_update owner k d env w)"
proof (cases "company_get owner k (db w)")
  case (Inr c)
  note c = company_get_Inr [OF Inr]
  let ?c = "company_touched env c (company_patched d c)"
  have url: "url_normal url (c_website ?c)"
    using url_of_row(1) [OF assms(1)] c assms(2)
    by (auto simp: company_touched_def company_patched_def intro!: url_normal_patch)
  show ?thesis
    using Inr c assms(1) urls_ok_company(2) [OF assms(1) url _ conjunct1 [OF c]]
    by (auto simp: company_runs Let_def company_touched_ids intro!: served_commit split: if_splits)
qed (simp add: company_runs assms(1))

lemma company_delete_served:
  assumes "urls_ok url (db w)"
  shows "served (\<lambda>tb u. True) url (company_delete owner k env w)"
proof (cases "company_get owner k (db w)")
  case (Inr c)
  then show ?thesis
    using urls_ok_company(3) [OF assms url_of_row(1) [OF assms]] company_get_Inr [OF Inr] assms
    by (auto simp: company_runs intro!: served_commit)
qed (simp add: company_runs assms)

lemma job_create_served:
  assumes "urls_ok url (db w)" and "url_normal url (jc_url d)"
  shows "served (\<lambda>tb j. j \<in> set (jobs tb) \<and> j_owner_id j = owner) url (job_create owner d env w)"
  using assms urls_ok_job(1) [OF assms(1), of "job_row env owner d"]
  by (auto simp: job_runs Let_def job_row_def intro!: served_commit split: sum.splits)

lemma job_update_served:
  assumes "urls_ok url (db w)" and "\<And>s. ju_url d = Val s \<Longrightarrow> url s = Some s"
  shows "served (\<lambda>tb j. j \<in> set (jobs tb) \<and> j_owner_id j = owner) url (job_update owner k d env w)"
proof (cases "job_get owner k (db w)")
  case (Inr j)
  note j = job_get_Inr [OF Inr]
  let ?j = "job_touched env j (job_patched d j)"
  have url: "url_normal url (j_url ?j)"
    using url_of_row(2) [OF assms(1)] j assms(2)
    by (auto simp: job_touched_def job_patched_def intro!: url_normal_patch)
  show ?thesis
    using Inr j assms(1) urls_ok_job(2) [OF assms(1) url _ conjunct1 [OF j]]
    by (auto simp: job_runs Let_def job_touched_ids intro!: served_commit split: if_splits sum.split)
qed (simp add: job_runs assms(1))

lemma job_delete_served:
  assumes "urls_ok url (db w)"
  shows "served (\<lambda>tb u. True) url (job_delete owner k env w)"
proof (cases "job_get owner k (db w)")
  case (Inr j)
  then show ?thesis
    using urls_ok_job(3) [OF assms url_of_row(2) [OF assms]] job_get_Inr [OF Inr] assms
    by (auto simp: job_runs intro!: served_commit)
qed (simp add: job_runs assms)

lemma application_create_served:
  assumes "urls_ok url (db w)"
  shows "served (\<lambda>tb a. a \<in> set (applications tb) \<and> a_owner_id a = owner) url
    (application_create owner d env w)"
  using assms urls_ok_application(1) [OF assms, of "application_row env owner d (initial_applied_at env d)"]
  by (auto simp: application_create_def application_create_run_def Let_def application_row_def
      intro!: served_commit)

lemma application_update_served:
  assumes "urls_ok url (db w)"
  shows "served (\<lambda>tb a. a \<in> set (applications tb) \<and> a_owner_id a = owner) url
    (application_update owner k d env w)"
proof (cases "application_get owner k (db w)")
  case (Inr a)
  note a = application_get_Inr [OF Inr]
  show ?thesis
    using Inr a assms urls_ok_application(2) [OF assms _ conjunct1 [OF a]]
    by (auto simp: application_update_def application_update_run_def Let_def intro!: served_commit
        split: if_splits)
qed (simp add: application_update_def application_update_run_def assms)

lemma change_status_served:
  assumes "urls_ok url (db w)"
  shows "served (\<lambda>tb a. a \<in> set (applications tb) \<and> a_owner_id a = owner) url
    (change_status owner k t env w)"
proof (cases "application_get_owned_for_update k owner (db w)")
  case (Some a)
  then have a: "a \<in> set (applications (db w))" "a_owner_id a = owner"
    using get_for_update_Some [OF Some] by auto
  have "urls_ok url tb' \<and> with_status env t a \<in> set (applications tb')"
    if "Option.bind (update_application (with_status env t a) (db w))
      (insert_history (status_history_row env a t)) = Some tb'" for tb'
  proof -
    from that obtain tb where tb: "update_application (with_status env t a) (db w) = Some tb"
      and ins: "insert_history (status_history_row env a t) tb = Some tb'"
      by (auto simp: bind_eq_Some_conv)
    have "urls_ok url tb \<and> with_status env t a \<in> set (applications tb)"
      using urls_ok_application(2) [OF assms tb a(1)] by simp
    then show ?thesis using urls_ok_application(4) [OF _ ins, of url] by simp
  qed
  then show ?thesis
    using Some a assms
    by (auto simp: change_status_def change_status_run_def Let_def intro!: served_commit)
qed (simp add: change_status_def change_status_run_def assms)

lemma application_delete_served:
  assumes "urls_ok url (db w)"
  shows "served (\<lambda>tb u. True) url (application_delete owner k env w)"
  using assms urls_ok_application(3) [OF assms]
  by (auto simp: application_delete_def application_delete_run_def intro!: served_commit
      split: option.split sum.split)

lemma interview_create_served:
  assumes "urls_ok url (db w)" and "url_normal url (ic_meeting_url d)"
  shows "served (\<lambda>tb i. i \<in> set (interviews tb) \<and> i_owner_id i = owner) url
    (interview_create owner d env w)"
  using assms urls_ok_interview(1) [OF assms(1), of "interview_row env owner d"]
  by (auto simp: interview_create_def interview_create_run_def Let_def interview_row_def
      intro!: served_commit split: option.split)

lemma interview_update_served:
  assumes "urls_ok url (db w)" and "\<And>s. iu_meeting_url d = Val s \<Longrightarrow> url s = Some s"
  shows "served (\<lambda>tb i. i \<in> set (interviews tb) \<and> i_owner_id i = owner) url
    (interview_update owner k d env w)"
proof (cases "interview_get owner k (db w)")
  case (Inr i)
  note i = interview_get_Inr [OF Inr]
  let ?i = "interview_touched env i (interview_patched d i)"
  have url: "url_normal url (i_meeting_url ?i)"
    using url_of_row(3) [OF assms(1)] i assms(2)
    by (auto simp: interview_touched_def interview_patched_def Let_def intro!: url_normal_patch)
  show ?thesis
    using Inr i assms(1) urls_ok_interview(2) [OF assms(1) url _ conjunct1 [OF i]]
    by (auto simp: interview_update_def interview_update_run_def Let_def intro!: served_commit
        split: if_splits)
qed (simp add: interview_update_def interview_update_run_def assms)

lemma interview_delete_served:
  assumes "urls_ok url (db w)"
  shows "served (\<lambda>tb u. True) url (interview_delete owner k env w)"
proof (cases "interview_get owner k (db w)")
  case (Inr i)
  then show ?thesis
    using urls_ok_interview(3) [OF assms url_of_row(3) [OF assms]] interview_get_Inr [OF Inr] assms
    by (auto simp: interview_delete_def interview_delete_run_def intro!: served_commit)
qed (simp add: interview_delete_def interview_delete_run_def assms)

lemma request_served:
  assumes ok: "urls_ok url (db w)" and stable: "url_stable url x" and wr: "is_write q"
  shows "served (reply_owned owner) url (run_business x owner q env w)"
  using wr
  by (cases q rule: is_write.cases)
    (simp_all add: ok validated_urls [OF stable] served_replying served_validated
      company_create_served company_update_served company_delete_served
      job_create_served job_update_served job_delete_served
      application_create_served application_update_served change_status_served
      application_delete_served interview_create_served interview_update_served
      interview_delete_served)

lemma request_keeps:
  assumes "db_ok (db w)" and "urls_ok url (db w)" and "url_stable url x"
    and "run_business x owner q env w = (r, w')"
  shows "db_ok (db w') \<and> urls_ok url (db w') \<and> (\<forall>reply. r = Inr reply \<longrightarrow> reply_owned owner (db w') reply)"
proof (cases "is_write q")
  case True
  with run_business.keeps_db [OF assms(4,1)] request_served [OF assms(2,3) True, of owner env] assms(4)
  show ?thesis by (simp add: served_def)
next
  case False
  then have "w' = w" using business_read [OF False, of x owner env w] assms(4) by simp
  moreover have "reply_owned owner (db w) reply" if "r = Inr reply" for reply
    using read_owned [OF False, of x owner env w reply] assms(4) that by simp
  ultimately show ?thesis using assms(1,2) by simp
qed

lemma steps_keep:
  assumes "(business_step x)\<^sup>*\<^sup>* w w'" and "db_ok (db w)" and "urls_ok url (db w)" and "url_stable url x"
  shows "db_ok (db w') \<and> urls_ok url (db w')"
  using assms(1)
proof (induction rule: rtranclp_induct)
  case (step v v')
  then obtain owner q env r where "run_business x owner q env v = (r, v')"
    by (auto elim: business_stepE)
  with request_keeps [OF _ _ assms(4) this] step.IH show ?case by simp
qed (use assms in simp)

section \<open>Properties\<close>

text \<open>
  C3: what a read request answers, the whole body with its totals and the summaries of parent
  rows, depends on the rows of the requesting user only: two consistent databases in which this
  user owns the same rows give the same answer, whatever else they hold.
\<close>

theorem reads_confidential:
  assumes "db_ok (db w)" and "db_ok (db v)" and "\<not> is_write q"
    and "own owner (db w) = own owner (db v)"
  shows "respond x url owner q env w = respond x url owner q env v"
proof -
  have same: "respond x url owner q env w =
      (case fst (run_business x owner q env (alone owner w)) of
         Inl e \<Rightarrow> Refused e
       | Inr reply \<Rightarrow> (case render url (requested_page q) (own owner (db w)) reply of
           None \<Rightarrow> InvalidResponse | Some body \<Rightarrow> Body body))"
    if ok: "db_ok (db w)" for w
  proof -
    obtain r where r: "run_business x owner q env w = (r, w)"
      using business_read [OF assms(3), of x owner env w] by (metis prod.collapse)
    show ?thesis
    proof (cases r)
      case (Inr reply)
      with r have "reply_owned owner (db w) reply"
        using read_owned [OF assms(3), of x owner env w] by simp
      then show ?thesis
        using Inr r by (simp add: respond_def read_alone(1) [OF ok assms(3)] render_own)
    qed (use r in \<open>simp add: respond_def read_alone(1) [OF ok assms(3)]\<close>)
  qed
  have "fst (run_business x owner q env (alone owner w)) =
      fst (run_business x owner q env (alone owner v))"
    by (rule read_same_db [OF assms(3)]) (simp add: alone_def assms(4))
  then show ?thesis unfolding same [OF assms(1)] same [OF assms(2)] assms(4) by simp
qed

text \<open>User 1 owns a company; user 2 sees the same empty page with and without the rows of user 1.\<close>

definition sample_listing :: business_request where
  "sample_listing = CompanyRequest
     (ListCompanies \<lparr>cq_keyword = None, cq_industry = None, cq_location = None\<rparr> 1 20)"

theorem reads_confidential_witness:
  "respond sample_externals Some 2 sample_listing sample_env sample_world =
   respond sample_externals Some 2 sample_listing sample_env
     (sample_world\<lparr>db := empty_tables\<lparr>users := users sample_tables\<rparr>\<rparr>)"
proof (rule reads_confidential)
  show "db_ok (db sample_world)" by (simp add: sample_world_def sample_db_ok)
  show "db_ok (db (sample_world\<lparr>db := empty_tables\<lparr>users := users sample_tables\<rparr>\<rparr>))" by code_simp
  show "\<not> is_write sample_listing" by (simp add: sample_listing_def)
  show "own 2 (db sample_world) =
      own 2 (db (sample_world\<lparr>db := empty_tables\<lparr>users := users sample_tables\<rparr>\<rparr>))"
    by code_simp
qed

text \<open>
  C8: after any run of requests, by any users and with any failures of the database, no request
  ends with an invalid response: every successful one has a body of its response model, whose
  rows all belong to the requesting user and whose summaries are complete.
\<close>

theorem responses_always_valid:
  assumes "db_ok (db w)" and "urls_ok url (db w)" and "url_stable url x"
    and "(business_step x)\<^sup>*\<^sup>* w v"
  shows "respond x url owner q env v \<noteq> InvalidResponse \<and>
    (\<forall>reply. fst (run_business x owner q env v) = Inr reply \<longrightarrow>
       reply_owned owner (db (snd (run_business x owner q env v))) reply)"
proof -
  obtain r v' where run: "run_business x owner q env v = (r, v')" by fastforce
  from steps_keep [OF assms(4,1,2,3)] have "db_ok (db v)" "urls_ok url (db v)" by auto
  note kept = request_keeps [OF this assms(3) run]
  show ?thesis
    using kept render_total [of "db v'" url owner] run
    by (cases r) (auto simp: respond_def split: option.split)
qed

theorem responses_always_valid_witness:
  "respond sample_externals Some 1 sample_listing sample_env sample_world \<noteq> InvalidResponse"
proof -
  have "urls_ok Some (db sample_world)" by code_simp
  moreover have "url_stable Some sample_externals" by (simp add: url_stable_def sample_externals_def)
  ultimately show ?thesis
    using responses_always_valid [of sample_world Some sample_externals sample_world]
    by (simp add: sample_db_ok sample_world_def)
qed

end
