(* ===== verification/DemoSeed.thy ===== *)
theory DemoSeed
  imports Business Accounts Config
begin

text \<open>
  The demonstration data set of \<^verbatim>\<open>scripts/seed_demo.py\<close>, written past the services: the guards of
  the script, the rows it inserts, and the proof that these rows obey every rule the services
  enforce. Ids, clock readings of column defaults and the password hash are fields of the
  environment; \<open>make_url\<close> is a parameter.
\<close>

section \<open>Where the script may write\<close>

record db_url =
  url_backend :: string
  url_host :: "string option"
  url_database :: "string option"

definition SAFE_DATABASE_NAMES :: "string list" where
  "SAFE_DATABASE_NAMES = [''fastapi_db'', ''jobtrack'', ''jobtrack_dev'', ''jobtrack_local'']"

definition SAFE_DATABASE_HOSTS :: "string list" where
  "SAFE_DATABASE_HOSTS = [''localhost'', ''127.0.0.1'', ''::1'', ''postgres'']"

definition py_or_empty :: "string option \<Rightarrow> string" where
  "py_or_empty s = (case s of None \<Rightarrow> [] | Some x \<Rightarrow> x)"

definition ends_with :: "string \<Rightarrow> string \<Rightarrow> bool" where
  "ends_with suffix s = starts_with (rev suffix) (rev s)"

definition is_safe_demo_database :: "(string \<Rightarrow> db_url) \<Rightarrow> string \<Rightarrow> bool" where
  "is_safe_demo_database make_url database_url =
     (let url = make_url database_url;
          database_name = py_casefold (py_or_empty (url_database url)) in
      url_backend url = ''postgresql'' \<and>
      py_or_empty (url_host url) \<in> set SAFE_DATABASE_HOSTS \<and>
      (database_name \<in> set SAFE_DATABASE_NAMES \<or>
       list_ex (\<lambda>suffix. ends_with suffix database_name) [''_test'', ''_dev'', ''_local'']))"

section \<open>The rows\<close>

record seed_env =
  sd_clock :: datetime                    \<comment> \<open>\<open>datetime.now(UTC)\<close>\<close>
  sd_hash :: "string \<Rightarrow> string"           \<comment> \<open>\<open>hash_password\<close>\<close>
  sd_user_id :: int                       \<comment> \<open>the next values of the sequences\<close>
  sd_company_id :: "nat \<Rightarrow> int"
  sd_job_id :: "nat \<Rightarrow> int"
  sd_application_id :: "nat \<Rightarrow> int"
  sd_history_id :: "nat \<Rightarrow> int"
  sd_interview_id :: "nat \<Rightarrow> int"
  sd_created_at :: "nat \<Rightarrow> datetime"      \<comment> \<open>column defaults of the rows in their order\<close>
  sd_updated_at :: "nat \<Rightarrow> datetime"
  sd_commit_ok :: bool

record seed_result =
  sr_user_id :: int
  sr_companies :: nat
  sr_jobs :: nat
  sr_applications :: nat
  sr_interviews :: nat

definition demo_username_char :: "char \<Rightarrow> bool" where
  "demo_username_char c = (let n = (of_char c :: nat) in
     (65 \<le> n \<and> n \<le> 90) \<or> (97 \<le> n \<and> n \<le> 122) \<or> (48 \<le> n \<and> n \<le> 57) \<or> n = 95 \<or> n = 45)"

text \<open>\<open>re.fullmatch(r"[A-Za-z0-9_-]{3,40}", username)\<close>\<close>

definition demo_username_ok :: "string \<Rightarrow> bool" where
  "demo_username_ok s = (list_all demo_username_char s \<and> 3 \<le> length s \<and> length s \<le> 40)"

definition demo_password_ok :: "string \<Rightarrow> bool" where
  "demo_password_ok s = (12 \<le> length s \<and> utf8_length s \<le> 72)"

definition demo_user :: "seed_env \<Rightarrow> string \<Rightarrow> string \<Rightarrow> datetime \<Rightarrow> user" where
  "demo_user e username password now =
     \<lparr>u_id = sd_user_id e, u_username = username, u_password = sd_hash e password,
      u_password_login_enabled = True, u_role = ''user'',
      u_email = Some (username @ ''@example.test''), u_email_verified_at = Some now,
      u_mfa_secret_encrypted = None, u_mfa_enrollment_created_at = None,
      u_mfa_enabled_at = None, u_mfa_last_counter = None, u_is_active = True,
      u_created_at = sd_created_at e 0, u_updated_at = sd_updated_at e 0\<rparr>"

definition demo_companies :: "seed_env \<Rightarrow> company list" where
  "demo_companies e =
     [\<lparr>c_id = sd_company_id e 0, c_owner_id = sd_user_id e, c_name = ''Northstar Labs'',
       c_website = Some ''https://example.test/northstar'', c_industry = Some ''Developer Tools'',
       c_location = Some ''Shanghai'', c_notes = Some ''High-priority product company'',
       c_created_at = sd_created_at e 1, c_updated_at = sd_updated_at e 1\<rparr>,
      \<lparr>c_id = sd_company_id e 1, c_owner_id = sd_user_id e, c_name = ''Cloud Harbor'',
       c_website = Some ''https://example.test/cloud-harbor'',
       c_industry = Some ''Cloud Infrastructure'',
       c_location = Some ''Remote'', c_notes = None,
       c_created_at = sd_created_at e 2, c_updated_at = sd_updated_at e 2\<rparr>]"

definition demo_jobs :: "seed_env \<Rightarrow> company list \<Rightarrow> job list" where
  "demo_jobs e cs =
     [\<lparr>j_id = sd_job_id e 0, j_owner_id = sd_user_id e, j_company_id = c_id (cs ! 0),
       j_title = ''Senior Backend Engineer'', j_employment_type = FULL_TIME, j_work_mode = HYBRID,
       j_location = Some ''Shanghai'', j_source = Some ''Referral'', j_url = None,
       j_salary_min = Some 3000000, j_salary_max = Some 4000000, j_salary_currency = ''CNY'',
       j_description = Some ''Build reliable APIs and data-intensive services.'', j_status = OPEN,
       j_created_at = sd_created_at e 3, j_updated_at = sd_updated_at e 3\<rparr>,
      \<lparr>j_id = sd_job_id e 1, j_owner_id = sd_user_id e, j_company_id = c_id (cs ! 1),
       j_title = ''Platform Engineer'', j_employment_type = FULL_TIME, j_work_mode = REMOTE,
       j_location = Some ''Remote'', j_source = Some ''Company careers page'', j_url = None,
       j_salary_min = Some 3200000, j_salary_max = Some 4500000, j_salary_currency = ''CNY'',
       j_description = None, j_status = OPEN,
       j_created_at = sd_created_at e 4, j_updated_at = sd_updated_at e 4\<rparr>,
      \<lparr>j_id = sd_job_id e 2, j_owner_id = sd_user_id e, j_company_id = c_id (cs ! 0),
       j_title = ''API Engineer'', j_employment_type = FULL_TIME, j_work_mode = ONSITE,
       j_location = Some ''Shanghai'', j_source = Some ''Job board'', j_url = None,
       j_salary_min = None, j_salary_max = None, j_salary_currency = ''CNY'',
       j_description = None, j_status = PAUSED,
       j_created_at = sd_created_at e 5, j_updated_at = sd_updated_at e 5\<rparr>,
      \<lparr>j_id = sd_job_id e 3, j_owner_id = sd_user_id e, j_company_id = c_id (cs ! 1),
       j_title = ''Distributed Systems Engineer'', j_employment_type = FULL_TIME,
       j_work_mode = REMOTE,
       j_location = Some ''Remote'', j_source = Some ''Recruiter'', j_url = None,
       j_salary_min = None, j_salary_max = None, j_salary_currency = ''CNY'',
       j_description = None, j_status = OPEN,
       j_created_at = sd_created_at e 6, j_updated_at = sd_updated_at e 6\<rparr>]"

definition demo_applications :: "seed_env \<Rightarrow> datetime \<Rightarrow> job list \<Rightarrow> application list" where
  "demo_applications e now js =
     (let today = date_of now in
     [\<lparr>a_id = sd_application_id e 0, a_owner_id = sd_user_id e, a_job_id = j_id (js ! 0),
       a_status = INTERVIEW, a_priority = 5, a_applied_at = Some (today - 10),
       a_deadline = Some (today + 5), a_next_action_at = Some (now + days 1),
       a_notes = Some ''Prepare system-design examples'',
       a_created_at = sd_created_at e 7, a_updated_at = sd_updated_at e 7\<rparr>,
      \<lparr>a_id = sd_application_id e 1, a_owner_id = sd_user_id e, a_job_id = j_id (js ! 1),
       a_status = OFFER, a_priority = 5, a_applied_at = Some (today - 20),
       a_deadline = None, a_next_action_at = Some (now + days 2),
       a_notes = Some ''Review compensation package'',
       a_created_at = sd_created_at e 8, a_updated_at = sd_updated_at e 8\<rparr>,
      \<lparr>a_id = sd_application_id e 2, a_owner_id = sd_user_id e, a_job_id = j_id (js ! 2),
       a_status = REJECTED, a_priority = 2, a_applied_at = Some (today - 30),
       a_deadline = None, a_next_action_at = None,
       a_notes = Some ''Keep feedback for future preparation'',
       a_created_at = sd_created_at e 9, a_updated_at = sd_updated_at e 9\<rparr>,
      \<lparr>a_id = sd_application_id e 3, a_owner_id = sd_user_id e, a_job_id = j_id (js ! 3),
       a_status = SAVED, a_priority = 4, a_applied_at = None,
       a_deadline = Some (today + 7), a_next_action_at = Some (now - minutes (6 * 60)),
       a_notes = Some ''Tailor resume before applying'',
       a_created_at = sd_created_at e 10, a_updated_at = sd_updated_at e 10\<rparr>])"

definition demo_transitions :: "application list \<Rightarrow> (application \<times> application_status list) list" where
  "demo_transitions apps =
     [(apps ! 0, [SAVED, APPLIED, SCREENING, INTERVIEW]),
      (apps ! 1, [SAVED, APPLIED, SCREENING, INTERVIEW, OFFER]),
      (apps ! 2, [SAVED, APPLIED, REJECTED])]"

text \<open>The nested loop: \<open>sequence\<close> counts the rows over all applications, from 1.\<close>

definition demo_history_row ::
    "seed_env \<Rightarrow> datetime \<Rightarrow> application \<Rightarrow> nat \<Rightarrow> application_status \<Rightarrow> application_status \<Rightarrow> history_row"
where
  "demo_history_row e now a n from_status to_status =
     \<lparr>h_id = sd_history_id e (n - 1), h_application_id = a_id a, h_from = from_status,
      h_to = to_status, h_changed_at = now - days (40 - int n)\<rparr>"

fun demo_steps ::
    "seed_env \<Rightarrow> datetime \<Rightarrow> application \<Rightarrow> nat \<Rightarrow> (application_status \<times> application_status) list
     \<Rightarrow> history_row list" where
  "demo_steps e now a n [] = []"
| "demo_steps e now a n ((from_status, to_status) # ss) =
     demo_history_row e now a (Suc n) from_status to_status # demo_steps e now a (Suc n) ss"

fun demo_histories ::
    "seed_env \<Rightarrow> datetime \<Rightarrow> nat \<Rightarrow> (application \<times> application_status list) list \<Rightarrow> history_row list"
where
  "demo_histories e now n [] = []"
| "demo_histories e now n ((a, states) # ts) =
     (let rows = demo_steps e now a n (zip states (tl states)) in
      rows @ demo_histories e now (n + length rows) ts)"

definition demo_interviews :: "seed_env \<Rightarrow> datetime \<Rightarrow> application list \<Rightarrow> interview list" where
  "demo_interviews e now apps =
     [\<lparr>i_id = sd_interview_id e 0, i_owner_id = sd_user_id e, i_application_id = a_id (apps ! 0),
       i_type = SYSTEM_DESIGN, i_status = SCHEDULED, i_scheduled_at = now + days 2,
       i_duration_minutes = 60, i_scheduled_end_at = now + (days 2 + minutes 60),
       i_location = None, i_meeting_url = Some ''https://meet.example.test/system-design'',
       i_notes = Some ''Review scaling and consistency trade-offs'', i_feedback = None,
       i_created_at = sd_created_at e 11, i_updated_at = sd_updated_at e 11\<rparr>,
      \<lparr>i_id = sd_interview_id e 1, i_owner_id = sd_user_id e, i_application_id = a_id (apps ! 1),
       i_type = HIRING_MANAGER, i_status = COMPLETED, i_scheduled_at = now - days 2,
       i_duration_minutes = 45, i_scheduled_end_at = now - days 2 + minutes 45,
       i_location = Some ''Video call'', i_meeting_url = None,
       i_notes = None, i_feedback = Some ''Strong alignment on ownership and execution'',
       i_created_at = sd_created_at e 12, i_updated_at = sd_updated_at e 12\<rparr>]"

section \<open>The script\<close>

text \<open>\<open>db.add_all(rows); db.flush()\<close>: the rows are inserted in order.\<close>

primrec insert_all :: "('r \<Rightarrow> tables \<Rightarrow> tables option) \<Rightarrow> 'r list \<Rightarrow> tables \<Rightarrow> tables option" where
  "insert_all ins [] tb = Some tb"
| "insert_all ins (r # rs) tb = Option.bind (ins r tb) (insert_all ins rs)"

definition demo_rows :: "seed_env \<Rightarrow> string \<Rightarrow> string \<Rightarrow> datetime \<Rightarrow> tables \<Rightarrow> tables option" where
  "demo_rows e username password now tb =
     (let cs = demo_companies e; js = demo_jobs e cs; apps = demo_applications e now js in
      Option.bind (insert_user (demo_user e username password now) tb) (\<lambda>tb.
      Option.bind (insert_all insert_company cs tb) (\<lambda>tb.
      Option.bind (insert_all insert_job js tb) (\<lambda>tb.
      Option.bind (insert_all insert_application apps tb) (\<lambda>tb.
      Option.bind (insert_all insert_history (demo_histories e now 0 (demo_transitions apps)) tb)
        (insert_all insert_interview (demo_interviews e now apps)))))))"

definition seed_demo_data ::
    "seed_env \<Rightarrow> string \<Rightarrow> string \<Rightarrow> datetime option \<Rightarrow> tables \<Rightarrow> error + (seed_result \<times> tables)" where
  "seed_demo_data e username password now tb =
     (if \<not> demo_username_ok username
      then Inl (ValueError ''Username must contain 3-40 letters, digits, '_' or '-'.'')
      else if \<not> demo_password_ok password
      then Inl (ValueError ''Password must contain 12-72 UTF-8 bytes.'')
      else if find (\<lambda>u. u_username u = username) (users tb) \<noteq> None
      then Inl (ValueError (''User ' '' @ username @ '' ' already exists; choose another --username.''))
      else let current_time = (case now of None \<Rightarrow> sd_clock e | Some t \<Rightarrow> t);
               cs = demo_companies e; js = demo_jobs e cs;
               apps = demo_applications e current_time js in
        case demo_rows e username password current_time tb of
          None \<Rightarrow> Inl IntegrityError
        | Some tb' \<Rightarrow> Inr (\<lparr>sr_user_id = sd_user_id e, sr_companies = length cs, sr_jobs = length js,
            sr_applications = length apps,
            sr_interviews = length (demo_interviews e current_time apps)\<rparr>, tb'))"

record seed_args =
  sa_confirm :: bool
  sa_username :: string
  sa_password :: string

definition seed_defaults :: seed_args where
  "seed_defaults = \<lparr>sa_confirm = False, sa_username = ''jobtrack_demo'',
     sa_password = ''JobTrackDemo123!''\<rparr>"

datatype seed_exit = SystemExit string | Raised error

definition seed_main ::
    "seed_env \<Rightarrow> (string \<Rightarrow> db_url) \<Rightarrow> settings \<Rightarrow> seed_args \<Rightarrow> tables
     \<Rightarrow> (seed_exit + seed_result) \<times> tables" where
  "seed_main e make_url s args tb =
     (if \<not> sa_confirm args then (Inl (SystemExit ''Refusing to write without --confirm.''), tb)
      else if py_casefold (ENVIRONMENT s) = ''production''
      then (Inl (SystemExit ''Refusing to seed demo data in production.''), tb)
      else if \<not> is_safe_demo_database make_url (DATABASE_URL s)
      then (Inl (SystemExit ''Refusing a non-local or non-demo PostgreSQL database.''), tb)
      else case seed_demo_data e (sa_username args) (sa_password args) None tb of
        Inl err \<Rightarrow> (Inl (Raised err), tb)
      | Inr (result, tb') \<Rightarrow>
          if sd_commit_ok e then (Inr result, tb') else (Inl (Raised DatabaseError), tb))"

section \<open>Inserting a batch of rows\<close>

text \<open>
  What the five \<open>INSERT\<close> statements share: the checks against the rows of the table and a guard
  (CHECK and foreign-key constraints) that does not look at the table itself. A batch all of
  whose rows pass is inserted as it stands.
\<close>

locale inserted_table = keyed_table key agree
  for key :: "'r \<Rightarrow> 'k" and agree :: "'r \<Rightarrow> 'r \<Rightarrow> bool" +
  fixes ins :: "'r \<Rightarrow> tables \<Rightarrow> tables option"
    and rows :: "tables \<Rightarrow> 'r list"
    and put :: "'r list \<Rightarrow> tables \<Rightarrow> tables"
    and guard :: "'r \<Rightarrow> tables \<Rightarrow> bool"
  assumes ins_exact: "ins r tb =
      (if key r \<notin> key ` set (rows tb) \<and> agrees_with key agree r (rows tb) \<and> guard r tb
       then Some (put (rows tb @ [r]) tb) else None)"
    and rows_put: "rows (put rs tb) = rs"
    and put_put: "put rs (put rs' tb) = put rs tb"
    and put_rows: "put (rows tb) tb = tb"
    and guard_put: "guard r (put rs tb) = guard r tb"
begin

lemma pairwise_snocD:
  assumes "pairwise_ok key agree (xs @ r # rs)"
  shows "key r \<notin> key ` set xs" and "agrees_with key agree r xs"
  using assms by (auto simp: pairwise_ok_def agrees_with_def)

lemma insert_all_exact:
  "pairwise_ok key agree (rows tb @ rs) \<Longrightarrow> (\<And>r. r \<in> set rs \<Longrightarrow> guard r tb)
   \<Longrightarrow> insert_all ins rs tb = Some (put (rows tb @ rs) tb)"
proof (induction rs arbitrary: tb)
  case (Cons r rs)
  have "insert_all ins rs (put (rows tb @ [r]) tb) = Some (put (rows tb @ r # rs) tb)"
    using Cons.IH [of "put (rows tb @ [r]) tb"] Cons.prems by (simp add: rows_put put_put guard_put)
  then show ?case
    using pairwise_snocD [OF Cons.prems(1)] Cons.prems(2) by (simp add: ins_exact [of r tb])
qed (simp add: put_rows)

lemma insert_all_SomeD:
  "pairwise_ok key agree (rows tb) \<Longrightarrow> insert_all ins rs tb = Some tb'
   \<Longrightarrow> tb' = put (rows tb @ rs) tb \<and> pairwise_ok key agree (rows tb @ rs)"
proof (induction rs arbitrary: tb)
  case (Cons r rs)
  then have r: "key r \<notin> key ` set (rows tb)" "agrees_with key agree r (rows tb)"
    and rest: "insert_all ins rs (put (rows tb @ [r]) tb) = Some tb'"
    by (auto simp: ins_exact [of r tb] split: if_splits)
  show ?case
    using Cons.IH [OF _ rest] insert_ok [OF Cons.prems(1) r] by (simp add: rows_put put_put)
qed (simp add: put_rows)

lemma append_ok:
  assumes "pairwise_ok key agree xs" and "pairwise_ok key agree ys"
    and "key ` set xs \<inter> key ` set ys = {}"
    and "\<And>x y. x \<in> set xs \<Longrightarrow> y \<in> set ys \<Longrightarrow> agree x y"
  shows "pairwise_ok key agree (xs @ ys)"
  using assms by (auto simp: pairwise_ok_def intro: agree_sym)

end

interpretation company_rows: inserted_table c_id company_agree insert_company companies
    "\<lambda>rs tb. tb\<lparr>companies := rs\<rparr>" "\<lambda>c tb. user_exists tb (c_owner_id c)"
  by unfold_locales (auto simp: insert_company_def user_exists_def)

interpretation job_rows: inserted_table j_id any_agree insert_job jobs
    "\<lambda>rs tb. tb\<lparr>jobs := rs\<rparr>" "\<lambda>j tb. job_check j \<and> user_exists tb (j_owner_id j) \<and>
       company_exists tb (j_owner_id j) (j_company_id j)"
  by unfold_locales (auto simp: insert_job_def user_exists_def company_exists_def agrees_with_def
      any_agree_def)

interpretation application_rows: inserted_table a_id application_agree insert_application
    applications "\<lambda>rs tb. tb\<lparr>applications := rs\<rparr>"
    "\<lambda>a tb. application_check a \<and> user_exists tb (a_owner_id a) \<and>
       job_exists tb (a_owner_id a) (a_job_id a)"
  by unfold_locales (auto simp: insert_application_def user_exists_def job_exists_def)

interpretation history_rows: inserted_table h_id any_agree insert_history histories
    "\<lambda>rs tb. tb\<lparr>histories := rs\<rparr>" "\<lambda>h tb. history_check h \<and> history_parent tb (h_application_id h)"
  by unfold_locales (auto simp: insert_history_def history_parent_def agrees_with_def any_agree_def)

interpretation interview_rows: inserted_table i_id interview_agree insert_interview interviews
    "\<lambda>rs tb. tb\<lparr>interviews := rs\<rparr>"
    "\<lambda>i tb. interview_check i \<and> user_exists tb (i_owner_id i) \<and>
       application_exists tb (i_owner_id i) (i_application_id i)"
  by unfold_locales (auto simp: insert_interview_def user_exists_def application_exists_def)

section \<open>The rows fit\<close>

text \<open>The sequences yield values no row has.\<close>

definition fresh_for :: "int list \<Rightarrow> int list \<Rightarrow> bool" where
  "fresh_for new old = (distinct new \<and> list_all (\<lambda>n. n \<notin> set old) new)"

definition seed_fresh :: "seed_env \<Rightarrow> tables \<Rightarrow> bool" where
  "seed_fresh e tb =
     (sd_user_id e \<notin> set (map u_id (users tb)) \<and>
      fresh_for (map (sd_company_id e) [0, 1]) (map c_id (companies tb)) \<and>
      fresh_for (map (sd_job_id e) [0, 1, 2, 3]) (map j_id (jobs tb)) \<and>
      fresh_for (map (sd_application_id e) [0, 1, 2, 3]) (map a_id (applications tb)) \<and>
      fresh_for (map (sd_history_id e) [0, 1, 2, 3, 4, 5, 6, 7, 8]) (map h_id (histories tb)) \<and>
      fresh_for (map (sd_interview_id e) [0, 1]) (map i_id (interviews tb)))"

definition with_demo :: "seed_env \<Rightarrow> string \<Rightarrow> string \<Rightarrow> datetime \<Rightarrow> tables \<Rightarrow> tables" where
  "with_demo e username password now tb =
     (let cs = demo_companies e; js = demo_jobs e cs; apps = demo_applications e now js in
      tb\<lparr>users := users tb @ [demo_user e username password now],
         companies := companies tb @ cs, jobs := jobs tb @ js,
         applications := applications tb @ apps,
         histories := histories tb @ demo_histories e now 0 (demo_transitions apps),
         interviews := interviews tb @ demo_interviews e now apps\<rparr>)"

text \<open>The e-mail of the demonstration user is free.\<close>

definition demo_email_free :: "string \<Rightarrow> tables \<Rightarrow> bool" where
  "demo_email_free username tb =
     (\<forall>u\<in>set (users tb). case u_email u of None \<Rightarrow> True
        | Some m \<Rightarrow> sql_lower_trim m \<noteq> py_casefold username @ ''@example.test'')"

lemma demo_email_normalized:
  assumes "demo_username_ok username"
  shows "sql_lower_trim (username @ ''@example.test'') = py_casefold username @ ''@example.test''"
proof -
  have "username \<noteq> []" and "demo_username_char (hd username)"
    using assms by (cases username; simp add: demo_username_ok_def)+
  then have "sql_trim (username @ ''@example.test'') = username @ ''@example.test''"
    unfolding sql_trim_def by (intro strip_by_idle) (auto simp: demo_username_char_def Let_def)
  then show ?thesis by (simp add: sql_lower_trim_def py_casefold_def to_lower_def)
qed

section \<open>The whole data set\<close>

lemmas demo_defs = demo_companies_def demo_jobs_def demo_applications_def demo_interviews_def
  demo_transitions_def demo_history_row_def Let_def

lemma seeded_owner_new:
  assumes "user_exists tb uid" and "seed_fresh e tb"
  shows "uid \<noteq> sd_user_id e"
  using assms by (force simp: seed_fresh_def user_exists_def)

lemma demo_companies_fit:
  assumes ok: "db_ok tb" and fresh: "seed_fresh e tb"
  shows "pairwise_ok c_id company_agree (companies tb @ demo_companies e)"
proof (rule company_rows.append_ok)
  show "pairwise_ok c_id company_agree (companies tb)"
    using ok by (simp add: db_ok_def keys_ok_def)
  show "pairwise_ok c_id company_agree (demo_companies e)"
    using fresh by (auto simp: seed_fresh_def fresh_for_def pairwise_ok_def demo_companies_def
        company_agree_def sql_lower_trim_def sql_trim_def strip_by_def to_lower_def)
  show "c_id ` set (companies tb) \<inter> c_id ` set (demo_companies e) = {}"
    using fresh by (auto simp: seed_fresh_def fresh_for_def demo_companies_def)
  fix x y assume "x \<in> set (companies tb)" and y: "y \<in> set (demo_companies e)"
  then have "user_exists tb (c_owner_id x)" using ok by (simp add: db_ok_def refs_ok_def)
  then have "c_owner_id x \<noteq> sd_user_id e" using fresh by (rule seeded_owner_new)
  then show "company_agree x y" using y by (auto simp: company_agree_def demo_companies_def)
qed

lemma demo_jobs_fit:
  assumes "db_ok tb" and "seed_fresh e tb"
  shows "pairwise_ok j_id any_agree (jobs tb @ demo_jobs e cs)"
  using assms by (intro job_rows.append_ok)
    (auto simp: db_ok_def keys_ok_def seed_fresh_def fresh_for_def pairwise_ok_def demo_jobs_def
      any_agree_def)

lemma demo_applications_fit:
  assumes ok: "db_ok tb" and fresh: "seed_fresh e tb"
  shows "pairwise_ok a_id application_agree
    (applications tb @ demo_applications e now (demo_jobs e cs))"
proof (rule application_rows.append_ok)
  show "pairwise_ok a_id application_agree (applications tb)"
    using ok by (simp add: db_ok_def keys_ok_def)
  show "pairwise_ok a_id application_agree (demo_applications e now (demo_jobs e cs))"
    using fresh by (auto simp: seed_fresh_def fresh_for_def pairwise_ok_def demo_applications_def
        demo_jobs_def application_agree_def Let_def)
  show "a_id ` set (applications tb) \<inter> a_id ` set (demo_applications e now (demo_jobs e cs)) = {}"
    using fresh by (auto simp: seed_fresh_def fresh_for_def demo_applications_def Let_def)
  fix x y assume "x \<in> set (applications tb)"
    and y: "y \<in> set (demo_applications e now (demo_jobs e cs))"
  then have "user_exists tb (a_owner_id x)" using ok by (simp add: db_ok_def refs_ok_def)
  then have "a_owner_id x \<noteq> sd_user_id e" using fresh by (rule seeded_owner_new)
  then show "application_agree x y"
    using y by (auto simp: application_agree_def demo_applications_def Let_def)
qed

lemma demo_interviews_fit:
  assumes ok: "db_ok tb" and fresh: "seed_fresh e tb"
  shows "pairwise_ok i_id interview_agree (interviews tb @ demo_interviews e now apps)"
proof (rule interview_rows.append_ok)
  show "pairwise_ok i_id interview_agree (interviews tb)"
    using ok by (simp add: db_ok_def keys_ok_def)
  show "pairwise_ok i_id interview_agree (demo_interviews e now apps)"
    using fresh by (auto simp: seed_fresh_def fresh_for_def pairwise_ok_def demo_interviews_def
        interview_agree_def)
  show "i_id ` set (interviews tb) \<inter> i_id ` set (demo_interviews e now apps) = {}"
    using fresh by (auto simp: seed_fresh_def fresh_for_def demo_interviews_def)
  fix x y assume "x \<in> set (interviews tb)" and y: "y \<in> set (demo_interviews e now apps)"
  then have "user_exists tb (i_owner_id x)" using ok by (simp add: db_ok_def refs_ok_def)
  then have "i_owner_id x \<noteq> sd_user_id e" using fresh by (rule seeded_owner_new)
  then show "interview_agree x y" using y by (auto simp: interview_agree_def demo_interviews_def)
qed

lemma demo_histories_unfold:
  "demo_histories e now 0 (demo_transitions apps) =
     map (\<lambda>(a, n, s, t). demo_history_row e now (apps ! a) n s t)
       [(0, 1, SAVED, APPLIED), (0, 2, APPLIED, SCREENING), (0, 3, SCREENING, INTERVIEW),
        (1, 4, SAVED, APPLIED), (1, 5, APPLIED, SCREENING), (1, 6, SCREENING, INTERVIEW),
        (1, 7, INTERVIEW, OFFER), (2, 8, SAVED, APPLIED), (2, 9, APPLIED, REJECTED)]"
  by (simp add: demo_transitions_def Let_def numeral_eq_Suc)

lemma demo_histories_fit:
  assumes ok: "db_ok tb" and fresh: "seed_fresh e tb"
  shows "pairwise_ok h_id any_agree
    (histories tb @ demo_histories e now 0 (demo_transitions apps))"
  using assms by (intro history_rows.append_ok)
    (auto simp: demo_histories_unfold demo_history_row_def db_ok_def keys_ok_def seed_fresh_def
      fresh_for_def pairwise_ok_def any_agree_def)

text \<open>The inserts succeed exactly when name and e-mail are free.\<close>

lemma demo_user_inserted:
  assumes "seed_fresh e tb" and "demo_username_ok username"
  shows "insert_user (demo_user e username password now) tb =
    (if (\<exists>u\<in>set (users tb). u_username u = username) \<or> \<not> demo_email_free username tb then None
     else Some (tb\<lparr>users := users tb @ [demo_user e username password now]\<rparr>))"
proof -
  have row: "(u_id u \<noteq> u_id (demo_user e username password now) \<longrightarrow>
      user_agree (demo_user e username password now) u) \<longleftrightarrow>
    u_username u \<noteq> username \<and> (case u_email u of None \<Rightarrow> True
       | Some m \<Rightarrow> sql_lower_trim m \<noteq> py_casefold username @ ''@example.test'')"
    if "u \<in> set (users tb)" for u
  proof -
    have "u_id u \<noteq> sd_user_id e" using that assms(1) by (force simp: seed_fresh_def)
    then show ?thesis
      by (auto simp: user_agree_def demo_user_def demo_email_normalized [OF assms(2)]
          split: option.splits)
  qed
  have "agrees_with u_id user_agree (demo_user e username password now) (users tb)
    \<longleftrightarrow> \<not> ((\<exists>u\<in>set (users tb). u_username u = username) \<or> \<not> demo_email_free username tb)"
    unfolding agrees_with_def demo_email_free_def using row by blast
  moreover have "u_id (demo_user e username password now) \<notin> u_id ` set (users tb)"
    using assms(1) by (auto simp: demo_user_def seed_fresh_def)
  ultimately show ?thesis by (simp add: insert_user_def)
qed

lemma demo_company_guard:
  assumes "c \<in> set (demo_companies e)"
  shows "c_owner_id c = u_id (demo_user e username password now)"
  using assms by (auto simp: demo_companies_def demo_user_def)

lemma demo_job_guard:
  assumes "j \<in> set (demo_jobs e (demo_companies e))"
  shows "job_check j \<and> j_owner_id j = u_id (demo_user e username password now) \<and>
    (\<exists>c\<in>set (demo_companies e). c_id c = j_company_id j \<and> c_owner_id c = u_id (demo_user e username password now))"
  using assms
  by (auto simp: demo_jobs_def demo_companies_def demo_user_def job_check_def upper_letter_def)

lemma demo_application_guard:
  assumes "a \<in> set (demo_applications e now (demo_jobs e cs))"
  shows "application_check a \<and> a_owner_id a = u_id (demo_user e username password now) \<and>
    (\<exists>j\<in>set (demo_jobs e cs). j_id j = a_job_id a \<and> j_owner_id j = u_id (demo_user e username password now))"
  using assms
  by (auto simp: demo_jobs_def demo_applications_def demo_user_def application_check_def Let_def)

lemma demo_history_guard:
  assumes "h \<in> set (demo_histories e now 0 (demo_transitions (demo_applications e now js)))"
  shows "history_check h \<and>
    (\<exists>a\<in>set (demo_applications e now js). a_id a = h_application_id h)"
  using assms unfolding demo_histories_unfold
  by (auto simp: demo_history_row_def demo_applications_def history_check_def Let_def)

lemma demo_interview_guard:
  assumes "i \<in> set (demo_interviews e now (demo_applications e now js))"
  shows "interview_check i \<and> i_owner_id i = u_id (demo_user e username password now) \<and>
    (\<exists>a\<in>set (demo_applications e now js). a_id a = i_application_id i \<and>
       a_owner_id a = u_id (demo_user e username password now))"
  using assms
  by (auto simp: demo_interviews_def demo_applications_def demo_user_def interview_check_def
      time_defs Let_def)

lemma demo_rows_exact:
  assumes ok: "db_ok tb" and fresh: "seed_fresh e tb" and name: "demo_username_ok username"
  shows "demo_rows e username password now tb =
    (if (\<exists>u\<in>set (users tb). u_username u = username) \<or> \<not> demo_email_free username tb then None
     else Some (with_demo e username password now tb))"
proof (cases "(\<exists>u\<in>set (users tb). u_username u = username) \<or> \<not> demo_email_free username tb")
  case True
  then show ?thesis
    by (simp add: demo_rows_def demo_user_inserted [OF fresh name] Let_def del: disj_not2)
next
  case False
  define cs where "cs = demo_companies e"
  define js where "js = demo_jobs e cs"
  define apps where "apps = demo_applications e now js"
  define hs where "hs = demo_histories e now 0 (demo_transitions apps)"
  define t1 where "t1 = tb\<lparr>users := users tb @ [demo_user e username password now]\<rparr>"
  define t2 where "t2 = t1\<lparr>companies := companies tb @ cs\<rparr>"
  define t3 where "t3 = t2\<lparr>jobs := jobs tb @ js\<rparr>"
  define t4 where "t4 = t3\<lparr>applications := applications tb @ apps\<rparr>"
  define t5 where "t5 = t4\<lparr>histories := histories tb @ hs\<rparr>"
  note ts = t1_def t2_def t3_def t4_def t5_def
  have one: "insert_user (demo_user e username password now) tb = Some t1"
    using False by (simp add: demo_user_inserted [OF fresh name] t1_def del: disj_not2)
  have two: "insert_all insert_company cs t1 = Some t2"
    using company_rows.insert_all_exact [of t1 cs] demo_companies_fit [OF ok fresh]
      demo_company_guard [of _ e username password now]
    by (simp add: ts cs_def user_exists_def)
  have three: "insert_all insert_job js t2 = Some t3"
    using job_rows.insert_all_exact [of t2 js] demo_jobs_fit [OF ok fresh]
      demo_job_guard [of _ e username password now]
    by (simp add: ts cs_def js_def user_exists_def company_exists_def bex_Un)
  have four: "insert_all insert_application apps t3 = Some t4"
    using application_rows.insert_all_exact [of t3 apps] demo_applications_fit [OF ok fresh]
      demo_application_guard [of _ e now cs username password]
    by (simp add: ts js_def apps_def user_exists_def job_exists_def bex_Un)
  have five: "insert_all insert_history hs t4 = Some t5"
    using history_rows.insert_all_exact [of t4 hs] demo_histories_fit [OF ok fresh]
      demo_history_guard [of _ e now js]
    by (simp add: ts hs_def apps_def history_parent_def bex_Un)
  have six: "insert_all insert_interview (demo_interviews e now apps) t5 =
      Some (t5\<lparr>interviews := interviews tb @ demo_interviews e now apps\<rparr>)"
    using interview_rows.insert_all_exact [of t5 "demo_interviews e now apps"]
      demo_interviews_fit [OF ok fresh] demo_interview_guard [of _ e now js username password]
    by (simp add: ts apps_def user_exists_def application_exists_def bex_Un)
  have "with_demo e username password now tb =
      t5\<lparr>interviews := interviews tb @ demo_interviews e now apps\<rparr>"
    by (simp add: with_demo_def ts hs_def apps_def js_def cs_def Let_def)
  with one two three four five six show ?thesis
    using False by (simp add: demo_rows_def Let_def hs_def flip: cs_def js_def apps_def
        del: disj_not2)
qed

text \<open>A successful run read fresh values from the sequences.\<close>

lemma demo_rows_Some:
  assumes ok: "db_ok tb" and run: "demo_rows e username password now tb = Some tb'"
  shows "seed_fresh e tb" and "tb' = with_demo e username password now tb"
proof -
  define cs where "cs = demo_companies e"
  define js where "js = demo_jobs e cs"
  define apps where "apps = demo_applications e now js"
  define hs where "hs = demo_histories e now 0 (demo_transitions apps)"
  define ints where "ints = demo_interviews e now apps"
  obtain t1 t2 t3 t4 t5 where
    t1: "insert_user (demo_user e username password now) tb = Some t1" and
    t2: "insert_all insert_company cs t1 = Some t2" and
    t3: "insert_all insert_job js t2 = Some t3" and
    t4: "insert_all insert_application apps t3 = Some t4" and
    t5: "insert_all insert_history hs t4 = Some t5" and
    t6: "insert_all insert_interview ints t5 = Some tb'"
    using run unfolding demo_rows_def Let_def
    by (auto simp: bind_eq_Some_conv cs_def js_def apps_def hs_def ints_def)
  have u: "t1 = tb\<lparr>users := users tb @ [demo_user e username password now]\<rparr>"
      "sd_user_id e \<notin> u_id ` set (users tb)"
    using t1 by (auto simp: insert_user_def demo_user_def split: if_splits)
  note keys = ok [unfolded db_ok_def keys_ok_def]
  have c: "t2 = t1\<lparr>companies := companies tb @ cs\<rparr>" "pairwise_ok c_id company_agree (companies tb @ cs)"
    using company_rows.insert_all_SomeD [OF _ t2] keys u by simp_all
  have j: "t3 = t2\<lparr>jobs := jobs tb @ js\<rparr>" "pairwise_ok j_id any_agree (jobs tb @ js)"
    using job_rows.insert_all_SomeD [OF _ t3] keys u c by simp_all
  have a: "t4 = t3\<lparr>applications := applications tb @ apps\<rparr>"
      "pairwise_ok a_id application_agree (applications tb @ apps)"
    using application_rows.insert_all_SomeD [OF _ t4] keys u c j by simp_all
  have h: "t5 = t4\<lparr>histories := histories tb @ hs\<rparr>" "pairwise_ok h_id any_agree (histories tb @ hs)"
    using history_rows.insert_all_SomeD [OF _ t5] keys u c j a by simp_all
  have i: "tb' = t5\<lparr>interviews := interviews tb @ ints\<rparr>" "pairwise_ok i_id interview_agree (interviews tb @ ints)"
    using interview_rows.insert_all_SomeD [OF _ t6] keys u c j a h by simp_all
  show "tb' = with_demo e username password now tb"
    by (simp add: i(1) h(1) a(1) j(1) c(1) u(1) with_demo_def cs_def js_def apps_def hs_def ints_def Let_def)
  have dc: "distinct (map c_id (companies tb @ cs))" and dj: "distinct (map j_id (jobs tb @ js))"
    and da: "distinct (map a_id (applications tb @ apps))"
    and dh: "distinct (map h_id (histories tb @ hs))"
    and di: "distinct (map i_id (interviews tb @ ints))"
    by (rule c(2) j(2) a(2) h(2) i(2) pairwise_ok_distinct)+
  have "fresh_for (map (sd_company_id e) [0, 1]) (map c_id (companies tb))"
    using dc by (auto simp: fresh_for_def cs_def demo_companies_def)
  moreover have "fresh_for (map (sd_job_id e) [0, 1, 2, 3]) (map j_id (jobs tb))"
    using dj by (auto simp: fresh_for_def js_def demo_jobs_def)
  moreover have "fresh_for (map (sd_application_id e) [0, 1, 2, 3]) (map a_id (applications tb))"
    using da by (auto simp: fresh_for_def apps_def demo_applications_def Let_def)
  moreover have "fresh_for (map (sd_history_id e) [0, 1, 2, 3, 4, 5, 6, 7, 8]) (map h_id (histories tb))"
    using dh by (auto simp: fresh_for_def hs_def demo_histories_unfold demo_history_row_def)
  moreover have "fresh_for (map (sd_interview_id e) [0, 1]) (map i_id (interviews tb))"
    using di by (auto simp: fresh_for_def ints_def demo_interviews_def)
  ultimately show "seed_fresh e tb" using u(2) by (simp add: seed_fresh_def)
qed

lemma insert_all_db_ok:
  assumes "\<And>r t t'. ins r t = Some t' \<Longrightarrow> db_ok t \<Longrightarrow> db_ok t'"
  shows "insert_all ins rs t = Some t' \<Longrightarrow> db_ok t \<Longrightarrow> db_ok t'"
  by (induction rs arbitrary: t) (auto simp: bind_eq_Some_conv intro: assms)

lemma insert_user_db_ok:
  assumes "insert_user u tb = Some tb'" and "db_ok tb"
  shows "db_ok tb'"
  using assms unfolding insert_user_def db_ok_def keys_ok_def checks_ok_def refs_ok_def
  by (auto simp: exists_defs split: if_splits intro!: user_table.insert_ok)

lemma demo_rows_db_ok:
  assumes ok: "db_ok tb" and run: "demo_rows e username password now tb = Some tb'"
  shows "db_ok tb'"
  using run unfolding demo_rows_def Let_def bind_eq_Some_conv
  apply (elim exE conjE)
  apply (drule insert_user_db_ok, rule ok)
  apply (drule insert_all_db_ok [rotated], assumption, erule (1) insert_company_ok)
  apply (drule insert_all_db_ok [rotated], assumption, erule (1) insert_job_ok)
  apply (drule insert_all_db_ok [rotated], assumption, erule (1) insert_application_ok)
  apply (drule insert_all_db_ok [rotated], assumption, erule (1) insert_history_ok)
  apply (drule insert_all_db_ok [rotated], assumption, erule (1) insert_interview_ok)
  apply assumption
  done

section \<open>The rows obey the rules of the services\<close>

lemma demo_fields:
  assumes "tb' = with_demo e username password now tb"
  shows "applications tb' = applications tb @ demo_applications e now (demo_jobs e (demo_companies e))"
    and "histories tb' = histories tb @ demo_histories e now 0
      (demo_transitions (demo_applications e now (demo_jobs e (demo_companies e))))"
    and "interviews tb' = interviews tb @ demo_interviews e now
      (demo_applications e now (demo_jobs e (demo_companies e)))"
    and "users tb' = users tb @ [demo_user e username password now]"
    and "refresh_tokens tb' = refresh_tokens tb" and "action_tokens tb' = action_tokens tb"
  using assms by (simp_all add: with_demo_def Let_def)

lemma new_application_ids:
  assumes "a \<in> set (demo_applications e now js)"
  shows "a_id a \<in> sd_application_id e ` {0, 1, 2, 3}"
  using assms by (auto simp: demo_applications_def Let_def)

lemma old_application_ids:
  assumes "seed_fresh e tb" and "a \<in> set (applications tb)"
  shows "a_id a \<notin> sd_application_id e ` {0, 1, 2, 3}"
proof -
  have "fresh_for (map (sd_application_id e) [0, 1, 2, 3]) (map a_id (applications tb))"
    using assms(1) by (simp add: seed_fresh_def)
  then have new: "sd_application_id e n \<noteq> a_id a" if "n \<in> {0, 1, 2, 3}" for n
    using that imageI [OF assms(2), of a_id] by (auto simp: fresh_for_def simp del: image_eqI)
  show ?thesis
  proof
    assume "a_id a \<in> sd_application_id e ` {0, 1, 2, 3}"
    then obtain n where "a_id a = sd_application_id e n" and "n \<in> {0, 1, 2, 3}" by (rule imageE)
    with new [of n] show False by simp
  qed
qed

lemma history_of_old:
  assumes "aid \<notin> sd_application_id e ` {0, 1, 2, 3}"
  shows "history_of (with_demo e username password now tb) aid = history_of tb aid"
  using assms unfolding history_of_def demo_fields(2) [OF refl] demo_histories_unfold
  by (auto simp: demo_history_row_def demo_applications_def Let_def)

lemma history_of_new:
  assumes "db_ok tb" and "seed_fresh e tb" and "n \<in> {0, 1, 2, 3}"
  shows "history_of tb (sd_application_id e n) = []"
proof -
  have "h_application_id h \<noteq> sd_application_id e n" if "h \<in> set (histories tb)" for h
  proof -
    from that obtain a where "a \<in> set (applications tb)" "a_id a = h_application_id h"
      using assms(1) by (auto simp: db_ok_def refs_ok_def history_parent_def)
    with old_application_ids [OF assms(2)] assms(3) show ?thesis by auto
  qed
  then show ?thesis by (simp add: history_of_def)
qed

lemma demo_life:
  assumes ok: "db_ok tb" and life: "life_ok tb" and fresh: "seed_fresh e tb"
  shows "life_ok (with_demo e username password now tb)"
  unfolding life_ok_def
proof
  let ?tb = "with_demo e username password now tb"
  fix a assume "a \<in> set (applications ?tb)"
  then consider "a \<in> set (applications tb)"
    | "a \<in> set (demo_applications e now (demo_jobs e (demo_companies e)))"
    by (auto simp: demo_fields(1) [OF refl])
  then show "application_life ?tb a"
  proof cases
    case 1
    then show ?thesis
      using life history_of_old [OF old_application_ids [OF fresh 1]]
      by (simp add: life_ok_def application_life_def)
  next
    case 2
    have ids: "distinct (map (sd_application_id e) [0, 1, 2, 3])"
      using fresh by (simp add: seed_fresh_def fresh_for_def)
    have "history_of ?tb aid = history_of tb aid @ filter (\<lambda>h. h_application_id h = aid)
        (demo_histories e now 0 (demo_transitions
           (demo_applications e now (demo_jobs e (demo_companies e)))))" for aid
      by (simp add: history_of_def demo_fields(2) [OF refl])
    note hist = this demo_histories_unfold
    have "a \<in> set (demo_applications e now (demo_jobs e (demo_companies e))) \<Longrightarrow>
        status_path SAVED (history_of ?tb (a_id a)) (a_status a)"
      using ids
      by (auto simp: demo_applications_def Let_def history_of_new [OF ok fresh] hist
          demo_history_row_def)
    with 2 show ?thesis
      by (simp add: application_life_def)
        (auto simp: demo_applications_def Let_def application_dates_ok_def dates_ok_def)
  qed
qed

lemma demo_interviews_life:
  assumes ok: "db_ok tb" and life: "interviews_ok tb" and fresh: "seed_fresh e tb"
  shows "interviews_ok (with_demo e username password now tb)"
  unfolding interviews_ok_def
proof
  let ?tb = "with_demo e username password now tb"
  fix i assume "i \<in> set (interviews ?tb)"
  then consider "i \<in> set (interviews tb)"
    | "i \<in> set (demo_interviews e now (demo_applications e now (demo_jobs e (demo_companies e))))"
    by (auto simp: demo_fields(3) [OF refl])
  then show "interview_life ?tb i"
  proof cases
    case 1
    then obtain b where b: "b \<in> set (applications tb)" "a_id b = i_application_id i"
      using ok by (auto simp: db_ok_def refs_ok_def application_exists_def)
    have "a_id a \<noteq> i_application_id i"
      if "a \<in> set (demo_applications e now (demo_jobs e (demo_companies e)))" for a
      using new_application_ids [OF that] old_application_ids [OF fresh b(1)] b(2) by metis
    with 1 life show ?thesis
      by (auto simp: interviews_ok_def interview_life_def demo_fields(1) [OF refl])
  next
    case 2
    have old: "a_id a \<noteq> i_application_id i" if "a \<in> set (applications tb)" for a
      using 2 old_application_ids [OF fresh that]
      by (auto simp: demo_interviews_def demo_applications_def Let_def)
    have "distinct (map (sd_application_id e) [0, 1, 2, 3])"
      using fresh by (simp add: seed_fresh_def fresh_for_def)
    then have "a_status a \<notin> {SAVED, APPLIED}"
      if "a \<in> set (demo_applications e now (demo_jobs e (demo_companies e)))"
        "a_id a = i_application_id i" for a
      using 2 that by (auto simp: demo_interviews_def demo_applications_def Let_def)
    with old have "\<forall>a\<in>set (applications ?tb). a_id a = i_application_id i \<longrightarrow>
        a_status a \<notin> {SAVED, APPLIED}"
      by (simp add: demo_fields(1) [OF refl] ball_Un)
    moreover have "i_feedback i \<noteq> None \<longrightarrow> i_status i = COMPLETED"
      using 2 by (auto simp: demo_interviews_def)
    ultimately show ?thesis by (simp add: interview_life_def)
  qed
qed

lemma demo_account:
  assumes "account_ok tb" and "db_ok (with_demo e username password now tb)"
  shows "account_ok (with_demo e username password now tb)"
  using assms
  by (simp add: account_ok_def session_ok_def action_ok_def demo_fields [OF refl] user_mfa_ok_def
      demo_user_def)

lemma seed_demo_Inr:
  assumes "seed_demo_data e username password now tb = Inr (result, tb')"
  shows "demo_rows e username password (case now of None \<Rightarrow> sd_clock e | Some t \<Rightarrow> t) tb = Some tb'"
    and "demo_username_ok username" and "demo_password_ok password"
  using assms by (auto simp: seed_demo_data_def Let_def split: if_splits option.splits)

section \<open>Properties\<close>

text \<open>
  What seeding does on every branch, given fresh values of the sequences: it fails for a user
  name or password outside the limits and for a taken name, raises the integrity error of the
  unique e-mail index when some user has the address in any letter case, and otherwise appends
  one user, two companies, four jobs, four applications with nine history rows and two
  interviews.
\<close>

theorem seed_demo_complete:
  assumes "db_ok tb" and "seed_fresh e tb"
  shows "seed_demo_data e username password now tb =
    (if \<not> demo_username_ok username
     then Inl (ValueError ''Username must contain 3-40 letters, digits, '_' or '-'.'')
     else if \<not> demo_password_ok password
     then Inl (ValueError ''Password must contain 12-72 UTF-8 bytes.'')
     else if \<exists>u\<in>set (users tb). u_username u = username
     then Inl (ValueError (''User ' '' @ username @ '' ' already exists; choose another --username.''))
     else if \<not> demo_email_free username tb then Inl IntegrityError
     else Inr (\<lparr>sr_user_id = sd_user_id e, sr_companies = 2, sr_jobs = 4, sr_applications = 4,
                sr_interviews = 2\<rparr>,
       with_demo e username password (case now of None \<Rightarrow> sd_clock e | Some t \<Rightarrow> t) tb))"
proof (cases "demo_username_ok username")
  case True
  have "find (\<lambda>u. u_username u = username) (users tb) \<noteq> None \<longleftrightarrow>
      (\<exists>u\<in>set (users tb). u_username u = username)"
    by (auto simp: find_none_iff)
  then show ?thesis
    using True
    by (simp add: seed_demo_data_def demo_rows_exact [OF assms True] demo_companies_def
        demo_jobs_def demo_applications_def demo_interviews_def Let_def del: not_None_eq)
qed (simp add: seed_demo_data_def)

text \<open>
  The script keeps every invariant of the tracker and of the accounts although it writes past
  the services; when it changes the database at all it was confirmed, outside production and on
  a local demonstration database, its result is the new user, and all it did is append the rows
  of that user.
\<close>

theorem demo_seed_safe:
  assumes "db_ok tb" and "life_ok tb" and "interviews_ok tb" and "account_ok tb"
    and "seed_main e make_url s args tb = (r, tb')"
  shows "db_ok tb' \<and> life_ok tb' \<and> interviews_ok tb' \<and> account_ok tb' \<and>
    (tb' = tb \<or>
     sa_confirm args \<and> py_casefold (ENVIRONMENT s) \<noteq> ''production'' \<and>
     is_safe_demo_database make_url (DATABASE_URL s) \<and>
     r = Inr \<lparr>sr_user_id = sd_user_id e, sr_companies = 2, sr_jobs = 4, sr_applications = 4,
              sr_interviews = 2\<rparr> \<and>
     sd_user_id e \<notin> u_id ` set (users tb) \<and>
     tb' = with_demo e (sa_username args) (sa_password args) (sd_clock e) tb)"
proof (cases "tb' = tb")
  case False
  then obtain result where guards: "sa_confirm args" "py_casefold (ENVIRONMENT s) \<noteq> ''production''"
      "is_safe_demo_database make_url (DATABASE_URL s)"
    and run: "seed_demo_data e (sa_username args) (sa_password args) None tb = Inr (result, tb')"
    and r: "r = Inr result"
    using assms(5) by (auto simp: seed_main_def split: if_splits sum.splits prod.splits)
  from run have rows: "demo_rows e (sa_username args) (sa_password args) (sd_clock e) tb = Some tb'"
    by (auto dest: seed_demo_Inr(1))
  note new = demo_rows_Some [OF assms(1) rows]
  have "result = \<lparr>sr_user_id = sd_user_id e, sr_companies = 2, sr_jobs = 4, sr_applications = 4,
      sr_interviews = 2\<rparr>"
    using run by (auto simp: seed_demo_data_def demo_companies_def demo_jobs_def
        demo_applications_def demo_interviews_def Let_def split: if_splits option.splits)
  moreover have "db_ok tb'" by (rule demo_rows_db_ok [OF assms(1) rows])
  moreover have "sd_user_id e \<notin> u_id ` set (users tb)" using new(1) by (simp add: seed_fresh_def)
  ultimately show ?thesis
    using guards r new demo_life [OF assms(1,2) new(1)] demo_interviews_life [OF assms(1,3) new(1)]
      demo_account [OF assms(4)] by simp
qed (use assms in simp)

definition sample_seed_env :: seed_env where
  "sample_seed_env = \<lparr>sd_clock = days 20000, sd_hash = (\<lambda>p. ''#'' @ p), sd_user_id = 1,
     sd_company_id = int, sd_job_id = int, sd_application_id = int, sd_history_id = int,
     sd_interview_id = int, sd_created_at = (\<lambda>_. 0), sd_updated_at = (\<lambda>_. 0), sd_commit_ok = True\<rparr>"

definition local_url :: db_url where
  "local_url = \<lparr>url_backend = ''postgresql'', url_host = Some ''localhost'',
     url_database = Some ''jobtrack''\<rparr>"

definition sample_seed :: "(seed_exit + seed_result) \<times> tables" where
  "sample_seed = seed_main sample_seed_env (\<lambda>_. local_url) (default_settings ''postgresql:///jobtrack'' ''key'')
     (seed_defaults\<lparr>sa_confirm := True\<rparr>) empty_tables"

lemma sample_seed_written: "length (applications (snd sample_seed)) = 4"
  by code_simp

theorem seed_demo_complete_witness:
  "seed_demo_data sample_seed_env ''de'' ''JobTrackDemo123!'' None empty_tables =
     Inl (ValueError ''Username must contain 3-40 letters, digits, '_' or '-'.'')"
proof -
  have "seed_fresh sample_seed_env empty_tables" by code_simp
  from seed_demo_complete [OF db_ok_empty this, of "''de''"] show ?thesis
    by (simp add: demo_username_ok_def)
qed

theorem demo_seed_safe_witness:
  "life_ok (snd sample_seed) \<and> interviews_ok (snd sample_seed) \<and>
   snd sample_seed = with_demo sample_seed_env ''jobtrack_demo'' ''JobTrackDemo123!'' (days 20000) empty_tables"
proof -
  have "life_ok empty_tables" and "interviews_ok empty_tables" and "account_ok empty_tables"
    by (simp_all add: life_ok_def interviews_ok_def account_ok_def db_ok_empty [unfolded empty_tables_def] session_ok_def
        action_ok_def empty_tables_def pairwise_ok_def)
  moreover have fields: "sd_clock sample_seed_env = days 20000"
      "sa_username (seed_defaults\<lparr>sa_confirm := True\<rparr>) = ''jobtrack_demo''"
      "sa_password (seed_defaults\<lparr>sa_confirm := True\<rparr>) = ''JobTrackDemo123!''"
    by (simp_all add: seed_defaults_def sample_seed_env_def)
  moreover have "snd sample_seed \<noteq> empty_tables"
    using sample_seed_written by (auto simp: empty_tables_def)
  ultimately show ?thesis
    using demo_seed_safe [OF db_ok_empty _ _ _ prod.collapse [symmetric],
        of sample_seed_env "\<lambda>_. local_url" "default_settings ''postgresql:///jobtrack'' ''key''"
          "seed_defaults\<lparr>sa_confirm := True\<rparr>"]
    unfolding sample_seed_def [symmetric] fields by blast
qed

end
