(* ===== verification/Wiring.thy ===== *)
theory Wiring
  imports DemoSeed
begin

text \<open>
  What a process builds around the components: the shared Redis clients of
  \<^verbatim>\<open>src/app/core/redis.py\<close>, the collectors and the exposition of
  \<^verbatim>\<open>src/app/core/metrics.py\<close> with the endpoint of \<^verbatim>\<open>src/app/api/v1/metrics.py\<close>, and the engine
  options of \<^verbatim>\<open>src/app/db/session.py\<close>. Clients are handles; whether closing one raises is a
  field of the environment.
\<close>

section \<open>Redis clients\<close>

record redis_options =
  ro_url :: string
  ro_decode_responses :: bool
  ro_socket_connect_timeout :: rat
  ro_socket_timeout :: rat
  ro_max_connections :: int
  ro_health_check_interval :: int

definition redis_options :: "settings \<Rightarrow> redis_options" where
  "redis_options s =
     \<lparr>ro_url = REDIS_URL s, ro_decode_responses = False,
      ro_socket_connect_timeout = REDIS_CONNECT_TIMEOUT_SECONDS s,
      ro_socket_timeout = REDIS_SOCKET_TIMEOUT_SECONDS s,
      ro_max_connections = REDIS_MAX_CONNECTIONS s, ro_health_check_interval = 30\<rparr>"

text \<open>The module's two globals, and the clients (with their connections) that exist.\<close>

record redis_clients =
  redis_client :: "nat option"
  sync_redis_client :: "nat option"
  next_client :: nat
  open_clients :: "nat list"

definition redis_start :: redis_clients where
  "redis_start = \<lparr>redis_client = None, sync_redis_client = None, next_client = 0, open_clients = []\<rparr>"

definition get_redis_client :: "redis_clients \<Rightarrow> nat \<times> redis_clients" where
  "get_redis_client s =
     (case redis_client s of
        Some c \<Rightarrow> (c, s)
      | None \<Rightarrow> (next_client s, s\<lparr>redis_client := Some (next_client s),
          next_client := Suc (next_client s), open_clients := next_client s # open_clients s\<rparr>))"

definition get_sync_redis_client :: "redis_clients \<Rightarrow> nat \<times> redis_clients" where
  "get_sync_redis_client s =
     (case sync_redis_client s of
        Some c \<Rightarrow> (c, s)
      | None \<Rightarrow> (next_client s, s\<lparr>sync_redis_client := Some (next_client s),
          next_client := Suc (next_client s), open_clients := next_client s # open_clients s\<rparr>))"

definition close_client :: "nat option \<Rightarrow> redis_clients \<Rightarrow> redis_clients" where
  "close_client c s =
     (case c of None \<Rightarrow> s | Some k \<Rightarrow> s\<lparr>open_clients := removeAll k (open_clients s)\<rparr>)"

text \<open>Both globals are cleared first; \<open>fails c\<close> says that closing client \<open>c\<close> raises.\<close>

definition close_redis_client :: "(nat \<Rightarrow> bool) \<Rightarrow> redis_clients \<Rightarrow> unit result \<times> redis_clients" where
  "close_redis_client fails s =
     (let client = redis_client s; sync_client = sync_redis_client s;
          s1 = s\<lparr>redis_client := None, sync_redis_client := None\<rparr> in
      if opt_ok (\<lambda>c. \<not> fails c) client
      then (let s2 = close_client client s1 in
            if opt_ok (\<lambda>c. \<not> fails c) sync_client then (Inr (), close_client sync_client s2)
            else (Inl DatabaseError, s2))
      else (Inl DatabaseError, s1))"

lemmas redis_defs = get_redis_client_def get_sync_redis_client_def close_redis_client_def
  close_client_def Let_def

inductive redis_step :: "redis_clients \<Rightarrow> redis_clients \<Rightarrow> bool" where
  get_async: "redis_step s (snd (get_redis_client s))"
| get_sync: "redis_step s (snd (get_sync_redis_client s))"
| close_ok: "redis_step s (snd (close_redis_client (\<lambda>_. False) s))"

inductive_cases redis_stepE: "redis_step s t"

text \<open>The open clients are those of the globals, which are two different ones.\<close>

definition redis_ok :: "redis_clients \<Rightarrow> bool" where
  "redis_ok s =
     (set (open_clients s) = set_option (redis_client s) \<union> set_option (sync_redis_client s) \<and>
      distinct (open_clients s) \<and> list_all (\<lambda>c. c < next_client s) (open_clients s) \<and>
      (redis_client s \<noteq> None \<longrightarrow> redis_client s \<noteq> sync_redis_client s))"

lemma closed_all:
  assumes "redis_ok s"
  shows "open_clients (snd (close_redis_client (\<lambda>_. False) s)) = []"
  using assms by (cases "redis_client s"; cases "sync_redis_client s")
    (auto simp: redis_ok_def redis_defs opt_ok_def simp flip: set_empty)

interpretation redis: invariant_system "\<lambda>s. s = redis_start" redis_step redis_ok
proof
  show "s = redis_start \<Longrightarrow> redis_ok s" for s by (simp add: redis_ok_def redis_start_def)
  fix s t assume ok: "redis_ok s" and "redis_step s t"
  from this(2) show "redis_ok t"
  proof cases
    case get_async
    then show ?thesis
      using ok by (cases "redis_client s") (auto simp: redis_ok_def redis_defs list_all_iff)
  next
    case get_sync
    then show ?thesis
      using ok by (cases "sync_redis_client s") (auto simp: redis_ok_def redis_defs list_all_iff)
  next
    case close_ok
    have "open_clients t = []" unfolding close_ok by (rule closed_all [OF ok])
    moreover have "redis_client t = None" and "sync_redis_client t = None"
      unfolding close_ok by (simp_all add: redis_defs opt_ok_def split: option.split)
    ultimately show ?thesis by (simp add: redis_ok_def)
  qed
qed

theorem redis_clients_shared:
  assumes "redis_step\<^sup>*\<^sup>* redis_start s"
  shows "length (open_clients s) \<le> 2 \<and>
    fst (get_redis_client (snd (get_redis_client s))) = fst (get_redis_client s) \<and>
    open_clients (snd (close_redis_client (\<lambda>_. False) s)) = []"
proof -
  have ok: "redis_ok s" by (rule redis.reachable_inv [OF refl assms])
  then have "distinct (open_clients s)" by (simp add: redis_ok_def)
  then have "length (open_clients s) = card (set (open_clients s))" by (rule distinct_card [symmetric])
  also have "\<dots> \<le> card (set_option (redis_client s)) + card (set_option (sync_redis_client s))"
    using ok by (simp add: redis_ok_def card_Un_le)
  also have "\<dots> \<le> 2" by (cases "redis_client s"; cases "sync_redis_client s") simp_all
  finally have "length (open_clients s) \<le> 2" .
  with closed_all [OF ok] show ?thesis by (simp add: get_redis_client_def split: option.split)
qed

theorem redis_clients_shared_witness:
  "open_clients (snd (close_redis_client (\<lambda>_. False) (snd (get_redis_client redis_start)))) = []"
  using redis_clients_shared [OF r_into_rtranclp [of redis_step, OF get_async]] by simp

text \<open>
  When closing the asynchronous client raises, the other client stays open and no global refers
  to it any more.
\<close>

theorem failed_close_leaks:
  assumes "redis_client s = Some a" and "sync_redis_client s = Some b" and "fails a"
  shows "open_clients (snd (close_redis_client fails s)) = open_clients s \<and>
    sync_redis_client (snd (close_redis_client fails s)) = None"
  using assms by (simp add: redis_defs opt_ok_def)

theorem failed_close_leaks_witness:
  "open_clients (snd (close_redis_client (\<lambda>c. c = 0)
     (snd (get_sync_redis_client (snd (get_redis_client redis_start)))))) = [1, 0]"
  using failed_close_leaks [of "snd (get_sync_redis_client (snd (get_redis_client redis_start)))" 0 1 "\<lambda>c. c = 0"]
  by (simp add: redis_defs redis_start_def)

section \<open>Metrics\<close>

datatype metric_kind = Counter | Gauge | Histogram "rat list"

record metric =
  mt_name :: string
  mt_kind :: metric_kind
  mt_labels :: "string list"

definition metrics :: "metric list" where
  "metrics =
    [\<lparr>mt_name = ''jobtrack_api_http_requests_total'', mt_kind = Counter,
      mt_labels = [''method'', ''route'', ''status_code'']\<rparr>,
     \<lparr>mt_name = ''jobtrack_api_http_request_duration_seconds'',
      mt_kind = Histogram [0.005, 0.01, 0.025, 0.05, 0.1, 0.25, 0.5, 1, 2.5, 5, 10],
      mt_labels = [''method'', ''route'']\<rparr>,
     \<lparr>mt_name = ''jobtrack_api_http_requests_in_progress'', mt_kind = Gauge,
      mt_labels = [''method'']\<rparr>,
     \<lparr>mt_name = ''jobtrack_api_rate_limit_decisions_total'', mt_kind = Counter,
      mt_labels = [''backend'', ''outcome'']\<rparr>,
     \<lparr>mt_name = ''jobtrack_api_rate_limit_backend_errors_total'', mt_kind = Counter,
      mt_labels = [''backend'', ''operation'']\<rparr>,
     \<lparr>mt_name = ''jobtrack_api_outbox_messages_total'', mt_kind = Counter,
      mt_labels = [''message_type'', ''outcome'']\<rparr>,
     \<lparr>mt_name = ''jobtrack_api_outbox_failures_total'', mt_kind = Counter,
      mt_labels = [''category'']\<rparr>,
     \<lparr>mt_name = ''jobtrack_api_outbox_delivery_duration_seconds'',
      mt_kind = Histogram [0.01, 0.05, 0.1, 0.25, 0.5, 1, 2.5, 5, 10, 30],
      mt_labels = [''message_type'']\<rparr>,
     \<lparr>mt_name = ''jobtrack_api_oidc_cache_operations_total'', mt_kind = Counter,
      mt_labels = [''document'', ''outcome'']\<rparr>,
     \<lparr>mt_name = ''jobtrack_api_oidc_provider_fetches_total'', mt_kind = Counter,
      mt_labels = [''document'', ''outcome'']\<rparr>,
     \<lparr>mt_name = ''jobtrack_api_oidc_provider_fetch_duration_seconds'',
      mt_kind = Histogram [0.01, 0.025, 0.05, 0.1, 0.25, 0.5, 1, 2.5, 5, 10],
      mt_labels = [''document'']\<rparr>,
     \<lparr>mt_name = ''jobtrack_api_dashboard_cache_operations_total'', mt_kind = Counter,
      mt_labels = [''outcome'']\<rparr>,
     \<lparr>mt_name = ''jobtrack_api_business_operations_total'', mt_kind = Counter,
      mt_labels = [''resource'', ''operation'', ''outcome'']\<rparr>]"

definition metric_ok :: "metric \<Rightarrow> bool" where
  "metric_ok m =
     (distinct (mt_labels m) \<and>
      (case mt_kind m of Histogram bs \<Rightarrow> sorted_wrt (<) bs | _ \<Rightarrow> True))"

text \<open>No two collectors clash in the registry, and the buckets of every histogram increase.\<close>

theorem metrics_registered: "distinct (map mt_name metrics) \<and> list_all metric_ok metrics"
  by code_simp

text \<open>
  \<open>render_metrics\<close>: with a directory for several processes a fresh registry collects the files
  of all workers, otherwise the registry of this process is rendered.
\<close>

definition render_metrics ::
    "string option \<Rightarrow> (string \<Rightarrow> 'registry) \<Rightarrow> 'registry \<Rightarrow> ('registry \<Rightarrow> string) \<Rightarrow> string \<Rightarrow>
     string \<times> string" where
  "render_metrics multiproc_dir collector registry generate_latest content_type =
     (generate_latest (case multiproc_dir of
         Some d \<Rightarrow> if d \<noteq> [] then collector d else registry
       | None \<Rightarrow> registry), content_type)"

definition metrics_endpoint :: "string \<times> string \<Rightarrow> string \<times> (string \<times> string) list" where
  "metrics_endpoint rendered =
     (fst rendered, [(''Cache-Control'', ''no-store''), (''Content-Type'', snd rendered)])"

text \<open>The observations of business writes use a fixed set of label values.\<close>

definition observation_ok :: "string \<times> string \<times> string \<Rightarrow> bool" where
  "observation_ok ob =
     (fst ob \<in> set [''company'', ''job'', ''application'', ''interview''] \<and>
      fst (snd ob) \<in> set [''create'', ''update'', ''delete'', ''status_change''] \<and>
      snd (snd ob) \<in> set [''success'', ''conflict'', ''error''])"

lemma outcome_bounded: "outcome_of r \<in> set [''success'', ''conflict'', ''error'']"
  by (cases r rule: outcome_of.cases) auto

definition recorded :: "(string \<times> string \<times> string) list \<Rightarrow> world \<Rightarrow> bool" where
  "recorded obs w = (biz_ops w = obs \<or> (\<exists>ob. biz_ops w = obs @ [ob] \<and> observation_ok ob))"

lemma biz_ops_commit [simp]: "biz_ops (snd (commit_write env owner rf oi upd res w)) = biz_ops w"
  by (simp add: commit_write_def cache_defs split: option.split)

lemma recorded_observed:
  assumes "biz_ops (snd rw) = obs"
    and "resource \<in> set [''company'', ''job'', ''application'', ''interview'']"
    and "operation \<in> set [''create'', ''update'', ''delete'', ''status_change'']"
  shows "recorded obs (snd (observe_business_write resource operation rw))"
  using assms outcome_bounded [of "fst rw"]
  by (simp add: recorded_def observe_business_write_def observation_ok_def)

lemma recorded_replying: "recorded obs (snd rw) \<Longrightarrow> recorded obs (snd (replying f rw))"
  by (simp add: replying_def)

lemma recorded_validated:
  "(\<And>d. recorded (biz_ops w) (snd (run d w))) \<Longrightarrow> recorded (biz_ops w) (snd (validated body run w))"
  by (cases body) (simp_all add: validated_def recorded_def)

lemma services_recorded:
  "recorded (biz_ops w) (snd (company_create owner d1 env w))"
  "recorded (biz_ops w) (snd (company_update owner k d2 env w))"
  "recorded (biz_ops w) (snd (company_delete owner k env w))"
  "recorded (biz_ops w) (snd (job_create owner d3 env w))"
  "recorded (biz_ops w) (snd (job_update owner k d4 env w))"
  "recorded (biz_ops w) (snd (job_delete owner k env w))"
  "recorded (biz_ops w) (snd (application_create owner d5 env w))"
  "recorded (biz_ops w) (snd (application_update owner k d6 env w))"
  "recorded (biz_ops w) (snd (change_status owner k t env w))"
  "recorded (biz_ops w) (snd (application_delete owner k env w))"
  "recorded (biz_ops w) (snd (interview_create owner d7 env w))"
  "recorded (biz_ops w) (snd (interview_update owner k d8 env w))"
  "recorded (biz_ops w) (snd (interview_delete owner k env w))"
  by (simp_all add: company_runs job_runs application_create_def application_create_run_def
      application_update_def application_update_run_def change_status_def change_status_run_def
      application_delete_def application_delete_run_def interview_create_def
      interview_create_run_def interview_update_def interview_update_run_def interview_delete_def
      interview_delete_run_def recorded_observed Let_def split: option.split sum.split)

theorem observations_bounded:
  "recorded (biz_ops w) (snd (run_business x owner q env w))"
  by (cases q rule: is_write.cases)
    (simp_all add: services_recorded recorded_replying recorded_validated, simp_all add: recorded_def)

section \<open>The database engine\<close>

record engine_options =
  en_connect_args :: "(string \<times> string) list"
  en_pool_pre_ping :: bool
  en_pool_size :: int
  en_max_overflow :: int
  en_pool_timeout :: int
  en_pool_recycle :: int

definition engine_options :: "db_url \<Rightarrow> engine_options" where
  "engine_options url =
     \<lparr>en_connect_args = (if url_backend url = ''postgresql'' then [(''options'', ''-c timezone=UTC'')] else []),
      en_pool_pre_ping = True, en_pool_size = 5, en_max_overflow = 10, en_pool_timeout = 30,
      en_pool_recycle = 1800\<rparr>"

text \<open>
  A demonstration database is one whose sessions run in UTC, which is how stored naive times
  are read.
\<close>

theorem demo_sessions_utc:
  assumes "is_safe_demo_database make_url url"
  shows "en_connect_args (engine_options (make_url url)) = [(''options'', ''-c timezone=UTC'')]"
  using assms by (simp add: is_safe_demo_database_def engine_options_def Let_def)

theorem demo_sessions_utc_witness:
  "en_connect_args (engine_options local_url) = [(''options'', ''-c timezone=UTC'')]"
  using demo_sessions_utc [of "\<lambda>_. local_url" "''u''"]
  by (simp add: is_safe_demo_database_def local_url_def SAFE_DATABASE_HOSTS_def
      SAFE_DATABASE_NAMES_def py_or_empty_def py_casefold_def to_lower_def)

end
