(* ===== verification/Spec2Isabelle.thy ===== *)
theory Spec2Isabelle
  imports Business AccountSecurity RateLimit Dashboard Worker OidcSecurity Http Tracing
    MigrationSafety Storage Responses Wiring DevScripts
begin

text \<open>
  JobTrack API: a verification development of the FastAPI service under \<^verbatim>\<open>src/app\<close>, of its
  database migrations under \<^verbatim>\<open>alembic\<close> and of its scripts under \<^verbatim>\<open>scripts\<close>.

  \<^bold>\<open>The program.\<close> Users keep companies, jobs at companies, applications for jobs and interviews
  of applications. A request passes the HTTP shell (\<^verbatim>\<open>main.py\<close>: request identifier and logging,
  the rate limiter of an address, CORS, security headers, exception handlers), is authenticated by
  an access token (\<^verbatim>\<open>auth\<close>), for a write passes a second limiter, and reaches a service
  (\<^verbatim>\<open>services\<close>) that reads and writes PostgreSQL through a repository (\<^verbatim>\<open>repositories\<close>) and
  invalidates the Dashboard cache in Redis. Accounts sign in by password, by an optional second
  factor, or through an OpenID provider; sessions are families of rotating refresh tokens. Mails
  are sent directly or through an outbox table that a worker process empties under leases.

  \<^bold>\<open>Theories and sources.\<close>
  \<^item> \<open>Prelude\<close>: time, text, errors and partial updates as Python and SQL have them, list operations
    that stand for statements, and two interfaces: \<open>keyed_table\<close> (a table with a pairwise
    constraint) and \<open>invariant_system\<close> (a transition system with an invariant).
  \<^item> \<open>Models\<close> (\<^verbatim>\<open>models\<close>): one record per table, the constraints, and every statement as a function
    to an option, \<open>None\<close> being PostgreSQL's integrity error. \<open>Schemas\<close> (\<^verbatim>\<open>schemas\<close>): request bodies
    and their validators.
  \<^item> \<open>Writes\<close> (\<^verbatim>\<open>services/dashboard_cache.py\<close>, \<^verbatim>\<open>core/business_observability.py\<close>): the transaction
    block all services share, the cache, and the interfaces \<open>owner_request\<close> and \<open>owner_write\<close> that
    every service operation is an interpretation of. \<open>Companies\<close>, \<open>Jobs\<close>, \<open>Applications\<close>,
    \<open>Interviews\<close>: repository and service of each resource. \<open>Business\<close>: their endpoints, composed to
    one \<open>run_business\<close> and a step relation. \<open>Responses\<close>: the bodies of the replies. \<open>Dashboard\<close>
    (\<^verbatim>\<open>repositories/dashboard_repository.py\<close>, \<^verbatim>\<open>services/dashboard_service.py\<close>): the aggregate and
    the cache in front of it.
  \<^item> \<open>Sessions\<close> (\<^verbatim>\<open>auth/refresh.py\<close>, \<^verbatim>\<open>services/sessions.py\<close>), \<open>AccountState\<close> (the account tables and
    the contract of an account operation), \<open>ActionTokens\<close> (e-mail verification, password reset),
    \<open>Mfa\<close> (\<^verbatim>\<open>services/mfa.py\<close>), \<open>Accounts\<close> (login, registration, administration and the routes),
    \<open>AccountSecurity\<close> (what they promise about second factors, disabled users and step-up).
  \<^item> \<open>Outbox\<close> and \<open>Worker\<close> (\<^verbatim>\<open>services/outbox.py\<close>, \<^verbatim>\<open>services/outbox_worker.py\<close>,
    \<^verbatim>\<open>workers/outbox.py\<close>), \<open>Delivery\<close> (\<^verbatim>\<open>services/email_delivery.py\<close>).
  \<^item> \<open>OidcProvider\<close> (\<^verbatim>\<open>services/oidc_provider.py\<close>, \<^verbatim>\<open>services/oidc_cache.py\<close>), \<open>Oidc\<close> and
    \<open>OidcSecurity\<close> (\<^verbatim>\<open>services/oidc.py\<close>, \<^verbatim>\<open>api/v1/oidc.py\<close>).
  \<^item> \<open>RateLimit\<close> (\<^verbatim>\<open>middlewares/rate_limit.py\<close>, \<^verbatim>\<open>dependencies/business_rate_limit.py\<close>,
    \<^verbatim>\<open>core/client_ip.py\<close>), \<open>Config\<close> (\<^verbatim>\<open>core/config.py\<close>), \<open>Http\<close> (\<^verbatim>\<open>main.py\<close>, middlewares, handlers,
    health, log payload), \<open>Tracing\<close> (\<^verbatim>\<open>core/tracing.py\<close>), \<open>Wiring\<close> (\<^verbatim>\<open>core/redis.py\<close>,
    \<^verbatim>\<open>core/metrics.py\<close>, \<^verbatim>\<open>db/session.py\<close>).
  \<^item> \<open>Catalog\<close> (PostgreSQL's tables, rows and DDL statements), \<open>Migrations\<close> (all revisions of
    \<^verbatim>\<open>alembic/versions\<close> and the tables of the ORM classes), \<open>MigrationSafety\<close>, \<open>Storage\<close> (the rows of
    \<open>Models\<close> as rows of the catalog).
  \<^item> \<open>DemoSeed\<close> (\<^verbatim>\<open>scripts/seed_demo.py\<close>) and \<open>DevScripts\<close> (\<^verbatim>\<open>scripts/dev.py\<close>).
\<close>

text \<open>
  \<^bold>\<open>Conventions.\<close> A state is a record passed and returned (\<open>tables\<close>, \<open>world\<close>, \<open>oidc_state\<close>, the
  store of Redis, the globals of a module); a handler is one function with the guards, early
  returns and raises of the code as its branches, errors being values of a sum. What the code gets
  from outside is a field of an environment record: clock readings, sequence values, random values,
  results of flush, commit and Redis calls. Code that is not under \<^verbatim>\<open>src\<close> (bcrypt, PyJWT, Fernet,
  SHA-256 and HMAC, the URL and e-mail parsers, LIKE and the collation of the database, the HTTP
  client, OpenTelemetry) is a parameter; what a theorem needs of it, as that a hash separates
  the values it was given, is a hypothesis in its statement. Times are integers
  in microseconds, dates integers in days, stored naive times are read as UTC, floats are
  rationals, strings lists of characters with ASCII case mapping. A request runs as one step: the row locks of the code
  and its compare-and-set updates are in the steps, and interleavings are sequences of steps.

  \<^bold>\<open>What is shown.\<close>
  \<^item> The tracker: every run of requests keeps the constraints, the status machine with its history,
    the date rules and the interview rules; a request changes no row of another user, is atomic,
    and invalidates the cache; a read depends on the user's own rows alone; every reply is a valid
    body; the Dashboard is exactly the aggregate of the user's rows and stays coherent.
  \<^item> Accounts: the invariant of all account tables over every run; refresh tokens, mail links, MFA
    challenges and OIDC transactions work once; reuse revokes the family; a password reset ends
    every session; replies to reset requests do not tell accounts apart; a TOTP counter is never
    accepted twice; no session of a user with MFA without a second factor; a disabled user is
    locked out; nobody gets into an account by an identity its owner did not link; everybody keeps
    a way to sign in.
  \<^item> Delivery: the life of an outbox message, fencing of a lost lease, termination of every message,
    and that a mail or a password is sent only after STARTTLS and a link decodes to its token.
  \<^item> Limits: both limiters refine one fixed-window specification, the budget per window, and that
    \<open>Retry-After\<close> is enough. Configuration: what accepted settings guarantee in production.
  \<^item> The shell: each request is identified, counted and logged once, and which reply it gets.
  \<^item> Migrations: all upgrades build exactly the tables of the ORM classes, keep the data, and twelve
    downgrades undo their upgrades; the CHECK, unique and exclusion constraints of the tables are
    those of \<open>Models\<close>.
  \<^item> Scripts: the demonstration data obey every rule of the services and are written only where the
    guards allow; the development commands keep an existing \<^verbatim>\<open>.env\<close>, and the tests run on the test
    database.

  \<^bold>\<open>Bounds and fuel.\<close> Retries and waiting loops that the code bounds carry its bound: the lock wait
  of the key-set cache is at most 10 seconds in steps of 50 milliseconds, so 201 polls. The
  search for a free user name of a new OIDC account has fuel for two more attempts than there are
  users, and each attempt tries another name, so one is free. The chain of revisions is followed
  with as many steps as there are revisions. The polling loop of the worker is a sequence of
  steps; its theorem counts the attempts a message has left.
\<close>

text \<open>
  \<^bold>\<open>Not modelled.\<close> The text of log lines and the timing values put into histograms; Pydantic's
  reading of environment variables; Starlette's routing and the CORS library (its headers are a
  parameter of \<open>Http\<close>); the connection set-up and the offline mode of \<^verbatim>\<open>alembic/env.py\<close>, which only
  prints SQL; \<^verbatim>\<open>benchmarks/db.py\<close>, which times query plans on a real database, the load tests, the
  export of the OpenAPI document and the constants of \<^verbatim>\<open>gunicorn.conf.py\<close>; the parsing of command
  lines by argparse and console output; the TypeScript client under \<^verbatim>\<open>frontend\<close>. The behaviour of
  PostgreSQL's statements in \<open>Models\<close> and \<open>Catalog\<close> is the documented one on the types the program
  uses; transactions are serial except where the code takes locks or leases, which is modelled.
\<close>

end
